(* ===== verification/Prelude.thy ===== *)
theory Prelude
  imports Main "HOL-Library.Word" "HOL-Library.Multiset"
begin

text \<open>
  Shared vocabulary of the development: the machine integers of the Rust code, big- and
  little-endian byte conversions, the model of the standard library's stable
  \<open>slice::sort_by\<close> over three-way comparators, \<open>Vec::dedup\<close>, and the generic reachability
  interface for the components that are state machines.
\<close>

unbundle bit_operations_syntax

type_synonym u8 = "8 word"
type_synonym u16 = "16 word"
type_synonym u32 = "32 word"
type_synonym u64 = "64 word"
type_synonym bytes = "8 word list"

named_theorems wire_simps \<open>byte order and length facts of encoded messages\<close>
named_theorems check_simps \<open>unfolding rules of the check builder and of the check index\<close>

section \<open>Byte order\<close>

definition be16 :: "u16 \<Rightarrow> bytes" where
  "be16 w = [ucast (drop_bit 8 w), ucast w]"

definition be32 :: "u32 \<Rightarrow> bytes" where
  "be32 w = [ucast (drop_bit 24 w), ucast (drop_bit 16 w), ucast (drop_bit 8 w), ucast w]"

definition le16 :: "u16 \<Rightarrow> bytes" where
  "le16 w = [ucast w, ucast (drop_bit 8 w)]"

definition le32 :: "u32 \<Rightarrow> bytes" where
  "le32 w = [ucast w, ucast (drop_bit 8 w), ucast (drop_bit 16 w), ucast (drop_bit 24 w)]"

definition from_be16 :: "u8 \<Rightarrow> u8 \<Rightarrow> u16" where
  "from_be16 a b = push_bit 8 (ucast a) OR ucast b"

definition from_be32 :: "u8 \<Rightarrow> u8 \<Rightarrow> u8 \<Rightarrow> u8 \<Rightarrow> u32" where
  "from_be32 a b c d =
     push_bit 24 (ucast a) OR push_bit 16 (ucast b) OR push_bit 8 (ucast c) OR ucast d"

definition from_le32 :: "u8 \<Rightarrow> u8 \<Rightarrow> u8 \<Rightarrow> u8 \<Rightarrow> u32" where
  "from_le32 a b c d = from_be32 d c b a"

lemma length_byte_order [simp, wire_simps]:
  "length (be16 v) = 2" "length (be32 w) = 4" "length (le16 v) = 2" "length (le32 w) = 4"
  by (simp_all add: be16_def be32_def le16_def le32_def)

lemma from_be16_be16 [simp, wire_simps]:
  "from_be16 (ucast (drop_bit 8 w)) (ucast w) = (w :: u16)"
  by (rule bit_word_eqI) (auto simp: from_be16_def bit_simps not_less)

lemma from_be32_be32 [simp, wire_simps]:
  "from_be32 (ucast (drop_bit 24 w)) (ucast (drop_bit 16 w)) (ucast (drop_bit 8 w)) (ucast w) = (w :: u32)"
proof (rule bit_word_eqI)
  fix n assume n: "n < LENGTH(32)"
  consider "24 \<le> n" | "16 \<le> n" "n < 24" | "8 \<le> n" "n < 16" | "n < 8" by linarith
  then show "bit (from_be32 (ucast (drop_bit 24 w)) (ucast (drop_bit 16 w))
      (ucast (drop_bit 8 w)) (ucast w)) n = bit w n"
    using n by cases (auto simp: from_be32_def bit_simps not_less)
qed

lemma be16_nth [simp, wire_simps]:
  "be16 w ! 0 = ucast (drop_bit 8 w)" "be16 w ! Suc 0 = ucast w"
  by (simp_all add: be16_def)

lemma unat_u8_less: "unat (a :: u8) < 256"
proof -
  have "unat a < 2 ^ LENGTH(8)" by (rule unsigned_less)
  then show ?thesis by simp
qed

lemma unat_from_be16: "unat (from_be16 a b) = unat a * 256 + unat b"
proof -
  have "from_be16 a b = push_bit 8 (ucast a) + ucast b"
    unfolding from_be16_def
    by (rule disjunctive_add [symmetric]) (auto simp: bit_simps dest: bit_imp_le_length)
  also have "unat \<dots> = unat a * 256 + unat b"
    using unat_u8_less [of a] unat_u8_less [of b]
    by (simp add: unat_word_ariths push_bit_eq_mult unsigned_ucast_eq take_bit_eq_mod)
  finally show ?thesis .
qed

lemma ucast_of_nat_u8: "unat (ucast (of_nat n :: u16) :: u8) = n mod 256"
proof -
  have "unat (ucast (of_nat n :: u16) :: u8) = take_bit 8 (take_bit 16 n)"
    by (simp add: unsigned_ucast_eq unsigned_of_nat)
  also have "\<dots> = n mod 256" by (simp only: take_bit_take_bit) (simp add: take_bit_eq_mod)
  finally show ?thesis .
qed

lemma high_bit: "(of_nat n :: u8) AND 0x80 = 0 \<longleftrightarrow> even (n div 128)"
proof -
  have "(of_nat n :: u8) AND 2 ^ 7 = 0 \<longleftrightarrow> \<not> bit n 7"
    unfolding and_exp_eq_0_iff_not_bit by (simp add: bit_of_nat_iff)
  then show ?thesis by (simp add: bit_iff_odd)
qed

section \<open>Checked indexing\<close>

text \<open>
  Indexing and slicing of a byte buffer. In Rust an index out of range panics: that is \<open>None\<close>
  here, so that a function that never returns \<open>None\<close> never panics.
\<close>

definition get :: "bytes \<Rightarrow> nat \<Rightarrow> u8 option" where
  "get buf i = (if i < length buf then Some (buf ! i) else None)"

definition slice :: "bytes \<Rightarrow> nat \<Rightarrow> nat \<Rightarrow> bytes option" where
  "slice buf a b = (if a \<le> b \<and> b \<le> length buf then Some (take (b - a) (drop a buf)) else None)"

definition get_u16 :: "bytes \<Rightarrow> nat \<Rightarrow> u16 option" where
  "get_u16 buf i =
     (case (get buf i, get buf (i + 1)) of (Some a, Some b) \<Rightarrow> Some (from_be16 a b) | _ \<Rightarrow> None)"

lemma get_in [simp]: "i < length buf \<Longrightarrow> get buf i = Some (buf ! i)"
  by (simp add: get_def)

lemma get_u16_in [simp]: "i + 1 < length buf \<Longrightarrow> get_u16 buf i = Some (from_be16 (buf ! i) (buf ! (i + 1)))"
  by (simp add: get_u16_def)

lemma slice_in [simp]:
  "a \<le> b \<Longrightarrow> b \<le> length buf \<Longrightarrow> slice buf a b = Some (take (b - a) (drop a buf))"
  by (simp add: slice_def)

lemma nth_append_plus: "(xs @ ys) ! (length xs + k) = ys ! k"
  by (simp add: nth_append)

section \<open>Three-way comparison and the stable sort of the standard library\<close>

datatype ordering = Less | Equal | Greater

definition cmp_of :: "'a::linorder \<Rightarrow> 'a \<Rightarrow> ordering" where
  "cmp_of x y = (if x < y then Less else if x = y then Equal else Greater)"

fun then_cmp :: "ordering \<Rightarrow> ordering \<Rightarrow> ordering" where
  "then_cmp Equal o2 = o2"
| "then_cmp o1 _ = o1"

fun insert_by :: "('a \<Rightarrow> 'a \<Rightarrow> ordering) \<Rightarrow> 'a \<Rightarrow> 'a list \<Rightarrow> 'a list" where
  "insert_by cmp x [] = [x]"
| "insert_by cmp x (y # ys) = (if cmp x y = Greater then y # insert_by cmp x ys else x # y # ys)"

definition sort_by :: "('a \<Rightarrow> 'a \<Rightarrow> ordering) \<Rightarrow> 'a list \<Rightarrow> 'a list" where
  "sort_by cmp xs = foldr (insert_by cmp) xs []"

lemma sort_by_simps [simp]:
  "sort_by cmp [] = []" "sort_by cmp (x # xs) = insert_by cmp x (sort_by cmp xs)"
  by (simp_all add: sort_by_def)

lemma mset_insert_by [simp]: "mset (insert_by cmp x xs) = add_mset x (mset xs)"
  by (induction xs) auto

lemma mset_sort_by [simp]: "mset (sort_by cmp xs) = mset xs"
  by (induction xs) auto

lemma set_insert_by [simp]: "set (insert_by cmp x xs) = insert x (set xs)"
  by (induction xs) auto

lemma set_sort_by [simp]: "set (sort_by cmp xs) = set xs"
  by (induction xs) auto

lemma length_sort_by [simp]: "length (sort_by cmp xs) = length xs"
  by (metis mset_sort_by size_mset)

lemma sort_by_Nil_iff [simp]: "sort_by cmp xs = [] \<longleftrightarrow> xs = []"
  by (metis length_0_conv length_sort_by)

text \<open>
  The contract every comparator handed to \<open>sort_by\<close> has to keep: the comparator is a total
  preorder. Under it the result is sorted and equal elements keep their order.
\<close>

locale rust_ord =
  fixes cmp :: "'a \<Rightarrow> 'a \<Rightarrow> ordering"
  assumes cmp_flip: "cmp x y = Greater \<longleftrightarrow> cmp y x = Less"
    and cmp_trans: "cmp x y \<noteq> Greater \<Longrightarrow> cmp y z \<noteq> Greater \<Longrightarrow> cmp x z \<noteq> Greater"
begin

lemma cmp_refl: "cmp x x \<noteq> Greater"
  using cmp_flip [of x x] by auto

lemma insert_by_sorted:
  "sorted_wrt (\<lambda>a b. cmp a b \<noteq> Greater) xs \<Longrightarrow>
   sorted_wrt (\<lambda>a b. cmp a b \<noteq> Greater) (insert_by cmp x xs)"
proof (induction xs)
  case Nil
  then show ?case by simp
next
  case (Cons y ys)
  show ?case
  proof (cases "cmp x y = Greater")
    case True
    then have "cmp y x = Less" using cmp_flip by blast
    with True Cons show ?thesis by auto
  next
    case False
    with Cons.prems show ?thesis by (auto dest: cmp_trans)
  qed
qed

lemma sort_by_sorted: "sorted_wrt (\<lambda>a b. cmp a b \<noteq> Greater) (sort_by cmp xs)"
  by (induction xs) (auto intro: insert_by_sorted)

lemma insert_by_stable:
  "filter (\<lambda>y. cmp z y = Equal) (insert_by cmp x xs) = filter (\<lambda>y. cmp z y = Equal) (x # xs)"
proof (induction xs)
  case Nil
  then show ?case by simp
next
  case (Cons y ys)
  show ?case
  proof (cases "cmp x y = Greater \<and> cmp z x = Equal")
    case True
    have "cmp z y \<noteq> Equal"
    proof
      assume zy: "cmp z y = Equal"
      have "cmp x z \<noteq> Greater" using True cmp_flip [of x z] by auto
      moreover have "cmp z y \<noteq> Greater" using zy by simp
      ultimately show False using True cmp_trans by blast
    qed
    with True Cons show ?thesis by auto
  next
    case False
    with Cons show ?thesis by auto
  qed
qed

lemma sort_by_stable:
  "filter (\<lambda>y. cmp z y = Equal) (sort_by cmp xs) = filter (\<lambda>y. cmp z y = Equal) xs"
  by (induction xs) (auto simp: insert_by_stable)

end

lemma rust_ord_key: "rust_ord (\<lambda>x y. cmp_of (k x) (k y))"
  by unfold_locales (auto simp: cmp_of_def split: if_splits)

lemma rust_ord_key_desc: "rust_ord (\<lambda>x y. cmp_of (k y) (k x))"
  by unfold_locales (auto simp: cmp_of_def split: if_splits)

lemma then_cmp_Greater:
  "then_cmp a b = Greater \<longleftrightarrow> a = Greater \<or> (a = Equal \<and> b = Greater)"
  "then_cmp a b = Less \<longleftrightarrow> a = Less \<or> (a = Equal \<and> b = Less)"
  by (cases a; simp)+

lemma rust_ord_then:
  assumes "rust_ord f" and "rust_ord g"
  shows "rust_ord (\<lambda>x y. then_cmp (f x y) (g x y))"
proof
  fix x y
  show "then_cmp (f x y) (g x y) = Greater \<longleftrightarrow> then_cmp (f y x) (g y x) = Less"
    using rust_ord.cmp_flip [OF assms(1), of x y] rust_ord.cmp_flip [OF assms(1), of y x]
      rust_ord.cmp_flip [OF assms(2), of x y]
    by (cases "f x y"; cases "f y x") auto
next
  fix x y z
  assume xy: "then_cmp (f x y) (g x y) \<noteq> Greater" and yz: "then_cmp (f y z) (g y z) \<noteq> Greater"
  from xy yz have fxy: "f x y \<noteq> Greater" and fyz: "f y z \<noteq> Greater"
    by (auto simp: then_cmp_Greater)
  then have fxz: "f x z \<noteq> Greater" by (rule rust_ord.cmp_trans [OF assms(1)])
  show "then_cmp (f x z) (g x z) \<noteq> Greater"
  proof (cases "f x z = Equal")
    case True
    then have "f z x \<noteq> Greater" using rust_ord.cmp_flip [OF assms(1), of z x] by simp
    with fxy fyz have "f z y \<noteq> Greater" "f y x \<noteq> Greater"
      using rust_ord.cmp_trans [OF assms(1)] by blast+
    with fxy fyz have "f x y = Equal" "f y z = Equal"
      using rust_ord.cmp_flip [OF assms(1)] by (metis ordering.exhaust)+
    with xy yz True show ?thesis
      using rust_ord.cmp_trans [OF assms(2), of x y z] by simp
  next
    case False
    with fxz show ?thesis by (cases "f x z") auto
  qed
qed

section \<open>Removing consecutive duplicates\<close>

fun dedup :: "'a list \<Rightarrow> 'a list" where
  "dedup [] = []"
| "dedup [x] = [x]"
| "dedup (x # y # ys) = (if x = y then dedup (y # ys) else x # dedup (y # ys))"

lemma set_dedup [simp]: "set (dedup xs) = set xs"
  by (induction xs rule: dedup.induct) auto

lemma hd_dedup [simp]: "hd (dedup xs) = hd xs"
  by (induction xs rule: dedup.induct) auto

lemma dedup_Nil_iff [simp]: "dedup xs = [] \<longleftrightarrow> xs = []"
  by (induction xs rule: dedup.induct) auto

lemma dedup_strict_sorted:
  "sorted_wrt (\<le>) (xs :: 'a::linorder list) \<Longrightarrow> sorted_wrt (<) (dedup xs)"
  by (induction xs rule: dedup.induct) (auto simp: less_le)

lemma dedup_strict_sorted_desc:
  "sorted_wrt (\<ge>) (xs :: 'a::linorder list) \<Longrightarrow> sorted_wrt (>) (dedup xs)"
  by (induction xs rule: dedup.induct) (auto simp: less_le)

section \<open>Reachable states\<close>

text \<open>
  A component with state is an initial state and a step relation. The states it can be in are
  the least set closed under steps; the interface below turns a one-step invariant into a fact
  about every reachable state.
\<close>

inductive reach :: "('s \<Rightarrow> 's \<Rightarrow> bool) \<Rightarrow> 's \<Rightarrow> 's \<Rightarrow> bool" for step :: "'s \<Rightarrow> 's \<Rightarrow> bool" and s0 :: 's where
  reach_init: "reach step s0 s0"
| reach_step: "reach step s0 s \<Longrightarrow> step s t \<Longrightarrow> reach step s0 t"

locale invariant_machine =
  fixes init :: 's and step :: "'s \<Rightarrow> 's \<Rightarrow> bool" and inv :: "'s \<Rightarrow> bool"
  assumes inv_init: "inv init"
    and inv_step: "inv s \<Longrightarrow> step s t \<Longrightarrow> inv t"
begin

lemma reach_inv: "reach step init s \<Longrightarrow> inv s"
  by (induction rule: reach.induct) (auto intro: inv_init inv_step)

end

end
