(* ===== verification/Rust_Text.thy ===== *)
theory Rust_Text
  imports Prelude
begin

text \<open>
  The string functions of the Rust standard library that the daemon calls, on byte strings:
  decimal and hexadecimal formatting, integer parsing, \<open>split\<close>, \<open>split_once\<close>,
  \<open>split_whitespace\<close>, \<open>trim\<close>, \<open>lines\<close>, \<open>join\<close>, \<open>strip_prefix\<close> and \<open>contains\<close>.
\<close>

section \<open>Formatting integers\<close>

definition digit_char :: "nat \<Rightarrow> char" where
  "digit_char d = char_of (if d < 10 then 48 + d else 87 + d)"

fun radix :: "nat \<Rightarrow> nat \<Rightarrow> string" where
  "radix b n =
     (if n < b \<or> b < 2 then [digit_char n] else radix b (n div b) @ [digit_char (n mod b)])"

declare radix.simps [simp del]

definition dec :: "nat \<Rightarrow> string" where "dec n = radix 10 n"

definition hex :: "nat \<Rightarrow> string" where "hex n = radix 16 n"

definition dec_int :: "int \<Rightarrow> string" where
  "dec_int i = (if i < 0 then ''-'' @ dec (nat (- i)) else dec (nat i))"

definition hex2 :: "u8 \<Rightarrow> string" where
  "hex2 b = [digit_char (unat b div 16), digit_char (unat b mod 16)]"

definition show_bool :: "bool \<Rightarrow> string" where
  "show_bool b = (if b then ''true'' else ''false'')"

section \<open>Characters beyond ASCII\<close>

text \<open>A Rust string is UTF-8, so the characters of the texts that are not ASCII are several bytes.\<close>

definition em_dash :: string where "em_dash = [CHR 0xE2, CHR 0x80, CHR 0x94]"

definition ellipsis :: string where "ellipsis = [CHR 0xE2, CHR 0x80, CHR 0xA6]"

definition middle_dot :: string where "middle_dot = [CHR 0xC2, CHR 0xB7]"

definition plus_minus :: string where "plus_minus = [CHR 0xC2, CHR 0xB1]"

definition arrow_right :: string where "arrow_right = [CHR 0xE2, CHR 0x86, CHR 0x92]"

definition arrow_left :: string where "arrow_left = [CHR 0xE2, CHR 0x86, CHR 0x90]"

section \<open>Cutting and joining\<close>

fun join :: "string \<Rightarrow> string list \<Rightarrow> string" where
  "join sep [] = []"
| "join sep [x] = x"
| "join sep (x # y # ys) = x @ sep @ join sep (y # ys)"

fun split_on :: "char \<Rightarrow> string \<Rightarrow> string list" where
  "split_on c [] = [[]]"
| "split_on c (x # xs) =
     (if x = c then [] # split_on c xs
      else (case split_on c xs of [] \<Rightarrow> [[x]] | w # ws \<Rightarrow> (x # w) # ws))"

fun split_once :: "char \<Rightarrow> string \<Rightarrow> (string \<times> string) option" where
  "split_once c [] = None"
| "split_once c (x # xs) =
     (if x = c then Some ([], xs)
      else (case split_once c xs of None \<Rightarrow> None | Some (a, b) \<Rightarrow> Some (x # a, b)))"

definition is_ws :: "char \<Rightarrow> bool" where
  "is_ws c = (let n = of_char c :: nat in n = 32 \<or> (9 \<le> n \<and> n \<le> 13))"

definition trim_start :: "string \<Rightarrow> string" where "trim_start = dropWhile is_ws"

definition trim_end :: "string \<Rightarrow> string" where "trim_end s = rev (dropWhile is_ws (rev s))"

definition trim :: "string \<Rightarrow> string" where "trim s = trim_end (trim_start s)"

definition trim_start_matches :: "char \<Rightarrow> string \<Rightarrow> string" where
  "trim_start_matches c = dropWhile (\<lambda>x. x = c)"

definition trim_end_matches :: "char \<Rightarrow> string \<Rightarrow> string" where
  "trim_end_matches c s = rev (dropWhile (\<lambda>x. x = c) (rev s))"

function split_whitespace :: "string \<Rightarrow> string list" where
  "split_whitespace s =
     (case trim_start s of
        [] \<Rightarrow> []
      | x # xs \<Rightarrow> takeWhile (\<lambda>c. \<not> is_ws c) (x # xs)
                 # split_whitespace (dropWhile (\<lambda>c. \<not> is_ws c) (x # xs)))"
  by pat_completeness auto
termination
proof (relation "measure length", simp)
  fix s x xs
  assume s: "trim_start s = x # xs"
  then have "\<not> is_ws x" by (metis hd_dropWhile list.sel(1) list.simps(3) trim_start_def)
  moreover have "length (x # xs) \<le> length s"
    using s length_dropWhile_le [of is_ws s] by (simp add: trim_start_def)
  ultimately show "(dropWhile (\<lambda>c. \<not> is_ws c) (x # xs), s) \<in> measure length"
    using length_dropWhile_le [of "\<lambda>c. \<not> is_ws c" xs] by simp
qed

declare split_whitespace.simps [simp del]

fun starts_with :: "string \<Rightarrow> string \<Rightarrow> bool" where
  "starts_with s [] = True"
| "starts_with [] (p # ps) = False"
| "starts_with (x # xs) (p # ps) = (x = p \<and> starts_with xs ps)"

fun strip_prefix :: "string \<Rightarrow> string \<Rightarrow> string option" where
  "strip_prefix s [] = Some s"
| "strip_prefix [] (p # ps) = None"
| "strip_prefix (x # xs) (p # ps) = (if x = p then strip_prefix xs ps else None)"

fun contains_str :: "string \<Rightarrow> string \<Rightarrow> bool" where
  "contains_str [] p = (p = [])"
| "contains_str (x # xs) p = (starts_with (x # xs) p \<or> contains_str xs p)"

definition newline :: char where "newline = CHR 0x0A"

definition nl :: string where "nl = [newline]"

definition strip_cr :: "string \<Rightarrow> string" where
  "strip_cr s = (if s \<noteq> [] \<and> last s = CHR 0x0D then butlast s else s)"

definition lines :: "string \<Rightarrow> string list" where
  "lines s =
     (let ls = split_on newline s
      in map strip_cr (butlast ls) @ (if last ls = [] then [] else [last ls]))"

definition lower_char :: "char \<Rightarrow> char" where
  "lower_char c =
     (let n = of_char c :: nat in if 65 \<le> n \<and> n \<le> 90 then char_of (n + 32) else c)"

definition to_ascii_lowercase :: "string \<Rightarrow> string" where
  "to_ascii_lowercase = map lower_char"

section \<open>Parsing integers\<close>

definition digit_val :: "char \<Rightarrow> nat option" where
  "digit_val c = (let n = of_char c :: nat in if 48 \<le> n \<and> n \<le> 57 then Some (n - 48) else None)"

fun digits_val :: "nat \<Rightarrow> string \<Rightarrow> nat option" where
  "digits_val acc [] = Some acc"
| "digits_val acc (c # cs) =
     (case digit_val c of None \<Rightarrow> None | Some d \<Rightarrow> digits_val (10 * acc + d) cs)"

definition parse_nat :: "string \<Rightarrow> nat option" where
  "parse_nat s = (if s = [] then None else digits_val 0 s)"

definition parse_uint :: "nat \<Rightarrow> string \<Rightarrow> nat option" where
  "parse_uint bits s =
     (case parse_nat (case s of c # cs \<Rightarrow> if c = CHR ''+'' then cs else s | [] \<Rightarrow> s) of
        None \<Rightarrow> None
      | Some v \<Rightarrow> if v < 2 ^ bits then Some v else None)"

definition parse_sint :: "nat \<Rightarrow> string \<Rightarrow> int option" where
  "parse_sint bits s =
     (case s of
        [] \<Rightarrow> None
      | c # cs \<Rightarrow>
          if c = CHR ''-'' then
            (case parse_nat cs of None \<Rightarrow> None
             | Some v \<Rightarrow> if v \<le> 2 ^ (bits - 1) then Some (- int v) else None)
          else
            (case parse_nat (if c = CHR ''+'' then cs else s) of None \<Rightarrow> None
             | Some v \<Rightarrow> if v < 2 ^ (bits - 1) then Some (int v) else None))"

section \<open>Facts\<close>

lemma of_char_digit_char: "d < 36 \<Longrightarrow> (of_char (digit_char d) :: nat) = (if d < 10 then 48 + d else 87 + d)"
  by (auto simp: digit_char_def of_char_of)

lemma digit_chars:
  "digit_char 0 = CHR ''0''" "digit_char (Suc 0) = CHR ''1''" "digit_char 1 = CHR ''1''" "digit_char 2 = CHR ''2''"
  "digit_char 3 = CHR ''3''" "digit_char 4 = CHR ''4''" "digit_char 5 = CHR ''5''" "digit_char 6 = CHR ''6''"
  "digit_char 7 = CHR ''7''" "digit_char 8 = CHR ''8''" "digit_char 9 = CHR ''9''"
  by (simp_all add: digit_char_def char_of_def bit_Suc_0_iff)

lemma digit_val_digit_char [simp]: "d < 10 \<Longrightarrow> digit_val (digit_char d) = Some d"
  by (simp add: digit_val_def of_char_digit_char)

lemma digits_val_append:
  "digits_val acc (xs @ ys) =
     (case digits_val acc xs of None \<Rightarrow> None | Some v \<Rightarrow> digits_val v ys)"
  by (induction xs arbitrary: acc) (auto split: option.splits)

lemma dec_step: "dec n = (if n < 10 then [digit_char n] else dec (n div 10) @ [digit_char (n mod 10)])"
  unfolding dec_def by (subst radix.simps) simp

lemma dec_not_Nil [simp]: "dec n \<noteq> []"
  by (subst dec_step) simp

lemma dec_induct [case_names small big]:
  assumes "\<And>n. n < 10 \<Longrightarrow> P n" and "\<And>n. \<not> n < 10 \<Longrightarrow> P (n div 10) \<Longrightarrow> P n"
  shows "P (n :: nat)"
proof (induction n rule: less_induct)
  case (less n)
  show ?case using assms less by (cases "n < 10") auto
qed

lemma digits_val_dec: "digits_val 0 (dec n) = Some n"
proof (induction n rule: dec_induct)
  case (small n)
  then show ?case by (subst dec_step) simp
next
  case (big n)
  then show ?case by (subst dec_step) (simp add: digits_val_append)
qed

lemma parse_nat_dec [simp]: "parse_nat (dec n) = Some n"
  by (simp add: parse_nat_def digits_val_dec)

lemma set_dec: "set (dec n) \<subseteq> digit_char ` {0..<10}"
proof (induction n rule: dec_induct)
  case (small n)
  then show ?case by (subst dec_step) auto
next
  case (big n)
  then show ?case by (subst dec_step) auto
qed

lemma dec_chars: "c \<in> set (dec n) \<Longrightarrow> 48 \<le> (of_char c :: nat) \<and> (of_char c :: nat) \<le> 57"
  using set_dec [of n] by (auto simp: of_char_digit_char)

lemma parse_uint_dec [simp]: "n < 2 ^ bits \<Longrightarrow> parse_uint bits (dec n) = Some n"
proof -
  assume n: "n < 2 ^ bits"
  obtain c cs where c: "dec n = c # cs" by (cases "dec n") auto
  then have "c \<noteq> CHR ''+''" using dec_chars [of c n] by auto
  moreover have "parse_nat (c # cs) = Some n" by (simp flip: c)
  ultimately show ?thesis using n by (simp add: parse_uint_def c)
qed

lemma dec_inject [simp]: "dec m = dec n \<longleftrightarrow> m = n"
  by (metis parse_nat_dec option.inject)

lemma starts_with_strip: "starts_with s p \<longleftrightarrow> strip_prefix s p \<noteq> None"
  by (induction s p rule: starts_with.induct) auto

lemma strip_prefix_append [simp]: "strip_prefix (p @ s) p = Some s"
  by (induction p) auto

lemma starts_with_append [simp]: "starts_with (p @ s) p"
  by (simp add: starts_with_strip)

lemma split_on_not_Nil [simp]: "split_on c s \<noteq> []"
  by (induction s) (auto split: list.splits)

lemma split_on_append:
  "c \<notin> set w \<Longrightarrow> split_on c (w @ c # s) = w # split_on c s"
  by (induction w) auto

lemma split_on_no_sep: "c \<notin> set w \<Longrightarrow> split_on c w = [w]"
  by (induction w) auto

lemma split_on_join:
  assumes "ws \<noteq> []" and "\<forall>w\<in>set ws. c \<notin> set w"
  shows "split_on c (join [c] ws) = ws"
  using assms by (induction "[c]" ws rule: join.induct) (auto simp: split_on_no_sep split_on_append)

lemma split_once_append:
  "c \<notin> set w \<Longrightarrow> split_once c (w @ c # s) = Some (w, s)"
  by (induction w) auto

lemma contains_str_prefix: "starts_with s p \<Longrightarrow> contains_str s p"
  by (cases s; cases p) auto

lemma contains_str_append: "contains_str (a @ p @ b) p"
  by (induction a) (simp_all add: contains_str_prefix)

end
