(* ===== verification/Net_Addr.thy ===== *)
theory Net_Addr
  imports Rust_Text
begin

text \<open>
  IP addresses: \<open>std::net::IpAddr\<close> with its display and parse functions, and the wire types
  \<open>IpAddress\<close>, \<open>IpPrefix\<close> and \<open>Error\<close> with the helpers of
  \<^verbatim>\<open>crates/netdiag-ipc/src/proto.rs\<close>. An address is kept as its octets, as
  \<open>octets()\<close> returns them; \<open>wf_ip\<close> says that there are 4 or 16 of them, which the Rust array
  types guarantee.
\<close>

section \<open>Standard library addresses\<close>

datatype ip_addr = V4 bytes | V6 bytes

fun wf_ip :: "ip_addr \<Rightarrow> bool" where
  "wf_ip (V4 os) = (length os = 4)"
| "wf_ip (V6 os) = (length os = 16)"

fun is_ipv4 :: "ip_addr \<Rightarrow> bool" where
  "is_ipv4 (V4 _) = True"
| "is_ipv4 (V6 _) = False"

definition is_ipv6 :: "ip_addr \<Rightarrow> bool" where
  "is_ipv6 ip = (\<not> is_ipv4 ip)"

fun octets :: "ip_addr \<Rightarrow> bytes" where
  "octets (V4 os) = os"
| "octets (V6 os) = os"

fun segments :: "bytes \<Rightarrow> nat list" where
  "segments (a # b # os) = unat (from_be16 a b) # segments os"
| "segments _ = []"

definition to_ipv4_mapped :: "bytes \<Rightarrow> bytes option" where
  "to_ipv4_mapped os =
     (if take 12 os = replicate 10 0 @ [0xff, 0xff] then Some (drop 12 os) else None)"

definition show_v4 :: "bytes \<Rightarrow> string" where
  "show_v4 os = join ''.'' (map (\<lambda>b. dec (unat b)) os)"

text \<open>The longest run of zero groups, the first one on a tie: (start, length).\<close>

fun zero_span :: "nat \<Rightarrow> nat list \<Rightarrow> nat \<times> nat \<Rightarrow> nat \<times> nat \<Rightarrow> nat \<times> nat" where
  "zero_span i [] cur best = best"
| "zero_span i (g # gs) (cs, cl) best =
     (if g = 0 then
        let cur = (if cl = 0 then (i, 1) else (cs, cl + 1))
        in zero_span (i + 1) gs cur (if snd cur > snd best then cur else best)
      else zero_span (i + 1) gs (0, 0) best)"

definition fmt_subslice :: "nat list \<Rightarrow> string" where
  "fmt_subslice gs = join '':'' (map hex gs)"

definition show_v6 :: "bytes \<Rightarrow> string" where
  "show_v6 os =
     (case to_ipv4_mapped os of
        Some v4 \<Rightarrow> ''::ffff:'' @ show_v4 v4
      | None \<Rightarrow>
          let gs = segments os; (start, len) = zero_span 0 gs (0, 0) (0, 0)
          in if len > 1 then fmt_subslice (take start gs) @ ''::'' @ fmt_subslice (drop (start + len) gs)
             else fmt_subslice gs)"

fun show_ip :: "ip_addr \<Rightarrow> string" where
  "show_ip (V4 os) = show_v4 os"
| "show_ip (V6 os) = show_v6 os"

section \<open>The standard library parser\<close>

definition to_digit :: "nat \<Rightarrow> char \<Rightarrow> nat option" where
  "to_digit rdx c =
     (let n = of_char c :: nat;
          d = (if 48 \<le> n \<and> n \<le> 57 then n - 48
               else if 97 \<le> n \<and> n \<le> 122 then n - 87
               else if 65 \<le> n \<and> n \<le> 90 then n - 55 else 99)
      in if d < rdx then Some d else None)"

fun number_val :: "nat \<Rightarrow> nat \<Rightarrow> string \<Rightarrow> nat" where
  "number_val rdx acc [] = acc"
| "number_val rdx acc (c # cs) = number_val rdx (rdx * acc + the (to_digit rdx c)) cs"

definition read_number :: "nat \<Rightarrow> nat \<Rightarrow> nat \<Rightarrow> bool \<Rightarrow> string \<Rightarrow> (nat \<times> string) option" where
  "read_number rdx max_digits bound allow_zero s =
     (let ds = takeWhile (\<lambda>c. to_digit rdx c \<noteq> None) s; v = number_val rdx 0 ds
      in if length ds > max_digits \<or> ds = [] \<or> bound \<le> v then None
         else if \<not> allow_zero \<and> hd s = CHR ''0'' \<and> length ds > 1 then None
         else Some (v, drop (length ds) s))"

definition read_given_char :: "char \<Rightarrow> string \<Rightarrow> string option" where
  "read_given_char c s = (case s of x # xs \<Rightarrow> if x = c then Some xs else None | [] \<Rightarrow> None)"

definition read_separator ::
  "char \<Rightarrow> nat \<Rightarrow> (string \<Rightarrow> ('a \<times> string) option) \<Rightarrow> string \<Rightarrow> ('a \<times> string) option" where
  "read_separator c i inner s =
     (if i = 0 then inner s
      else case read_given_char c s of None \<Rightarrow> None | Some r \<Rightarrow> inner r)"

fun read_v4_groups :: "nat \<Rightarrow> nat \<Rightarrow> string \<Rightarrow> (bytes \<times> string) option" where
  "read_v4_groups 0 i s = Some ([], s)"
| "read_v4_groups (Suc k) i s =
     (case read_separator CHR ''.'' i (read_number 10 3 256 False) s of
        None \<Rightarrow> None
      | Some (v, r) \<Rightarrow>
          (case read_v4_groups k (i + 1) r of None \<Rightarrow> None | Some (os, r') \<Rightarrow> Some (of_nat v # os, r')))"

definition read_ipv4_addr :: "string \<Rightarrow> (bytes \<times> string) option" where
  "read_ipv4_addr s = read_v4_groups 4 0 s"

text \<open>
  \<open>read_groups limit i s\<close>: up to \<open>limit - i\<close> colon-separated groups, with a dotted IPv4 tail
  accepted where at least two groups are left. Returns the octets read, whether an IPv4 tail
  was read, and the rest of the input.
\<close>

fun read_groups :: "nat \<Rightarrow> nat \<Rightarrow> string \<Rightarrow> bytes \<times> bool \<times> string" where
  "read_groups 0 i s = ([], False, s)"
| "read_groups (Suc k) i s =
     (case (if 0 < k then read_separator CHR '':'' i read_ipv4_addr s else None) of
        Some (v4, r) \<Rightarrow> (v4, True, r)
      | None \<Rightarrow>
          (case read_separator CHR '':'' i (read_number 16 4 65536 True) s of
             None \<Rightarrow> ([], False, s)
           | Some (g, r) \<Rightarrow>
               (case read_groups k (i + 1) r of
                  (os, t, r') \<Rightarrow> (be16 (of_nat g) @ os, t, r'))))"

definition read_ipv6_addr :: "string \<Rightarrow> (bytes \<times> string) option" where
  "read_ipv6_addr s =
     (case read_groups 8 0 s of
        (head, head_v4, r) \<Rightarrow>
          if length head = 16 then Some (head, r)
          else if head_v4 then None
          else case read_given_char CHR '':'' r of None \<Rightarrow> None | Some r1 \<Rightarrow>
            (case read_given_char CHR '':'' r1 of None \<Rightarrow> None | Some r2 \<Rightarrow>
              (case read_groups (8 - (length head div 2 + 1)) 0 r2 of
                 (tail, _, r3) \<Rightarrow>
                   Some (head @ replicate (16 - length head - length tail) 0 @ tail, r3))))"

definition parse_ip :: "string \<Rightarrow> ip_addr option" where
  "parse_ip s =
     (case read_ipv4_addr s of
        Some (os, r) \<Rightarrow> if r = [] then Some (V4 os) else None
      | None \<Rightarrow>
          (case read_ipv6_addr s of
             Some (os, r) \<Rightarrow> if r = [] then Some (V6 os) else None
           | None \<Rightarrow> None))"

section \<open>Wire types\<close>

datatype ip_family = Family_Unspecified | Family_V4 | Family_V6

fun ip_family_i32 :: "ip_family \<Rightarrow> int" where
  "ip_family_i32 Family_Unspecified = 0"
| "ip_family_i32 Family_V4 = 1"
| "ip_family_i32 Family_V6 = 2"

definition ip_family_try_from :: "int \<Rightarrow> ip_family option" where
  "ip_family_try_from i =
     (if i = 0 then Some Family_Unspecified else if i = 1 then Some Family_V4
      else if i = 2 then Some Family_V6 else None)"

record ip_address =
  addr :: bytes

fun from_ip :: "ip_addr \<Rightarrow> ip_address" where
  "from_ip (V4 os) = \<lparr>addr = os\<rparr>"
| "from_ip (V6 os) = \<lparr>addr = os\<rparr>"

definition to_ip :: "ip_address \<Rightarrow> ip_addr option" where
  "to_ip a =
     (if length (addr a) = 4 then Some (V4 (addr a))
      else if length (addr a) = 16 then Some (V6 (addr a)) else None)"

definition is_set :: "ip_address \<Rightarrow> bool" where
  "is_set a = (length (addr a) = 4 \<or> length (addr a) = 16)"

definition display :: "ip_address \<Rightarrow> string" where
  "display a = (case to_ip a of Some ip \<Rightarrow> show_ip ip | None \<Rightarrow> ''-'')"

record ip_prefix =
  address :: "ip_address option"
  prefix_len :: nat

definition prefix_new :: "ip_addr \<Rightarrow> u8 \<Rightarrow> ip_prefix" where
  "prefix_new ip len = \<lparr>address = Some (from_ip ip), prefix_len = unat len\<rparr>"

definition prefix_ip :: "ip_prefix \<Rightarrow> ip_addr option" where
  "prefix_ip p = Option.bind (address p) to_ip"

definition prefix_display :: "ip_prefix \<Rightarrow> string" where
  "prefix_display p =
     (case prefix_ip p of
        Some ip \<Rightarrow> show_ip ip @ ''/'' @ dec (prefix_len p)
      | None \<Rightarrow> ''*/'' @ dec (prefix_len p))"

datatype error_code =
  Err_Unspecified | Err_InvalidArgument | Err_Unimplemented | Err_Kernel
| Err_PermissionDenied | Err_NotFound | Err_ResourceExhausted | Err_Internal

record error =
  err_code :: error_code
  err_message :: string
  err_detail :: string

definition error_new :: "error_code \<Rightarrow> string \<Rightarrow> error" where
  "error_new c m = \<lparr>err_code = c, err_message = m, err_detail = []\<rparr>"

definition with_detail :: "error \<Rightarrow> string \<Rightarrow> error" where
  "with_detail e d = e\<lparr>err_detail := d\<rparr>"

definition error_internal :: "string \<Rightarrow> error" where
  "error_internal m = error_new Err_Internal m"

definition error_invalid :: "string \<Rightarrow> error" where
  "error_invalid m = error_new Err_InvalidArgument m"

definition error_kernel :: "string \<Rightarrow> error" where
  "error_kernel m = error_new Err_Kernel m"

definition error_not_found :: "string \<Rightarrow> error" where
  "error_not_found m = error_new Err_NotFound m"

section \<open>Facts\<close>

lemma is_ipv6_simps [simp]: "is_ipv6 (V4 os) = False" "is_ipv6 (V6 os) = True"
  by (simp_all add: is_ipv6_def)

lemma to_ip_from_ip: "wf_ip ip \<Longrightarrow> to_ip (from_ip ip) = Some ip"
  by (cases ip) (simp_all add: to_ip_def)

lemma to_ip_wf: "to_ip a = Some ip \<Longrightarrow> wf_ip ip \<and> from_ip ip = a"
  by (auto simp: to_ip_def split: if_splits)

lemma is_set_iff_to_ip: "is_set a \<longleftrightarrow> to_ip a \<noteq> None"
  by (simp add: is_set_def to_ip_def)

lemma prefix_ip_new [simp]: "wf_ip ip \<Longrightarrow> prefix_ip (prefix_new ip l) = Some ip"
  by (simp add: prefix_ip_def prefix_new_def to_ip_from_ip)

subsection \<open>Dotted decimal round trip\<close>

lemma to_digit_10: "to_digit 10 c = digit_val c"
  by (auto simp: to_digit_def digit_val_def Let_def)

lemma number_val_dec:
  "\<forall>c\<in>set ds. digit_val c \<noteq> None \<Longrightarrow> digits_val acc ds = Some (number_val 10 acc ds)"
  by (induction ds arbitrary: acc) (auto simp: to_digit_10)

lemma digit_val_dec: "c \<in> set (dec n) \<Longrightarrow> digit_val c \<noteq> None"
  using dec_chars [of c n] by (auto simp: digit_val_def Let_def)

lemma length_dec_le: "n < 10 ^ k \<Longrightarrow> 0 < k \<Longrightarrow> length (dec n) \<le> k"
proof (induction k arbitrary: n)
  case 0
  then show ?case by simp
next
  case (Suc k)
  show ?case
  proof (cases "n < 10")
    case True
    then show ?thesis by (subst dec_step) simp
  next
    case False
    with Suc.prems have "n div 10 < 10 ^ k" "0 < k"
      by (auto simp: less_mult_imp_div_less mult.commute intro: Suc_lessI split: if_splits)
        (cases k; simp)
    with Suc.IH [of "n div 10"] False show ?thesis by (subst dec_step) simp
  qed
qed

lemma dec_no_leading_zero: "0 < n \<Longrightarrow> hd (dec n) \<noteq> CHR ''0''"
proof (induction n rule: dec_induct)
  case (small n)
  then have "(of_char (digit_char n) :: nat) \<noteq> of_char (CHR ''0'')" by (simp add: of_char_digit_char)
  with small show ?case by (subst dec_step) auto
next
  case (big n)
  then show ?case by (subst dec_step) (auto simp: hd_append)
qed

lemma read_number_dec:
  assumes n: "n < 256" and rest: "rest = [] \<or> digit_val (hd rest) = None"
  shows "read_number 10 3 256 False (dec n @ rest) = Some (n, rest)"
proof -
  have tw: "takeWhile (\<lambda>c. to_digit 10 c \<noteq> None) (dec n @ rest) = dec n"
    using rest digit_val_dec [of _ n] unfolding to_digit_10
    by (cases rest) (simp_all add: takeWhile_append takeWhile_eq_all_conv)
  have v: "number_val 10 0 (dec n) = n"
    using number_val_dec [of "dec n" 0] digits_val_dec [of n] digit_val_dec by auto
  have l: "length (dec n) \<le> 3" using n length_dec_le [of n 3] by simp
  have z: "hd (dec n) = CHR ''0'' \<Longrightarrow> length (dec n) = 1"
    using dec_no_leading_zero [of n] by (cases "n = 0") (simp_all add: dec_step [of 0])
  show ?thesis using tw v l n z by (auto simp: read_number_def Let_def hd_append)
qed

lemma digit_val_sep [simp]: "digit_val CHR ''.'' = None" "digit_val CHR '':'' = None" "digit_val CHR ''/'' = None"
  by (simp_all add: digit_val_def)

lemma four_Suc: "(4::nat) = Suc (Suc (Suc (Suc 0)))"
  by simp

lemma read_ipv4_show_v4:
  assumes "length os = 4" and "rest = [] \<or> digit_val (hd rest) = None"
  shows "read_ipv4_addr (show_v4 os @ rest) = Some (os, rest)"
proof -
  obtain a b c d where os: "os = [a, b, c, d]"
    using assms(1) by (auto simp: length_Suc_conv four_Suc)
  have rn: "read_number 10 3 256 False (dec (unat x) @ r) = Some (unat x, r)"
    if "r = [] \<or> digit_val (hd r) = None" for x :: u8 and r
    using that unat_u8_less by (intro read_number_dec) auto
  show ?thesis using assms(2) unfolding read_ipv4_addr_def four_Suc
    by (simp add: os show_v4_def read_separator_def read_given_char_def rn)
qed

lemma parse_show_v4: "length os = 4 \<Longrightarrow> parse_ip (show_ip (V4 os)) = Some (V4 os)"
  using read_ipv4_show_v4 [of os "[]"] by (simp add: parse_ip_def)

subsection \<open>Colon-hexadecimal round trip\<close>

lemma hex_step: "hex n = (if n < 16 then [digit_char n] else hex (n div 16) @ [digit_char (n mod 16)])"
  unfolding hex_def by (subst radix.simps) simp

lemma hex_induct [case_names small big]:
  assumes "\<And>n. n < 16 \<Longrightarrow> P n" and "\<And>n. \<not> n < 16 \<Longrightarrow> P (n div 16) \<Longrightarrow> P n"
  shows "P (n :: nat)"
proof (induction n rule: less_induct)
  case (less n)
  show ?case using assms less by (cases "n < 16") auto
qed

lemma to_digit_16 [simp]: "d < 16 \<Longrightarrow> to_digit 16 (digit_char d) = Some d"
  by (auto simp: to_digit_def Let_def of_char_digit_char)

lemma number_val_append: "number_val b acc (xs @ ys) = number_val b (number_val b acc xs) ys"
  by (induction xs arbitrary: acc) simp_all

lemma number_val_hex: "number_val 16 0 (hex n) = n"
proof (induction n rule: hex_induct)
  case (small n)
  then show ?case by (subst hex_step) simp
next
  case (big n)
  then show ?case by (subst hex_step) (simp add: number_val_append)
qed

lemma hex_not_Nil [simp]: "hex n \<noteq> []"
  by (subst hex_step) simp

lemma set_hex: "set (hex n) \<subseteq> digit_char ` {0..<16}"
proof (induction n rule: hex_induct)
  case (small n)
  then show ?case by (subst hex_step) auto
next
  case (big n)
  then show ?case by (subst hex_step) auto
qed

lemma to_digit_hex: "c \<in> set (hex n) \<Longrightarrow> to_digit 16 c \<noteq> None"
  using set_hex [of n] by auto

lemma length_hex_le: "n < 16 ^ k \<Longrightarrow> 0 < k \<Longrightarrow> length (hex n) \<le> k"
proof (induction k arbitrary: n)
  case (Suc k)
  show ?case
  proof (cases "n < 16")
    case True
    then show ?thesis by (subst hex_step) simp
  next
    case False
    then have "0 < k" using Suc.prems by (cases k) auto
    moreover have "n div 16 < 16 ^ k" using Suc.prems by (auto simp: less_mult_imp_div_less mult.commute)
    ultimately show ?thesis using Suc.IH [of "n div 16"] False by (subst hex_step) simp
  qed
qed simp

lemma dot_not_hex: "CHR ''.'' \<notin> set (hex n)" "CHR '':'' \<notin> set (hex n)"
  using to_digit_hex [of "CHR ''.''" n] to_digit_hex [of "CHR '':''" n] by (auto simp: to_digit_def)

lemma read_number_hex:
  assumes n: "n < 65536" and rest: "rest = [] \<or> to_digit 16 (hd rest) = None"
  shows "read_number 16 4 65536 True (hex n @ rest) = Some (n, rest)"
proof -
  have tw: "takeWhile (\<lambda>c. to_digit 16 c \<noteq> None) (hex n @ rest) = hex n"
    using rest to_digit_hex [of _ n] by (cases rest) (simp_all add: takeWhile_append takeWhile_eq_all_conv)
  have "length (hex n) \<le> 4" using n length_hex_le [of n 4] by simp
  then show ?thesis using tw n by (simp add: read_number_def Let_def number_val_hex)
qed

lemma read_number_none: "s = [] \<or> to_digit b (hd s) = None \<Longrightarrow> read_number b k bound z s = None"
  by (cases s) (auto simp: read_number_def Let_def)

lemma read_number_rest: "read_number b k bound z s = Some (v, r) \<Longrightarrow> set r \<subseteq> set s"
  by (auto simp: read_number_def Let_def split: if_splits dest: in_set_dropD)

lemma read_ipv4_no_dot: "CHR ''.'' \<notin> set s \<Longrightarrow> read_ipv4_addr s = None"
  unfolding read_ipv4_addr_def four_Suc
  by (auto simp: read_separator_def read_given_char_def split: option.splits list.splits
      dest!: read_number_rest)

lemma sep_ipv4_no_dot: "CHR ''.'' \<notin> set s \<Longrightarrow> read_separator CHR '':'' i read_ipv4_addr s = None"
  by (auto simp: read_separator_def read_given_char_def read_ipv4_no_dot split: option.splits list.splits)

lemma to_digit_colon [simp]: "to_digit 16 CHR '':'' = None"
  by (simp add: to_digit_def)

definition v6_stop :: "string \<Rightarrow> bool" where
  "v6_stop r = (r = [] \<or> (\<exists>t. r = CHR '':'' # CHR '':'' # t))"

lemma read_groups_stop:
  assumes "v6_stop r" and "CHR ''.'' \<notin> set r"
  shows "read_groups k i r = ([], False, r)"
proof (cases k)
  case (Suc j)
  have "read_separator CHR '':'' i (read_number 16 4 65536 True) r = None"
    using assms(1) by (auto simp: v6_stop_def read_separator_def read_given_char_def intro!: read_number_none)
  then show ?thesis using Suc assms(2) by (simp add: sep_ipv4_no_dot)
qed simp

definition sep_groups :: "nat \<Rightarrow> nat list \<Rightarrow> string" where
  "sep_groups i gs = (if i = 0 then join '':'' (map hex gs) else concat (map (\<lambda>g. CHR '':'' # hex g) gs))"

lemma join_colon: "join '':'' (map hex (g # gs)) = hex g @ concat (map (\<lambda>g. CHR '':'' # hex g) gs)"
  by (induction gs arbitrary: g) simp_all

lemma sep_groups_Cons:
  "sep_groups i (g # gs) = (if i = 0 then [] else '':'') @ hex g @ sep_groups (Suc i) gs"
  by (simp add: sep_groups_def join_colon del: list.map(2) join.simps) simp

lemma sep_groups_Nil [simp]: "sep_groups i [] = []"
  by (simp add: sep_groups_def)

lemma sep_groups_dot: "CHR ''.'' \<notin> set (sep_groups i gs)"
  by (induction gs arbitrary: i) (auto simp: sep_groups_Cons dot_not_hex)

lemma sep_groups_hd: "sep_groups (Suc i) gs @ r = [] \<or> to_digit 16 (hd (sep_groups (Suc i) gs @ r)) = None"
  if "v6_stop r" for r
  using that by (cases gs) (auto simp: sep_groups_Cons v6_stop_def)

lemma read_groups_hex:
  assumes "length gs \<le> k" and "\<forall>g\<in>set gs. g < 65536" and "v6_stop r" and "CHR ''.'' \<notin> set r"
  shows "read_groups k i (sep_groups i gs @ r) = (concat (map (\<lambda>g. be16 (of_nat g)) gs), False, r)"
  using assms
proof (induction gs arbitrary: i k)
  case Nil
  then show ?case by (simp add: read_groups_stop)
next
  case (Cons g gs)
  then obtain j where k: "k = Suc j" by (cases k) auto
  have nodot: "CHR ''.'' \<notin> set (sep_groups i (g # gs) @ r)" using Cons.prems sep_groups_dot by simp
  have "read_number 16 4 65536 True (hex g @ sep_groups (Suc i) gs @ r) = Some (g, sep_groups (Suc i) gs @ r)"
    using Cons.prems sep_groups_hd by (intro read_number_hex) auto
  then have "read_separator CHR '':'' i (read_number 16 4 65536 True) (sep_groups i (g # gs) @ r) =
      Some (g, sep_groups (Suc i) gs @ r)"
    by (cases "i = 0") (simp_all add: sep_groups_Cons read_separator_def read_given_char_def)
  moreover have "read_groups j (i + 1) (sep_groups (Suc i) gs @ r) = (concat (map (\<lambda>g. be16 (of_nat g)) gs), False, r)"
    using Cons k by simp
  ultimately show ?case using nodot unfolding k read_groups.simps
    by (cases j) (simp_all add: sep_ipv4_no_dot)
qed

lemma be16_from_be16 [simp]: "be16 (from_be16 a b) = [a, b]"
proof -
  have "ucast (drop_bit 8 (from_be16 a b)) = a"
    by (rule bit_word_eqI) (auto simp: from_be16_def bit_simps dest: bit_imp_le_length)
  moreover have "ucast (from_be16 a b) = b"
    by (rule bit_word_eqI) (auto simp: from_be16_def bit_simps)
  ultimately show ?thesis by (simp add: be16_def)
qed

lemma segments_inverse:
  "even (length os) \<Longrightarrow> concat (map (\<lambda>g. be16 (of_nat g)) (segments os)) = os \<and>
     length (segments os) = length os div 2 \<and> (\<forall>g\<in>set (segments os). g < 65536)"
proof (induction os rule: segments.induct)
  case (1 a b os)
  have "unat (from_be16 a b) < 65536"
    using unat_u8_less [of a] unat_u8_less [of b] by (simp add: unat_from_be16)
  with 1 show ?case by simp
qed simp_all

definition zeros_at :: "nat list \<Rightarrow> nat \<times> nat \<Rightarrow> bool" where
  "zeros_at gs p = (fst p + snd p \<le> length gs \<and> take (snd p) (drop (fst p) gs) = replicate (snd p) 0)"

lemma zeros_at_extend:
  "zeros_at gs (a, l) \<Longrightarrow> a + l < length gs \<Longrightarrow> gs ! (a + l) = 0 \<Longrightarrow> zeros_at gs (a, Suc l)"
  by (simp add: zeros_at_def take_Suc_conv_app_nth replicate_append_same)

lemma zero_span_zeros:
  assumes "zeros_at gs cur" and "snd cur = 0 \<or> fst cur + snd cur = i" and "zeros_at gs best"
    and "drop i gs = rs" and "i \<le> length gs"
  shows "zeros_at gs (zero_span i rs cur best)"
  using assms
proof (induction i rs cur best rule: zero_span.induct)
  case (2 i g rs cs cl best)
  from "2.prems"(4) have i: "i < length gs" and g: "gs ! i = g" and tl: "drop (i + 1) gs = rs"
    by (metis drop_all linorder_not_less list.simps(3), metis nth_via_drop,
        metis Suc_eq_plus1 drop_Suc list.sel(3) tl_drop)
  show ?case
  proof (cases "g = 0")
    case True
    let ?cur = "if cl = 0 then (i, 1) else (cs, cl + 1)"
    have "zeros_at gs ?cur"
      using "2.prems"(1,2) True g i zeros_at_extend [of gs i 0] zeros_at_extend [of gs cs cl]
      by (auto simp: zeros_at_def)
    with "2.prems" "2.IH"(1) [OF True refl] True i tl show ?thesis by (auto simp: Let_def)
  next
    case False
    with "2.prems" "2.IH"(2) [OF False] i tl show ?thesis by (simp add: zeros_at_def)
  qed
qed simp

lemma parse_show_v6_groups:
  assumes "length gs = 8" and "\<forall>g\<in>set gs. g < 65536"
    and "os = concat (map (\<lambda>g. be16 (of_nat g)) gs)" and "zeros_at gs (a, l)" and "1 < l"
  shows "parse_ip (fmt_subslice (take a gs) @ ''::'' @ fmt_subslice (drop (a + l) gs)) = Some (V6 os)"
proof -
  let ?h = "take a gs" and ?t = "drop (a + l) gs"
  let ?b = "\<lambda>gs. concat (map (\<lambda>g. be16 (of_nat g)) gs) :: bytes"
  let ?s = "sep_groups 0 ?h @ ''::'' @ sep_groups 0 ?t"
  have s: "fmt_subslice ?h @ ''::'' @ fmt_subslice ?t = ?s"
    by (simp add: fmt_subslice_def sep_groups_def)
  have al: "a + l \<le> 8" using assms(1,4) by (simp add: zeros_at_def)
  have gs: "gs = ?h @ replicate l 0 @ ?t"
    using assms(4) by (simp add: zeros_at_def) (metis append_take_drop_id drop_drop add.commute)
  have lens: "length (?b xs) = 2 * length xs" for xs by (induction xs) simp_all
  have lt: "\<forall>g\<in>set ?h. g < 65536" "\<forall>g\<in>set ?t. g < 65536"
    using assms(2) by (auto dest: in_set_takeD in_set_dropD)
  have h: "read_groups 8 0 ?s = (?b ?h, False, ''::'' @ sep_groups 0 ?t)"
    using lt al assms(1) sep_groups_dot by (intro read_groups_hex) (auto simp: v6_stop_def)
  have t: "read_groups (8 - (a + 1)) 0 (sep_groups 0 ?t) = (?b ?t, False, [])"
    using lt al assms(1,5) read_groups_hex [of ?t "8 - (a + 1)" "[]" 0] by (simp add: v6_stop_def)
  have nodot: "read_ipv4_addr ?s = None" using sep_groups_dot by (intro read_ipv4_no_dot) auto
  have z: "concat (replicate l (be16 0)) = replicate (2 * l) 0"
    by (induction l) (simp_all add: be16_def)
  have "os = ?b (?h @ replicate l 0 @ ?t)" using gs assms(3) by metis
  then have os: "?b ?h @ replicate (2 * l) 0 @ ?b ?t = os" by (simp add: z)
  have la: "length (?b ?h) = 2 * a" "length (?b ?t) = 2 * (8 - (a + l))"
    using assms(1) al by (simp_all add: lens min_def)
  have "16 - 2 * a - 2 * (8 - (a + l)) = 2 * l" using al by simp
  then show ?thesis
    unfolding s parse_ip_def nodot read_ipv6_addr_def h
    using la al assms(5) t os by (simp add: read_given_char_def)
qed

lemma parse_show_v6_full:
  assumes "length gs = 8" and "\<forall>g\<in>set gs. g < 65536"
    and "os = concat (map (\<lambda>g. be16 (of_nat g)) gs)" and "length os = 16"
  shows "parse_ip (fmt_subslice gs) = Some (V6 os)"
proof -
  have s: "fmt_subslice gs = sep_groups 0 gs" by (simp add: fmt_subslice_def sep_groups_def)
  have "read_groups 8 0 (sep_groups 0 gs) = (os, False, [])"
    using assms read_groups_hex [of gs 8 "[]" 0] by (simp add: v6_stop_def)
  then show ?thesis
    using assms(4) sep_groups_dot read_ipv4_no_dot by (simp add: parse_ip_def s read_ipv6_addr_def)
qed

lemma parse_show_mapped:
  assumes "length v4 = 4"
  shows "parse_ip (''::ffff:'' @ show_v4 v4) = Some (V6 (replicate 10 0 @ [0xff, 0xff] @ v4))"
proof -
  let ?r = "CHR '':'' # show_v4 v4"
  have v4: "read_ipv4_addr (show_v4 v4) = Some (v4, [])" using read_ipv4_show_v4 [of v4 "[]"] assms by simp
  have none: "read_ipv4_addr (c # s) = None" if "to_digit 10 c = None" for c s
    using that unfolding read_ipv4_addr_def four_Suc by (simp add: read_separator_def read_number_none)
  have d: "to_digit 10 CHR '':'' = None" "to_digit 10 CHR ''f'' = None" by (simp_all add: to_digit_def)
  have ffff: "read_number 16 4 65536 True (''ffff'' @ ?r) = Some (65535, ?r)"
    by (simp add: read_number_def Let_def to_digit_def)
  have g6: "read_groups 6 1 ?r = (v4, True, [])"
    using v4 read_groups.simps(2) [of 5 1 ?r] by (simp add: read_separator_def read_given_char_def)
  have g7: "read_groups 7 0 (''ffff'' @ ?r) = ([0xff, 0xff] @ v4, True, [])"
    using g6 ffff none [OF d(2)] read_groups.simps(2) [of 6 0 "''ffff'' @ ?r"] by (simp add: read_separator_def be16_def)
  have g8: "read_groups 8 0 (''::ffff'' @ ?r) = ([], False, ''::ffff'' @ ?r)"
    using none [OF d(1)] read_groups.simps(2) [of 7 0 "''::ffff'' @ ?r"] by (simp add: read_separator_def read_number_none)
  show ?thesis
    using g7 g8 none [OF d(1)] assms
    by (simp add: parse_ip_def read_ipv6_addr_def read_given_char_def)
qed

lemma parse_show_v6:
  assumes "length os = 16"
  shows "parse_ip (show_ip (V6 os)) = Some (V6 os)"
proof (cases "to_ipv4_mapped os")
  case (Some v4)
  then have m: "take 12 os = replicate 10 0 @ [0xff, 0xff]" "v4 = drop 12 os"
    by (auto simp: to_ipv4_mapped_def split: if_splits)
  then have os: "replicate 10 0 @ [0xff, 0xff] @ v4 = os"
    using append_take_drop_id [of 12 os] by (metis append_assoc)
  have "length v4 = 4" using assms m(2) by simp
  from parse_show_mapped [OF this] have "parse_ip (''::ffff:'' @ show_v4 v4) = Some (V6 os)" unfolding os .
  then show ?thesis by (simp add: show_v6_def Some)
next
  case None
  let ?gs = "segments os"
  have gs: "os = concat (map (\<lambda>g. be16 (of_nat g)) ?gs)" "length ?gs = 8" "\<forall>g\<in>set ?gs. g < 65536"
    using segments_inverse [of os] assms by simp_all
  obtain a l where z: "zero_span 0 ?gs (0, 0) (0, 0) = (a, l)" by fastforce
  have "zeros_at ?gs (a, l)"
    using zero_span_zeros [of ?gs "(0, 0)" 0 "(0, 0)" ?gs] by (simp add: z zeros_at_def)
  with None z gs assms show ?thesis
    using parse_show_v6_groups [of ?gs os a l] parse_show_v6_full [of ?gs os]
    by (simp add: show_v6_def Let_def)
qed

lemma parse_show_ip: "wf_ip ip \<Longrightarrow> parse_ip (show_ip ip) = Some ip"
  using parse_show_v4 parse_show_v6 by (cases ip) simp_all

text \<open>
  C37: an address survives the wire and the display. Converting an IP address to the wire type and
  back gives the address, it counts as set, and the text shown for it parses to the same address:
  dotted decimal for IPv4; for IPv6 the longest run of zero groups is compressed and an
  IPv4-mapped address has a dotted tail. The text of a prefix parses back in the same way.
\<close>

theorem address_roundtrip:
  assumes "wf_ip ip"
  shows "to_ip (from_ip ip) = Some ip \<and> is_set (from_ip ip) \<and>
         parse_ip (display (from_ip ip)) = Some ip \<and>
         prefix_display (prefix_new ip l) = display (from_ip ip) @ ''/'' @ dec (unat l)"
  using assms to_ip_from_ip [OF assms] parse_show_ip [OF assms]
  by (auto simp: is_set_iff_to_ip display_def prefix_display_def) (simp add: prefix_new_def)

theorem address_roundtrip_witness:
  "to_ip (from_ip (V6 [0x20, 0x01, 0x0d, 0xb8, 0, 0, 0, 0, 0, 0, 0, 0, 0, 0, 0, 1])) =
     Some (V6 [0x20, 0x01, 0x0d, 0xb8, 0, 0, 0, 0, 0, 0, 0, 0, 0, 0, 0, 1]) \<and>
   parse_ip (display (from_ip (V6 [0x20, 0x01, 0x0d, 0xb8, 0, 0, 0, 0, 0, 0, 0, 0, 0, 0, 0, 1]))) =
     Some (V6 [0x20, 0x01, 0x0d, 0xb8, 0, 0, 0, 0, 0, 0, 0, 0, 0, 0, 0, 1])"
  using address_roundtrip [of "V6 [0x20, 0x01, 0x0d, 0xb8, 0, 0, 0, 0, 0, 0, 0, 0, 0, 0, 0, 1]"] by simp

end
