(* ===== verification/Util.thy ===== *)
theory Util
  imports Rust_Text
begin

text \<open>
  Helpers of \<^verbatim>\<open>daemon/src/util.rs\<close>: the fwmark layout, well-known routing tables, MAC
  formatting and the tolerant \<^verbatim>\<open>/proc\<close> readers. A file system is a function from paths to
  contents; \<open>None\<close> is any read error.
\<close>

type_synonym file_system = "string \<Rightarrow> string option"

definition FWMARK_NET_ID_MASK :: u32 where "FWMARK_NET_ID_MASK = 0xffff"

definition FWMARK_EXPLICITLY_SELECTED :: u32 where "FWMARK_EXPLICITLY_SELECTED = push_bit 16 1"

definition FWMARK_PROTECTED_FROM_VPN :: u32 where "FWMARK_PROTECTED_FROM_VPN = push_bit 17 1"

definition net_id_from_mark :: "u32 \<Rightarrow> u32" where
  "net_id_from_mark mark = mark AND FWMARK_NET_ID_MASK"

definition mark_for_net_id :: "u32 \<Rightarrow> u32" where
  "mark_for_net_id net_id = (net_id AND FWMARK_NET_ID_MASK) OR FWMARK_EXPLICITLY_SELECTED"

definition well_known_table_name :: "nat \<Rightarrow> string option" where
  "well_known_table_name table =
     (if table = 255 then Some ''local''
      else if table = 254 then Some ''main''
      else if table = 253 then Some ''default''
      else if table = 0 then Some ''unspec''
      else if table = 97 then Some ''local_network''
      else if table = 98 then Some ''legacy_system''
      else if table = 99 then Some ''legacy_network''
      else if table = 1003 then Some ''vpn_fallthrough''
      else None)"

definition format_mac :: "bytes \<Rightarrow> string" where
  "format_mac bs = (if bs = [] then [] else join '':'' (map hex2 bs))"

definition read_trimmed :: "file_system \<Rightarrow> string \<Rightarrow> string option" where
  "read_trimmed fs path = map_option trim (fs path)"

definition read_i32 :: "file_system \<Rightarrow> string \<Rightarrow> int option" where
  "read_i32 fs path =
     (case read_trimmed fs path of
        None \<Rightarrow> None
      | Some s \<Rightarrow> (case split_whitespace s of [] \<Rightarrow> None | w # _ \<Rightarrow> parse_sint 32 w))"

definition kernel_release :: "file_system \<Rightarrow> string" where
  "kernel_release fs =
     (case read_trimmed fs ''/proc/sys/kernel/osrelease'' of None \<Rightarrow> [] | Some s \<Rightarrow> s)"

definition cvt :: "int \<Rightarrow> 'e \<Rightarrow> 'e + int" where
  "cvt ret last_os_error = (if ret < 0 then Inl last_os_error else Inr ret)"

section \<open>Facts\<close>

lemma mask16: "w AND FWMARK_NET_ID_MASK = take_bit 16 (w :: u32)"
  by (simp add: FWMARK_NET_ID_MASK_def take_bit_eq_mask mask_eq_exp_minus_1)

lemma net_id_less: "unat (net_id_from_mark m) < 2 ^ 16"
  unfolding net_id_from_mark_def mask16 unsigned_take_bit_eq by (rule take_bit_nat_less_exp)

lemma net_id_mark_take: "net_id_from_mark (mark_for_net_id n) = take_bit 16 n"
  by (rule bit_word_eqI)
    (auto simp: net_id_from_mark_def mark_for_net_id_def mask16 FWMARK_EXPLICITLY_SELECTED_def bit_simps)

lemma mark_for_net_id_selected: "mark_for_net_id n AND FWMARK_EXPLICITLY_SELECTED \<noteq> 0"
proof -
  have "bit (mark_for_net_id n AND FWMARK_EXPLICITLY_SELECTED) 16"
    by (simp add: mark_for_net_id_def mask16 FWMARK_EXPLICITLY_SELECTED_def bit_simps)
  then show ?thesis by auto
qed

lemma mark_for_net_id_not_protected: "mark_for_net_id n AND FWMARK_PROTECTED_FROM_VPN = 0"
proof -
  have "\<not> bit (mark_for_net_id n) 17"
    by (simp add: mark_for_net_id_def mask16 FWMARK_EXPLICITLY_SELECTED_def bit_simps)
  then have "mark_for_net_id n AND 2 ^ 17 = 0" by (rule iffD2 [OF and_exp_eq_0_iff_not_bit])
  then show ?thesis by (simp add: FWMARK_PROTECTED_FROM_VPN_def)
qed

text \<open>
  The mark a probe puts on its socket names the network it was asked for: reading the network
  back from it gives the id, for every id that fits the sixteen bits of the layout; the
  explicitly-selected flag is set and the VPN-protection flag is not.
\<close>

lemma mark_roundtrip:
  assumes "unat n < 2 ^ 16"
  shows "net_id_from_mark (mark_for_net_id n) = n \<and>
         mark_for_net_id n AND FWMARK_EXPLICITLY_SELECTED \<noteq> 0 \<and>
         mark_for_net_id n AND FWMARK_PROTECTED_FROM_VPN = 0"
proof -
  have "unat (take_bit 16 n) = unat n"
    unfolding unsigned_take_bit_eq using assms by (simp add: take_bit_nat_eq_self)
  then have "take_bit 16 n = n" by (simp only: unsigned_word_eqI)
  then show ?thesis
    by (simp add: net_id_mark_take mark_for_net_id_selected mark_for_net_id_not_protected)
qed

end
