(* ===== verification/Routes.thy ===== *)
theory Routes
  imports Net_Addr Util
begin

text \<open>
  Routes and policy-routing rules (\<^verbatim>\<open>daemon/src/collect/routes.rs\<close>). Netlink messages arrive
  parsed from the netlink library; they are records and attribute lists here, and the dumps and
  replies of the kernel are arguments. Interface names are a map from indexes.
\<close>

section \<open>Netlink messages\<close>

datatype address_family = Inet | Inet6 | OtherFamily

datatype route_address = RA_Inet bytes | RA_Inet6 bytes | RA_Other

datatype k_protocol =
  KP_Unspec | KP_IcmpRedirect | KP_Kernel | KP_Boot | KP_Static | KP_Ra | KP_Dhcp | KP_Other u8

datatype k_scope = KS_Universe | KS_Site | KS_Link | KS_Host | KS_NoWhere | KS_Other u8

datatype k_type =
  KT_Unspec | KT_Unicast | KT_Local | KT_Broadcast | KT_Anycast | KT_Multicast | KT_BlackHole
| KT_Unreachable | KT_Prohibit | KT_Throw | KT_Nat | KT_Other u8

datatype route_metric =
  M_Mtu nat | M_Lock u32 | M_Advmss nat | M_Window nat | M_Hoplimit nat | M_InitCwnd nat
| M_InitRwnd nat | M_Rtt nat | M_Other

datatype route_attr =
  A_Table nat
| A_Destination route_address
| A_Source route_address
| A_PrefSource route_address
| A_Gateway route_address
| A_Oif nat
| A_Priority nat
| A_Expires nat
| A_CacheInfo nat
| A_Metrics "route_metric list"
| A_MultiPath "multipath_hop list"
| A_Uid nat
| A_Mark nat
| A_Other
and multipath_hop = Hop (hop_attributes: "route_attr list") (hop_interface_index: nat) (hop_hops: nat) (hop_flags: nat)

record route_message =
  rm_address_family :: address_family
  rm_dst_prefix_length :: u8
  rm_src_prefix_length :: u8
  rm_table :: u8
  rm_protocol :: k_protocol
  rm_scope :: k_scope
  rm_kind :: k_type
  rm_flags :: nat
  rm_attributes :: "route_attr list"

section \<open>Wire types\<close>

datatype route_protocol =
  RP_Unspecified | RP_Redirect | RP_Kernel | RP_Boot | RP_Static | RP_Ra | RP_Dhcp | RP_Other

datatype route_scope =
  RS_Unspecified | RS_Universe | RS_Site | RS_Link | RS_Host | RS_Nowhere

datatype route_type =
  RT_Unspecified | RT_Unicast | RT_Local | RT_Broadcast | RT_Anycast | RT_Multicast | RT_Blackhole
| RT_Unreachable | RT_Prohibit | RT_Throw | RT_Nat

record next_hop =
  nh_gateway :: "ip_address option"
  nh_out_interface_index :: nat
  nh_out_interface_name :: string
  nh_weight :: nat
  nh_flags :: nat

record route_metrics =
  mt_mtu :: nat
  mt_mtu_locked :: bool
  mt_advmss :: nat
  mt_window :: nat
  mt_hoplimit :: nat
  mt_initcwnd :: nat
  mt_initrwnd :: nat
  mt_rtt_ms :: nat

record route =
  rt_family :: ip_family
  rt_destination :: "ip_prefix option"
  rt_preferred_source :: "ip_address option"
  rt_table :: nat
  rt_table_name :: string
  rt_protocol :: route_protocol
  rt_protocol_raw :: nat
  rt_scope :: route_scope
  rt_type :: route_type
  rt_priority :: nat
  rt_next_hops :: "next_hop list"
  rt_metrics :: "route_metrics option"
  rt_flags :: nat
  rt_expires_sec :: nat
  rt_is_default :: bool

type_synonym if_names = "nat \<rightharpoonup> string"

definition name_of :: "if_names \<Rightarrow> nat \<Rightarrow> string" where
  "name_of names i = (case names i of Some n \<Rightarrow> n | None \<Rightarrow> [])"

section \<open>Conversion\<close>

fun family_to_proto :: "address_family \<Rightarrow> ip_family" where
  "family_to_proto Inet = Family_V4"
| "family_to_proto Inet6 = Family_V6"
| "family_to_proto OtherFamily = Family_Unspecified"

fun route_address_to_ip :: "route_address \<Rightarrow> ip_addr option" where
  "route_address_to_ip (RA_Inet a) = Some (V4 a)"
| "route_address_to_ip (RA_Inet6 a) = Some (V6 a)"
| "route_address_to_ip RA_Other = None"

definition table_name :: "nat \<Rightarrow> string" where
  "table_name table =
     (case well_known_table_name table of Some name \<Rightarrow> name | None \<Rightarrow> ''net'' @ dec table)"

fun route_protocol_to_proto :: "k_protocol \<Rightarrow> route_protocol" where
  "route_protocol_to_proto KP_IcmpRedirect = RP_Redirect"
| "route_protocol_to_proto KP_Kernel = RP_Kernel"
| "route_protocol_to_proto KP_Boot = RP_Boot"
| "route_protocol_to_proto KP_Static = RP_Static"
| "route_protocol_to_proto KP_Ra = RP_Ra"
| "route_protocol_to_proto KP_Dhcp = RP_Dhcp"
| "route_protocol_to_proto KP_Unspec = RP_Unspecified"
| "route_protocol_to_proto (KP_Other _) = RP_Other"

text \<open>The numbers of the kernel's \<open>rtm_protocol\<close>.\<close>

fun k_protocol_u8 :: "k_protocol \<Rightarrow> u8" where
  "k_protocol_u8 KP_Unspec = 0"
| "k_protocol_u8 KP_IcmpRedirect = 1"
| "k_protocol_u8 KP_Kernel = 2"
| "k_protocol_u8 KP_Boot = 3"
| "k_protocol_u8 KP_Static = 4"
| "k_protocol_u8 KP_Ra = 9"
| "k_protocol_u8 KP_Dhcp = 16"
| "k_protocol_u8 (KP_Other v) = v"

fun route_scope_to_proto :: "k_scope \<Rightarrow> route_scope" where
  "route_scope_to_proto KS_Universe = RS_Universe"
| "route_scope_to_proto KS_Site = RS_Site"
| "route_scope_to_proto KS_Link = RS_Link"
| "route_scope_to_proto KS_Host = RS_Host"
| "route_scope_to_proto KS_NoWhere = RS_Nowhere"
| "route_scope_to_proto (KS_Other _) = RS_Unspecified"

fun route_type_to_proto :: "k_type \<Rightarrow> route_type" where
  "route_type_to_proto KT_Unicast = RT_Unicast"
| "route_type_to_proto KT_Local = RT_Local"
| "route_type_to_proto KT_Broadcast = RT_Broadcast"
| "route_type_to_proto KT_Anycast = RT_Anycast"
| "route_type_to_proto KT_Multicast = RT_Multicast"
| "route_type_to_proto KT_BlackHole = RT_Blackhole"
| "route_type_to_proto KT_Unreachable = RT_Unreachable"
| "route_type_to_proto KT_Prohibit = RT_Prohibit"
| "route_type_to_proto KT_Throw = RT_Throw"
| "route_type_to_proto KT_Nat = RT_Nat"
| "route_type_to_proto KT_Unspec = RT_Unspecified"
| "route_type_to_proto (KT_Other _) = RT_Unspecified"

fun apply_metric :: "route_metric \<Rightarrow> route_metrics \<Rightarrow> route_metrics" where
  "apply_metric (M_Mtu v) m = m\<lparr>mt_mtu := v\<rparr>"
| "apply_metric (M_Lock v) m = m\<lparr>mt_mtu_locked := (v AND push_bit 2 1 \<noteq> 0)\<rparr>"
| "apply_metric (M_Advmss v) m = m\<lparr>mt_advmss := v\<rparr>"
| "apply_metric (M_Window v) m = m\<lparr>mt_window := v\<rparr>"
| "apply_metric (M_Hoplimit v) m = m\<lparr>mt_hoplimit := v\<rparr>"
| "apply_metric (M_InitCwnd v) m = m\<lparr>mt_initcwnd := v\<rparr>"
| "apply_metric (M_InitRwnd v) m = m\<lparr>mt_initrwnd := v\<rparr>"
| "apply_metric (M_Rtt v) m = m\<lparr>mt_rtt_ms := v\<rparr>"
| "apply_metric M_Other m = m"

definition no_metrics :: route_metrics where
  "no_metrics = \<lparr>mt_mtu = 0, mt_mtu_locked = False, mt_advmss = 0, mt_window = 0, mt_hoplimit = 0,
     mt_initcwnd = 0, mt_initrwnd = 0, mt_rtt_ms = 0\<rparr>"

fun hop_gateway :: "route_attr list \<Rightarrow> ip_addr option \<Rightarrow> ip_addr option" where
  "hop_gateway [] gw = gw"
| "hop_gateway (A_Gateway g # as) gw = hop_gateway as (route_address_to_ip g)"
| "hop_gateway (_ # as) gw = hop_gateway as gw"

definition hop_to_proto :: "if_names \<Rightarrow> multipath_hop \<Rightarrow> next_hop" where
  "hop_to_proto names h =
     \<lparr>nh_gateway = map_option from_ip (hop_gateway (hop_attributes h) None),
      nh_out_interface_index = hop_interface_index h,
      nh_out_interface_name = name_of names (hop_interface_index h),
      nh_weight = hop_hops h + 1, nh_flags = hop_flags h\<rparr>"

text \<open>The variables of the attribute loop of \<open>route_to_proto\<close>.\<close>

record route_vars =
  rv_table :: nat
  rv_destination :: "ip_addr option"
  rv_preferred_source :: "ip_addr option"
  rv_gateway :: "ip_addr option"
  rv_oif :: nat
  rv_priority :: nat
  rv_metrics :: route_metrics
  rv_expires :: nat
  rv_multipath :: "next_hop list"

fun route_attr_step :: "if_names \<Rightarrow> route_attr \<Rightarrow> route_vars \<Rightarrow> route_vars" where
  "route_attr_step names (A_Table t) v = v\<lparr>rv_table := t\<rparr>"
| "route_attr_step names (A_Destination a) v = v\<lparr>rv_destination := route_address_to_ip a\<rparr>"
| "route_attr_step names (A_PrefSource a) v = v\<lparr>rv_preferred_source := route_address_to_ip a\<rparr>"
| "route_attr_step names (A_Gateway a) v = v\<lparr>rv_gateway := route_address_to_ip a\<rparr>"
| "route_attr_step names (A_Oif i) v = v\<lparr>rv_oif := i\<rparr>"
| "route_attr_step names (A_Priority p) v = v\<lparr>rv_priority := p\<rparr>"
| "route_attr_step names (A_Expires e) v = v\<lparr>rv_expires := e\<rparr>"
| "route_attr_step names (A_CacheInfo e) v = (if e \<noteq> 0 then v\<lparr>rv_expires := e\<rparr> else v)"
| "route_attr_step names (A_Metrics ms) v = v\<lparr>rv_metrics := fold apply_metric ms (rv_metrics v)\<rparr>"
| "route_attr_step names (A_MultiPath hops) v =
     v\<lparr>rv_multipath := rv_multipath v @ map (hop_to_proto names) hops\<rparr>"
| "route_attr_step names _ v = v"

definition route_vars_init :: "route_message \<Rightarrow> route_vars" where
  "route_vars_init msg =
     \<lparr>rv_table = unat (rm_table msg), rv_destination = None, rv_preferred_source = None,
      rv_gateway = None, rv_oif = 0, rv_priority = 0, rv_metrics = no_metrics, rv_expires = 0,
      rv_multipath = []\<rparr>"

definition route_to_proto :: "if_names \<Rightarrow> route_message \<Rightarrow> route" where
  "route_to_proto names msg =
     (let v = fold (route_attr_step names) (rm_attributes msg) (route_vars_init msg);
          next_hops =
            (if rv_multipath v = []
             then [\<lparr>nh_gateway = map_option from_ip (rv_gateway v), nh_out_interface_index = rv_oif v,
                    nh_out_interface_name = name_of names (rv_oif v), nh_weight = 1, nh_flags = 0\<rparr>]
             else rv_multipath v);
          prefix_length = rm_dst_prefix_length msg;
          is_default = (prefix_length = 0 \<and> rv_destination v = None)
      in \<lparr>rt_family = family_to_proto (rm_address_family msg),
          rt_destination = Some (case rv_destination v of
              Some ip \<Rightarrow> prefix_new ip prefix_length
            | None \<Rightarrow> \<lparr>address = None, prefix_len = unat prefix_length\<rparr>),
          rt_preferred_source = map_option from_ip (rv_preferred_source v),
          rt_table = rv_table v, rt_table_name = table_name (rv_table v),
          rt_protocol = route_protocol_to_proto (rm_protocol msg),
          rt_protocol_raw = unat (k_protocol_u8 (rm_protocol msg)),
          rt_scope = route_scope_to_proto (rm_scope msg), rt_type = route_type_to_proto (rm_kind msg),
          rt_priority = rv_priority v, rt_next_hops = next_hops, rt_metrics = Some (rv_metrics v),
          rt_flags = rm_flags msg, rt_expires_sec = rv_expires v, rt_is_default = is_default\<rparr>)"

section \<open>Dumping routes\<close>

datatype ip_version = Ver4 | Ver6

fun versions_of :: "ip_family \<Rightarrow> ip_version list" where
  "versions_of Family_V4 = [Ver4]"
| "versions_of Family_V6 = [Ver6]"
| "versions_of Family_Unspecified = [Ver4, Ver6]"

definition route_wanted :: "nat \<Rightarrow> bool \<Rightarrow> nat \<Rightarrow> route \<Rightarrow> bool" where
  "route_wanted table only_default interface_index r =
     (if table \<noteq> 0 \<and> rt_table r \<noteq> table then False
      else if only_default \<and> \<not> rt_is_default r then False
      else if interface_index \<noteq> 0 \<and>
              \<not> list_ex (\<lambda>nh. nh_out_interface_index nh = interface_index) (rt_next_hops r) then False
      else True)"

definition dest_len :: "route \<Rightarrow> nat" where
  "dest_len r = (case rt_destination r of Some d \<Rightarrow> prefix_len d | None \<Rightarrow> 0)"

definition route_cmp :: "route \<Rightarrow> route \<Rightarrow> ordering" where
  "route_cmp a b =
     then_cmp (then_cmp (cmp_of (rt_table a) (rt_table b)) (cmp_of (dest_len b) (dest_len a)))
       (cmp_of (rt_priority a) (rt_priority b))"

fun dump_versions :: "('v \<Rightarrow> string + 'm list) \<Rightarrow> 'v list \<Rightarrow> string + 'm list" where
  "dump_versions dump [] = Inr []"
| "dump_versions dump (v # vs) =
     (case dump v of
        Inl e \<Rightarrow> Inl e
      | Inr ms \<Rightarrow> (case dump_versions dump vs of Inl e \<Rightarrow> Inl e | Inr rest \<Rightarrow> Inr (ms @ rest)))"

record route_dump =
  rd_routes :: "route list"
  rd_table_names :: "nat \<rightharpoonup> string"

definition table_names_of :: "route list \<Rightarrow> (nat \<rightharpoonup> string)" where
  "table_names_of rs =
     fold (\<lambda>r m. if rt_table_name r \<noteq> [] then m(rt_table r \<mapsto> rt_table_name r) else m) rs Map.empty"

definition get_routes ::
  "(ip_version \<Rightarrow> string + route_message list) \<Rightarrow> ip_family \<Rightarrow> nat \<Rightarrow> bool \<Rightarrow> nat \<Rightarrow> if_names \<Rightarrow> string + route_dump" where
  "get_routes dump family table only_default interface_index names =
     (case dump_versions dump (versions_of family) of
        Inl _ \<Rightarrow> Inl ''RTM_GETROUTE dump failed''
      | Inr msgs \<Rightarrow>
          let routes = sort_by route_cmp
                (filter (route_wanted table only_default interface_index) (map (route_to_proto names) msgs))
          in Inr \<lparr>rd_routes = routes, rd_table_names = table_names_of routes\<rparr>)"

section \<open>Rules\<close>

datatype k_action =
  KA_ToTable | KA_Goto | KA_Nop | KA_Blackhole | KA_Unreachable | KA_Prohibit | KA_Other u8

datatype rule_action =
  RA_Unspecified | RA_ToTable | RA_Goto | RA_Nop | RA_Blackhole | RA_Unreachable | RA_Prohibit

datatype rule_attr =
  R_Priority nat
| R_Table nat
| R_FwMark u32
| R_FwMask u32
| R_Iifname string
| R_Oifname string
| R_Source ip_addr
| R_Destination ip_addr
| R_UidRange nat nat
| R_SuppressPrefixLen nat
| R_SuppressIfGroup nat
| R_Protocol k_protocol
| R_Goto nat
| R_Other

record rule_message =
  um_family :: address_family
  um_src_len :: u8
  um_dst_len :: u8
  um_table :: u8
  um_action :: k_action
  um_tos :: nat
  um_invert :: bool
  um_attributes :: "rule_attr list"

record routing_rule =
  rl_family :: ip_family
  rl_priority :: nat
  rl_source :: "ip_prefix option"
  rl_destination :: "ip_prefix option"
  rl_input_interface :: string
  rl_output_interface :: string
  rl_fwmark :: u32
  rl_fwmask :: u32
  rl_has_fwmark :: bool
  rl_uid_range_start :: nat
  rl_uid_range_end :: nat
  rl_has_uid_range :: bool
  rl_tos :: nat
  rl_table :: nat
  rl_table_name :: string
  rl_action :: rule_action
  rl_suppress_prefix_len :: nat
  rl_has_suppress_prefix_len :: bool
  rl_suppress_interface_group :: nat
  rl_has_suppress_interface_group :: bool
  rl_invert :: bool
  rl_protocol :: nat

fun rule_action_to_proto :: "k_action \<Rightarrow> rule_action" where
  "rule_action_to_proto KA_ToTable = RA_ToTable"
| "rule_action_to_proto KA_Goto = RA_Goto"
| "rule_action_to_proto KA_Nop = RA_Nop"
| "rule_action_to_proto KA_Blackhole = RA_Blackhole"
| "rule_action_to_proto KA_Unreachable = RA_Unreachable"
| "rule_action_to_proto KA_Prohibit = RA_Prohibit"
| "rule_action_to_proto (KA_Other _) = RA_Unspecified"

fun rule_attr_step :: "rule_message \<Rightarrow> rule_attr \<Rightarrow> routing_rule \<Rightarrow> routing_rule" where
  "rule_attr_step msg (R_Priority p) r = r\<lparr>rl_priority := p\<rparr>"
| "rule_attr_step msg (R_Table t) r = r\<lparr>rl_table := t\<rparr>"
| "rule_attr_step msg (R_FwMark m) r = r\<lparr>rl_fwmark := m, rl_has_fwmark := True\<rparr>"
| "rule_attr_step msg (R_FwMask m) r = r\<lparr>rl_fwmask := m\<rparr>"
| "rule_attr_step msg (R_Iifname n) r = r\<lparr>rl_input_interface := n\<rparr>"
| "rule_attr_step msg (R_Oifname n) r = r\<lparr>rl_output_interface := n\<rparr>"
| "rule_attr_step msg (R_Source a) r = r\<lparr>rl_source := Some (prefix_new a (um_src_len msg))\<rparr>"
| "rule_attr_step msg (R_Destination a) r = r\<lparr>rl_destination := Some (prefix_new a (um_dst_len msg))\<rparr>"
| "rule_attr_step msg (R_UidRange a b) r =
     r\<lparr>rl_uid_range_start := a, rl_uid_range_end := b, rl_has_uid_range := True\<rparr>"
| "rule_attr_step msg (R_SuppressPrefixLen v) r =
     r\<lparr>rl_suppress_prefix_len := v, rl_has_suppress_prefix_len := True\<rparr>"
| "rule_attr_step msg (R_SuppressIfGroup v) r =
     r\<lparr>rl_suppress_interface_group := v, rl_has_suppress_interface_group := True\<rparr>"
| "rule_attr_step msg (R_Protocol p) r = r\<lparr>rl_protocol := unat (k_protocol_u8 p)\<rparr>"
| "rule_attr_step msg (R_Goto g) r = r\<lparr>rl_table := g\<rparr>"
| "rule_attr_step msg R_Other r = r"

definition rule_init :: "rule_message \<Rightarrow> routing_rule" where
  "rule_init msg =
     \<lparr>rl_family = family_to_proto (um_family msg), rl_priority = 0, rl_source = None,
      rl_destination = None, rl_input_interface = [], rl_output_interface = [], rl_fwmark = 0,
      rl_fwmask = 0, rl_has_fwmark = False, rl_uid_range_start = 0, rl_uid_range_end = 0,
      rl_has_uid_range = False, rl_tos = um_tos msg, rl_table = unat (um_table msg),
      rl_table_name = [], rl_action = rule_action_to_proto (um_action msg),
      rl_suppress_prefix_len = 0, rl_has_suppress_prefix_len = False,
      rl_suppress_interface_group = 0, rl_has_suppress_interface_group = False,
      rl_invert = um_invert msg, rl_protocol = 0\<rparr>"

definition rule_to_proto :: "rule_message \<Rightarrow> routing_rule" where
  "rule_to_proto msg =
     (let r = fold (rule_attr_step msg) (um_attributes msg) (rule_init msg)
      in r\<lparr>rl_table_name := table_name (rl_table r)\<rparr>)"

definition rule_can_match_uid :: "routing_rule \<Rightarrow> nat \<Rightarrow> bool" where
  "rule_can_match_uid r uid =
     (if \<not> rl_has_uid_range r then True
      else let in_range = (uid \<ge> rl_uid_range_start r \<and> uid \<le> rl_uid_range_end r)
           in if rl_invert r then \<not> in_range else in_range)"

definition rule_cmp :: "routing_rule \<Rightarrow> routing_rule \<Rightarrow> ordering" where
  "rule_cmp a b =
     then_cmp (cmp_of (ip_family_i32 (rl_family a)) (ip_family_i32 (rl_family b)))
       (cmp_of (rl_priority a) (rl_priority b))"

definition get_rules ::
  "(ip_version \<Rightarrow> string + rule_message list) \<Rightarrow> ip_family \<Rightarrow> nat option \<Rightarrow> string + routing_rule list" where
  "get_rules dump family uid_filter =
     (case dump_versions dump (versions_of family) of
        Inl _ \<Rightarrow> Inl ''RTM_GETRULE dump failed''
      | Inr msgs \<Rightarrow>
          Inr (sort_by rule_cmp
            (filter (\<lambda>r. case uid_filter of Some uid \<Rightarrow> rule_can_match_uid r uid | None \<Rightarrow> True)
              (map rule_to_proto msgs))))"

section \<open>Kernel route lookup\<close>

record route_lookup_result =
  lk_destination :: "ip_address option"
  lk_source_hint :: "ip_address option"
  lk_uid :: nat
  lk_fwmark :: nat
  lk_out_interface_index :: nat
  lk_route :: "route option"
  lk_error :: "error option"
  lk_table :: nat

fun ip_route_address :: "ip_addr \<Rightarrow> route_address" where
  "ip_route_address (V4 a) = RA_Inet a"
| "ip_route_address (V6 a) = RA_Inet6 a"

definition host_bits :: "ip_addr \<Rightarrow> u8" where
  "host_bits ip = (if is_ipv4 ip then 32 else 128)"

definition RTM_F_LOOKUP_TABLE :: nat where "RTM_F_LOOKUP_TABLE = 0x1000"

definition lookup_request ::
  "ip_addr \<Rightarrow> ip_addr option \<Rightarrow> nat option \<Rightarrow> nat option \<Rightarrow> nat \<Rightarrow> route_message" where
  "lookup_request destination source_hint uid fwmark oif =
     \<lparr>rm_address_family = (if is_ipv4 destination then Inet else Inet6),
      rm_dst_prefix_length = host_bits destination,
      rm_src_prefix_length = (case source_hint of Some src \<Rightarrow> host_bits src | None \<Rightarrow> 0),
      rm_table = 0, rm_protocol = KP_Unspec, rm_scope = KS_Universe, rm_kind = KT_Unspec,
      rm_flags = RTM_F_LOOKUP_TABLE,
      rm_attributes =
        [A_Destination (ip_route_address destination)]
        @ (case source_hint of Some src \<Rightarrow> [A_Source (ip_route_address src)] | None \<Rightarrow> [])
        @ (case uid of Some u \<Rightarrow> [A_Uid u] | None \<Rightarrow> [])
        @ (case fwmark of Some m \<Rightarrow> [A_Mark m] | None \<Rightarrow> [])
        @ (if oif \<noteq> 0 then [A_Oif oif] else [])\<rparr>"

datatype lookup_reply = LR_NewRoute route_message | LR_Error string | LR_OtherPayload

fun first_route :: "ip_addr \<Rightarrow> lookup_reply list \<Rightarrow> string + route_message" where
  "first_route destination [] = Inl (''kernel returned no route for '' @ show_ip destination)"
| "first_route destination (LR_NewRoute m # rs) = Inr m"
| "first_route destination (LR_Error e # rs) = Inl e"
| "first_route destination (LR_OtherPayload # rs) = first_route destination rs"

definition do_route_lookup ::
  "(route_message \<Rightarrow> string + lookup_reply list) \<Rightarrow> ip_addr \<Rightarrow> ip_addr option \<Rightarrow> nat option \<Rightarrow> nat option \<Rightarrow> nat
   \<Rightarrow> string + route_message" where
  "do_route_lookup request destination source_hint uid fwmark oif =
     (case request (lookup_request destination source_hint uid fwmark oif) of
        Inl e \<Rightarrow> Inl (''failed to send RTM_GETROUTE: '' @ e)
      | Inr replies \<Rightarrow> first_route destination replies)"

definition route_lookup ::
  "(route_message \<Rightarrow> string + lookup_reply list) \<Rightarrow> ip_addr \<Rightarrow> ip_addr option \<Rightarrow> nat option \<Rightarrow> nat option \<Rightarrow> nat
   \<Rightarrow> if_names \<Rightarrow> route_lookup_result" where
  "route_lookup request destination source_hint uid fwmark oif names =
     (let lookup =
        \<lparr>lk_destination = Some (from_ip destination), lk_source_hint = map_option from_ip source_hint,
         lk_uid = (case uid of Some u \<Rightarrow> u | None \<Rightarrow> 0), lk_fwmark = (case fwmark of Some m \<Rightarrow> m | None \<Rightarrow> 0),
         lk_out_interface_index = oif, lk_route = None, lk_error = None, lk_table = 0\<rparr>
      in case do_route_lookup request destination source_hint uid fwmark oif of
           Inr msg \<Rightarrow>
             (let r = route_to_proto names msg in lookup\<lparr>lk_table := rt_table r, lk_route := Some r\<rparr>)
         | Inl e \<Rightarrow>
             lookup\<lparr>lk_error := Some (with_detail (error_kernel e) (''RTM_GETROUTE to '' @ show_ip destination))\<rparr>)"

section \<open>Facts\<close>

interpretation route_order: rust_ord route_cmp
  unfolding route_cmp_def
  by (intro rust_ord_then rust_ord_key rust_ord_key_desc)

interpretation rule_order: rust_ord rule_cmp
  unfolding rule_cmp_def by (intro rust_ord_then rust_ord_key)

lemma route_cmp_not_Greater:
  "route_cmp a b \<noteq> Greater \<longleftrightarrow>
   rt_table a < rt_table b \<or>
   rt_table a = rt_table b \<and>
     (dest_len b < dest_len a \<or> dest_len a = dest_len b \<and> rt_priority a \<le> rt_priority b)"
  by (auto simp: route_cmp_def cmp_of_def)

lemma table_name_not_Nil [simp]: "table_name t \<noteq> []"
  by (simp add: table_name_def well_known_table_name_def)

lemma rt_table_name_to_proto: "rt_table_name (route_to_proto names m) = table_name (rt_table (route_to_proto names m))"
  by (simp add: route_to_proto_def Let_def)

lemma table_names_fold:
  assumes "\<forall>r\<in>set rs. rt_table_name r = table_name (rt_table r)"
  shows "fold (\<lambda>r m. if rt_table_name r \<noteq> [] then m(rt_table r \<mapsto> rt_table_name r) else m) rs m0 t =
         (if t \<in> rt_table ` set rs then Some (table_name t) else m0 t)"
  using assms by (induction rs arbitrary: m0) auto

lemma rule_of_attrs_family:
  "rl_family (fold (rule_attr_step msg) as r) = rl_family r"
  "rl_action (fold (rule_attr_step msg) as r) = rl_action r"
  "rl_invert (fold (rule_attr_step msg) as r) = rl_invert r"
proof (induction as arbitrary: r)
  case (Cons a as)
  { case 1 then show ?case using Cons by (cases a) simp_all }
  { case 2 then show ?case using Cons by (cases a) simp_all }
  { case 3 then show ?case using Cons by (cases a) simp_all }
qed simp_all

text \<open>
  The route dump is complete, filtered and ordered. What is returned is a permutation of
  exactly those converted kernel routes that the request asks for; they are sorted by table, then
  most specific prefix first, then metric; routes that tie keep the kernel's order; and the table
  names cover exactly the tables that occur, each under its own name.
\<close>

lemma get_routes_sorted:
  assumes "get_routes dump family table only_default ifindex names = Inr d"
  shows "\<exists>msgs. dump_versions dump (versions_of family) = Inr msgs \<and>
     mset (rd_routes d) = mset (filter (route_wanted table only_default ifindex) (map (route_to_proto names) msgs)) \<and>
     sorted_wrt (\<lambda>a b. rt_table a < rt_table b \<or> rt_table a = rt_table b \<and>
        (dest_len b < dest_len a \<or> dest_len a = dest_len b \<and> rt_priority a \<le> rt_priority b)) (rd_routes d) \<and>
     (\<forall>r. filter (\<lambda>x. route_cmp r x = Equal) (rd_routes d) =
          filter (\<lambda>x. route_cmp r x = Equal) (filter (route_wanted table only_default ifindex) (map (route_to_proto names) msgs))) \<and>
     (\<forall>t. rd_table_names d t = (if t \<in> rt_table ` set (rd_routes d) then Some (table_name t) else None))"
proof -
  obtain msgs where m: "dump_versions dump (versions_of family) = Inr msgs"
    and r: "rd_routes d = sort_by route_cmp
      (filter (route_wanted table only_default ifindex) (map (route_to_proto names) msgs))"
    and t: "rd_table_names d = table_names_of (rd_routes d)"
    using assms by (auto simp: get_routes_def Let_def split: sum.splits)
  have "\<forall>x\<in>set (rd_routes d). rt_table_name x = table_name (rt_table x)"
    by (auto simp: r rt_table_name_to_proto)
  then have "rd_table_names d k = (if k \<in> rt_table ` set (rd_routes d) then Some (table_name k) else None)" for k
    unfolding t table_names_of_def by (simp add: table_names_fold)
  moreover have "sorted_wrt (\<lambda>a b. route_cmp a b \<noteq> Greater) (rd_routes d)"
    unfolding r by (rule route_order.sort_by_sorted)
  ultimately show ?thesis
    using m route_order.sort_by_stable r unfolding route_cmp_not_Greater by (intro exI [of _ msgs]) simp
qed

definition demo_dump :: "ip_version \<Rightarrow> string + route_message list" where
  "demo_dump v = Inr (case v of
       Ver6 \<Rightarrow> []
     | Ver4 \<Rightarrow>
         [\<lparr>rm_address_family = Inet, rm_dst_prefix_length = 0, rm_src_prefix_length = 0, rm_table = 0,
           rm_protocol = KP_Static, rm_scope = KS_Universe, rm_kind = KT_Unicast, rm_flags = 0,
           rm_attributes = [A_Table 1002, A_Gateway (RA_Inet [192, 168, 1, 1]), A_Oif 3]\<rparr>,
          \<lparr>rm_address_family = Inet, rm_dst_prefix_length = 24, rm_src_prefix_length = 0, rm_table = 0,
           rm_protocol = KP_Kernel, rm_scope = KS_Link, rm_kind = KT_Unicast, rm_flags = 0,
           rm_attributes = [A_Table 1002, A_Destination (RA_Inet [192, 168, 1, 0]), A_Oif 3]\<rparr>,
          \<lparr>rm_address_family = Inet, rm_dst_prefix_length = 8, rm_src_prefix_length = 0, rm_table = 254,
           rm_protocol = KP_Kernel, rm_scope = KS_Host, rm_kind = KT_Local, rm_flags = 0,
           rm_attributes = [A_Destination (RA_Inet [127, 0, 0, 0]), A_Oif 1]\<rparr>])"

end
