(* ===== verification/Sockets.thy ===== *)
theory Sockets
  imports Routes Util
begin

text \<open>
  Socket diagnostics (\<^verbatim>\<open>daemon/src/collect/sockets.rs\<close>): the inet_diag dump with its receive
  loop, the conversion of rows, filtering with the row limit and the summary. The netlink socket
  is an environment that answers a request with the datagrams received; deserialising one
  netlink message is the library's and a parameter. Errors are the text that reaches the client,
  the outermost context; the cause goes to the log detail only.
\<close>

section \<open>Types\<close>

datatype tcp_state =
  TS_Unspecified | TS_Established | TS_SynSent | TS_SynRecv | TS_FinWait1 | TS_FinWait2 | TS_TimeWait
| TS_Close | TS_CloseWait | TS_LastAck | TS_Listen | TS_Closing | TS_NewSynRecv

definition tcp_states :: "tcp_state list" where
  "tcp_states = [TS_Unspecified, TS_Established, TS_SynSent, TS_SynRecv, TS_FinWait1, TS_FinWait2,
     TS_TimeWait, TS_Close, TS_CloseWait, TS_LastAck, TS_Listen, TS_Closing, TS_NewSynRecv]"

definition tcp_state_try_from :: "int \<Rightarrow> tcp_state option" where
  "tcp_state_try_from i = (if 0 \<le> i \<and> i < 13 then Some (tcp_states ! nat i) else None)"

fun tcp_state_name :: "tcp_state \<Rightarrow> string" where
  "tcp_state_name TS_Unspecified = ''TCP_STATE_UNSPECIFIED''"
| "tcp_state_name TS_Established = ''TCP_STATE_ESTABLISHED''"
| "tcp_state_name TS_SynSent = ''TCP_STATE_SYN_SENT''"
| "tcp_state_name TS_SynRecv = ''TCP_STATE_SYN_RECV''"
| "tcp_state_name TS_FinWait1 = ''TCP_STATE_FIN_WAIT1''"
| "tcp_state_name TS_FinWait2 = ''TCP_STATE_FIN_WAIT2''"
| "tcp_state_name TS_TimeWait = ''TCP_STATE_TIME_WAIT''"
| "tcp_state_name TS_Close = ''TCP_STATE_CLOSE''"
| "tcp_state_name TS_CloseWait = ''TCP_STATE_CLOSE_WAIT''"
| "tcp_state_name TS_LastAck = ''TCP_STATE_LAST_ACK''"
| "tcp_state_name TS_Listen = ''TCP_STATE_LISTEN''"
| "tcp_state_name TS_Closing = ''TCP_STATE_CLOSING''"
| "tcp_state_name TS_NewSynRecv = ''TCP_STATE_NEW_SYN_RECV''"

datatype socket_protocol = SP_Unspecified | SP_Tcp | SP_Udp

definition socket_protocol_try_from :: "int \<Rightarrow> socket_protocol option" where
  "socket_protocol_try_from i =
     (if i = 0 then Some SP_Unspecified else if i = 1 then Some SP_Tcp else if i = 2 then Some SP_Udp else None)"

record k_tcp_info =
  ki_rto :: nat
  ki_ato :: nat
  ki_snd_mss :: nat
  ki_rcv_mss :: nat
  ki_unacked :: nat
  ki_sacked :: nat
  ki_lost :: nat
  ki_retrans :: nat
  ki_retransmits :: nat
  ki_total_retrans :: nat
  ki_rtt :: nat
  ki_rttvar :: nat
  ki_snd_cwnd :: nat
  ki_snd_ssthresh :: nat
  ki_advmss :: nat
  ki_pmtu :: nat
  ki_last_data_sent :: nat
  ki_last_data_recv :: nat
  ki_last_ack_recv :: nat
  ki_bytes_sent :: nat
  ki_bytes_received :: nat
  ki_delivered :: nat
  ki_ca_state :: nat
  ki_probes :: nat
  ki_backoff :: nat

record tcp_info =
  ti_rto_us :: nat
  ti_ato_us :: nat
  ti_snd_mss :: nat
  ti_rcv_mss :: nat
  ti_unacked :: nat
  ti_sacked :: nat
  ti_lost :: nat
  ti_retrans :: nat
  ti_total_retrans :: nat
  ti_rtt_us :: nat
  ti_rtt_var_us :: nat
  ti_snd_cwnd :: nat
  ti_snd_ssthresh :: nat
  ti_advmss :: nat
  ti_pmtu :: nat
  ti_last_data_sent_ms :: nat
  ti_last_data_recv_ms :: nat
  ti_last_ack_recv_ms :: nat
  ti_bytes_sent :: nat
  ti_bytes_received :: nat
  ti_delivered :: nat
  ti_ca_state :: nat
  ti_probes :: nat
  ti_backoff :: nat
  ti_retransmitting :: bool

datatype diag_timer = T_Retransmit nat nat | T_KeepAlive nat | T_TimeWait | T_Probe nat

datatype diag_nla = NL_Mark u32 | NL_Congestion string | NL_TcpInfo k_tcp_info | NL_Other

record inet_response =
  ir_family :: nat
  ir_state :: nat
  ir_timer :: "diag_timer option"
  ir_source_address :: ip_addr
  ir_source_port :: nat
  ir_destination_address :: ip_addr
  ir_destination_port :: nat
  ir_interface_id :: nat
  ir_cookie :: nat
  ir_uid :: nat
  ir_inode :: nat
  ir_recv_queue :: nat
  ir_send_queue :: nat
  ir_nlas :: "diag_nla list"

record socket =
  so_family :: ip_family
  so_protocol :: socket_protocol
  so_state :: tcp_state
  so_local_address :: "ip_address option"
  so_local_port :: nat
  so_remote_address :: "ip_address option"
  so_remote_port :: nat
  so_uid :: nat
  so_inode :: nat
  so_interface_index :: nat
  so_interface_name :: string
  so_rx_queue :: nat
  so_tx_queue :: nat
  so_mark :: u32
  so_has_mark :: bool
  so_net_id :: u32
  so_tcp_info :: "tcp_info option"
  so_congestion_control :: string
  so_timer :: nat
  so_timer_expires_ms :: nat
  so_retransmits :: nat
  so_socket_cookie :: nat
  so_package_names :: "string list"

record socket_filter =
  sf_protocols :: "int list"
  sf_families :: "int list"
  sf_states :: "int list"
  sf_uids :: "nat list"
  sf_interface_indexes :: "nat list"
  sf_local_port :: nat
  sf_remote_port :: nat
  sf_include_tcp_info :: bool
  sf_limit :: nat

definition any_socket :: socket_filter where
  "any_socket = \<lparr>sf_protocols = [], sf_families = [], sf_states = [], sf_uids = [],
     sf_interface_indexes = [], sf_local_port = 0, sf_remote_port = 0, sf_include_tcp_info = False,
     sf_limit = 0\<rparr>"

record socket_summary =
  ss_total :: nat
  ss_by_state :: "string \<Rightarrow> nat"
  ss_established :: nat
  ss_syn_sent :: nat
  ss_close_wait :: nat
  ss_fin_wait :: nat
  ss_time_wait :: nat
  ss_listen :: nat
  ss_v4_count :: nat
  ss_v6_count :: nat
  ss_retransmitting :: nat

record socket_dump =
  sd_sockets :: "socket list"
  sd_summary :: socket_summary
  sd_truncated :: bool

section \<open>What to ask for\<close>

definition DEFAULT_SOCKET_LIMIT :: nat where "DEFAULT_SOCKET_LIMIT = 4096"

text \<open>The numbers of the protocols and address families in the kernel's interface.\<close>

definition IPPROTO_TCP :: nat where "IPPROTO_TCP = 6"
definition IPPROTO_UDP :: nat where "IPPROTO_UDP = 17"
definition AF_INET :: nat where "AF_INET = 2"
definition AF_INET6 :: nat where "AF_INET6 = 10"

definition wanted_protocols :: "socket_filter \<Rightarrow> nat list" where
  "wanted_protocols f =
     (if sf_protocols f = [] then [IPPROTO_TCP, IPPROTO_UDP]
      else List.map_filter (\<lambda>p. case socket_protocol_try_from p of
             Some SP_Tcp \<Rightarrow> Some IPPROTO_TCP
           | Some SP_Udp \<Rightarrow> Some IPPROTO_UDP
           | _ \<Rightarrow> None) (sf_protocols f))"

definition wanted_families :: "socket_filter \<Rightarrow> nat list" where
  "wanted_families f =
     (if sf_families f = [] then [AF_INET, AF_INET6]
      else List.map_filter (\<lambda>p. case ip_family_try_from p of
             Some Family_V4 \<Rightarrow> Some AF_INET
           | Some Family_V6 \<Rightarrow> Some AF_INET6
           | _ \<Rightarrow> None) (sf_families f))"

text \<open>State flags as the list of states asked for; \<open>None\<close> is the library's \<open>all()\<close>.\<close>

fun state_flag :: "tcp_state \<Rightarrow> tcp_state list" where
  "state_flag TS_Unspecified = []"
| "state_flag TS_NewSynRecv = []"
| "state_flag s = [s]"

definition state_flags :: "socket_filter \<Rightarrow> nat \<Rightarrow> tcp_state list option" where
  "state_flags f protocol =
     (if protocol = IPPROTO_UDP then None
      else if sf_states f = [] then None
      else let flags = concat (map (\<lambda>s. case tcp_state_try_from s of None \<Rightarrow> [] | Some st \<Rightarrow> state_flag st) (sf_states f))
           in if flags = [] then None else Some flags)"

record inet_request =
  rq_family :: nat
  rq_protocol :: nat
  rq_info_and_cong :: bool
  rq_states :: "tcp_state list option"

definition dump_request :: "socket_filter \<Rightarrow> nat \<Rightarrow> nat \<Rightarrow> inet_request" where
  "dump_request f family protocol =
     \<lparr>rq_family = family, rq_protocol = protocol,
      rq_info_and_cong = (sf_include_tcp_info f \<and> protocol = IPPROTO_TCP),
      rq_states = state_flags f protocol\<rparr>"

section \<open>Receiving a dump\<close>

datatype diag_payload =
  DP_Done | DP_Error "int option" string | DP_Response inet_response | DP_Other

text \<open>A netlink message: its header length and its payload.\<close>

type_synonym deserialize = "bytes \<Rightarrow> string + nat \<times> diag_payload"

definition ENOENT :: int where "ENOENT = 2"

text \<open>One datagram: \<open>True\<close> when the dump is complete, and the rows so far.\<close>

function parse_datagram ::
  "deserialize \<Rightarrow> bytes \<Rightarrow> inet_response list \<Rightarrow> string + bool \<times> inet_response list" where
  "parse_datagram deser buf out =
     (if buf = [] then Inr (False, out)
      else case deser buf of
        Inl _ \<Rightarrow> Inl ''malformed inet_diag response''
      | Inr (len, payload) \<Rightarrow>
          if len = 0 then Inr (True, out)
          else (case payload of
              DP_Done \<Rightarrow> Inr (True, out)
            | DP_Error code text \<Rightarrow>
                if (case code of Some c \<Rightarrow> c | None \<Rightarrow> 0) = - ENOENT then Inr (True, out)
                else Inl (''inet_diag returned an error: '' @ text)
            | DP_Response r \<Rightarrow> parse_datagram deser (drop len buf) (out @ [r])
            | DP_Other \<Rightarrow> parse_datagram deser (drop len buf) out))"
  by pat_completeness auto
termination by (relation "measure (\<lambda>(_, buf, _). length buf)") auto

declare parse_datagram.simps [simp del]

text \<open>The receive loop over what the socket yields; \<open>None\<close> when it yields nothing more.\<close>

fun dump_recv ::
  "deserialize \<Rightarrow> (string + bytes) list \<Rightarrow> inet_response list \<Rightarrow> (string + inet_response list) option" where
  "dump_recv deser [] out = None"
| "dump_recv deser (Inl e # evs) out = Some (Inl ''failed to read the inet_diag dump'')"
| "dump_recv deser (Inr buf # evs) out =
     (case parse_datagram deser buf out of
        Inl e \<Rightarrow> Some (Inl e)
      | Inr (True, rows) \<Rightarrow> Some (Inr rows)
      | Inr (False, rows) \<Rightarrow> dump_recv deser evs rows)"

record diag_env =
  de_open :: "string option"
  de_bind :: "string option"
  de_exchange :: "inet_request \<Rightarrow> string + (string + bytes) list"
  de_deserialize :: deserialize

definition diag_dump ::
  "diag_env \<Rightarrow> nat \<Rightarrow> nat \<Rightarrow> socket_filter \<Rightarrow> (string + inet_response list) option" where
  "diag_dump env family protocol f =
     (case de_exchange env (dump_request f family protocol) of
        Inl _ \<Rightarrow> Some (Inl ''failed to send the inet_diag dump request'')
      | Inr evs \<Rightarrow> dump_recv (de_deserialize env) evs [])"

section \<open>Rows\<close>

definition tcp_state_to_proto :: "nat \<Rightarrow> tcp_state" where
  "tcp_state_to_proto s =
     (if s = 1 then TS_Established else if s = 2 then TS_SynSent else if s = 3 then TS_SynRecv
      else if s = 4 then TS_FinWait1 else if s = 5 then TS_FinWait2 else if s = 6 then TS_TimeWait
      else if s = 7 then TS_Close else if s = 8 then TS_CloseWait else if s = 9 then TS_LastAck
      else if s = 10 then TS_Listen else if s = 11 then TS_Closing else if s = 12 then TS_NewSynRecv
      else TS_Unspecified)"

fun normalize_address :: "ip_addr \<Rightarrow> ip_address" where
  "normalize_address (V6 os) =
     (case to_ipv4_mapped os of Some v4 \<Rightarrow> from_ip (V4 v4) | None \<Rightarrow> from_ip (V6 os))"
| "normalize_address (V4 os) = from_ip (V4 os)"

definition tcp_info_to_proto :: "k_tcp_info \<Rightarrow> tcp_info" where
  "tcp_info_to_proto i =
     \<lparr>ti_rto_us = ki_rto i, ti_ato_us = ki_ato i, ti_snd_mss = ki_snd_mss i, ti_rcv_mss = ki_rcv_mss i,
      ti_unacked = ki_unacked i, ti_sacked = ki_sacked i, ti_lost = ki_lost i, ti_retrans = ki_retrans i,
      ti_total_retrans = ki_total_retrans i, ti_rtt_us = ki_rtt i, ti_rtt_var_us = ki_rttvar i,
      ti_snd_cwnd = ki_snd_cwnd i, ti_snd_ssthresh = ki_snd_ssthresh i, ti_advmss = ki_advmss i,
      ti_pmtu = ki_pmtu i, ti_last_data_sent_ms = ki_last_data_sent i,
      ti_last_data_recv_ms = ki_last_data_recv i, ti_last_ack_recv_ms = ki_last_ack_recv i,
      ti_bytes_sent = ki_bytes_sent i, ti_bytes_received = ki_bytes_received i,
      ti_delivered = ki_delivered i, ti_ca_state = ki_ca_state i, ti_probes = ki_probes i,
      ti_backoff = ki_backoff i,
      ti_retransmitting = (ki_retrans i > 0 \<or> ki_retransmits i > 0)\<rparr>"

text \<open>Kind, expiry and retransmissions; a duration in milliseconds is cut to 32 bits.\<close>

fun timer_fields :: "diag_timer \<Rightarrow> nat \<times> nat \<times> nat" where
  "timer_fields (T_Retransmit d n) = (1, d mod 2 ^ 32, n)"
| "timer_fields (T_KeepAlive d) = (2, d mod 2 ^ 32, 0)"
| "timer_fields T_TimeWait = (3, 0, 0)"
| "timer_fields (T_Probe d) = (4, d mod 2 ^ 32, 0)"

fun nla_step :: "diag_nla \<Rightarrow> socket \<Rightarrow> socket" where
  "nla_step (NL_Mark m) s = s\<lparr>so_mark := m, so_has_mark := True, so_net_id := net_id_from_mark m\<rparr>"
| "nla_step (NL_Congestion cc) s = s\<lparr>so_congestion_control := cc\<rparr>"
| "nla_step (NL_TcpInfo i) s = s\<lparr>so_tcp_info := Some (tcp_info_to_proto i)\<rparr>"
| "nla_step NL_Other s = s"

definition response_to_proto :: "inet_response \<Rightarrow> nat \<Rightarrow> if_names \<Rightarrow> socket option" where
  "response_to_proto r protocol names =
     (let (timer, expires, retransmits) = (case ir_timer r of Some t \<Rightarrow> timer_fields t | None \<Rightarrow> (0, 0, 0));
          s = \<lparr>so_family = (if ir_family r = AF_INET then Family_V4 else Family_V6),
               so_protocol = (if protocol = IPPROTO_TCP then SP_Tcp else SP_Udp),
               so_state = tcp_state_to_proto (ir_state r),
               so_local_address = Some (normalize_address (ir_source_address r)),
               so_local_port = ir_source_port r,
               so_remote_address = Some (normalize_address (ir_destination_address r)),
               so_remote_port = ir_destination_port r, so_uid = ir_uid r, so_inode = ir_inode r,
               so_interface_index = ir_interface_id r,
               so_interface_name = name_of names (ir_interface_id r),
               so_rx_queue = ir_recv_queue r, so_tx_queue = ir_send_queue r, so_mark = 0,
               so_has_mark = False, so_net_id = 0, so_tcp_info = None, so_congestion_control = [],
               so_timer = timer, so_timer_expires_ms = expires, so_retransmits = retransmits,
               so_socket_cookie = ir_cookie r, so_package_names = []\<rparr>
      in Some (fold nla_step (ir_nlas r) s))"

definition passes_filter :: "socket \<Rightarrow> socket_filter \<Rightarrow> bool" where
  "passes_filter s f =
     (if sf_uids f \<noteq> [] \<and> so_uid s \<notin> set (sf_uids f) then False
      else if sf_interface_indexes f \<noteq> [] \<and> so_interface_index s \<notin> set (sf_interface_indexes f) then False
      else if sf_local_port f \<noteq> 0 \<and> so_local_port s \<noteq> sf_local_port f then False
      else if sf_remote_port f \<noteq> 0 \<and> so_remote_port s \<noteq> sf_remote_port f then False
      else True)"

section \<open>Summary\<close>

definition count_state :: "tcp_state \<Rightarrow> socket_summary \<Rightarrow> socket_summary" where
  "count_state st m =
     (case st of
        TS_Established \<Rightarrow> m\<lparr>ss_established := ss_established m + 1\<rparr>
      | TS_SynSent \<Rightarrow> m\<lparr>ss_syn_sent := ss_syn_sent m + 1\<rparr>
      | TS_CloseWait \<Rightarrow> m\<lparr>ss_close_wait := ss_close_wait m + 1\<rparr>
      | TS_FinWait1 \<Rightarrow> m\<lparr>ss_fin_wait := ss_fin_wait m + 1\<rparr>
      | TS_FinWait2 \<Rightarrow> m\<lparr>ss_fin_wait := ss_fin_wait m + 1\<rparr>
      | TS_TimeWait \<Rightarrow> m\<lparr>ss_time_wait := ss_time_wait m + 1\<rparr>
      | TS_Listen \<Rightarrow> m\<lparr>ss_listen := ss_listen m + 1\<rparr>
      | _ \<Rightarrow> m)"

definition count_socket :: "socket \<Rightarrow> socket_summary \<Rightarrow> socket_summary" where
  "count_socket s m =
     (let n = tcp_state_name (so_state s);
          m1 = count_state (so_state s) (m\<lparr>ss_by_state := (ss_by_state m)(n := ss_by_state m n + 1)\<rparr>);
          m2 = (if so_family s = Family_V4 then m1\<lparr>ss_v4_count := ss_v4_count m1 + 1\<rparr>
                else if so_family s = Family_V6 then m1\<lparr>ss_v6_count := ss_v6_count m1 + 1\<rparr> else m1)
      in if (case so_tcp_info s of Some i \<Rightarrow> ti_retransmitting i | None \<Rightarrow> False)
         then m2\<lparr>ss_retransmitting := ss_retransmitting m2 + 1\<rparr> else m2)"

definition summarize :: "socket list \<Rightarrow> socket_summary" where
  "summarize sockets = fold count_socket sockets
     \<lparr>ss_total = length sockets, ss_by_state = (\<lambda>_. 0), ss_established = 0, ss_syn_sent = 0,
      ss_close_wait = 0, ss_fin_wait = 0, ss_time_wait = 0, ss_listen = 0, ss_v4_count = 0,
      ss_v6_count = 0, ss_retransmitting = 0\<rparr>"

section \<open>Collecting under the limit\<close>

fun collect_rows ::
  "nat \<Rightarrow> socket_filter \<Rightarrow> if_names \<Rightarrow> nat \<Rightarrow> inet_response list \<Rightarrow> socket list \<Rightarrow> socket list \<times> bool" where
  "collect_rows limit f names protocol [] out = (out, False)"
| "collect_rows limit f names protocol (r # rs) out =
     (case response_to_proto r protocol names of
        None \<Rightarrow> collect_rows limit f names protocol rs out
      | Some s \<Rightarrow>
          if \<not> passes_filter s f then collect_rows limit f names protocol rs out
          else if length out \<ge> limit then (out, True)
          else collect_rows limit f names protocol rs (out @ [s]))"

fun collect_dumps ::
  "diag_env \<Rightarrow> nat \<Rightarrow> socket_filter \<Rightarrow> if_names \<Rightarrow> (nat \<times> nat) list \<Rightarrow> socket list
   \<Rightarrow> (string + socket list \<times> bool) option" where
  "collect_dumps env limit f names [] out = Some (Inr (out, False))"
| "collect_dumps env limit f names ((protocol, family) # ps) out =
     (case diag_dump env family protocol f of
        None \<Rightarrow> None
      | Some (Inl e) \<Rightarrow> Some (Inl e)
      | Some (Inr rows) \<Rightarrow>
          (case collect_rows limit f names protocol rows out of
             (out', True) \<Rightarrow> Some (Inr (out', True))
           | (out', False) \<Rightarrow> collect_dumps env limit f names ps out'))"

definition socket_limit :: "socket_filter \<Rightarrow> nat" where
  "socket_limit f = (if sf_limit f = 0 then DEFAULT_SOCKET_LIMIT else sf_limit f)"

definition dump_order :: "socket_filter \<Rightarrow> (nat \<times> nat) list" where
  "dump_order f = concat (map (\<lambda>p. map (\<lambda>fam. (p, fam)) (wanted_families f)) (wanted_protocols f))"

definition get_sockets :: "diag_env \<Rightarrow> socket_filter \<Rightarrow> if_names \<Rightarrow> (string + socket_dump) option" where
  "get_sockets env f names =
     (case de_open env of
        Some _ \<Rightarrow> Some (Inl ''failed to open a NETLINK_SOCK_DIAG socket'')
      | None \<Rightarrow>
     (case de_bind env of
        Some _ \<Rightarrow> Some (Inl ''failed to bind the sock_diag socket'')
      | None \<Rightarrow>
     (case collect_dumps env (socket_limit f) f names (dump_order f) [] of
        None \<Rightarrow> None
      | Some (Inl e) \<Rightarrow> Some (Inl e)
      | Some (Inr (out, truncated)) \<Rightarrow>
          Some (Inr \<lparr>sd_sockets = out, sd_summary = summarize out, sd_truncated = truncated\<rparr>))))"

section \<open>Facts\<close>

lemma tcp_state_name_inject [simp]: "tcp_state_name a = tcp_state_name b \<longleftrightarrow> a = b"
  by (cases a; cases b) simp_all

definition is_retransmitting :: "socket \<Rightarrow> bool" where
  "is_retransmitting s = (case so_tcp_info s of Some i \<Rightarrow> ti_retransmitting i | None \<Rightarrow> False)"

lemma count_state_step:
  "ss_total (count_state st m) = ss_total m"
  "ss_by_state (count_state st m) = ss_by_state m"
  "ss_established (count_state st m) = ss_established m + of_bool (st = TS_Established)"
  "ss_syn_sent (count_state st m) = ss_syn_sent m + of_bool (st = TS_SynSent)"
  "ss_close_wait (count_state st m) = ss_close_wait m + of_bool (st = TS_CloseWait)"
  "ss_fin_wait (count_state st m) = ss_fin_wait m + of_bool (st = TS_FinWait1 \<or> st = TS_FinWait2)"
  "ss_time_wait (count_state st m) = ss_time_wait m + of_bool (st = TS_TimeWait)"
  "ss_listen (count_state st m) = ss_listen m + of_bool (st = TS_Listen)"
  "ss_v4_count (count_state st m) = ss_v4_count m"
  "ss_v6_count (count_state st m) = ss_v6_count m"
  "ss_retransmitting (count_state st m) = ss_retransmitting m"
  by (cases st; simp add: count_state_def)+

lemma count_socket_step:
  "ss_total (count_socket s m) = ss_total m"
  "ss_by_state (count_socket s m) (tcp_state_name st) =
     ss_by_state m (tcp_state_name st) + of_bool (so_state s = st)"
  "ss_established (count_socket s m) = ss_established m + of_bool (so_state s = TS_Established)"
  "ss_syn_sent (count_socket s m) = ss_syn_sent m + of_bool (so_state s = TS_SynSent)"
  "ss_close_wait (count_socket s m) = ss_close_wait m + of_bool (so_state s = TS_CloseWait)"
  "ss_fin_wait (count_socket s m) = ss_fin_wait m + of_bool (so_state s = TS_FinWait1 \<or> so_state s = TS_FinWait2)"
  "ss_time_wait (count_socket s m) = ss_time_wait m + of_bool (so_state s = TS_TimeWait)"
  "ss_listen (count_socket s m) = ss_listen m + of_bool (so_state s = TS_Listen)"
  "ss_v4_count (count_socket s m) = ss_v4_count m + of_bool (so_family s = Family_V4)"
  "ss_v6_count (count_socket s m) = ss_v6_count m + of_bool (so_family s = Family_V6)"
  "ss_retransmitting (count_socket s m) = ss_retransmitting m + of_bool (is_retransmitting s)"
  by (simp_all add: count_socket_def Let_def count_state_step is_retransmitting_def)

lemma fold_count:
  assumes "\<And>s m. g (count_socket s m) = g m + of_bool (P s)"
  shows "g (fold count_socket xs m) = (g m :: nat) + length (filter P xs)"
  using assms by (induction xs arbitrary: m) simp_all

lemma fold_total: "ss_total (fold count_socket xs m) = ss_total m"
  by (induction xs arbitrary: m) (simp_all add: count_socket_step)

lemma sum_states: "(\<Sum>st\<leftarrow>tcp_states. length (filter (\<lambda>s. so_state s = st) xs)) = length xs"
proof (induction xs)
  case (Cons x xs)
  then show ?case by (cases "so_state x") (simp_all add: tcp_states_def)
qed (simp add: tcp_states_def)

text \<open>
  The socket summary counts what it says: every counter is the number of sockets in that
  state, of that family or retransmitting, and the counts per state name add up to the total.
\<close>

lemma summarize_counts:
  "ss_total (summarize xs) = length xs \<and>
   (\<forall>st. ss_by_state (summarize xs) (tcp_state_name st) = length (filter (\<lambda>s. so_state s = st) xs)) \<and>
   (\<Sum>st\<leftarrow>tcp_states. ss_by_state (summarize xs) (tcp_state_name st)) = ss_total (summarize xs) \<and>
   ss_established (summarize xs) = length (filter (\<lambda>s. so_state s = TS_Established) xs) \<and>
   ss_syn_sent (summarize xs) = length (filter (\<lambda>s. so_state s = TS_SynSent) xs) \<and>
   ss_close_wait (summarize xs) = length (filter (\<lambda>s. so_state s = TS_CloseWait) xs) \<and>
   ss_fin_wait (summarize xs) = length (filter (\<lambda>s. so_state s = TS_FinWait1 \<or> so_state s = TS_FinWait2) xs) \<and>
   ss_time_wait (summarize xs) = length (filter (\<lambda>s. so_state s = TS_TimeWait) xs) \<and>
   ss_listen (summarize xs) = length (filter (\<lambda>s. so_state s = TS_Listen) xs) \<and>
   ss_v4_count (summarize xs) = length (filter (\<lambda>s. so_family s = Family_V4) xs) \<and>
   ss_v6_count (summarize xs) = length (filter (\<lambda>s. so_family s = Family_V6) xs) \<and>
   ss_retransmitting (summarize xs) = length (filter is_retransmitting xs)"
proof -
  have by_state: "ss_by_state (summarize xs) (tcp_state_name st) = length (filter (\<lambda>s. so_state s = st) xs)" for st
    unfolding summarize_def
    by (subst fold_count [of "\<lambda>m. ss_by_state m (tcp_state_name st)"]) (simp_all add: count_socket_step)
  have total: "ss_total (summarize xs) = length xs" by (simp add: summarize_def fold_total)
  show ?thesis
    by (simp add: by_state total sum_states)
      (simp add: summarize_def fold_count [OF count_socket_step(3)] fold_count [OF count_socket_step(4)]
        fold_count [OF count_socket_step(5)] fold_count [OF count_socket_step(6)] fold_count [OF count_socket_step(7)]
        fold_count [OF count_socket_step(8)] fold_count [OF count_socket_step(9)] fold_count [OF count_socket_step(10)]
        fold_count [OF count_socket_step(11)])
qed

text \<open>The rows of one dump that the filter lets through.\<close>

definition matching :: "socket_filter \<Rightarrow> if_names \<Rightarrow> nat \<Rightarrow> inet_response list \<Rightarrow> socket list" where
  "matching f names protocol rs =
     filter (\<lambda>s. passes_filter s f) (List.map_filter (\<lambda>r. response_to_proto r protocol names) rs)"

lemma matching_simps [simp]:
  "matching f names p [] = []"
  "matching f names p (r # rs) =
     (case response_to_proto r p names of
        Some s \<Rightarrow> if passes_filter s f then s # matching f names p rs else matching f names p rs
      | None \<Rightarrow> matching f names p rs)"
  by (simp_all add: matching_def map_filter_simps split: option.splits)

lemma collect_rows_spec:
  "length out \<le> limit \<Longrightarrow>
   collect_rows limit f names p rs out =
     (take limit (out @ matching f names p rs), limit < length (out @ matching f names p rs))"
proof (induction rs arbitrary: out)
  case (Cons r rs)
  show ?case
  proof (cases "response_to_proto r p names")
    case (Some s)
    show ?thesis
    proof (cases "length out < limit")
      case True
      then obtain k where "limit - length out = Suc k" by (cases "limit - length out") auto
      with True Some Cons.IH [of "out @ [s]"] Cons.IH [of out] show ?thesis by (auto simp: take_Cons')
    qed (use Some Cons in auto)
  qed (use Cons in auto)
qed simp

definition dumped :: "diag_env \<Rightarrow> socket_filter \<Rightarrow> nat \<times> nat \<Rightarrow> inet_response list \<Rightarrow> bool" where
  "dumped env f q rows = (diag_dump env (snd q) (fst q) f = Some (Inr rows))"

definition all_matching :: "socket_filter \<Rightarrow> if_names \<Rightarrow> (nat \<times> nat) list \<Rightarrow> inet_response list list \<Rightarrow> socket list" where
  "all_matching f names ps rowss = concat (map2 (\<lambda>q rows. matching f names (fst q) rows) ps rowss)"

lemma ex3I: "P a b c \<Longrightarrow> \<exists>x y z. P x y z"
  by blast

lemma dumped_pair: "dumped env f (p, fam) rows \<longleftrightarrow> diag_dump env fam p f = Some (Inr rows)"
  by (simp add: dumped_def)

lemma all_matching_simps [simp]:
  "all_matching f names [] [] = []"
  "all_matching f names (q # qs) (rows # rowss) = matching f names (fst q) rows @ all_matching f names qs rowss"
  by (simp_all add: all_matching_def)

lemma collect_dumps_spec:
  assumes "collect_dumps env limit f names ps out = Some (Inr (res, trunc))" and "length out \<le> limit"
  shows "\<exists>done rest rowss. ps = done @ rest \<and> list_all2 (dumped env f) done rowss \<and>
           res = take limit (out @ all_matching f names done rowss) \<and>
           (if trunc then limit < length (out @ all_matching f names done rowss)
            else rest = [] \<and> length (out @ all_matching f names done rowss) \<le> limit)"
  using assms
proof (induction env limit f names ps out rule: collect_dumps.induct)
  case (1 env limit f names out)
  then show ?case by (intro exI [of _ "[]"]) simp
next
  case (2 env limit f names protocol family ps out)
  from "2.prems"(1) obtain rows where rows: "diag_dump env family protocol f = Some (Inr rows)"
    by (auto split: option.splits sum.splits)
  let ?m = "out @ matching f names protocol rows"
  note cr = collect_rows_spec [OF "2.prems"(2), of f names protocol rows]
  show ?case
  proof (cases "limit < length ?m")
    case True
    with "2.prems"(1) rows cr have "res = take limit ?m" "trunc" by auto
    with True rows show ?thesis
      by (intro ex3I [of _ "[(protocol, family)]" ps "[rows]"])
        (simp add: dumped_pair)
  next
    case False
    with "2.prems"(1) rows cr have rec: "collect_dumps env limit f names ps ?m = Some (Inr (res, trunc))" by simp
    have "\<exists>done rest rowss. ps = done @ rest \<and> list_all2 (dumped env f) done rowss \<and>
        res = take limit (?m @ all_matching f names done rowss) \<and>
        (if trunc then limit < length (?m @ all_matching f names done rowss)
         else rest = [] \<and> length (?m @ all_matching f names done rowss) \<le> limit)"
      using "2.IH" [OF rows refl _ _ rec] False cr by simp
    then obtain "done" rest rowss where *: "ps = done @ rest" "list_all2 (dumped env f) done rowss"
      "res = take limit (?m @ all_matching f names done rowss)"
      "if trunc then limit < length (?m @ all_matching f names done rowss)
       else rest = [] \<and> length (?m @ all_matching f names done rowss) \<le> limit" by blast
    then show ?thesis using rows
      by (intro ex3I [of _ "(protocol, family) # done" rest "rows # rowss"])
        (simp add: dumped_pair split: if_splits)
  qed
qed

text \<open>
  C24: a socket listing is exactly the matching rows, up to the limit. The rows are those the
  filter lets through, in the order of the dumps; there are never more than the limit (4096 when
  none is given); \<open>truncated\<close> says exactly that a further matching row was left out, and when it
  is not set every dump asked for has been read completely.
\<close>

theorem get_sockets_limit:
  assumes "get_sockets env f names = Some (Inr d)"
  shows "length (sd_sockets d) \<le> socket_limit f \<and> sd_summary d = summarize (sd_sockets d) \<and>
    (\<exists>done rest rowss. dump_order f = done @ rest \<and> list_all2 (dumped env f) done rowss \<and>
       sd_sockets d = take (socket_limit f) (all_matching f names done rowss) \<and>
       (if sd_truncated d then socket_limit f < length (all_matching f names done rowss)
        else rest = [] \<and> length (all_matching f names done rowss) \<le> socket_limit f))"
proof -
  obtain out trunc where c: "collect_dumps env (socket_limit f) f names (dump_order f) [] = Some (Inr (out, trunc))"
    and d: "d = \<lparr>sd_sockets = out, sd_summary = summarize out, sd_truncated = trunc\<rparr>"
    using assms by (auto simp: get_sockets_def split: option.splits sum.splits)
  have spec: "\<exists>done rest rowss. dump_order f = done @ rest \<and> list_all2 (dumped env f) done rowss \<and>
      out = take (socket_limit f) (all_matching f names done rowss) \<and>
      (if trunc then socket_limit f < length (all_matching f names done rowss)
       else rest = [] \<and> length (all_matching f names done rowss) \<le> socket_limit f)"
    using collect_dumps_spec [OF c] by (simp only: append_Nil list.size le0 simp_thms)
  then have "length out \<le> socket_limit f" by (elim exE conjE) simp
  with spec show ?thesis by (simp add: d)
qed

definition demo_row :: "nat \<Rightarrow> inet_response" where
  "demo_row port =
     \<lparr>ir_family = AF_INET, ir_state = 1, ir_timer = None, ir_source_address = V4 [10, 0, 0, 2],
      ir_source_port = port, ir_destination_address = V4 [1, 1, 1, 1], ir_destination_port = 443,
      ir_interface_id = 0, ir_cookie = port, ir_uid = 10342, ir_inode = port, ir_recv_queue = 0,
      ir_send_queue = 0, ir_nlas = [NL_Mark 0x10065]\<rparr>"

definition demo_diag :: diag_env where
  "demo_diag =
     \<lparr>de_open = None, de_bind = None,
      de_exchange = (\<lambda>rq. Inr [Inr (if rq_protocol rq = IPPROTO_TCP \<and> rq_family rq = AF_INET then [1, 2] else []), Inr [0]]),
      de_deserialize = (\<lambda>buf. Inr (1, if hd buf = 0 then DP_Done else DP_Response (demo_row (unat (hd buf)))))\<rparr>"

theorem get_sockets_limit_witness:
  "\<exists>d. get_sockets demo_diag (any_socket\<lparr>sf_limit := 1\<rparr>) (\<lambda>_. None) = Some (Inr d) \<and>
       sd_truncated d \<and> map so_local_port (sd_sockets d) = [1] \<and> map so_net_id (sd_sockets d) = [101] \<and>
       length (sd_sockets d) \<le> socket_limit (any_socket\<lparr>sf_limit := 1\<rparr>)"
proof -
  let ?f = "any_socket\<lparr>sf_limit := 1\<rparr>"
  have dump: "diag_dump demo_diag AF_INET IPPROTO_TCP ?f = Some (Inr [demo_row 1, demo_row 2])"
    by (simp add: diag_dump_def demo_diag_def dump_request_def parse_datagram.simps)
  have order: "dump_order ?f = (IPPROTO_TCP, AF_INET) # tl (dump_order ?f)"
    by (simp add: dump_order_def wanted_protocols_def wanted_families_def any_socket_def)
  obtain s1 s2 where s: "response_to_proto (demo_row 1) IPPROTO_TCP (\<lambda>_. None) = Some s1"
    "response_to_proto (demo_row 2) IPPROTO_TCP (\<lambda>_. None) = Some s2"
    and s1: "so_local_port s1 = 1" "so_net_id s1 = net_id_from_mark 0x10065"
    by (auto simp: response_to_proto_def demo_row_def)
  have pass: "passes_filter x ?f" for x by (simp add: passes_filter_def any_socket_def)
  have "collect_dumps demo_diag (socket_limit ?f) ?f (\<lambda>_. None) (dump_order ?f) [] = Some (Inr ([s1], True))"
    by (subst order) (simp add: dump [simplified] s [simplified] pass [simplified] socket_limit_def)
  then obtain d where d: "get_sockets demo_diag ?f (\<lambda>_. None) = Some (Inr d)"
    and ds: "sd_sockets d = [s1]" "sd_truncated d"
    by (simp add: get_sockets_def demo_diag_def)
  have "net_id_from_mark 0x10065 = 101" by (simp add: net_id_from_mark_def FWMARK_NET_ID_MASK_def)
  with get_sockets_limit [OF d] d ds s1 show ?thesis by auto
qed

end
