(* ===== verification/Daemon_State.thy ===== *)
theory Daemon_State
  imports Net_Addr Util
begin

text \<open>
  The state one daemon shares between all connections (\<^verbatim>\<open>daemon/src/daemon.rs\<close>): the greeting
  with its version negotiation and the registry of running captures. The capture registry maps
  the ids the daemon allocates to stop flags.
\<close>

section \<open>Hello\<close>

definition PROTOCOL_VERSION :: nat where "PROTOCOL_VERSION = 1"

record daemon_capabilities =
  cap_netlink_route :: bool
  cap_inet_diag :: bool
  cap_route_lookup :: bool
  cap_packet_capture :: bool
  cap_bpf_maps :: bool
  cap_nftables :: bool
  cap_iptables :: bool
  cap_tc :: bool
  cap_raw_icmp :: bool
  cap_so_mark :: bool

record hello_request =
  hr_protocol_version :: nat
  hr_client_name :: string
  hr_client_version :: string

record hello_response =
  hs_protocol_version :: nat
  hs_daemon_version :: string
  hs_kernel_release :: string
  hs_daemon_uid :: nat
  hs_daemon_pid :: nat
  hs_capabilities :: "daemon_capabilities option"
  hs_warnings :: "string list"
  hs_daemon_started_unix_ms :: int

record daemon =
  d_version :: string
  d_started_unix_ms :: int
  d_capabilities :: daemon_capabilities
  d_warnings :: "string list"
  d_captures :: "(nat \<times> bool) list"
  d_next_capture_id :: nat

text \<open>\<open>getuid\<close>, the process id and the file system are what the operating system reports.\<close>

definition hello :: "file_system \<Rightarrow> nat \<Rightarrow> nat \<Rightarrow> daemon \<Rightarrow> hello_request \<Rightarrow> hello_response" where
  "hello fs uid pid d request =
     (let negotiated = min (hr_protocol_version request) PROTOCOL_VERSION
      in \<lparr>hs_protocol_version = negotiated, hs_daemon_version = d_version d,
          hs_kernel_release = kernel_release fs, hs_daemon_uid = uid, hs_daemon_pid = pid,
          hs_capabilities = Some (d_capabilities d), hs_warnings = d_warnings d,
          hs_daemon_started_unix_ms = d_started_unix_ms d\<rparr>)"

section \<open>Hash maps\<close>

text \<open>
  A \<open>HashMap\<close> is an association list with distinct keys; \<open>hm_insert\<close> replaces an existing
  value.
\<close>

fun hm_remove :: "'k \<Rightarrow> ('k \<times> 'v) list \<Rightarrow> ('k \<times> 'v) list" where
  "hm_remove k [] = []"
| "hm_remove k (e # es) = (if fst e = k then hm_remove k es else e # hm_remove k es)"

definition hm_insert :: "'k \<Rightarrow> 'v \<Rightarrow> ('k \<times> 'v) list \<Rightarrow> ('k \<times> 'v) list" where
  "hm_insert k v m = (k, v) # hm_remove k m"

definition hm_wf :: "('k \<times> 'v) list \<Rightarrow> bool" where
  "hm_wf m = distinct (map fst m)"

text \<open>The contract of a map container, as the registries use it.\<close>

locale hash_map =
  fixes lookup :: "'m \<Rightarrow> 'k \<Rightarrow> 'v option"
    and insert :: "'k \<Rightarrow> 'v \<Rightarrow> 'm \<Rightarrow> 'm"
    and remove :: "'k \<Rightarrow> 'm \<Rightarrow> 'm"
    and size_of :: "'m \<Rightarrow> nat"
    and wf :: "'m \<Rightarrow> bool"
  assumes lookup_insert: "lookup (insert k v m) j = (if j = k then Some v else lookup m j)"
    and lookup_remove: "lookup (remove k m) j = (if j = k then None else lookup m j)"
    and wf_insert: "wf m \<Longrightarrow> wf (insert k v m)"
    and wf_remove: "wf m \<Longrightarrow> wf (remove k m)"
    and size_insert: "size_of (insert k v m) \<le> Suc (size_of m)"
    and size_remove: "size_of (remove k m) \<le> size_of m"
begin

lemma insert_then_remove: "lookup (remove k (insert k v m)) j = (if j = k then None else lookup m j)"
  by (simp add: lookup_remove lookup_insert)

lemma insert_other: "j \<noteq> k \<Longrightarrow> lookup (insert k v m) j = lookup m j"
  by (simp add: lookup_insert)

lemma bounded_insert:
  "wf m \<Longrightarrow> size_of m < n \<Longrightarrow> wf (insert k v m) \<and> size_of (insert k v m) \<le> n"
  using wf_insert size_insert [of k v m] by (meson Suc_leI le_trans)

lemma bounded_remove:
  "wf m \<Longrightarrow> size_of m \<le> n \<Longrightarrow> wf (remove k m) \<and> size_of (remove k m) \<le> n"
  using wf_remove size_remove [of k m] by (meson le_trans)

end

lemma hm_remove_filter: "hm_remove k m = filter (\<lambda>e. fst e \<noteq> k) m"
  by (induction m) auto

lemma map_of_hm_remove: "map_of (hm_remove k m) j = (if j = k then None else map_of m j)"
  by (induction m) auto

lemma set_hm_remove [simp]: "set (hm_remove k m) = {e \<in> set m. fst e \<noteq> k}"
  by (auto simp: hm_remove_filter)

lemma hm_wf_remove: "hm_wf m \<Longrightarrow> hm_wf (hm_remove k m)"
  by (simp add: hm_wf_def hm_remove_filter distinct_map_filter)

lemma length_hm_remove: "length (hm_remove k m) \<le> length m"
  by (simp add: hm_remove_filter)

interpretation hm: hash_map map_of hm_insert hm_remove length hm_wf
proof
  fix k :: 'a and v :: 'b and m :: "('a \<times> 'b) list" and j
  show "map_of (hm_insert k v m) j = (if j = k then Some v else map_of m j)"
    by (simp add: hm_insert_def map_of_hm_remove)
  show "map_of (hm_remove k m) j = (if j = k then None else map_of m j)"
    by (rule map_of_hm_remove)
  show "hm_wf m \<Longrightarrow> hm_wf (hm_insert k v m)"
    using hm_wf_remove [of m k] by (auto simp: hm_insert_def hm_wf_def)
  show "hm_wf m \<Longrightarrow> hm_wf (hm_remove k m)" by (rule hm_wf_remove)
  show "length (hm_insert k v m) \<le> Suc (length m)" by (simp add: hm_insert_def length_hm_remove)
  show "length (hm_remove k m) \<le> length m" by (rule length_hm_remove)
qed

section \<open>Capture registry\<close>

definition allocate_capture_id :: "daemon \<Rightarrow> nat \<times> daemon" where
  "allocate_capture_id d = (d_next_capture_id d, d\<lparr>d_next_capture_id := d_next_capture_id d + 1\<rparr>)"

definition register_capture :: "nat \<Rightarrow> daemon \<Rightarrow> daemon" where
  "register_capture cid d = d\<lparr>d_captures := hm_insert cid False (d_captures d)\<rparr>"

definition stop_capture :: "nat \<Rightarrow> daemon \<Rightarrow> bool \<times> daemon" where
  "stop_capture cid d =
     (case map_of (d_captures d) cid of
        Some _ \<Rightarrow> (True, d\<lparr>d_captures := hm_insert cid True (d_captures d)\<rparr>)
      | None \<Rightarrow> (False, d))"

definition finish_capture :: "nat \<Rightarrow> daemon \<Rightarrow> daemon" where
  "finish_capture cid d = d\<lparr>d_captures := hm_remove cid (d_captures d)\<rparr>"

definition captures_wf :: "daemon \<Rightarrow> bool" where
  "captures_wf d =
     (hm_wf (d_captures d) \<and> (\<forall>e\<in>set (d_captures d). fst e < d_next_capture_id d) \<and>
      0 < d_next_capture_id d)"

lemma captures_wf_steps:
  assumes "captures_wf d"
  shows "captures_wf (snd (allocate_capture_id d))"
    and "cid < d_next_capture_id d \<Longrightarrow> captures_wf (register_capture cid d)"
    and "captures_wf (snd (stop_capture cid d))"
    and "captures_wf (finish_capture cid d)"
proof -
  note simps = captures_wf_def allocate_capture_id_def register_capture_def stop_capture_def
    finish_capture_def
  show "captures_wf (snd (allocate_capture_id d))" using assms by (auto simp: simps less_SucI)
  show "cid < d_next_capture_id d \<Longrightarrow> captures_wf (register_capture cid d)"
    using assms hm.wf_insert [of "d_captures d" cid False] by (auto simp: simps hm_insert_def)
  show "captures_wf (snd (stop_capture cid d))"
    using assms hm.wf_insert [of "d_captures d" cid True]
    by (auto simp: simps hm_insert_def split: option.splits dest!: map_of_SomeD)
  show "captures_wf (finish_capture cid d)" using assms by (auto simp: simps hm.wf_remove)
qed

text \<open>
  The life of a capture id. Allocation hands out an id that no running capture has; once
  registered, the capture can be found and its stop flag starts cleared; stopping raises that
  flag and leaves the others alone; after it finishes the id is unknown and can no longer be
  stopped.
\<close>

lemma capture_lifecycle:
  assumes "captures_wf d" and "allocate_capture_id d = (cid, d1)"
  shows "map_of (d_captures d) cid = None \<and>
         map_of (d_captures (register_capture cid d1)) cid = Some False \<and>
         stop_capture cid d1 = (False, d1) \<and>
         fst (stop_capture cid (register_capture cid d1)) \<and>
         map_of (d_captures (snd (stop_capture cid (register_capture cid d1)))) =
           (map_of (d_captures d))(cid \<mapsto> True) \<and>
         map_of (d_captures (finish_capture cid (register_capture cid d1))) = map_of (d_captures d)"
proof -
  have "cid \<notin> fst ` set (d_captures d)"
    using assms by (auto simp: captures_wf_def allocate_capture_id_def)
  then have "map_of (d_captures d) cid = None" by (simp add: map_of_eq_None_iff)
  moreover have "d_captures d1 = d_captures d" using assms by (auto simp: allocate_capture_id_def)
  ultimately show ?thesis
    by (auto simp: register_capture_def stop_capture_def finish_capture_def hm.lookup_insert
        hm.lookup_remove fun_eq_iff)
qed

definition fresh_daemon :: daemon where
  "fresh_daemon =
     \<lparr>d_version = ''0.1.0'', d_started_unix_ms = 0,
      d_capabilities = \<lparr>cap_netlink_route = True, cap_inet_diag = True, cap_route_lookup = True,
        cap_packet_capture = True, cap_bpf_maps = True, cap_nftables = False, cap_iptables = True,
        cap_tc = True, cap_raw_icmp = True, cap_so_mark = True\<rparr>,
      d_warnings = [], d_captures = [], d_next_capture_id = 1\<rparr>"

end
