(* ===== verification/Links.thy ===== *)
theory Links
  imports Routes Daemon_State
begin

text \<open>
  Interfaces and their addresses (\<^verbatim>\<open>daemon/src/collect/links.rs\<close>) and the index-to-name map
  of \<^verbatim>\<open>daemon/src/collect/mod.rs\<close>. The link and address dumps of the kernel and the file
  system behind the sysctls are arguments.
\<close>

section \<open>Netlink messages\<close>

datatype link_layer_type = LL_Ether | LL_Loopback | LL_Ieee80211 | LL_Rawip | LL_None | LL_Other u16

text \<open>A named kind carries its debug text.\<close>

datatype info_kind = IK_Named string | IK_Other string

datatype link_info = LI_Kind info_kind | LI_Other

datatype k_oper_state =
  KO_Unknown | KO_NotPresent | KO_Down | KO_LowerLayerDown | KO_Testing | KO_Dormant | KO_Up | KO_Other u8

record link_stats =
  ls_rx_packets :: nat
  ls_tx_packets :: nat
  ls_rx_bytes :: nat
  ls_tx_bytes :: nat
  ls_rx_errors :: nat
  ls_tx_errors :: nat
  ls_rx_dropped :: nat
  ls_tx_dropped :: nat

datatype link_attr =
  L_IfName string
| L_IfAlias string
| L_Mtu nat
| L_Address bytes
| L_Broadcast bytes
| L_TxQueueLen nat
| L_Qdisc string
| L_Link nat
| L_Controller nat
| L_Group nat
| L_LinkNetNsId int
| L_OperState k_oper_state
| L_Xdp nat
| L_LinkInfo "link_info list"
| L_Stats64 link_stats
| L_OtherAttr

record link_message =
  lm_index :: nat
  lm_layer_type :: link_layer_type
  lm_flags :: u32
  lm_attributes :: "link_attr list"

datatype k_addr_scope = AS_Universe | AS_Site | AS_Link | AS_Host | AS_Nowhere | AS_Other u8

datatype addr_attr =
  D_Address ip_addr
| D_Local ip_addr
| D_Label string
| D_Broadcast bytes
| D_Flags u32
| D_CacheInfo nat nat
| D_OtherAttr

record address_message =
  am_index :: nat
  am_prefix_len :: u8
  am_flags :: u8
  am_scope :: k_addr_scope
  am_attributes :: "addr_attr list"

section \<open>Wire types\<close>

datatype oper_state =
  OS_Unspecified | OS_Unknown | OS_NotPresent | OS_Down | OS_LowerLayerDown | OS_Testing | OS_Dormant | OS_Up

datatype link_kind =
  LK_Unspecified | LK_Loopback | LK_Ethernet | LK_Wifi | LK_Cellular | LK_VpnTun | LK_Bluetooth
| LK_Bridge | LK_Dummy | LK_Clat | LK_Other

datatype addr_scope = SC_Unspecified | SC_Global | SC_Site | SC_Link | SC_Host | SC_Nowhere

record link_flags =
  fl_up :: bool
  fl_running :: bool
  fl_loopback :: bool
  fl_point_to_point :: bool
  fl_broadcast :: bool
  fl_multicast :: bool
  fl_no_arp :: bool
  fl_promisc :: bool
  fl_lower_up :: bool
  fl_dormant :: bool
  fl_raw :: u32

record addr_flags =
  af_permanent :: bool
  af_temporary :: bool
  af_deprecated :: bool
  af_tentative :: bool
  af_dadfailed :: bool
  af_managed_temp :: bool
  af_no_prefix_route :: bool
  af_optimistic :: bool
  af_home :: bool
  af_stable_privacy :: bool
  af_raw :: u32

record link_address =
  la_prefix :: "ip_prefix option"
  la_scope :: addr_scope
  la_flags :: "addr_flags option"
  la_valid_lifetime_sec :: nat
  la_preferred_lifetime_sec :: nat
  la_label :: string
  la_broadcast :: "ip_address option"

record interface_sysctls =
  sy_ipv6_disabled :: bool
  sy_accept_ra :: int
  sy_accept_ra_defrtr :: int
  sy_accept_ra_rt_info_max_plen :: int
  sy_autoconf :: int
  sy_use_tempaddr :: int
  sy_forwarding_v4 :: int
  sy_forwarding_v6 :: int
  sy_rp_filter :: int
  sy_arp_ignore :: int
  sy_dad_transmits :: int
  sy_mtu_v6 :: int
  sy_hop_limit :: int

record interface =
  if_index :: nat
  if_name :: string
  if_alias :: string
  if_kind :: link_kind
  if_flags :: "link_flags option"
  if_oper_state :: oper_state
  if_mtu :: nat
  if_mac_address :: bytes
  if_broadcast_address :: bytes
  if_tx_queue_len :: nat
  if_qdisc :: string
  if_link_index :: nat
  if_master_index :: nat
  if_group :: nat
  if_netns_id :: int
  if_has_xdp :: bool
  if_link_type :: string
  if_stats :: "link_stats option"
  if_addresses :: "link_address list"
  if_sysctls :: "interface_sysctls option"

definition default_interface :: interface where
  "default_interface =
     \<lparr>if_index = 0, if_name = [], if_alias = [], if_kind = LK_Unspecified, if_flags = None,
      if_oper_state = OS_Unspecified, if_mtu = 0, if_mac_address = [], if_broadcast_address = [],
      if_tx_queue_len = 0, if_qdisc = [], if_link_index = 0, if_master_index = 0, if_group = 0,
      if_netns_id = 0, if_has_xdp = False, if_link_type = [], if_stats = None, if_addresses = [],
      if_sysctls = None\<rparr>"

section \<open>Links\<close>

text \<open>The interface flags of the kernel.\<close>

definition IFF_UP :: u32 where "IFF_UP = 0x1"
definition IFF_BROADCAST :: u32 where "IFF_BROADCAST = 0x2"
definition IFF_LOOPBACK :: u32 where "IFF_LOOPBACK = 0x8"
definition IFF_POINTOPOINT :: u32 where "IFF_POINTOPOINT = 0x10"
definition IFF_RUNNING :: u32 where "IFF_RUNNING = 0x40"
definition IFF_NOARP :: u32 where "IFF_NOARP = 0x80"
definition IFF_PROMISC :: u32 where "IFF_PROMISC = 0x100"
definition IFF_MULTICAST :: u32 where "IFF_MULTICAST = 0x1000"
definition IFF_LOWER_UP :: u32 where "IFF_LOWER_UP = 0x10000"
definition IFF_DORMANT :: u32 where "IFF_DORMANT = 0x20000"

definition has_flag :: "u32 \<Rightarrow> u32 \<Rightarrow> bool" where
  "has_flag flags m = (flags AND m = m)"

definition link_flags_to_proto :: "u32 \<Rightarrow> link_flags" where
  "link_flags_to_proto f =
     \<lparr>fl_up = has_flag f IFF_UP, fl_running = has_flag f IFF_RUNNING,
      fl_loopback = has_flag f IFF_LOOPBACK, fl_point_to_point = has_flag f IFF_POINTOPOINT,
      fl_broadcast = has_flag f IFF_BROADCAST, fl_multicast = has_flag f IFF_MULTICAST,
      fl_no_arp = has_flag f IFF_NOARP, fl_promisc = has_flag f IFF_PROMISC,
      fl_lower_up = has_flag f IFF_LOWER_UP, fl_dormant = has_flag f IFF_DORMANT, fl_raw = f\<rparr>"

fun oper_state_to_proto :: "k_oper_state \<Rightarrow> oper_state" where
  "oper_state_to_proto KO_Unknown = OS_Unknown"
| "oper_state_to_proto KO_NotPresent = OS_NotPresent"
| "oper_state_to_proto KO_Down = OS_Down"
| "oper_state_to_proto KO_LowerLayerDown = OS_LowerLayerDown"
| "oper_state_to_proto KO_Testing = OS_Testing"
| "oper_state_to_proto KO_Dormant = OS_Dormant"
| "oper_state_to_proto KO_Up = OS_Up"
| "oper_state_to_proto (KO_Other _) = OS_Unspecified"

fun info_kind_name :: "info_kind \<Rightarrow> string" where
  "info_kind_name (IK_Other s) = s"
| "info_kind_name (IK_Named dbg) = to_ascii_lowercase dbg"

definition classify_link :: "string \<Rightarrow> link_layer_type \<Rightarrow> string option \<Rightarrow> u32 \<Rightarrow> link_kind" where
  "classify_link name ll_type kind flags =
     (if has_flag flags IFF_LOOPBACK \<or> ll_type = LL_Loopback then LK_Loopback
      else if starts_with name ''v4-'' then LK_Clat
      else if kind \<in> {Some ''tun'', Some ''wireguard'', Some ''ppp'', Some ''ipip'', Some ''ip6tnl''} then LK_VpnTun
      else if kind = Some ''bridge'' then LK_Bridge
      else if kind = Some ''dummy'' then LK_Dummy
      else if ll_type = LL_Ieee80211 \<or> starts_with name ''wlan'' \<or> starts_with name ''ap_'' then LK_Wifi
      else if starts_with name ''rmnet'' \<or> starts_with name ''ccmni'' \<or> starts_with name ''pdp''
           \<or> starts_with name ''seth'' \<or> starts_with name ''wwan'' \<or> ll_type = LL_Rawip then LK_Cellular
      else if starts_with name ''tun'' \<or> starts_with name ''tap'' \<or> starts_with name ''ppp'' then LK_VpnTun
      else if starts_with name ''bt-'' \<or> starts_with name ''bnep'' then LK_Bluetooth
      else if ll_type = LL_Ether then LK_Ethernet
      else LK_Other)"

fun last_kind :: "link_info list \<Rightarrow> string option \<Rightarrow> string option" where
  "last_kind [] k = k"
| "last_kind (LI_Kind x # is) k = last_kind is (Some (info_kind_name x))"
| "last_kind (LI_Other # is) k = last_kind is k"

fun link_attr_step :: "bool \<Rightarrow> link_attr \<Rightarrow> interface \<times> string option \<Rightarrow> interface \<times> string option" where
  "link_attr_step st (L_IfName n) (i, k) = (i\<lparr>if_name := n\<rparr>, k)"
| "link_attr_step st (L_IfAlias n) (i, k) = (i\<lparr>if_alias := n\<rparr>, k)"
| "link_attr_step st (L_Mtu m) (i, k) = (i\<lparr>if_mtu := m\<rparr>, k)"
| "link_attr_step st (L_Address mac) (i, k) = (i\<lparr>if_mac_address := mac\<rparr>, k)"
| "link_attr_step st (L_Broadcast b) (i, k) = (i\<lparr>if_broadcast_address := b\<rparr>, k)"
| "link_attr_step st (L_TxQueueLen l) (i, k) = (i\<lparr>if_tx_queue_len := l\<rparr>, k)"
| "link_attr_step st (L_Qdisc q) (i, k) = (i\<lparr>if_qdisc := q\<rparr>, k)"
| "link_attr_step st (L_Link x) (i, k) = (i\<lparr>if_link_index := x\<rparr>, k)"
| "link_attr_step st (L_Controller x) (i, k) = (i\<lparr>if_master_index := x\<rparr>, k)"
| "link_attr_step st (L_Group g) (i, k) = (i\<lparr>if_group := g\<rparr>, k)"
| "link_attr_step st (L_LinkNetNsId n) (i, k) = (i\<lparr>if_netns_id := n\<rparr>, k)"
| "link_attr_step st (L_OperState s) (i, k) = (i\<lparr>if_oper_state := oper_state_to_proto s\<rparr>, k)"
| "link_attr_step st (L_Xdp entries) (i, k) = (i\<lparr>if_has_xdp := (entries \<noteq> 0)\<rparr>, k)"
| "link_attr_step st (L_LinkInfo infos) (i, k) = (i, last_kind infos k)"
| "link_attr_step st (L_Stats64 s) (i, k) = ((if st then i\<lparr>if_stats := Some s\<rparr> else i), k)"
| "link_attr_step st L_OtherAttr (i, k) = (i, k)"

definition link_to_proto :: "bool \<Rightarrow> link_message \<Rightarrow> interface" where
  "link_to_proto include_stats msg =
     (let (iface, kind) = fold (link_attr_step include_stats) (lm_attributes msg)
            (default_interface\<lparr>if_index := lm_index msg,
               if_flags := Some (link_flags_to_proto (lm_flags msg)), if_netns_id := -1\<rparr>, None)
      in iface\<lparr>if_link_type := (case kind of Some k \<Rightarrow> k | None \<Rightarrow> []),
               if_kind := classify_link (if_name iface) (lm_layer_type msg) kind (lm_flags msg)\<rparr>)"

section \<open>Addresses\<close>

text \<open>The address flags of the kernel.\<close>

definition IFA_F_SECONDARY :: u32 where "IFA_F_SECONDARY = 0x1"
definition IFA_F_OPTIMISTIC :: u32 where "IFA_F_OPTIMISTIC = 0x4"
definition IFA_F_DADFAILED :: u32 where "IFA_F_DADFAILED = 0x8"
definition IFA_F_HOMEADDRESS :: u32 where "IFA_F_HOMEADDRESS = 0x10"
definition IFA_F_DEPRECATED :: u32 where "IFA_F_DEPRECATED = 0x20"
definition IFA_F_TENTATIVE :: u32 where "IFA_F_TENTATIVE = 0x40"
definition IFA_F_PERMANENT :: u32 where "IFA_F_PERMANENT = 0x80"
definition IFA_F_MANAGETEMPADDR :: u32 where "IFA_F_MANAGETEMPADDR = 0x100"
definition IFA_F_NOPREFIXROUTE :: u32 where "IFA_F_NOPREFIXROUTE = 0x200"
definition IFA_F_STABLE_PRIVACY :: u32 where "IFA_F_STABLE_PRIVACY = 0x800"

definition addr_flags_to_proto :: "u32 \<Rightarrow> addr_flags" where
  "addr_flags_to_proto f =
     \<lparr>af_permanent = has_flag f IFA_F_PERMANENT, af_temporary = has_flag f IFA_F_SECONDARY,
      af_deprecated = has_flag f IFA_F_DEPRECATED, af_tentative = has_flag f IFA_F_TENTATIVE,
      af_dadfailed = has_flag f IFA_F_DADFAILED, af_managed_temp = has_flag f IFA_F_MANAGETEMPADDR,
      af_no_prefix_route = has_flag f IFA_F_NOPREFIXROUTE, af_optimistic = has_flag f IFA_F_OPTIMISTIC,
      af_home = has_flag f IFA_F_HOMEADDRESS, af_stable_privacy = has_flag f IFA_F_STABLE_PRIVACY,
      af_raw = f\<rparr>"

fun scope_to_proto :: "k_addr_scope \<Rightarrow> addr_scope" where
  "scope_to_proto AS_Universe = SC_Global"
| "scope_to_proto AS_Site = SC_Site"
| "scope_to_proto AS_Link = SC_Link"
| "scope_to_proto AS_Host = SC_Host"
| "scope_to_proto AS_Nowhere = SC_Nowhere"
| "scope_to_proto (AS_Other _) = SC_Unspecified"

record addr_vars =
  av_address :: "ip_addr option"
  av_local :: "ip_addr option"
  av_label :: string
  av_broadcast :: "ip_address option"
  av_flags :: u32
  av_valid :: nat
  av_preferred :: nat

fun addr_attr_step :: "addr_attr \<Rightarrow> addr_vars \<Rightarrow> addr_vars" where
  "addr_attr_step (D_Address a) v = v\<lparr>av_address := Some a\<rparr>"
| "addr_attr_step (D_Local a) v = v\<lparr>av_local := Some a\<rparr>"
| "addr_attr_step (D_Label l) v = v\<lparr>av_label := l\<rparr>"
| "addr_attr_step (D_Broadcast b) v = v\<lparr>av_broadcast := Some (from_ip (V4 b))\<rparr>"
| "addr_attr_step (D_Flags f) v = v\<lparr>av_flags := f\<rparr>"
| "addr_attr_step (D_CacheInfo valid preferred) v = v\<lparr>av_valid := valid, av_preferred := preferred\<rparr>"
| "addr_attr_step D_OtherAttr v = v"

definition address_to_proto :: "address_message \<Rightarrow> link_address option" where
  "address_to_proto msg =
     (let v = fold addr_attr_step (am_attributes msg)
                \<lparr>av_address = None, av_local = None, av_label = [], av_broadcast = None,
                 av_flags = ucast (am_flags msg), av_valid = 0, av_preferred = 0\<rparr>
      in case (case av_local v of Some a \<Rightarrow> Some a | None \<Rightarrow> av_address v) of
           None \<Rightarrow> None
         | Some ip \<Rightarrow>
             Some \<lparr>la_prefix = Some (prefix_new ip (am_prefix_len msg)),
                   la_scope = scope_to_proto (am_scope msg),
                   la_flags = Some (addr_flags_to_proto (av_flags v)),
                   la_valid_lifetime_sec = av_valid v, la_preferred_lifetime_sec = av_preferred v,
                   la_label = av_label v, la_broadcast = av_broadcast v\<rparr>)"

section \<open>The dump\<close>

definition read_interface_sysctls :: "file_system \<Rightarrow> string \<Rightarrow> interface_sysctls" where
  "read_interface_sysctls fs name =
     (let v6 = (\<lambda>key. read_i32 fs (''/proc/sys/net/ipv6/conf/'' @ name @ ''/'' @ key));
          v4 = (\<lambda>key. read_i32 fs (''/proc/sys/net/ipv4/conf/'' @ name @ ''/'' @ key));
          or = (\<lambda>d x. case x of Some v \<Rightarrow> v | None \<Rightarrow> (d::int))
      in \<lparr>sy_ipv6_disabled = (or 0 (v6 ''disable_ipv6'') \<noteq> 0),
          sy_accept_ra = or (-1) (v6 ''accept_ra''),
          sy_accept_ra_defrtr = or (-1) (v6 ''accept_ra_defrtr''),
          sy_accept_ra_rt_info_max_plen = or (-1) (v6 ''accept_ra_rt_info_max_plen''),
          sy_autoconf = or (-1) (v6 ''autoconf''),
          sy_use_tempaddr = or (-1) (v6 ''use_tempaddr''),
          sy_forwarding_v4 = or (-1) (v4 ''forwarding''),
          sy_forwarding_v6 = or (-1) (v6 ''forwarding''),
          sy_rp_filter = or (-1) (v4 ''rp_filter''),
          sy_arp_ignore = or (-1) (v4 ''arp_ignore''),
          sy_dad_transmits = or (-1) (v6 ''dad_transmits''),
          sy_mtu_v6 = or (-1) (v6 ''mtu''),
          sy_hop_limit = or (-1) (v6 ''hop_limit'')\<rparr>)"

definition add_link :: "bool \<Rightarrow> link_message \<Rightarrow> (nat \<times> interface) list \<Rightarrow> (nat \<times> interface) list" where
  "add_link include_stats msg m =
     (let iface = link_to_proto include_stats msg in hm_insert (if_index iface) iface m)"

definition add_address :: "address_message \<Rightarrow> (nat \<times> interface) list \<Rightarrow> (nat \<times> interface) list" where
  "add_address msg m =
     (case map_of m (am_index msg) of
        None \<Rightarrow> m
      | Some iface \<Rightarrow>
          (case address_to_proto msg of
             None \<Rightarrow> m
           | Some a \<Rightarrow> hm_insert (am_index msg) (iface\<lparr>if_addresses := if_addresses iface @ [a]\<rparr>) m))"

definition index_cmp :: "interface \<Rightarrow> interface \<Rightarrow> ordering" where
  "index_cmp a b = cmp_of (if_index a) (if_index b)"

definition get_interfaces ::
  "(string + link_message list) \<Rightarrow> (string + address_message list) \<Rightarrow> file_system \<Rightarrow> bool \<Rightarrow> bool
   \<Rightarrow> string + interface list" where
  "get_interfaces link_dump addr_dump fs include_stats include_sysctls =
     (case link_dump of
        Inl _ \<Rightarrow> Inl ''RTM_GETLINK dump failed''
      | Inr lmsgs \<Rightarrow>
          (case addr_dump of
             Inl _ \<Rightarrow> Inl ''RTM_GETADDR dump failed''
           | Inr amsgs \<Rightarrow>
               let by_index = fold add_address amsgs (fold (add_link include_stats) lmsgs []);
                   out = sort_by index_cmp (map snd by_index)
               in Inr (if include_sysctls
                       then map (\<lambda>i. i\<lparr>if_sysctls := Some (read_interface_sysctls fs (if_name i))\<rparr>) out
                       else out)))"

definition has_global_address :: "interface \<Rightarrow> ip_family \<Rightarrow> bool" where
  "has_global_address iface family =
     list_ex (\<lambda>a. case la_prefix a of
         None \<Rightarrow> False
       | Some p \<Rightarrow>
           (case prefix_ip p of
              None \<Rightarrow> False
            | Some ip \<Rightarrow>
                (case family of Family_V4 \<Rightarrow> is_ipv4 ip | Family_V6 \<Rightarrow> is_ipv6 ip | Family_Unspecified \<Rightarrow> True)
                \<and> la_scope a = SC_Global
                \<and> \<not> (case la_flags a of Some f \<Rightarrow> af_tentative f \<or> af_dadfailed f | None \<Rightarrow> False)))
       (if_addresses iface)"

definition interface_names :: "interface list \<Rightarrow> if_names" where
  "interface_names is = fold (\<lambda>i m. m(if_index i \<mapsto> if_name i)) is Map.empty"

section \<open>Facts\<close>

interpretation interface_order: rust_ord index_cmp
  unfolding index_cmp_def by (rule rust_ord_key)

lemma link_step_keeps:
  "if_index (fst (link_attr_step st a p)) = if_index (fst p)"
  "if_addresses (fst (link_attr_step st a p)) = if_addresses (fst p)"
  "if_sysctls (fst (link_attr_step st a p)) = if_sysctls (fst p)"
  by (cases p; cases a; simp)+

lemma link_fold_keeps:
  "if_index (fst (fold (link_attr_step st) as p)) = if_index (fst p)"
  "if_addresses (fst (fold (link_attr_step st) as p)) = if_addresses (fst p)"
  "if_sysctls (fst (fold (link_attr_step st) as p)) = if_sysctls (fst p)"
  by (induction as arbitrary: p) (simp_all add: link_step_keeps)

lemma link_to_proto_keeps [simp]:
  "if_index (link_to_proto st msg) = lm_index msg"
  "if_addresses (link_to_proto st msg) = []"
  "if_sysctls (link_to_proto st msg) = None"
  by (simp_all add: link_to_proto_def case_prod_beta link_fold_keeps default_interface_def)

text \<open>The map under construction: every entry sits under its own index, with the addresses \<open>f\<close>.\<close>

definition indexed :: "(nat \<Rightarrow> link_address list) \<Rightarrow> (nat \<times> interface) list \<Rightarrow> bool" where
  "indexed f m =
     (hm_wf m \<and> (\<forall>(k, i)\<in>set m. if_index i = k \<and> if_addresses i = f k \<and> if_sysctls i = None))"

lemma indexed_insert:
  assumes "indexed f m" and "if_index i = k" and "if_addresses i = g k" and "if_sysctls i = None"
    and "\<And>j. j \<noteq> k \<Longrightarrow> g j = f j"
  shows "indexed g (hm_insert k i m)"
  using assms hm.wf_insert [of m k i] by (auto simp: indexed_def hm_insert_def)

lemma keys_hm_insert: "fst ` set (hm_insert k v m) = insert k (fst ` set m)"
  by (force simp: hm_insert_def)

lemma add_links:
  "indexed (\<lambda>_. []) m \<Longrightarrow>
   indexed (\<lambda>_. []) (fold (add_link st) lmsgs m) \<and>
   fst ` set (fold (add_link st) lmsgs m) = lm_index ` set lmsgs \<union> fst ` set m"
proof (induction lmsgs arbitrary: m)
  case (Cons l ls)
  have "indexed (\<lambda>_. []) (add_link st l m)"
    unfolding add_link_def Let_def by (rule indexed_insert [OF Cons.prems]) simp_all
  from Cons.IH [OF this] show ?case by (auto simp: add_link_def keys_hm_insert)
qed simp

definition addresses_for :: "address_message list \<Rightarrow> nat \<Rightarrow> link_address list" where
  "addresses_for amsgs k = List.map_filter address_to_proto (filter (\<lambda>a. am_index a = k) amsgs)"

lemma addresses_for_simps [simp]:
  "addresses_for [] k = []"
  "addresses_for (a # as) k =
     (if am_index a = k then (case address_to_proto a of None \<Rightarrow> [] | Some x \<Rightarrow> [x]) else []) @ addresses_for as k"
  by (simp_all add: addresses_for_def map_filter_simps split: option.splits)

lemma add_address_step:
  assumes "indexed f m"
  shows "indexed (\<lambda>k. f k @ addresses_for [a] k) (add_address a m) \<and>
         fst ` set (add_address a m) = fst ` set m"
proof (cases "map_of m (am_index a)")
  case None
  then have "\<forall>e\<in>set m. fst e \<noteq> am_index a" by (force simp: map_of_eq_None_iff)
  with None assms show ?thesis by (fastforce simp: add_address_def indexed_def)
next
  case (Some i)
  then have mem: "(am_index a, i) \<in> set m" by (rule map_of_SomeD)
  with assms have i: "if_index i = am_index a" "if_addresses i = f (am_index a)" "if_sysctls i = None"
    by (auto simp: indexed_def)
  show ?thesis
  proof (cases "address_to_proto a")
    case None
    with Some assms show ?thesis by (simp add: add_address_def cong: if_cong)
  next
    case (Some x)
    with \<open>map_of m (am_index a) = Some i\<close> have
      eq: "add_address a m = hm_insert (am_index a) (i\<lparr>if_addresses := if_addresses i @ [x]\<rparr>) m"
      by (simp add: add_address_def)
    have "indexed (\<lambda>k. f k @ addresses_for [a] k) (add_address a m)"
      unfolding eq by (rule indexed_insert [OF assms]) (simp_all add: i Some)
    moreover have "fst ` set (add_address a m) = fst ` set m"
      unfolding eq keys_hm_insert using mem by force
    ultimately show ?thesis by simp
  qed
qed

lemma add_addresses:
  "indexed f m \<Longrightarrow>
   indexed (\<lambda>k. f k @ addresses_for amsgs k) (fold add_address amsgs m) \<and>
   fst ` set (fold add_address amsgs m) = fst ` set m"
proof (induction amsgs arbitrary: f m)
  case (Cons a as)
  from add_address_step [OF Cons.prems, of a]
  have "indexed (\<lambda>k. f k @ addresses_for [a] k) (add_address a m)"
    and keys: "fst ` set (add_address a m) = fst ` set m" by auto
  from Cons.IH [OF this(1)] keys show ?case by simp
qed simp

lemma distinct_sorted_strict:
  "distinct (map if_index xs) \<Longrightarrow> sorted_wrt (\<lambda>a b. index_cmp a b \<noteq> Greater) xs \<Longrightarrow>
   sorted_wrt (<) (map if_index xs)"
  by (induction xs) (force simp: index_cmp_def cmp_of_def split: if_splits)+

text \<open>
  C38: the interface dump is complete and consistent. For any two kernel dumps it succeeds; the
  interfaces come in strictly increasing index order, one for each index of the link dump and no
  other; each carries exactly the addresses the kernel reported for its index, in the kernel's
  order, and its sysctls exactly when they were asked for.
\<close>

theorem interfaces_complete:
  "\<exists>is. get_interfaces (Inr lmsgs) (Inr amsgs) fs st sy = Inr is \<and>
        sorted_wrt (<) (map if_index is) \<and>
        set (map if_index is) = set (map lm_index lmsgs) \<and>
        list_all (\<lambda>i. if_addresses i = List.map_filter address_to_proto (filter (\<lambda>a. am_index a = if_index i) amsgs) \<and>
                     if_sysctls i = (if sy then Some (read_interface_sysctls fs (if_name i)) else None)) is"
proof -
  let ?m = "fold add_address amsgs (fold (add_link st) lmsgs [])"
  let ?out = "sort_by index_cmp (map snd ?m)"
  let ?is = "if sy then map (\<lambda>i. i\<lparr>if_sysctls := Some (read_interface_sysctls fs (if_name i))\<rparr>) ?out else ?out"
  have l: "indexed (\<lambda>_. []) (fold (add_link st) lmsgs [])"
    "fst ` set (fold (add_link st) lmsgs []) = lm_index ` set lmsgs"
    using add_links [of "[]"] by (simp_all add: indexed_def hm_wf_def)
  then have ix: "indexed (addresses_for amsgs) ?m" and keys: "fst ` set ?m = lm_index ` set lmsgs"
    using add_addresses [OF l(1), of amsgs] by simp_all
  have idx: "map (if_index \<circ> snd) ?m = map fst ?m" using ix by (auto simp: indexed_def)
  have "mset (map if_index ?out) = mset (map if_index (map snd ?m))"
    unfolding mset_map mset_sort_by ..
  then have out: "mset (map if_index ?out) = mset (map fst ?m)" by (simp add: idx)
  have "distinct (map fst ?m)" using ix by (simp add: indexed_def hm_wf_def)
  then have "distinct (map if_index ?out)" by (simp only: mset_eq_imp_distinct_iff [OF out])
  then have s: "sorted_wrt (<) (map if_index ?out)"
    by (rule distinct_sorted_strict) (rule interface_order.sort_by_sorted)
  have is_idx: "map if_index ?is = map if_index ?out" by simp
  have set_idx: "set (map if_index ?out) = lm_index ` set lmsgs"
    using keys mset_eq_setD [OF out] by simp
  have "list_all (\<lambda>i. if_addresses i = addresses_for amsgs (if_index i) \<and>
      if_sysctls i = (if sy then Some (read_interface_sysctls fs (if_name i)) else None)) ?is"
    using ix by (auto simp: list_all_iff indexed_def)
  then show ?thesis
    unfolding addresses_for_def using s is_idx set_idx
    by (intro exI [of _ ?is]) (simp add: get_interfaces_def Let_def)
qed

end
