(* ===== verification/Procnet.thy ===== *)
theory Procnet
  imports Links
begin

text \<open>
  Kernel state behind \<^verbatim>\<open>/proc\<close> (\<^verbatim>\<open>daemon/src/collect/procnet.rs\<close>): sysctls, SNMP counters,
  the resolver configuration, namespaces and the detection of 464XLAT. The file system, the inode
  of the own namespace and the entries of the namespace directory are arguments. Maps keyed by
  strings are functions to \<open>option\<close>.
\<close>

section \<open>Global sysctls\<close>

definition GLOBAL_SYSCTLS :: "string list" where
  "GLOBAL_SYSCTLS =
     [''ipv4/ip_forward'', ''ipv4/tcp_congestion_control'', ''ipv4/tcp_available_congestion_control'',
      ''ipv4/tcp_fastopen'', ''ipv4/tcp_mtu_probing'', ''ipv4/tcp_base_mss'', ''ipv4/tcp_syn_retries'',
      ''ipv4/tcp_synack_retries'', ''ipv4/tcp_retries2'', ''ipv4/tcp_fin_timeout'',
      ''ipv4/tcp_keepalive_time'', ''ipv4/tcp_keepalive_intvl'', ''ipv4/tcp_keepalive_probes'',
      ''ipv4/tcp_ecn'', ''ipv4/tcp_timestamps'', ''ipv4/tcp_sack'', ''ipv4/tcp_rmem'', ''ipv4/tcp_wmem'',
      ''ipv4/ip_no_pmtu_disc'', ''ipv4/route/min_pmtu'', ''ipv4/route/mtu_expires'',
      ''ipv4/ping_group_range'', ''ipv4/conf/all/rp_filter'', ''ipv6/conf/all/forwarding'',
      ''ipv6/conf/all/disable_ipv6'', ''ipv6/conf/all/accept_ra'', ''ipv6/conf/default/accept_ra'',
      ''ipv6/conf/all/use_tempaddr'', ''ipv6/route/max_size'', ''core/default_qdisc'',
      ''core/somaxconn'', ''core/rmem_max'', ''core/wmem_max'']"

record global_sysctls =
  gs_ipv4_forwarding :: int
  gs_ipv6_forwarding :: int
  gs_ipv6_disable :: int
  gs_tcp_congestion_control :: string
  gs_tcp_available_congestion_control :: string
  gs_tcp_fastopen :: int
  gs_tcp_mtu_probing :: int
  gs_tcp_base_mss :: int
  gs_tcp_syn_retries :: int
  gs_tcp_synack_retries :: int
  gs_tcp_retries2 :: int
  gs_tcp_fin_timeout :: int
  gs_tcp_keepalive_time :: int
  gs_tcp_ecn :: int
  gs_tcp_timestamps :: int
  gs_tcp_sack :: int
  gs_default_qdisc_present :: int
  gs_default_qdisc :: string
  gs_ping_group_range :: string
  gs_ip_no_pmtu_disc :: int
  gs_route_min_pmtu :: int
  gs_raw :: "string \<rightharpoonup> string"

definition sysctl_raw :: "file_system \<Rightarrow> (string \<rightharpoonup> string)" where
  "sysctl_raw fs = fold (\<lambda>key m.
     case read_trimmed fs (''/proc/sys/net/'' @ key) of
       Some value \<Rightarrow> m(key \<mapsto> join '' '' (split_whitespace value))
     | None \<Rightarrow> m) GLOBAL_SYSCTLS Map.empty"

definition raw_i32 :: "(string \<rightharpoonup> string) \<Rightarrow> string \<Rightarrow> int" where
  "raw_i32 raw key =
     (case raw key of
        None \<Rightarrow> -1
      | Some v \<Rightarrow> (case split_whitespace v of
            [] \<Rightarrow> -1
          | w # _ \<Rightarrow> (case parse_sint 32 w of Some i \<Rightarrow> i | None \<Rightarrow> -1)))"

definition raw_str :: "(string \<rightharpoonup> string) \<Rightarrow> string \<Rightarrow> string" where
  "raw_str raw key = (case raw key of Some v \<Rightarrow> v | None \<Rightarrow> [])"

definition read_global_sysctls :: "file_system \<Rightarrow> global_sysctls" where
  "read_global_sysctls fs =
     (let raw = sysctl_raw fs; default_qdisc = raw_str raw ''core/default_qdisc''
      in \<lparr>gs_ipv4_forwarding = raw_i32 raw ''ipv4/ip_forward'',
          gs_ipv6_forwarding = raw_i32 raw ''ipv6/conf/all/forwarding'',
          gs_ipv6_disable = raw_i32 raw ''ipv6/conf/all/disable_ipv6'',
          gs_tcp_congestion_control = raw_str raw ''ipv4/tcp_congestion_control'',
          gs_tcp_available_congestion_control = raw_str raw ''ipv4/tcp_available_congestion_control'',
          gs_tcp_fastopen = raw_i32 raw ''ipv4/tcp_fastopen'',
          gs_tcp_mtu_probing = raw_i32 raw ''ipv4/tcp_mtu_probing'',
          gs_tcp_base_mss = raw_i32 raw ''ipv4/tcp_base_mss'',
          gs_tcp_syn_retries = raw_i32 raw ''ipv4/tcp_syn_retries'',
          gs_tcp_synack_retries = raw_i32 raw ''ipv4/tcp_synack_retries'',
          gs_tcp_retries2 = raw_i32 raw ''ipv4/tcp_retries2'',
          gs_tcp_fin_timeout = raw_i32 raw ''ipv4/tcp_fin_timeout'',
          gs_tcp_keepalive_time = raw_i32 raw ''ipv4/tcp_keepalive_time'',
          gs_tcp_ecn = raw_i32 raw ''ipv4/tcp_ecn'',
          gs_tcp_timestamps = raw_i32 raw ''ipv4/tcp_timestamps'',
          gs_tcp_sack = raw_i32 raw ''ipv4/tcp_sack'',
          gs_default_qdisc_present = (if default_qdisc \<noteq> [] then 1 else 0),
          gs_default_qdisc = default_qdisc,
          gs_ping_group_range = raw_str raw ''ipv4/ping_group_range'',
          gs_ip_no_pmtu_disc = raw_i32 raw ''ipv4/ip_no_pmtu_disc'',
          gs_route_min_pmtu = raw_i32 raw ''ipv4/route/min_pmtu'',
          gs_raw = raw\<rparr>)"

definition ping_group_range_allows :: "file_system \<Rightarrow> nat \<Rightarrow> bool" where
  "ping_group_range_allows fs gid =
     (case read_trimmed fs ''/proc/sys/net/ipv4/ping_group_range'' of
        None \<Rightarrow> False
      | Some value \<Rightarrow>
          (case split_whitespace value of
             lo # hi # _ \<Rightarrow>
               (case (parse_uint 64 lo, parse_uint 64 hi) of
                  (Some l, Some h) \<Rightarrow> l \<le> gid \<and> gid \<le> h
                | _ \<Rightarrow> False)
           | _ \<Rightarrow> False))"

section \<open>Counters\<close>

type_synonym counters = "string \<rightharpoonup> int"

fun insert_counters :: "string list \<Rightarrow> string list \<Rightarrow> counters \<Rightarrow> counters" where
  "insert_counters (n # ns) (v # vs) m =
     insert_counters ns vs (case parse_sint 64 v of Some i \<Rightarrow> m(n \<mapsto> i) | None \<Rightarrow> m)"
| "insert_counters _ _ m = m"

definition snmp_pair :: "string \<Rightarrow> string \<Rightarrow> (string \<rightharpoonup> counters) \<Rightarrow> (string \<rightharpoonup> counters)" where
  "snmp_pair header values out =
     (case split_once CHR '':'' header of
        None \<Rightarrow> out
      | Some (proto_name, header_rest) \<Rightarrow>
          (case split_once CHR '':'' values of
             None \<Rightarrow> out
           | Some (values_proto, values_rest) \<Rightarrow>
               if proto_name \<noteq> values_proto then out
               else
                 (let name = to_ascii_lowercase proto_name;
                      entry = (case out name of Some e \<Rightarrow> e | None \<Rightarrow> Map.empty)
                  in out(name \<mapsto> insert_counters (split_whitespace header_rest) (split_whitespace values_rest) entry))))"

fun snmp_lines :: "string list \<Rightarrow> (string \<rightharpoonup> counters) \<Rightarrow> (string \<rightharpoonup> counters)" where
  "snmp_lines (header # values # rest) out = snmp_lines rest (snmp_pair header values out)"
| "snmp_lines _ out = out"

definition parse_snmp_style :: "string \<Rightarrow> (string \<rightharpoonup> counters)" where
  "parse_snmp_style text = snmp_lines (lines text) Map.empty"

definition flat_line :: "string \<Rightarrow> (string \<times> int) option" where
  "flat_line line =
     (case split_whitespace line of
        name # value # _ \<Rightarrow> map_option (Pair name) (parse_sint 64 value)
      | _ \<Rightarrow> None)"

text \<open>The pairs in file order; the collected map keeps the last value of a name.\<close>

definition flat_pairs :: "string \<Rightarrow> (string \<times> int) list" where
  "flat_pairs text = List.map_filter flat_line (lines text)"

definition parse_flat_counters :: "string \<Rightarrow> counters" where
  "parse_flat_counters text = fold (\<lambda>(n, v) m. m(n \<mapsto> v)) (flat_pairs text) Map.empty"

record protocol_counters =
  pc_ip :: counters
  pc_icmp :: counters
  pc_tcp :: counters
  pc_udp :: counters
  pc_ip6 :: counters
  pc_icmp6 :: counters
  pc_udp6 :: counters
  pc_tcp_ext :: counters
  pc_ip_ext :: counters

text \<open>Entries whose name starts with the prefix, under the rest of the name.\<close>

definition take_prefix :: "counters \<Rightarrow> string \<Rightarrow> counters" where
  "take_prefix v6 prefix = (\<lambda>k. v6 (prefix @ k))"

definition read_counters :: "file_system \<Rightarrow> protocol_counters" where
  "read_counters fs =
     (let content = (\<lambda>p. case fs p of Some t \<Rightarrow> t | None \<Rightarrow> []);
          snmp = parse_snmp_style (content ''/proc/net/snmp'');
          netstat = parse_snmp_style (content ''/proc/net/netstat'');
          v6 = parse_flat_counters (content ''/proc/net/snmp6'');
          get = (\<lambda>m k. case m k of Some c \<Rightarrow> c | None \<Rightarrow> Map.empty)
      in \<lparr>pc_ip = get snmp ''ip'', pc_icmp = get snmp ''icmp'', pc_tcp = get snmp ''tcp'',
          pc_udp = get snmp ''udp'', pc_ip6 = take_prefix v6 ''Ip6'', pc_icmp6 = take_prefix v6 ''Icmp6'',
          pc_udp6 = take_prefix v6 ''Udp6'', pc_tcp_ext = get netstat ''tcpext'', pc_ip_ext = get netstat ''ipext''\<rparr>)"

section \<open>Resolver and namespaces\<close>

record resolver_state =
  rs_servers :: "ip_address list"
  rs_domains :: "string list"
  rs_present :: bool
  rs_note :: string

definition no_resolv_note :: string where
  "no_resolv_note = ''no /etc/resolv.conf; on Android the resolver lives in netd and DNS servers are published through LinkProperties instead''"

definition resolv_line :: "string \<Rightarrow> ip_address list \<times> string list \<Rightarrow> ip_address list \<times> string list" where
  "resolv_line line0 acc =
     (let line = trim line0; (servers, domains) = acc
      in case strip_prefix line ''nameserver'' of
           Some rest \<Rightarrow>
             (case parse_ip (trim rest) of
                Some ip \<Rightarrow> (servers @ [from_ip ip], domains)
              | None \<Rightarrow> (servers, domains))
         | None \<Rightarrow>
             (case strip_prefix line ''search'' of
                Some rest \<Rightarrow> (servers, domains @ split_whitespace rest)
              | None \<Rightarrow> (servers, domains)))"

definition read_resolver_state :: "file_system \<Rightarrow> resolver_state" where
  "read_resolver_state fs =
     (case read_trimmed fs ''/etc/resolv.conf'' of
        None \<Rightarrow> \<lparr>rs_servers = [], rs_domains = [], rs_present = False, rs_note = no_resolv_note\<rparr>
      | Some text \<Rightarrow>
          (let (servers, domains) = fold resolv_line (lines text) ([], [])
           in \<lparr>rs_servers = servers, rs_domains = domains, rs_present = True, rs_note = []\<rparr>))"

record network_namespace =
  ns_id :: int
  ns_name :: string
  ns_inode :: nat
  ns_is_current :: bool

text \<open>
  The inode of the own namespace, when it can be read, and the entries of
  \<^verbatim>\<open>/var/run/netns\<close>, each with its inode when its metadata can be read.
\<close>

definition read_namespaces :: "nat option \<Rightarrow> (string \<times> nat option) list option \<Rightarrow> network_namespace list" where
  "read_namespaces self entries =
     (let current = (case self of Some i \<Rightarrow> i | None \<Rightarrow> 0)
      in \<lparr>ns_id = -1, ns_name = ''self'', ns_inode = current, ns_is_current = True\<rparr>
         # (case entries of
              None \<Rightarrow> []
            | Some es \<Rightarrow> List.map_filter (\<lambda>(name, ino).
                map_option (\<lambda>i. \<lparr>ns_id = -1, ns_name = name, ns_inode = i, ns_is_current = (i = current)\<rparr>) ino) es))"

section \<open>464XLAT\<close>

record clat_state =
  cl_active :: bool
  cl_interface :: string
  cl_base_interface :: string
  cl_ipv4_address :: "ip_address option"
  cl_ipv6_address :: "ip_address option"
  cl_detected_nat64_prefix :: "ip_prefix option"
  cl_detection_method :: string

definition is_clat :: "interface \<Rightarrow> bool" where
  "is_clat i = (if_kind i = LK_Clat \<or> starts_with (if_name i) ''v4-'')"

definition interface_ips :: "interface \<Rightarrow> ip_addr list" where
  "interface_ips i = List.map_filter (\<lambda>a. Option.bind (la_prefix a) prefix_ip) (if_addresses i)"

definition detect_clat :: "interface list \<Rightarrow> clat_state" where
  "detect_clat interfaces =
     (case find is_clat interfaces of
        None \<Rightarrow>
          \<lparr>cl_active = False, cl_interface = [], cl_base_interface = [], cl_ipv4_address = None,
           cl_ipv6_address = None, cl_detected_nat64_prefix = None, cl_detection_method = ''no v4-* interface present''\<rparr>
      | Some clat \<Rightarrow>
          \<lparr>cl_active = (case if_flags clat of Some f \<Rightarrow> fl_up f \<and> fl_running f | None \<Rightarrow> False),
           cl_interface = if_name clat,
           cl_base_interface = (case strip_prefix (if_name clat) ''v4-'' of Some b \<Rightarrow> b | None \<Rightarrow> []),
           cl_ipv4_address = map_option from_ip (find is_ipv4 (interface_ips clat)),
           cl_ipv6_address = map_option from_ip (find is_ipv6 (interface_ips clat)),
           cl_detected_nat64_prefix = None,
           cl_detection_method = ''clat interface '' @ if_name clat @ '' present''\<rparr>)"

end
