(* ===== verification/Firewall.thy ===== *)
theory Firewall
  imports Util Net_Addr "HOL-Library.List_Lexorder" "HOL-Library.Char_ord"
begin

text \<open>
  Firewall state (\<^verbatim>\<open>daemon/src/collect/firewall.rs\<close>): the per-uid rules of netd's eBPF map, the
  decoding of their bits, the parser of \<^verbatim>\<open>iptables-save\<close> output and the collection of
  what exists. The pinned maps, the directory listings and the output of the netfilter tools are
  an environment.
\<close>

section \<open>Per-uid rules\<close>

definition UID_OWNER_MAP_PATHS :: "string list" where
  "UID_OWNER_MAP_PATHS =
     [''/sys/fs/bpf/netd_shared/map_netd_uid_owner_map'',
      ''/sys/fs/bpf/net_shared/map_netd_uid_owner_map'',
      ''/sys/fs/bpf/map_netd_uid_owner_map'']"

definition bit_of :: "nat \<Rightarrow> u32" where "bit_of n = push_bit n 1"

definition MATCH_BITS :: "(u32 \<times> string) list" where
  "MATCH_BITS =
     [(bit_of 0, ''HAPPY_BOX (metered allowlist)''),
      (bit_of 1, ''PENALTY_BOX (metered denylist)''),
      (bit_of 2, ''DOZABLE (allowlisted while dozing)''),
      (bit_of 3, ''STANDBY (denied while in app standby)''),
      (bit_of 4, ''POWERSAVE (allowlisted in battery saver)''),
      (bit_of 5, ''RESTRICTED (allowlisted in restricted mode)''),
      (bit_of 6, ''LOW_POWER_STANDBY (allowlisted)''),
      (bit_of 7, ''IIF (restricted to an input interface)''),
      (bit_of 8, ''LOCKDOWN_VPN (blocked outside the VPN)''),
      (bit_of 9, ''OEM_DENY_1''),
      (bit_of 10, ''OEM_DENY_2''),
      (bit_of 11, ''OEM_DENY_3''),
      (bit_of 12, ''BACKGROUND (denied in background)'')]"

definition DENY_BITS :: u32 where
  "DENY_BITS = bit_of 1 OR bit_of 8 OR bit_of 9 OR bit_of 10 OR bit_of 11"

definition known_bits :: u32 where
  "known_bits = sum_list (map fst MATCH_BITS)"

definition decode_match_bits :: "u32 \<Rightarrow> string list" where
  "decode_match_bits rule =
     (let names = map snd (filter (\<lambda>(b, _). rule AND b \<noteq> 0) MATCH_BITS);
          unknown = rule AND NOT known_bits
      in names @ (if unknown \<noteq> 0 then [''unknown bits 0x'' @ hex (unat unknown)] else []))"

record uid_firewall_state =
  uf_uid :: nat
  uf_blocked_dozable :: bool
  uf_blocked_standby :: bool
  uf_blocked_powersave :: bool
  uf_blocked_restricted :: bool
  uf_blocked_low_power_standby :: bool
  uf_blocked_metered_allow :: bool
  uf_blocked_metered_deny_user :: bool
  uf_blocked_metered_deny_admin :: bool
  uf_raw_match :: u32
  uf_source_available :: bool

datatype map_lookup = ML_Value bytes | ML_NotFound | ML_Error

record firewall_env =
  fw_exists :: "string \<Rightarrow> bool"
  fw_obj_get :: "string \<Rightarrow> bool"
  fw_lookup :: "nat \<Rightarrow> map_lookup"
  fw_read_dir :: "string \<Rightarrow> string list option"
  fw_run_tool :: "string \<Rightarrow> string list \<Rightarrow> string option"

definition uid_owner_map_path :: "firewall_env \<Rightarrow> string option" where
  "uid_owner_map_path env = find (fw_exists env) UID_OWNER_MAP_PATHS"

definition empty_uid_state :: "nat \<Rightarrow> uid_firewall_state" where
  "empty_uid_state uid =
     \<lparr>uf_uid = uid, uf_blocked_dozable = False, uf_blocked_standby = False, uf_blocked_powersave = False,
      uf_blocked_restricted = False, uf_blocked_low_power_standby = False, uf_blocked_metered_allow = False,
      uf_blocked_metered_deny_user = False, uf_blocked_metered_deny_admin = False, uf_raw_match = 0,
      uf_source_available = False\<rparr>"

definition apply_rule_bits :: "u32 \<Rightarrow> uid_firewall_state \<Rightarrow> uid_firewall_state" where
  "apply_rule_bits rule s =
     s\<lparr>uf_raw_match := rule,
       uf_blocked_metered_deny_user := (rule AND bit_of 1 \<noteq> 0),
       uf_blocked_standby := (rule AND bit_of 3 \<noteq> 0),
       uf_blocked_dozable := (rule AND bit_of 2 = 0),
       uf_blocked_powersave := (rule AND bit_of 4 = 0),
       uf_blocked_restricted := (rule AND bit_of 5 = 0),
       uf_blocked_low_power_standby := (rule AND bit_of 6 = 0),
       uf_blocked_metered_allow := (rule AND bit_of 0 \<noteq> 0),
       uf_blocked_metered_deny_admin := (rule AND DENY_BITS AND NOT (bit_of 1) \<noteq> 0)\<rparr>"

text \<open>The value is read in the byte order of the machine, little-endian on the supported ones.\<close>

definition read_uid_firewall :: "firewall_env \<Rightarrow> nat \<Rightarrow> uid_firewall_state" where
  "read_uid_firewall env uid =
     (let state = empty_uid_state uid
      in case uid_owner_map_path env of
           None \<Rightarrow> state
         | Some path \<Rightarrow>
             if \<not> fw_obj_get env path then state
             else (case fw_lookup env uid of
                 ML_Value v \<Rightarrow>
                   apply_rule_bits (from_le32 (v ! 4) (v ! 5) (v ! 6) (v ! 7)) (state\<lparr>uf_source_available := True\<rparr>)
               | ML_NotFound \<Rightarrow> state\<lparr>uf_source_available := True\<rparr>
               | ML_Error \<Rightarrow> state\<lparr>uf_source_available := False\<rparr>))"

definition is_unambiguously_denied :: "uid_firewall_state \<Rightarrow> bool" where
  "is_unambiguously_denied s = (uf_source_available s \<and> uf_raw_match s AND DENY_BITS \<noteq> 0)"

section \<open>Netfilter chains\<close>

record firewall_chain =
  fc_table :: string
  fc_name :: string
  fc_policy :: string
  fc_packets :: nat
  fc_bytes :: nat
  fc_rules :: "string list"

definition parse_counter :: "string \<Rightarrow> (nat \<times> nat) option" where
  "parse_counter token =
     (case split_once CHR '':'' (trim_end_matches CHR '']'' (trim_start_matches CHR ''['' token)) of
        None \<Rightarrow> None
      | Some (p, b) \<Rightarrow>
          (case (parse_uint 64 p, parse_uint 64 b) of (Some x, Some y) \<Rightarrow> Some (x, y) | _ \<Rightarrow> None))"

text \<open>The last chain of that name in the table gets the rule; without one it is dropped.\<close>

fun attach_first :: "string \<Rightarrow> string \<Rightarrow> string \<Rightarrow> firewall_chain list \<Rightarrow> firewall_chain list" where
  "attach_first table name rule [] = []"
| "attach_first table name rule (c # cs) =
     (if fc_name c = name \<and> fc_table c = table then c\<lparr>fc_rules := fc_rules c @ [rule]\<rparr> # cs
      else c # attach_first table name rule cs)"

definition attach_rule :: "string \<Rightarrow> string \<Rightarrow> string \<Rightarrow> firewall_chain list \<Rightarrow> firewall_chain list" where
  "attach_rule table name rule cs = rev (attach_first table name rule (rev cs))"

definition rule_body :: "string \<Rightarrow> string" where
  "rule_body line =
     (case Option.bind (strip_prefix line ''['') (split_once CHR '']'') of
        Some (_, r) \<Rightarrow> trim r
      | None \<Rightarrow> line)"

definition iptables_line :: "string \<Rightarrow> string \<times> firewall_chain list \<Rightarrow> string \<times> firewall_chain list" where
  "iptables_line line0 acc =
     (let line = trim line0; (table, cs) = acc
      in case strip_prefix line ''*'' of
           Some name \<Rightarrow> (name, cs)
         | None \<Rightarrow>
        (case strip_prefix line '':'' of
           Some rest \<Rightarrow>
             (case split_whitespace rest of
                name # policy # rst \<Rightarrow>
                  (let (packets, bytes) =
                     (case rst of
                        c # _ \<Rightarrow> (case parse_counter c of Some pb \<Rightarrow> pb | None \<Rightarrow> (0, 0))
                      | [] \<Rightarrow> (0, 0))
                   in (table, cs @ [\<lparr>fc_table = table, fc_name = name, fc_policy = policy,
                         fc_packets = packets, fc_bytes = bytes, fc_rules = []\<rparr>]))
              | _ \<Rightarrow> (table, cs))
         | None \<Rightarrow>
             if starts_with line ''-A '' \<or> starts_with line ''['' then
               (let body = rule_body line
                in case Option.bind (strip_prefix body ''-A '') (\<lambda>r. case split_whitespace r of w # _ \<Rightarrow> Some w | [] \<Rightarrow> None) of
                     Some chain_name \<Rightarrow> (table, attach_rule table chain_name body cs)
                   | None \<Rightarrow> (table, cs))
             else (table, cs)))"

definition parse_iptables_save :: "string \<Rightarrow> firewall_chain list" where
  "parse_iptables_save text = snd (fold iptables_line (lines text) ([], []))"

section \<open>Collection\<close>

datatype firewall_backend = FB_Unspecified | FB_Iptables | FB_Nftables | FB_Ebpf

fun backend_i32 :: "firewall_backend \<Rightarrow> int" where
  "backend_i32 FB_Unspecified = 0"
| "backend_i32 FB_Iptables = 1"
| "backend_i32 FB_Nftables = 2"
| "backend_i32 FB_Ebpf = 3"

record firewall_state =
  fs_backends_detected :: "int list"
  fs_ipv4_chains :: "firewall_chain list"
  fs_ipv6_chains :: "firewall_chain list"
  fs_bpf_pinned_objects :: "string list"
  fs_bpf_maps_readable :: bool
  fs_used_shell_fallback :: bool
  fs_collection_note :: string

definition BPF_ROOTS :: "string list" where
  "BPF_ROOTS = [''/sys/fs/bpf'', ''/sys/fs/bpf/netd_shared'', ''/sys/fs/bpf/net_shared'']"

definition is_network_pin :: "string \<Rightarrow> bool" where
  "is_network_pin name = (contains_str name ''net'' \<or> contains_str name ''uid'' \<or> contains_str name ''clat''
     \<or> contains_str name ''tether'' \<or> contains_str name ''cookie'')"

definition list_bpf_pins :: "firewall_env \<Rightarrow> string list \<times> bool" where
  "list_bpf_pins env =
     (let listed = List.map_filter (\<lambda>root. map_option (Pair root) (fw_read_dir env root)) BPF_ROOTS;
          found = concat (map (\<lambda>(root, names). map (\<lambda>n. root @ ''/'' @ n) (filter is_network_pin names)) listed)
      in (dedup (sort_by cmp_of found), listed \<noteq> []))"

definition collect :: "firewall_env \<Rightarrow> bool \<Rightarrow> firewall_state" where
  "collect env use_shell_fallback =
     (let (pins, bpf_readable) = list_bpf_pins env;
          uid_map_present = (uid_owner_map_path env \<noteq> None);
          v4 = (if use_shell_fallback then fw_run_tool env ''iptables-save'' [''-c''] else None);
          v6 = (if use_shell_fallback then fw_run_tool env ''ip6tables-save'' [''-c''] else None);
          nft = (if use_shell_fallback then fw_run_tool env ''nft'' [''list'', ''tables''] else None);
          v4_chains = (case v4 of Some t \<Rightarrow> parse_iptables_save t | None \<Rightarrow> []);
          v6_chains = (case v6 of Some t \<Rightarrow> parse_iptables_save t | None \<Rightarrow> []);
          backends =
            (if uid_map_present \<or> pins \<noteq> [] then [backend_i32 FB_Ebpf] else [])
            @ (if v4_chains \<noteq> [] then [backend_i32 FB_Iptables] else [])
            @ (if nft \<noteq> None then [backend_i32 FB_Nftables] else [])
      in \<lparr>fs_backends_detected = dedup (sort_by cmp_of backends), fs_ipv4_chains = v4_chains,
          fs_ipv6_chains = v6_chains, fs_bpf_pinned_objects = pins, fs_bpf_maps_readable = bpf_readable,
          fs_used_shell_fallback = (v4 \<noteq> None \<or> v6 \<noteq> None),
          fs_collection_note =
            (if uid_map_present then ''per-uid rules read from netd's eBPF uid_owner_map''
             else if bpf_readable then
               ''eBPF filesystem is present but netd's uid_owner_map was not found; per-uid blocking state is not determinable''
             else ''no readable eBPF or netfilter state'')\<rparr>)"

section \<open>No bit of a rule is lost\<close>

lemma and_bit_of: "n < 32 \<Longrightarrow> r AND bit_of n \<noteq> 0 \<longleftrightarrow> bit r n"
  by (simp add: bit_of_def push_bit_eq_mult and_exp_eq_0_iff_not_bit)

lemma match_names:
  "distinct (map snd MATCH_BITS)" "map fst MATCH_BITS = map bit_of [0..<13]"
  "list_all (\<lambda>(_, n). hd n \<noteq> CHR ''u'') MATCH_BITS"
  by code_simp+

lemma known_bits_eq: "known_bits = mask 13"
  by code_simp

lemma bit_known: "bit known_bits n \<longleftrightarrow> n < 13"
  by (auto simp: known_bits_eq bit_mask_iff)

lemma filtered_name:
  assumes "distinct (map snd xs)" "(b, n) \<in> set xs"
  shows "n \<in> set (map snd (filter P xs)) \<longleftrightarrow> P (b, n)"
  using assms by (force simp: distinct_map inj_on_def)

definition unknown_text :: "u32 \<Rightarrow> string" where
  "unknown_text u = ''unknown bits 0x'' @ hex (unat u)"

lemma unknown_text_inject: "unknown_text u = unknown_text v \<longleftrightarrow> u = v"
  using number_val_hex by (metis append_same_eq same_append_eq unknown_text_def word_unat_eq_iff)

lemma hd_unknown_text: "hd (unknown_text u) = CHR ''u''"
  by (simp add: unknown_text_def)

lemma decode_match_bits_set:
  "set (decode_match_bits r) =
     snd ` set (filter (\<lambda>(b, _). r AND b \<noteq> 0) MATCH_BITS) \<union>
     (if r AND NOT known_bits \<noteq> 0 then {unknown_text (r AND NOT known_bits)} else {})"
  by (simp add: decode_match_bits_def Let_def unknown_text_def)

lemma named_hd: "(b, n) \<in> set MATCH_BITS \<Longrightarrow> hd n \<noteq> CHR ''u''"
  using match_names(3) by (auto simp: list_all_iff)

lemma known_bit_reported:
  assumes "i < 13"
  shows "snd (MATCH_BITS ! i) \<in> set (decode_match_bits r) \<longleftrightarrow> bit r i"
proof -
  have len: "length MATCH_BITS = 13"
    using arg_cong [OF match_names(2), of length] by simp
  then have mem: "MATCH_BITS ! i \<in> set MATCH_BITS" and b: "fst (MATCH_BITS ! i) = bit_of i"
    using assms arg_cong [OF match_names(2), of "\<lambda>l. l ! i"] by simp_all
  then have m: "(bit_of i, snd (MATCH_BITS ! i)) \<in> set MATCH_BITS"
    by (metis prod.collapse)
  have "snd (MATCH_BITS ! i) \<noteq> unknown_text u" for u
    using named_hd [OF m] by (metis hd_unknown_text)
  with filtered_name [OF match_names(1) m, of "\<lambda>(b, _). r AND b \<noteq> 0"] show ?thesis
    using assms by (simp add: decode_match_bits_set and_bit_of)
qed

lemma unknown_reported:
  "{n \<in> set (decode_match_bits r). hd n = CHR ''u''} =
     (if r AND NOT known_bits \<noteq> 0 then {unknown_text (r AND NOT known_bits)} else {})"
  unfolding decode_match_bits_set using named_hd hd_unknown_text by auto

text \<open>
  The names reported for a rule of netd's map stand for the whole rule: two rules give the same
  list of names only when they are the same 32 bits, so no bit, known or not, is dropped.
\<close>

lemma match_bits_lossless: "decode_match_bits r = decode_match_bits r' \<longleftrightarrow> r = r'"
proof
  assume eq: "decode_match_bits r = decode_match_bits r'"
  have unknown: "r AND NOT known_bits = r' AND NOT known_bits"
    using unknown_reported [of r] unknown_reported [of r'] unfolding eq
    by (auto simp: unknown_text_inject split: if_splits)
  show "r = r'"
  proof (rule bit_word_eqI)
    fix n assume n: "n < LENGTH(32)"
    show "bit r n \<longleftrightarrow> bit r' n"
    proof (cases "n < 13")
      case True
      then show ?thesis using known_bit_reported [of n r] known_bit_reported [of n r'] eq by simp
    next
      case False
      have "bit (r AND NOT known_bits) n \<longleftrightarrow> bit (r' AND NOT known_bits) n" by (simp only: unknown)
      with False n show ?thesis by (simp add: bit_and_iff bit_not_iff bit_known)
    qed
  qed
qed simp

text \<open>A verdict is given only on data: the map was found, opened and held an entry with a deny bit.\<close>

lemma denied_iff:
  "is_unambiguously_denied (read_uid_firewall env uid) \<longleftrightarrow>
     (\<exists>path v. uid_owner_map_path env = Some path \<and> fw_obj_get env path \<and> fw_lookup env uid = ML_Value v \<and>
        from_le32 (v ! 4) (v ! 5) (v ! 6) (v ! 7) AND DENY_BITS \<noteq> 0)"
  by (simp add: is_unambiguously_denied_def read_uid_firewall_def empty_uid_state_def apply_rule_bits_def Let_def
      split: option.split map_lookup.split)

end
