(* ===== verification/Android.thy ===== *)
theory Android
  imports Net_Addr
begin

text \<open>
  The framework state the app supplies (\<open>AndroidNetworkState\<close> and its parts in
  \<^verbatim>\<open>proto/netdiag/v1/android.proto\<close>): what ConnectivityManager believes, against which the
  daemon compares the kernel. Enumerations stay the integers of the wire where the code converts
  them itself. Left out are the fields that neither the daemon reads nor the app fills, such as
  \<open>LinkPropertiesInfo.stacked_links\<close>, the proxy settings and \<open>AndroidNetworkState.device_model\<close>.
\<close>

record network_capabilities =
  nc_internet :: bool
  nc_validated :: bool
  nc_captive_portal :: bool
  nc_not_restricted :: bool
  nc_not_metered :: bool
  nc_not_roaming :: bool
  nc_not_congested :: bool
  nc_not_suspended :: bool
  nc_not_vpn :: bool
  nc_partial_connectivity :: bool
  nc_trusted :: bool
  nc_foreground :: bool
  nc_vpn_uid_ranges :: "(int \<times> int) list"

definition no_capabilities :: network_capabilities where
  "no_capabilities =
     \<lparr>nc_internet = False, nc_validated = False, nc_captive_portal = False, nc_not_restricted = False,
      nc_not_metered = False, nc_not_roaming = False, nc_not_congested = False, nc_not_suspended = False,
      nc_not_vpn = False, nc_partial_connectivity = False, nc_trusted = False, nc_foreground = False,
      nc_vpn_uid_ranges = []\<rparr>"

record android_route =
  ar_destination :: "ip_prefix option"
  ar_gateway :: "ip_address option"
  ar_interface_name :: string
  ar_is_default :: bool

record link_properties =
  lp_interface_name :: string
  lp_link_addresses :: "ip_prefix list"
  lp_dns_servers :: "ip_address list"
  lp_domains :: "string list"
  lp_routes :: "android_route list"
  lp_mtu :: int
  lp_private_dns_mode :: int
  lp_private_dns_server_name :: string
  lp_private_dns_active :: bool
  lp_validated_private_dns_servers :: "ip_address list"
  lp_nat64_prefix :: "ip_prefix option"
  lp_captive_portal_api_url :: string

record android_network =
  an_network_handle :: nat
  an_net_id :: int
  an_transports :: "int list"
  an_capabilities :: "network_capabilities option"
  an_link_properties :: "link_properties option"
  an_is_default :: bool

record android_network_state =
  as_captured_at_unix_ms :: int
  as_networks :: "android_network list"
  as_active_network_handle :: nat
  as_active_net_id :: int
  as_has_active_network :: bool
  as_restrict_background_status :: int
  as_data_saver_enabled :: bool
  as_sdk_int :: int

datatype transport =
  TR_Unspecified | TR_Cellular | TR_Wifi | TR_Bluetooth | TR_Ethernet | TR_Vpn | TR_WifiAware
| TR_Lowpan | TR_Usb | TR_Thread | TR_Satellite

definition transports :: "transport list" where
  "transports = [TR_Unspecified, TR_Cellular, TR_Wifi, TR_Bluetooth, TR_Ethernet, TR_Vpn,
     TR_WifiAware, TR_Lowpan, TR_Usb, TR_Thread, TR_Satellite]"

definition transport_try_from :: "int \<Rightarrow> transport option" where
  "transport_try_from i = (if 0 \<le> i \<and> i < 11 then Some (transports ! nat i) else None)"

definition TRANSPORT_VPN :: int where "TRANSPORT_VPN = 5"

fun transport_name :: "transport \<Rightarrow> string" where
  "transport_name TR_Cellular = ''cellular''"
| "transport_name TR_Wifi = ''Wi-Fi''"
| "transport_name TR_Bluetooth = ''Bluetooth''"
| "transport_name TR_Ethernet = ''Ethernet''"
| "transport_name TR_Vpn = ''VPN''"
| "transport_name TR_WifiAware = ''Wi-Fi Aware''"
| "transport_name TR_Lowpan = ''LoWPAN''"
| "transport_name TR_Usb = ''USB''"
| "transport_name TR_Thread = ''Thread''"
| "transport_name TR_Satellite = ''satellite''"
| "transport_name TR_Unspecified = ''unknown''"

datatype private_dns_mode = PD_Unspecified | PD_Off | PD_Opportunistic | PD_Strict

definition private_dns_try_from :: "int \<Rightarrow> private_dns_mode option" where
  "private_dns_try_from i =
     (if i = 0 then Some PD_Unspecified else if i = 1 then Some PD_Off
      else if i = 2 then Some PD_Opportunistic else if i = 3 then Some PD_Strict else None)"

fun show_private_dns :: "private_dns_mode \<Rightarrow> string" where
  "show_private_dns PD_Unspecified = ''Unspecified''"
| "show_private_dns PD_Off = ''Off''"
| "show_private_dns PD_Opportunistic = ''Opportunistic''"
| "show_private_dns PD_Strict = ''Strict''"

definition no_link_properties :: link_properties where
  "no_link_properties =
     \<lparr>lp_interface_name = [], lp_link_addresses = [], lp_dns_servers = [], lp_domains = [], lp_routes = [],
      lp_mtu = 0, lp_private_dns_mode = 0, lp_private_dns_server_name = [], lp_private_dns_active = False,
      lp_validated_private_dns_servers = [], lp_nat64_prefix = None, lp_captive_portal_api_url = []\<rparr>"

definition caps_of :: "android_network \<Rightarrow> network_capabilities" where
  "caps_of n = (case an_capabilities n of Some c \<Rightarrow> c | None \<Rightarrow> no_capabilities)"

record app_ref =
  ap_package_name :: string
  ap_uid :: nat
  ap_label :: string
  ap_is_system :: bool

end
