(* ===== verification/Correlate.thy ===== *)
theory Correlate
  imports Sockets Procnet Firewall Android
begin

text \<open>
  Correlation of one app's traffic across the layers (\<^verbatim>\<open>daemon/src/correlate.rs\<close>): from its uid
  to its sockets, the rules that can match it, the kernel's routing decision made as that uid, the
  Android network its sockets are pinned to and the VPN verdict. Kernel dumps, lookups, the
  sock_diag socket and the eBPF maps are an environment.
\<close>

section \<open>Input and result\<close>

definition PROBE_V4 :: ip_addr where "PROBE_V4 = V4 [1, 1, 1, 1]"

definition PROBE_V6 :: ip_addr where
  "PROBE_V6 = V6 [0x26, 0x06, 0x47, 0x00, 0x47, 0x00, 0, 0, 0, 0, 0, 0, 0, 0, 0x11, 0x11]"

record correlation_input =
  ci_app :: app_ref
  ci_android_state :: "android_network_state option"
  ci_include_tcp_info :: bool
  ci_skip_route_lookup :: bool

record kernel_env =
  ke_rule_dump :: "ip_version \<Rightarrow> string + rule_message list"
  ke_route_dump :: "ip_version \<Rightarrow> string + route_message list"
  ke_lookup :: "route_message \<Rightarrow> string + lookup_reply list"
  ke_diag :: diag_env
  ke_firewall :: firewall_env

record uid_routing_path =
  up_uid :: nat
  up_matching_rules :: "routing_rule list"
  up_lookup_v4 :: "route_lookup_result option"
  up_lookup_v6 :: "route_lookup_result option"
  up_table_v4 :: nat
  up_table_v6 :: nat
  up_egress_interface_v4 :: string
  up_egress_interface_v6 :: string

record vpn_assessment =
  va_vpn_present :: bool
  va_vpn_interface :: string
  va_vpn_net_id :: int
  va_app_uses_vpn :: bool
  va_app_bypasses_vpn :: bool
  va_bypass_reason :: string
  va_framework_says_in_vpn :: bool
  va_disagreement :: bool
  va_split_tunnel :: bool
  va_ipv6_inside_vpn :: bool

definition no_vpn :: vpn_assessment where
  "no_vpn = \<lparr>va_vpn_present = False, va_vpn_interface = [], va_vpn_net_id = 0, va_app_uses_vpn = False,
     va_app_bypasses_vpn = False, va_bypass_reason = [], va_framework_says_in_vpn = False,
     va_disagreement = False, va_split_tunnel = False, va_ipv6_inside_vpn = False\<rparr>"

record app_network_state =
  ns_app :: "app_ref option"
  ns_android_network :: "android_network option"
  ns_routing :: "uid_routing_path option"
  ns_sockets :: "socket list"
  ns_socket_summary :: "socket_summary option"
  ns_vpn :: "vpn_assessment option"
  ns_firewall_note :: string
  ns_observed_net_ids :: "int list"
  ns_ipv4_path_ok :: bool
  ns_ipv6_path_ok :: bool
  ns_summary :: string

definition default_lookup :: route_lookup_result where
  "default_lookup = \<lparr>lk_destination = None, lk_source_hint = None, lk_uid = 0, lk_fwmark = 0,
     lk_out_interface_index = 0, lk_route = None, lk_error = None, lk_table = 0\<rparr>"

section \<open>Sockets and networks\<close>

definition first_hop :: "route_lookup_result \<Rightarrow> next_hop option" where
  "first_hop lookup =
     Option.bind (lk_route lookup) (\<lambda>r. case rt_next_hops r of h # _ \<Rightarrow> Some h | [] \<Rightarrow> None)"

definition egress_name :: "route_lookup_result \<Rightarrow> string" where
  "egress_name lookup = (case first_hop lookup of Some h \<Rightarrow> nh_out_interface_name h | None \<Rightarrow> [])"

text \<open>The count per network id; the order of the entries does not survive the sorting.\<close>

fun bump :: "int \<Rightarrow> (int \<times> nat) list \<Rightarrow> (int \<times> nat) list" where
  "bump i [] = [(i, 1)]"
| "bump i ((j, n) # cs) = (if i = j then (j, n + 1) # cs else (j, n) # bump i cs)"

definition pinned :: "socket \<Rightarrow> bool" where
  "pinned s = (so_has_mark s \<and> so_net_id s \<noteq> 0)"

definition net_id_counts :: "socket list \<Rightarrow> (int \<times> nat) list" where
  "net_id_counts ss = fold (\<lambda>s cs. if pinned s then bump (sint (so_net_id s)) cs else cs) ss []"

definition count_cmp :: "int \<times> nat \<Rightarrow> int \<times> nat \<Rightarrow> ordering" where
  "count_cmp a b = then_cmp (cmp_of (snd b) (snd a)) (cmp_of (fst a) (fst b))"

definition observed_net_ids :: "socket list \<Rightarrow> int list" where
  "observed_net_ids app_sockets = map fst (sort_by count_cmp (net_id_counts app_sockets))"

section \<open>The VPN verdict\<close>

definition vpn_tables :: "(ip_version \<Rightarrow> string + route_message list) \<Rightarrow> interface list \<Rightarrow> nat list" where
  "vpn_tables dump interfaces =
     (let vpn_indexes = map if_index (filter (\<lambda>i. if_kind i = LK_VpnTun) interfaces)
      in if vpn_indexes = [] then []
         else case get_routes dump Family_Unspecified 0 True 0 Map.empty of
                Inl _ \<Rightarrow> []
              | Inr d \<Rightarrow>
                  dedup (sort_by cmp_of (map rt_table (filter
                    (\<lambda>r. list_ex (\<lambda>h. nh_out_interface_index h \<in> set vpn_indexes) (rt_next_hops r)) (rd_routes d)))))"

definition is_up_vpn :: "interface \<Rightarrow> bool" where
  "is_up_vpn i = (if_kind i = LK_VpnTun \<and> (case if_flags i of Some f \<Rightarrow> fl_up f | None \<Rightarrow> False))"

definition leaves_by :: "nat \<Rightarrow> route_lookup_result \<Rightarrow> bool" where
  "leaves_by index lookup = (case first_hop lookup of Some h \<Rightarrow> nh_out_interface_index h = index | None \<Rightarrow> False)"

definition uid_in_range :: "nat \<Rightarrow> routing_rule \<Rightarrow> bool" where
  "uid_in_range uid r = (uid \<ge> rl_uid_range_start r \<and> uid \<le> rl_uid_range_end r)"

definition bypass_reason :: "routing_rule list \<Rightarrow> nat list \<Rightarrow> nat \<Rightarrow> bool \<Rightarrow> string" where
  "bypass_reason rules tables uid uses_vpn =
     (let bypass_rule = find (\<lambda>r. rl_has_uid_range r \<and> rl_invert r \<and> uid_in_range uid r) rules;
          explicit_rule = find (\<lambda>r. rl_has_uid_range r \<and> \<not> rl_invert r \<and> uid_in_range uid r) rules;
          vpn_uid_rules = filter (\<lambda>r. rl_has_uid_range r \<and> rl_table r \<in> set tables) rules;
          covered_by_vpn_rule = list_ex (\<lambda>r. uid_in_range uid r \<and> \<not> rl_invert r) vpn_uid_rules
      in case bypass_rule of
           Some rule \<Rightarrow>
             ''rule priority '' @ dec (rl_priority rule) @ '' explicitly excludes uids ''
             @ dec (rl_uid_range_start rule) @ ''-'' @ dec (rl_uid_range_end rule) @ '' from table '' @ dec (rl_table rule)
         | None \<Rightarrow>
             if \<not> uses_vpn \<and> vpn_uid_rules \<noteq> [] \<and> \<not> covered_by_vpn_rule then
               ''uid '' @ dec uid @ '' falls outside all '' @ dec (length vpn_uid_rules)
               @ '' uid range(s) that route into the VPN's table, so the VPN app's per-app list excludes this app''
             else if \<not> uses_vpn then
               (case explicit_rule of
                  Some rule \<Rightarrow>
                    ''rule priority '' @ dec (rl_priority rule) @ '' sends uids '' @ dec (rl_uid_range_start rule)
                    @ ''-'' @ dec (rl_uid_range_end rule) @ '' to table '' @ dec (rl_table rule) @ '' instead of the VPN''
                | None \<Rightarrow> ''the kernel route lookup does not select the VPN interface'')
             else [])"

definition framework_in_vpn :: "android_network option \<Rightarrow> nat \<Rightarrow> bool" where
  "framework_in_vpn vpn_network uid =
     (case Option.bind vpn_network an_capabilities of
        None \<Rightarrow> False
      | Some caps \<Rightarrow>
          nc_vpn_uid_ranges caps = [] \<or>
          list_ex (\<lambda>(start, stop). sint (of_nat uid :: u32) \<ge> start \<and> sint (of_nat uid :: u32) \<le> stop)
            (nc_vpn_uid_ranges caps))"

definition assess_vpn ::
  "interface list \<Rightarrow> routing_rule list \<Rightarrow> nat list \<Rightarrow> nat \<Rightarrow> route_lookup_result \<Rightarrow> route_lookup_result
   \<Rightarrow> android_network_state option \<Rightarrow> vpn_assessment" where
  "assess_vpn interfaces rules tables uid lookup_v4 lookup_v6 android_state =
     (case find is_up_vpn interfaces of
        None \<Rightarrow> no_vpn
      | Some vpn \<Rightarrow>
          (let uses_vpn = list_ex (leaves_by (if_index vpn)) [lookup_v4, lookup_v6];
               vpn_network = Option.bind android_state
                 (\<lambda>state. find (\<lambda>n. TRANSPORT_VPN \<in> set (an_transports n)) (as_networks state));
               framework_says_in_vpn = framework_in_vpn vpn_network uid;
               ipv6_inside_vpn = leaves_by (if_index vpn) lookup_v6;
               v4_in_vpn = leaves_by (if_index vpn) lookup_v4
           in \<lparr>va_vpn_present = True, va_vpn_interface = if_name vpn,
               va_vpn_net_id = (case vpn_network of Some n \<Rightarrow> an_net_id n | None \<Rightarrow> 0),
               va_app_uses_vpn = uses_vpn, va_app_bypasses_vpn = (\<not> uses_vpn),
               va_bypass_reason = bypass_reason rules tables uid uses_vpn,
               va_framework_says_in_vpn = framework_says_in_vpn,
               va_disagreement = (framework_says_in_vpn \<noteq> uses_vpn),
               va_split_tunnel = (v4_in_vpn \<noteq> ipv6_inside_vpn),
               va_ipv6_inside_vpn = ipv6_inside_vpn\<rparr>))"

section \<open>Texts\<close>

definition build_summary ::
  "app_ref \<Rightarrow> string \<Rightarrow> string \<Rightarrow> socket_summary \<Rightarrow> vpn_assessment \<Rightarrow> bool \<Rightarrow> bool \<Rightarrow> string" where
  "build_summary app egress_v4 egress_v6 sockets vpn ipv4_ok ipv6_ok =
     (let name = (if ap_package_name app = [] then ''uid '' @ dec (ap_uid app) else ap_package_name app);
          path =
            (case (ipv4_ok, ipv6_ok) of
               (True, True) \<Rightarrow> ''IPv4 via '' @ egress_v4 @ '', IPv6 via '' @ egress_v6
             | (True, False) \<Rightarrow> ''IPv4 via '' @ egress_v4 @ '', no IPv6 path''
             | (False, True) \<Rightarrow> ''IPv6 via '' @ egress_v6 @ '', no IPv4 path''
             | (False, False) \<Rightarrow> ''no route out for either family'');
          vpn_note =
            (if \<not> va_vpn_present vpn then []
             else if va_app_uses_vpn vpn then ''; goes through '' @ va_vpn_interface vpn
             else ''; bypasses '' @ va_vpn_interface vpn)
      in name @ '': '' @ path @ vpn_note @ ''. '' @ dec (ss_total sockets) @ '' socket(s), ''
         @ dec (ss_established sockets) @ '' established, '' @ dec (ss_syn_sent sockets) @ '' in SYN_SENT.'')"

definition describe_mark :: "u32 \<Rightarrow> string" where
  "describe_mark mark =
     (if mark = 0 then ''0 (unmarked, uses the default network)''
      else let net_id = net_id_from_mark mark;
               notes =
                 (if net_id \<noteq> 0 then [''netId '' @ dec (unat net_id)] else [])
                 @ (if mark AND FWMARK_EXPLICITLY_SELECTED \<noteq> 0 then [''explicitly selected''] else [])
                 @ (if mark AND FWMARK_PROTECTED_FROM_VPN \<noteq> 0 then [''protected from VPN''] else [])
           in if notes = [] then ''0x'' @ hex (unat mark)
              else ''0x'' @ hex (unat mark) @ '' ('' @ join '', '' notes @ '')'')"

definition firewall_note :: "uid_firewall_state \<Rightarrow> string" where
  "firewall_note f =
     (if \<not> uf_source_available f then ''per-uid firewall state could not be read from netd's eBPF map''
      else if uf_raw_match f = 0 then ''no per-uid firewall rules apply''
      else ''firewall bits: '' @ join '', '' (decode_match_bits (uf_raw_match f)))"

section \<open>The whole correlation\<close>

definition choose_network :: "android_network_state option \<Rightarrow> int list \<Rightarrow> android_network option" where
  "choose_network android_state net_ids =
     Option.bind android_state (\<lambda>state.
       case (case net_ids of i # _ \<Rightarrow> find (\<lambda>n. an_net_id n = i) (as_networks state) | [] \<Rightarrow> None) of
         Some n \<Rightarrow> Some n
       | None \<Rightarrow> find an_is_default (as_networks state))"

definition label_socket :: "string \<Rightarrow> socket \<Rightarrow> socket" where
  "label_socket package s = (if package \<noteq> [] then s\<lparr>so_package_names := [package]\<rparr> else s)"

definition app_network_state ::
  "kernel_env \<Rightarrow> interface list \<Rightarrow> if_names \<Rightarrow> correlation_input \<Rightarrow> (string + app_network_state) option" where
  "app_network_state env interfaces names input =
     (let app = ci_app input; uid = ap_uid app
      in case get_rules (ke_rule_dump env) Family_Unspecified None of
           Inl e \<Rightarrow> Some (Inl e)
         | Inr all_rules \<Rightarrow>
        (let matching_rules = filter (\<lambda>r. rl_has_uid_range r \<or> rl_has_fwmark r)
               (filter (\<lambda>r. rule_can_match_uid r uid) all_rules);
             lookup = (\<lambda>dst. route_lookup (ke_lookup env) dst None (Some uid) None 0 names);
             (lookup_v4, lookup_v6) =
               (if ci_skip_route_lookup input then (default_lookup, default_lookup)
                else (lookup PROBE_V4, lookup PROBE_V6));
             egress_v4 = egress_name lookup_v4; egress_v6 = egress_name lookup_v6;
             routing =
               \<lparr>up_uid = uid, up_matching_rules = matching_rules,
                up_lookup_v4 = Some lookup_v4, up_lookup_v6 = Some lookup_v6,
                up_table_v4 = (case lk_route lookup_v4 of Some r \<Rightarrow> rt_table r | None \<Rightarrow> 0),
                up_table_v6 = (case lk_route lookup_v6 of Some r \<Rightarrow> rt_table r | None \<Rightarrow> 0),
                up_egress_interface_v4 = egress_v4, up_egress_interface_v6 = egress_v6\<rparr>
         in case get_sockets (ke_diag env)
                  (any_socket\<lparr>sf_uids := [uid], sf_include_tcp_info := ci_include_tcp_info input\<rparr>) names of
              None \<Rightarrow> None
            | Some (Inl e) \<Rightarrow> Some (Inl e)
            | Some (Inr dump) \<Rightarrow>
                (let app_sockets = map (label_socket (ap_package_name app)) (sd_sockets dump);
                     net_ids = observed_net_ids app_sockets;
                     vpn = assess_vpn interfaces all_rules (vpn_tables (ke_route_dump env) interfaces) uid
                             lookup_v4 lookup_v6 (ci_android_state input);
                     ipv4_path_ok = (lk_route lookup_v4 \<noteq> None);
                     ipv6_path_ok = (lk_route lookup_v6 \<noteq> None)
                 in Some (Inr
                   \<lparr>ns_app = Some app,
                    ns_android_network = choose_network (ci_android_state input) net_ids,
                    ns_routing = Some routing, ns_sockets = app_sockets,
                    ns_socket_summary = Some (sd_summary dump), ns_vpn = Some vpn,
                    ns_firewall_note = firewall_note (read_uid_firewall (ke_firewall env) uid),
                    ns_observed_net_ids = net_ids, ns_ipv4_path_ok = ipv4_path_ok,
                    ns_ipv6_path_ok = ipv6_path_ok,
                    ns_summary = build_summary app egress_v4 egress_v6 (sd_summary dump) vpn
                      ipv4_path_ok ipv6_path_ok\<rparr>))))"

section \<open>Network ids of the app's sockets\<close>

definition pinned_to :: "int \<Rightarrow> socket list \<Rightarrow> nat" where
  "pinned_to i ss = length (filter (\<lambda>s. pinned s \<and> sint (so_net_id s) = i) ss)"

lemma map_of_bump:
  "map_of (bump i cs) = (map_of cs)(i \<mapsto> Suc (case map_of cs i of Some n \<Rightarrow> n | None \<Rightarrow> 0))"
  by (induction i cs rule: bump.induct) (auto simp: fun_eq_iff)

lemma distinct_bump: "distinct (map fst cs) \<Longrightarrow> distinct (map fst (bump i cs))"
proof (induction i cs rule: bump.induct)
  case (2 i j n cs)
  have "fst ` set (bump i cs) = dom (map_of (bump i cs))" by (simp add: dom_map_of_conv_image_fst)
  also have "\<dots> = insert i (fst ` set cs)" by (auto simp: map_of_bump dom_map_of_conv_image_fst)
  finally show ?case using 2 by auto
qed simp

lemma net_id_counts_ok:
  "distinct (map fst (net_id_counts ss)) \<and>
   map_of (net_id_counts ss) = (\<lambda>i. if pinned_to i ss = 0 then None else Some (pinned_to i ss))"
proof (induction ss rule: rev_induct)
  case Nil
  then show ?case by (simp add: net_id_counts_def pinned_to_def fun_eq_iff)
next
  case (snoc s ss)
  have step: "net_id_counts (ss @ [s]) =
      (if pinned s then bump (sint (so_net_id s)) (net_id_counts ss) else net_id_counts ss)"
    by (simp add: net_id_counts_def)
  from snoc have m: "map_of (net_id_counts ss) = (\<lambda>i. if pinned_to i ss = 0 then None else Some (pinned_to i ss))"
    and d: "distinct (map fst (net_id_counts ss))" by auto
  show ?case
    unfolding step using d
    by (auto simp: m map_of_bump distinct_bump pinned_to_def fun_eq_iff)
qed

interpretation count_order: rust_ord count_cmp
  unfolding count_cmp_def by (intro rust_ord_then rust_ord_key rust_ord_key_desc)

lemma count_cmp_not_Greater:
  "count_cmp a b \<noteq> Greater \<longleftrightarrow> snd b < snd a \<or> snd a = snd b \<and> fst a \<le> fst b"
  by (auto simp: count_cmp_def then_cmp_Greater cmp_of_def)

text \<open>
  The network ids reported for an app are exactly the ids its marked sockets carry, each once,
  most used first and ties by id, so the first one names the network most of its sockets are pinned
  to.
\<close>

lemma observed_net_ids_order:
  "distinct (observed_net_ids ss) \<and>
   set (observed_net_ids ss) = (\<lambda>s. sint (so_net_id s)) ` {s \<in> set ss. pinned s} \<and>
   sorted_wrt (\<lambda>i j. pinned_to j ss < pinned_to i ss \<or> pinned_to i ss = pinned_to j ss \<and> i < j)
     (observed_net_ids ss)"
proof -
  let ?cs = "net_id_counts ss" and ?sorted = "sort_by count_cmp (net_id_counts ss)"
  from net_id_counts_ok [of ss] have d: "distinct (map fst ?cs)"
    and m: "map_of ?cs = (\<lambda>i. if pinned_to i ss = 0 then None else Some (pinned_to i ss))" by auto
  have "mset (map fst ?sorted) = mset (map fst ?cs)" by (metis mset_map mset_sort_by)
  then have dist: "distinct (map fst ?sorted)" using d by (metis mset_eq_imp_distinct_iff)
  have cnt: "x \<in> set ?cs \<Longrightarrow> pinned_to (fst x) ss = snd x" for x
    using d m by (auto dest!: map_of_is_SomeI split: if_splits)
  have "set (map fst ?sorted) = dom (map_of ?cs)" by (simp add: dom_map_of_conv_image_fst)
  also have "\<dots> = {i. pinned_to i ss \<noteq> 0}" by (auto simp: m split: if_splits)
  also have "\<dots> = (\<lambda>s. sint (so_net_id s)) ` {s \<in> set ss. pinned s}"
    by (auto simp: pinned_to_def filter_empty_conv)
  finally have s: "set (observed_net_ids ss) = (\<lambda>s. sint (so_net_id s)) ` {s \<in> set ss. pinned s}"
    by (simp add: observed_net_ids_def)
  have "sorted_wrt (\<lambda>a b. fst a \<noteq> fst b) ?sorted"
    using dist by (simp add: distinct_conv_nth sorted_wrt_iff_nth_less)
  with count_order.sort_by_sorted [of ?cs]
  have "sorted_wrt (\<lambda>a b. count_cmp a b \<noteq> Greater \<and> fst a \<noteq> fst b) ?sorted"
    by (simp add: sorted_wrt_iff_nth_less)
  then have "sorted_wrt (\<lambda>a b. pinned_to (fst b) ss < pinned_to (fst a) ss \<or>
      pinned_to (fst a) ss = pinned_to (fst b) ss \<and> fst a < fst b) ?sorted"
    by (rule sorted_wrt_mono_rel [rotated]) (use cnt in \<open>force simp: count_cmp_not_Greater\<close>)
  with dist s show ?thesis by (simp add: observed_net_ids_def sorted_wrt_map)
qed

section \<open>The verdict\<close>

lemma bypass_reason_Nil:
  "bypass_reason rules tables uid uses = [] \<longleftrightarrow>
     uses \<and> \<not> (\<exists>r. r \<in> set rules \<and> rl_has_uid_range r \<and> rl_invert r \<and> uid_in_range uid r)"
proof (cases "find (\<lambda>r. rl_has_uid_range r \<and> rl_invert r \<and> uid_in_range uid r) rules")
  case None
  then have "\<not> (\<exists>r. r \<in> set rules \<and> rl_has_uid_range r \<and> rl_invert r \<and> uid_in_range uid r)"
    by (simp add: find_None_iff)
  with None show ?thesis by (simp add: bypass_reason_def Let_def split: option.split)
next
  case (Some r)
  then have "r \<in> set rules \<and> rl_has_uid_range r \<and> rl_invert r \<and> uid_in_range uid r"
    by (metis (mono_tags, lifting) find_Some_iff nth_mem)
  with Some show ?thesis by (auto simp: bypass_reason_def Let_def)
qed

text \<open>
  The VPN verdict is the kernel's: a VPN is reported exactly when a VPN interface is up, the app
  uses it exactly when the kernel routes one of the two families out of the first such interface,
  it bypasses it exactly when a VPN is there and neither is, the tunnel is split exactly when one
  family is inside and the other is not, and a reason is missing only when the app goes through the
  VPN and no inverted rule names its uid.
\<close>

lemma vpn_verdict:
  defines "vpn \<equiv> \<lambda>ifs. find is_up_vpn ifs"
    and "a \<equiv> \<lambda>ifs rules tables uid l4 l6 st. assess_vpn ifs rules tables uid l4 l6 st"
  shows
  "va_vpn_present (a ifs rules tables uid l4 l6 st) = (\<exists>i. i \<in> set ifs \<and> is_up_vpn i) \<and>
   va_app_uses_vpn (a ifs rules tables uid l4 l6 st) =
     (\<exists>i. vpn ifs = Some i \<and> (leaves_by (if_index i) l4 \<or> leaves_by (if_index i) l6)) \<and>
   va_app_bypasses_vpn (a ifs rules tables uid l4 l6 st) =
     (\<exists>i. vpn ifs = Some i \<and> \<not> leaves_by (if_index i) l4 \<and> \<not> leaves_by (if_index i) l6) \<and>
   va_split_tunnel (a ifs rules tables uid l4 l6 st) =
     (\<exists>i. vpn ifs = Some i \<and> leaves_by (if_index i) l4 \<noteq> leaves_by (if_index i) l6) \<and>
   (va_bypass_reason (a ifs rules tables uid l4 l6 st) = []) =
     (if vpn ifs = None then True
      else va_app_uses_vpn (a ifs rules tables uid l4 l6 st) \<and>
        \<not> (\<exists>r. r \<in> set rules \<and> rl_has_uid_range r \<and> rl_invert r \<and> uid_in_range uid r))"
proof (cases "find is_up_vpn ifs")
  case None
  then have "\<not> (\<exists>i. i \<in> set ifs \<and> is_up_vpn i)" by (simp add: find_None_iff)
  with None show ?thesis by (simp add: vpn_def a_def assess_vpn_def no_vpn_def)
next
  case (Some i)
  then have "\<exists>i. i \<in> set ifs \<and> is_up_vpn i" by (metis find_Some_iff nth_mem)
  with Some show ?thesis by (simp add: vpn_def a_def assess_vpn_def bypass_reason_Nil Let_def)
qed

end
