(* ===== verification/Neigh.thy ===== *)
theory Neigh
  imports Routes "HOL-Library.List_Lexorder" "HOL-Library.Option_ord"
begin

text \<open>
  The neighbour table (\<^verbatim>\<open>daemon/src/collect/neigh.rs\<close>): conversion of netlink neighbour
  messages, the filtered and ordered dump, usability of a state and the lookup of a gateway's
  entry. The kernel's dump per address family is an argument.
\<close>

section \<open>Messages\<close>

datatype k_neigh_state =
  KN_Incomplete | KN_Reachable | KN_Stale | KN_Delay | KN_Probe | KN_Failed | KN_Noarp
| KN_Permanent | KN_None | KN_Other u16

datatype neighbor_state =
  NS_Unspecified | NS_Incomplete | NS_Reachable | NS_Stale | NS_Delay | NS_Probe | NS_Failed
| NS_Noarp | NS_Permanent | NS_None

datatype neigh_address = NA_Inet bytes | NA_Inet6 bytes | NA_Other

datatype neigh_attr =
  N_Destination neigh_address
| N_LinkLayerAddress bytes
| N_Probes nat
| N_CacheInfo nat nat nat
| N_OtherAttr

record neighbour_message =
  nm_family :: address_family
  nm_ifindex :: nat
  nm_state :: k_neigh_state
  nm_flags :: u8
  nm_attributes :: "neigh_attr list"

record neighbor =
  ne_family :: ip_family
  ne_address :: "ip_address option"
  ne_interface_index :: nat
  ne_interface_name :: string
  ne_link_address :: bytes
  ne_state :: neighbor_state
  ne_is_router :: bool
  ne_flags :: nat
  ne_probes :: nat
  ne_confirmed_ms :: nat
  ne_used_ms :: nat
  ne_updated_ms :: nat

section \<open>Conversion\<close>

definition saturating_mul_u32 :: "nat \<Rightarrow> nat \<Rightarrow> nat" where
  "saturating_mul_u32 a b = min (a * b) (2 ^ 32 - 1)"

text \<open>The kernel's \<open>NTF_ROUTER\<close>.\<close>

definition NTF_ROUTER :: u8 where "NTF_ROUTER = 0x80"

fun neighbour_state_to_proto :: "k_neigh_state \<Rightarrow> neighbor_state" where
  "neighbour_state_to_proto KN_Incomplete = NS_Incomplete"
| "neighbour_state_to_proto KN_Reachable = NS_Reachable"
| "neighbour_state_to_proto KN_Stale = NS_Stale"
| "neighbour_state_to_proto KN_Delay = NS_Delay"
| "neighbour_state_to_proto KN_Probe = NS_Probe"
| "neighbour_state_to_proto KN_Failed = NS_Failed"
| "neighbour_state_to_proto KN_Noarp = NS_Noarp"
| "neighbour_state_to_proto KN_Permanent = NS_Permanent"
| "neighbour_state_to_proto KN_None = NS_None"
| "neighbour_state_to_proto (KN_Other _) = NS_Unspecified"

fun neigh_address_ip :: "neigh_address \<Rightarrow> ip_addr option" where
  "neigh_address_ip (NA_Inet a) = Some (V4 a)"
| "neigh_address_ip (NA_Inet6 a) = Some (V6 a)"
| "neigh_address_ip NA_Other = None"

fun neigh_attr_step :: "neigh_attr \<Rightarrow> neighbor \<Rightarrow> neighbor" where
  "neigh_attr_step (N_Destination a) n = n\<lparr>ne_address := map_option from_ip (neigh_address_ip a)\<rparr>"
| "neigh_attr_step (N_LinkLayerAddress mac) n = n\<lparr>ne_link_address := mac\<rparr>"
| "neigh_attr_step (N_Probes p) n = n\<lparr>ne_probes := p\<rparr>"
| "neigh_attr_step (N_CacheInfo confirmed used updated) n =
     n\<lparr>ne_confirmed_ms := saturating_mul_u32 confirmed 10, ne_used_ms := saturating_mul_u32 used 10,
       ne_updated_ms := saturating_mul_u32 updated 10\<rparr>"
| "neigh_attr_step N_OtherAttr n = n"

definition neighbor_init :: "if_names \<Rightarrow> neighbour_message \<Rightarrow> neighbor" where
  "neighbor_init names msg =
     \<lparr>ne_family = family_to_proto (nm_family msg), ne_address = None,
      ne_interface_index = nm_ifindex msg, ne_interface_name = name_of names (nm_ifindex msg),
      ne_link_address = [], ne_state = neighbour_state_to_proto (nm_state msg),
      ne_is_router = (nm_flags msg AND NTF_ROUTER = NTF_ROUTER), ne_flags = unat (nm_flags msg),
      ne_probes = 0, ne_confirmed_ms = 0, ne_used_ms = 0, ne_updated_ms = 0\<rparr>"

definition neighbor_to_proto :: "if_names \<Rightarrow> neighbour_message \<Rightarrow> neighbor" where
  "neighbor_to_proto names msg = fold neigh_attr_step (nm_attributes msg) (neighbor_init names msg)"

section \<open>Dump, usability and gateway lookup\<close>

fun neigh_families :: "ip_family \<Rightarrow> address_family list" where
  "neigh_families Family_V4 = [Inet]"
| "neigh_families Family_V6 = [Inet6]"
| "neigh_families Family_Unspecified = [Inet, Inet6]"

definition neighbor_wanted :: "nat \<Rightarrow> bool \<Rightarrow> neighbor \<Rightarrow> bool" where
  "neighbor_wanted interface_index only_routers n =
     (if interface_index \<noteq> 0 \<and> ne_interface_index n \<noteq> interface_index then False
      else if only_routers \<and> \<not> ne_is_router n then False
      else True)"

text \<open>Options compare with \<open>None\<close> first and byte vectors lexicographically.\<close>

definition neighbor_cmp :: "neighbor \<Rightarrow> neighbor \<Rightarrow> ordering" where
  "neighbor_cmp a b =
     then_cmp (cmp_of (ne_interface_index a) (ne_interface_index b))
       (cmp_of (map_option addr (ne_address a)) (map_option addr (ne_address b)))"

definition get_neighbors ::
  "(address_family \<Rightarrow> string + neighbour_message list) \<Rightarrow> ip_family \<Rightarrow> nat \<Rightarrow> bool \<Rightarrow> if_names
   \<Rightarrow> string + neighbor list" where
  "get_neighbors dump family interface_index only_routers names =
     (case dump_versions dump (neigh_families family) of
        Inl _ \<Rightarrow> Inl ''RTM_GETNEIGH dump failed''
      | Inr msgs \<Rightarrow>
          Inr (sort_by neighbor_cmp
            (filter (neighbor_wanted interface_index only_routers) (map (neighbor_to_proto names) msgs))))"

fun is_usable :: "neighbor_state \<Rightarrow> bool" where
  "is_usable NS_Reachable = True"
| "is_usable NS_Stale = True"
| "is_usable NS_Delay = True"
| "is_usable NS_Probe = True"
| "is_usable NS_Permanent = True"
| "is_usable NS_Noarp = True"
| "is_usable _ = False"

definition is_gateway_entry :: "ip_addr \<Rightarrow> nat \<Rightarrow> neighbor \<Rightarrow> bool" where
  "is_gateway_entry gateway interface_index n =
     (Option.bind (ne_address n) to_ip = Some gateway \<and>
      (interface_index = 0 \<or> ne_interface_index n = interface_index))"

definition find_gateway :: "neighbor list \<Rightarrow> ip_addr \<Rightarrow> nat \<Rightarrow> neighbor option" where
  "find_gateway neighbors gateway interface_index = find (is_gateway_entry gateway interface_index) neighbors"

section \<open>Facts\<close>

interpretation neighbor_order: rust_ord neighbor_cmp
  unfolding neighbor_cmp_def by (intro rust_ord_then rust_ord_key)

lemma neigh_fold_index [simp]: "ne_interface_index (fold neigh_attr_step as n) = ne_interface_index n"
proof (induction as arbitrary: n)
  case (Cons a as)
  then show ?case by (cases a) simp_all
qed simp

text \<open>The address the kernel gives in a message: that of its last destination attribute.\<close>

definition kernel_address :: "neighbour_message \<Rightarrow> ip_addr option" where
  "kernel_address msg =
     fold (\<lambda>a ip. case a of N_Destination d \<Rightarrow> neigh_address_ip d | _ \<Rightarrow> ip) (nm_attributes msg) None"

lemma neigh_fold_address:
  "ne_address n = map_option from_ip ip \<Longrightarrow>
   ne_address (fold neigh_attr_step as n) =
     map_option from_ip (fold (\<lambda>a ip. case a of N_Destination d \<Rightarrow> neigh_address_ip d | _ \<Rightarrow> ip) as ip)"
proof (induction as arbitrary: n ip)
  case (Cons a as)
  show ?case
  proof (cases a)
    case (N_Destination d)
    then show ?thesis using Cons.IH [of "neigh_attr_step a n" "neigh_address_ip d"] by simp
  qed (use Cons in simp_all)
qed simp

lemma neighbor_to_proto_address:
  "ne_address (neighbor_to_proto names msg) = map_option from_ip (kernel_address msg)"
  unfolding neighbor_to_proto_def kernel_address_def
  by (rule neigh_fold_address) (simp add: neighbor_init_def)

lemma neighbor_to_proto_index: "ne_interface_index (neighbor_to_proto names msg) = nm_ifindex msg"
  by (simp add: neighbor_to_proto_def neighbor_init_def)

lemma find_Some_ex: "(\<exists>x\<in>set xs. P x) \<longleftrightarrow> find P xs \<noteq> None"
  by (auto simp: find_None_iff)

text \<open>
  A gateway the kernel knows is found. When the dump succeeds and some message carries the
  gateway's address on the interface asked for (0 means any), the lookup in the unfiltered dump
  returns an entry with exactly that address and interface; when no message does, it returns
  nothing.
\<close>

lemma gateway_lookup:
  assumes "get_neighbors dump family 0 False names = Inr ns"
    and "dump_versions dump (neigh_families family) = Inr msgs"
    and "list_all (\<lambda>m. case kernel_address m of Some ip \<Rightarrow> wf_ip ip | None \<Rightarrow> True) msgs"
  shows "if \<exists>m\<in>set msgs. kernel_address m = Some gw \<and> (ifindex = 0 \<or> nm_ifindex m = ifindex)
         then \<exists>n. find_gateway ns gw ifindex = Some n \<and> ne_address n = Some (from_ip gw) \<and>
                  (ifindex = 0 \<or> ne_interface_index n = ifindex)
         else find_gateway ns gw ifindex = None"
proof -
  let ?hit = "\<lambda>m. kernel_address m = Some gw \<and> (ifindex = 0 \<or> nm_ifindex m = ifindex)"
  have ns: "set ns = neighbor_to_proto names ` set msgs"
    using assms(1,2) by (auto simp: get_neighbors_def neighbor_wanted_def)
  have hit: "is_gateway_entry gw ifindex (neighbor_to_proto names m) \<longleftrightarrow> ?hit m" if "m \<in> set msgs" for m
    using assms(3) that
    by (cases "kernel_address m")
      (auto simp: is_gateway_entry_def neighbor_to_proto_address neighbor_to_proto_index list_all_iff
        to_ip_from_ip split: option.splits)
  have "find_gateway ns gw ifindex \<noteq> None \<longleftrightarrow> (\<exists>m\<in>set msgs. ?hit m)"
    unfolding find_gateway_def find_Some_ex [symmetric] ns using hit by auto
  moreover have "ne_address n = Some (from_ip gw) \<and> (ifindex = 0 \<or> ne_interface_index n = ifindex)"
    if n: "find_gateway ns gw ifindex = Some n" for n
  proof -
    from n have "n \<in> set ns" "is_gateway_entry gw ifindex n"
      unfolding find_gateway_def find_Some_iff by auto
    then obtain m where "m \<in> set msgs" "n = neighbor_to_proto names m" using ns by auto
    with \<open>is_gateway_entry gw ifindex n\<close> hit show ?thesis
      by (auto simp: neighbor_to_proto_address neighbor_to_proto_index)
  qed
  ultimately show ?thesis by (cases "find_gateway ns gw ifindex") auto
qed

definition demo_neighbours :: "address_family \<Rightarrow> string + neighbour_message list" where
  "demo_neighbours f = Inr (if f = Inet
     then [\<lparr>nm_family = Inet, nm_ifindex = 3, nm_state = KN_Stale, nm_flags = 0x80,
            nm_attributes = [N_Destination (NA_Inet [192, 168, 1, 1]), N_CacheInfo 5 500000000 7]\<rparr>]
     else [])"

end
