(* ===== verification/Snapshot.thy ===== *)
theory Snapshot
  imports Correlate Neigh Links
begin

text \<open>
  One collection of every layer (\<^verbatim>\<open>daemon/src/snapshot.rs\<close>): interfaces and routes are required,
  every other layer that cannot be read becomes a warning. What the kernel, the file system and
  the clocks answer during one call is a \<open>device_env\<close>; \<open>None\<close> is a socket dump whose receive loop
  never ends.
\<close>

section \<open>Queueing disciplines\<close>

record tc_stats =
  tx_bytes :: nat
  tx_packets :: nat
  tx_drops :: nat
  tx_overlimits :: nat

record tc_queue =
  tq_qlen :: nat
  tq_backlog :: nat
  tq_drops :: nat
  tq_requeues :: nat
  tq_overlimits :: nat

datatype tc_stat2 = TC_Basic nat nat | TC_Queue tc_queue | TC_StatOther

datatype tc_attr = TC_Kind string | TC_Stats2 "tc_stat2 list" | TC_Stats tc_stats | TC_Other

record tc_message =
  tm_index :: int
  tm_handle :: nat
  tm_parent :: nat
  tm_attributes :: "tc_attr list"

record qdisc =
  qd_interface_index :: nat
  qd_interface_name :: string
  qd_kind :: string
  qd_handle :: nat
  qd_parent :: nat
  qd_bytes_sent :: nat
  qd_packets_sent :: nat
  qd_drops :: nat
  qd_overlimits :: nat
  qd_requeues :: nat
  qd_backlog_bytes :: nat
  qd_backlog_packets :: nat

fun qdisc_stat2 :: "tc_stat2 \<Rightarrow> qdisc \<Rightarrow> qdisc" where
  "qdisc_stat2 (TC_Basic b p) q = q\<lparr>qd_bytes_sent := b, qd_packets_sent := p\<rparr>"
| "qdisc_stat2 (TC_Queue s) q =
     q\<lparr>qd_drops := tq_drops s, qd_overlimits := tq_overlimits s, qd_requeues := tq_requeues s,
       qd_backlog_bytes := tq_backlog s, qd_backlog_packets := tq_qlen s\<rparr>"
| "qdisc_stat2 TC_StatOther q = q"

fun qdisc_attr :: "tc_attr \<Rightarrow> qdisc \<Rightarrow> qdisc" where
  "qdisc_attr (TC_Kind k) q = q\<lparr>qd_kind := k\<rparr>"
| "qdisc_attr (TC_Stats2 ss) q = fold qdisc_stat2 ss q"
| "qdisc_attr (TC_Stats s) q =
     (let q1 = (if qd_bytes_sent q = 0
                then q\<lparr>qd_bytes_sent := tx_bytes s, qd_packets_sent := tx_packets s\<rparr> else q)
      in if qd_drops q1 = 0 then q1\<lparr>qd_drops := tx_drops s, qd_overlimits := tx_overlimits s\<rparr> else q1)"
| "qdisc_attr TC_Other q = q"

text \<open>The header carries a signed index, cast to \<open>u32\<close>.\<close>

definition qdisc_of :: "if_names \<Rightarrow> tc_message \<Rightarrow> qdisc" where
  "qdisc_of names msg =
     (let index = nat (tm_index msg mod 2 ^ 32)
      in fold qdisc_attr (tm_attributes msg)
           \<lparr>qd_interface_index = index, qd_interface_name = name_of names index, qd_kind = [],
            qd_handle = tm_handle msg, qd_parent = tm_parent msg, qd_bytes_sent = 0,
            qd_packets_sent = 0, qd_drops = 0, qd_overlimits = 0, qd_requeues = 0,
            qd_backlog_bytes = 0, qd_backlog_packets = 0\<rparr>)"

text \<open>The dump as a stream of messages, each of which may be an error instead.\<close>

fun collect_qdiscs :: "if_names \<Rightarrow> (string + tc_message) list \<Rightarrow> qdisc list \<Rightarrow> string + qdisc list" where
  "collect_qdiscs names [] out = Inr out"
| "collect_qdiscs names (Inl e # ms) out = Inl e"
| "collect_qdiscs names (Inr msg # ms) out =
     (let q = qdisc_of names msg
      in if qd_kind q = [] then collect_qdiscs names ms out
         else collect_qdiscs names ms (out @ [q]))"

section \<open>The environment and the request\<close>

record device_env =
  dv_links :: "string + link_message list"
  dv_addrs :: "string + address_message list"
  dv_fs :: file_system
  dv_neigh :: "address_family \<Rightarrow> string + neighbour_message list"
  dv_kernel :: kernel_env
  dv_qdiscs :: "(string + tc_message) list"
  dv_self_ns :: "nat option"
  dv_netns :: "(string \<times> nat option) list option"
  dv_unix_ms :: int
  dv_elapsed_ms :: nat

record snapshot_request =
  sq_include_sockets :: bool
  sq_include_socket_tcp_info :: bool
  sq_include_neighbors :: bool
  sq_include_firewall :: bool
  sq_include_qdiscs :: bool
  sq_include_counters :: bool
  sq_include_sysctls :: bool
  sq_android_state :: "android_network_state option"

record snapshot =
  sn_captured_at_unix_ms :: int
  sn_kernel_release :: string
  sn_interfaces :: "interface list"
  sn_routes :: "route list"
  sn_table_names :: "nat \<rightharpoonup> string"
  sn_rules :: "routing_rule list"
  sn_neighbors :: "neighbor list"
  sn_sockets :: "socket list"
  sn_socket_summary :: "socket_summary option"
  sn_sysctls :: "global_sysctls option"
  sn_counters :: "protocol_counters option"
  sn_firewall :: "firewall_state option"
  sn_qdiscs :: "qdisc list"
  sn_namespaces :: "network_namespace list"
  sn_resolver :: "resolver_state option"
  sn_clat :: "clat_state option"
  sn_android_state :: "android_network_state option"
  sn_collection_duration_ms :: nat
  sn_collection_warnings :: "string list"

section \<open>Collection\<close>

text \<open>\<open>unwrap_or_else\<close> with a warning: what was read, and the warnings so far.\<close>

definition or_warn :: "string \<Rightarrow> string + 'a list \<Rightarrow> string list \<Rightarrow> 'a list \<times> string list" where
  "or_warn prefix r warnings =
     (case r of Inr xs \<Rightarrow> (xs, warnings) | Inl e \<Rightarrow> ([], warnings @ [prefix @ e]))"

definition truncation_warning :: string where
  "truncation_warning = ''the socket list was truncated at the daemon's row limit''"

definition snapshot_sockets ::
  "diag_env \<Rightarrow> snapshot_request \<Rightarrow> if_names \<Rightarrow> string list
   \<Rightarrow> (socket list \<times> socket_summary option \<times> string list) option" where
  "snapshot_sockets env request names warnings =
     (if \<not> sq_include_sockets request then Some ([], None, warnings)
      else case get_sockets env (any_socket\<lparr>sf_include_tcp_info := sq_include_socket_tcp_info request\<rparr>) names of
        None \<Rightarrow> None
      | Some (Inr dump) \<Rightarrow>
          Some (sd_sockets dump, Some (sd_summary dump),
                if sd_truncated dump then warnings @ [truncation_warning] else warnings)
      | Some (Inl e) \<Rightarrow> Some ([], None, warnings @ [''socket diagnostics unavailable: '' @ e]))"

definition collect_snapshot :: "device_env \<Rightarrow> snapshot_request \<Rightarrow> (string + snapshot) option" where
  "collect_snapshot dv request =
     (case get_interfaces (dv_links dv) (dv_addrs dv) (dv_fs dv) True (sq_include_sysctls request) of
        Inl e \<Rightarrow> Some (Inl e)
      | Inr interfaces \<Rightarrow>
     (let names = interface_names interfaces in
      case get_routes (ke_route_dump (dv_kernel dv)) Family_Unspecified 0 False 0 names of
        Inl e \<Rightarrow> Some (Inl e)
      | Inr route_dump \<Rightarrow>
     (let (rules, w1) = or_warn ''routing rules unavailable: ''
            (get_rules (ke_rule_dump (dv_kernel dv)) Family_Unspecified None) [];
          (neighbors, w2) =
            (if sq_include_neighbors request
             then or_warn ''neighbour table unavailable: ''
                    (get_neighbors (dv_neigh dv) Family_Unspecified 0 False names) w1
             else ([], w1))
      in case snapshot_sockets (ke_diag (dv_kernel dv)) request names w2 of
           None \<Rightarrow> None
         | Some (sockets, summary, w3) \<Rightarrow>
     (let fw = (if sq_include_firewall request then Some (collect (ke_firewall (dv_kernel dv)) True) else None);
          (qdiscs, w4) =
            (if sq_include_qdiscs request
             then or_warn ''qdisc dump unavailable: '' (collect_qdiscs names (dv_qdiscs dv) []) w3
             else ([], w3))
      in Some (Inr
           \<lparr>sn_captured_at_unix_ms = dv_unix_ms dv, sn_kernel_release = kernel_release (dv_fs dv),
            sn_interfaces = interfaces, sn_routes = rd_routes route_dump,
            sn_table_names = rd_table_names route_dump, sn_rules = rules, sn_neighbors = neighbors,
            sn_sockets = sockets, sn_socket_summary = summary,
            sn_sysctls = (if sq_include_sysctls request then Some (read_global_sysctls (dv_fs dv)) else None),
            sn_counters = (if sq_include_counters request then Some (read_counters (dv_fs dv)) else None),
            sn_firewall = fw, sn_qdiscs = qdiscs,
            sn_namespaces = read_namespaces (dv_self_ns dv) (dv_netns dv),
            sn_resolver = Some (read_resolver_state (dv_fs dv)), sn_clat = Some (detect_clat interfaces),
            sn_android_state = sq_android_state request, sn_collection_duration_ms = dv_elapsed_ms dv,
            sn_collection_warnings = w4\<rparr>)))))"

section \<open>What a snapshot owes its reader\<close>

lemma or_warn_simps [simp]:
  "or_warn p (Inr xs) w = (xs, w)" "or_warn p (Inl e) w = ([], w @ [p @ e])"
  by (simp_all add: or_warn_def)

lemma or_warn_clean:
  "or_warn p r w = (xs, w') \<Longrightarrow> w' = [] \<longleftrightarrow> w = [] \<and> r = Inr xs"
  by (cases r) auto

definition socket_layer :: "diag_env \<Rightarrow> snapshot_request \<Rightarrow> if_names \<Rightarrow> socket list \<Rightarrow> socket_summary option \<Rightarrow> bool" where
  "socket_layer env request names ss sm =
     (if sq_include_sockets request
      then (\<exists>d. get_sockets env (any_socket\<lparr>sf_include_tcp_info := sq_include_socket_tcp_info request\<rparr>) names = Some (Inr d) \<and>
             \<not> sd_truncated d \<and> ss = sd_sockets d \<and> sm = Some (sd_summary d))
      else ss = [] \<and> sm = None)"

lemma snapshot_sockets_clean:
  assumes "snapshot_sockets env request names w = Some (ss, sm, w')"
  shows "w' = [] \<longleftrightarrow> w = [] \<and> socket_layer env request names ss sm"
  using assms by (auto simp: snapshot_sockets_def socket_layer_def split: if_splits option.splits sum.splits)

lemma snapshot_sockets_returns:
  "snapshot_sockets env request names w = None \<longleftrightarrow>
     sq_include_sockets request \<and>
     get_sockets env (any_socket\<lparr>sf_include_tcp_info := sq_include_socket_tcp_info request\<rparr>) names = None"
  by (auto simp: snapshot_sockets_def split: option.splits sum.splits)

lemma snapshot_required:
  "get_interfaces (dv_links dv) (dv_addrs dv) (dv_fs dv) True (sq_include_sysctls request) = Inl e
   \<Longrightarrow> collect_snapshot dv request = Some (Inl e)"
  "get_interfaces (dv_links dv) (dv_addrs dv) (dv_fs dv) True (sq_include_sysctls request) = Inr is
   \<Longrightarrow> get_routes (ke_route_dump (dv_kernel dv)) Family_Unspecified 0 False 0 (interface_names is) = Inl e
   \<Longrightarrow> collect_snapshot dv request = Some (Inl e)"
  by (simp_all add: collect_snapshot_def Let_def)

text \<open>
  Files that cannot be read leave no warning: the counters, the kernel release and the resolver are then
  empty, and the warnings are what they were.
\<close>

lemma files_lost_silently:
  assumes "collect_snapshot dv request = Some (Inr s)" and "\<not> sq_include_sysctls request"
  shows "\<exists>s'. collect_snapshot (dv\<lparr>dv_fs := (\<lambda>_. None)\<rparr>) request = Some (Inr s') \<and>
    sn_collection_warnings s' = sn_collection_warnings s \<and>
    sn_counters s' = (if sq_include_counters request then Some (read_counters (\<lambda>_. None)) else None)"
proof -
  have "get_interfaces (dv_links dv) (dv_addrs dv) fs True False = get_interfaces (dv_links dv) (dv_addrs dv) fs' True False" for fs fs'
    by (simp add: get_interfaces_def split: sum.split)
  from this [of "\<lambda>_. None" "dv_fs dv"] assms(2)
  have "collect_snapshot (dv\<lparr>dv_fs := (\<lambda>_. None)\<rparr>) request =
      map_option (map_sum (\<lambda>e. e) (\<lambda>s. s\<lparr>sn_kernel_release := kernel_release (\<lambda>_. None),
        sn_counters := (if sq_include_counters request then Some (read_counters (\<lambda>_. None)) else None),
        sn_resolver := Some (read_resolver_state (\<lambda>_. None))\<rparr>)) (collect_snapshot dv request)"
    by (simp add: collect_snapshot_def Let_def split: sum.split option.split prod.split)
  with assms(1) show ?thesis by simp
qed

text \<open>
  What the collection takes from files can be read: the kernel release, the own namespace and the named
  ones, and the counters when they are asked for. System controls and firewall are not asked for.
\<close>

definition files_readable :: "device_env \<Rightarrow> snapshot_request \<Rightarrow> bool" where
  "files_readable dv request =
     (read_trimmed (dv_fs dv) ''/proc/sys/kernel/osrelease'' \<noteq> None \<and> dv_self_ns dv \<noteq> None \<and>
      (case dv_netns dv of None \<Rightarrow> True | Some es \<Rightarrow> list_all (\<lambda>(_, inode). inode \<noteq> None) es) \<and>
      (sq_include_counters request \<longrightarrow>
         list_all (\<lambda>p. dv_fs dv p \<noteq> None) [''/proc/net/snmp'', ''/proc/net/netstat'', ''/proc/net/snmp6'']) \<and>
      \<not> sq_include_sysctls request \<and> \<not> sq_include_firewall request)"

text \<open>
  C19: a snapshot is honest about the kernel's dumps. When interfaces and routes can be read it is always
  delivered. When moreover the files it reads are readable and it asks for neither system controls nor
  firewall, layers that have no warnings, its list of collection warnings is empty exactly when the rules and
  every requested one of neighbours, sockets and queueing disciplines were dumped without an error and
  without cutting the socket list, and then each of them is what its collector returned; a layer that was not
  requested is empty.
\<close>

theorem snapshot_honest:
  assumes "get_interfaces (dv_links dv) (dv_addrs dv) (dv_fs dv) True (sq_include_sysctls request) = Inr is"
    and "get_routes (ke_route_dump (dv_kernel dv)) Family_Unspecified 0 False 0 (interface_names is) = Inr rd"
    and "sq_include_sockets request \<longrightarrow>
         get_sockets (ke_diag (dv_kernel dv))
           (any_socket\<lparr>sf_include_tcp_info := sq_include_socket_tcp_info request\<rparr>) (interface_names is) \<noteq> None"
    and "files_readable dv request"
  shows "\<exists>s. collect_snapshot dv request = Some (Inr s) \<and>
           sn_interfaces s = is \<and> sn_routes s = rd_routes rd \<and> sn_table_names s = rd_table_names rd \<and>
           (sn_collection_warnings s = [] \<longleftrightarrow>
              get_rules (ke_rule_dump (dv_kernel dv)) Family_Unspecified None = Inr (sn_rules s) \<and>
              (if sq_include_neighbors request
               then get_neighbors (dv_neigh dv) Family_Unspecified 0 False (interface_names is) = Inr (sn_neighbors s)
               else sn_neighbors s = []) \<and>
              socket_layer (ke_diag (dv_kernel dv)) request (interface_names is) (sn_sockets s) (sn_socket_summary s) \<and>
              (if sq_include_qdiscs request
               then collect_qdiscs (interface_names is) (dv_qdiscs dv) [] = Inr (sn_qdiscs s)
               else sn_qdiscs s = [])) \<and>
           (sn_counters s = (if sq_include_counters request then Some (read_counters (dv_fs dv)) else None)) \<and>
           sn_firewall s = None \<and> sn_sysctls s = None"
proof -
  let ?names = "interface_names is"
  let ?env = "ke_diag (dv_kernel dv)"
  obtain rules w1 where r: "or_warn ''routing rules unavailable: ''
      (get_rules (ke_rule_dump (dv_kernel dv)) Family_Unspecified None) [] = (rules, w1)"
    by fastforce
  obtain ns w2 where n: "(if sq_include_neighbors request
      then or_warn ''neighbour table unavailable: '' (get_neighbors (dv_neigh dv) Family_Unspecified 0 False ?names) w1
      else ([], w1)) = (ns, w2)"
    by fastforce
  have "snapshot_sockets ?env request ?names w2 \<noteq> None"
    using assms(3) by (auto simp: snapshot_sockets_returns)
  then obtain ss sm w3 where k: "snapshot_sockets ?env request ?names w2 = Some (ss, sm, w3)" by auto
  obtain qs w4 where q: "(if sq_include_qdiscs request
      then or_warn ''qdisc dump unavailable: '' (collect_qdiscs ?names (dv_qdiscs dv) []) w3
      else ([], w3)) = (qs, w4)"
    by fastforce
  have w1: "w1 = [] \<longleftrightarrow> get_rules (ke_rule_dump (dv_kernel dv)) Family_Unspecified None = Inr rules"
    using or_warn_clean [OF r] by simp
  have w2: "w2 = [] \<longleftrightarrow> w1 = [] \<and> (if sq_include_neighbors request
      then get_neighbors (dv_neigh dv) Family_Unspecified 0 False ?names = Inr ns else ns = [])"
    using n by (auto simp: or_warn_clean split: if_splits)
  have w4: "w4 = [] \<longleftrightarrow> w3 = [] \<and> (if sq_include_qdiscs request
      then collect_qdiscs ?names (dv_qdiscs dv) [] = Inr qs else qs = [])"
    using q by (auto simp: or_warn_clean split: if_splits)
  show ?thesis
    unfolding collect_snapshot_def assms(1) sum.case Let_def assms(2) r n k prod.case option.case q
    by (rule exI, rule conjI, rule refl) (use assms(4) in \<open>auto simp: w1 w2 w4 snapshot_sockets_clean [OF k] files_readable_def\<close>)
qed

section \<open>A device without sock_diag\<close>

definition bare_device :: device_env where
  "bare_device =
     \<lparr>dv_links = Inr [], dv_addrs = Inr [], dv_fs = (\<lambda>p. if p = ''/proc/sys/kernel/osrelease'' then Some ''6.1'' else None), dv_neigh = (\<lambda>_. Inr []),
      dv_kernel = \<lparr>ke_rule_dump = (\<lambda>_. Inr []), ke_route_dump = (\<lambda>_. Inr []), ke_lookup = (\<lambda>_. Inr []),
        ke_diag = \<lparr>de_open = Some ''EPERM'', de_bind = None, de_exchange = (\<lambda>_. Inr []), de_deserialize = (\<lambda>_. Inl [])\<rparr>,
        ke_firewall = \<lparr>fw_exists = (\<lambda>_. False), fw_obj_get = (\<lambda>_. False), fw_lookup = (\<lambda>_. ML_NotFound),
          fw_read_dir = (\<lambda>_. None), fw_run_tool = (\<lambda>_ _. None)\<rparr>\<rparr>,
      dv_qdiscs = [], dv_self_ns = Some 4026531840, dv_netns = None, dv_unix_ms = 0, dv_elapsed_ms = 0\<rparr>"

definition socket_snapshot_request :: snapshot_request where
  "socket_snapshot_request =
     \<lparr>sq_include_sockets = True, sq_include_socket_tcp_info = False, sq_include_neighbors = False,
      sq_include_firewall = False, sq_include_qdiscs = False, sq_include_counters = False,
      sq_include_sysctls = False, sq_android_state = None\<rparr>"

lemma bare_sockets: "get_sockets (ke_diag (dv_kernel bare_device)) f names = Some (Inl ''failed to open a NETLINK_SOCK_DIAG socket'')"
  by (simp add: get_sockets_def bare_device_def)

lemma bare_interfaces: "get_interfaces (dv_links bare_device) (dv_addrs bare_device) (dv_fs bare_device) st False = Inr []"
  by (simp add: get_interfaces_def bare_device_def)

theorem snapshot_honest_witness:
  "\<exists>s. collect_snapshot bare_device socket_snapshot_request = Some (Inr s) \<and> sn_collection_warnings s \<noteq> [] \<and>
     sn_firewall s = None"
proof -
  have ifs: "get_interfaces (dv_links bare_device) (dv_addrs bare_device) (dv_fs bare_device) True
      (sq_include_sysctls socket_snapshot_request) = Inr []"
    by (simp add: bare_interfaces socket_snapshot_request_def)
  obtain rd where rd: "get_routes (ke_route_dump (dv_kernel bare_device)) Family_Unspecified 0 False 0 (interface_names []) = Inr rd"
    by (simp add: get_routes_def bare_device_def)
  have "files_readable bare_device socket_snapshot_request"
    by (simp add: files_readable_def bare_device_def socket_snapshot_request_def read_trimmed_def)
  from snapshot_honest [OF ifs rd _ this] obtain s where
    s: "collect_snapshot bare_device socket_snapshot_request = Some (Inr s)"
    "sn_collection_warnings s = [] \<longrightarrow> socket_layer (ke_diag (dv_kernel bare_device)) socket_snapshot_request
       (interface_names []) (sn_sockets s) (sn_socket_summary s)"
    "sn_firewall s = None"
    by (auto simp: bare_sockets)
  then show ?thesis
    by (auto simp: socket_layer_def bare_sockets socket_snapshot_request_def)
qed

end
