(* ===== verification/Watch.thy ===== *)
theory Watch
  imports Links Neigh Sockets Android
begin

text \<open>
  Network events (\<^verbatim>\<open>daemon/src/watch.rs\<close>): the event bus that stamps and publishes, the state
  cache that turns netlink notifications into transitions, the translation of each kind of
  message and the subscription filter. The two clocks are arguments; the broadcast channel is the
  list of what was published, every subscriber reading a suffix of it.
\<close>

section \<open>Events\<close>

datatype event_source = ES_Unspecified | ES_Kernel | ES_Framework | ES_Daemon

datatype event_severity = EV_Unspecified | EV_Debug | EV_Info | EV_Notice | EV_Warning

fun severity_i32 :: "event_severity \<Rightarrow> int" where
  "severity_i32 EV_Unspecified = 0"
| "severity_i32 EV_Debug = 1"
| "severity_i32 EV_Info = 2"
| "severity_i32 EV_Notice = 3"
| "severity_i32 EV_Warning = 4"

record link_ev =
  le_added :: bool
  le_interface :: "interface option"
  le_went_up :: bool
  le_went_down :: bool
  le_mtu_changed :: bool
  le_previous_mtu :: nat

record address_ev =
  ae_added :: bool
  ae_interface_index :: nat
  ae_interface_name :: string
  ae_address :: "link_address option"
  ae_family_gained :: bool
  ae_family_lost :: bool
  ae_family :: ip_family

record route_ev =
  re_added :: bool
  re_route :: "route option"
  re_default_route_changed :: bool

record rule_ev =
  ue_added :: bool
  ue_rule :: "routing_rule option"

record neighbor_ev =
  ge_added :: bool
  ge_neighbor :: "neighbor option"
  ge_previous_state :: neighbor_state
  ge_is_gateway :: bool

record socket_event =
  ke_socket :: "socket option"
  ke_previous_state :: tcp_state
  ke_appeared :: bool
  ke_disappeared :: bool

record framework_event =
  fe_kind :: int
  fe_network :: "android_network option"
  fe_change_summary :: string
  fe_previous_net_id :: int
  fe_current_net_id :: int

record daemon_event =
  de_message :: string
  de_started :: bool
  de_stopping :: bool
  de_version :: string

datatype event_payload =
  PL_Link link_ev | PL_Address address_ev | PL_Route route_ev | PL_Rule rule_ev
| PL_Neighbor neighbor_ev | PL_Socket socket_event | PL_Framework framework_event
| PL_Daemon daemon_event

record network_event =
  ne_unix_ms :: int
  ne_monotonic_ns :: nat
  ne_source :: event_source
  ne_severity :: int
  ne_summary :: string
  ne_sequence :: nat
  ne_payload :: "event_payload option"

definition default_event :: network_event where
  "default_event = \<lparr>ne_unix_ms = 0, ne_monotonic_ns = 0, ne_source = ES_Unspecified, ne_severity = 0,
     ne_summary = [], ne_sequence = 0, ne_payload = None\<rparr>"

section \<open>The event bus\<close>

record event_bus =
  eb_sent :: "network_event list"
  eb_sequence :: nat

definition bus_new :: event_bus where
  "bus_new = \<lparr>eb_sent = [], eb_sequence = 0\<rparr>"

text \<open>The counter is 64 bits wide and \<open>fetch_add\<close> wraps.\<close>

definition publish :: "int \<Rightarrow> nat \<Rightarrow> network_event \<Rightarrow> event_bus \<Rightarrow> event_bus" where
  "publish unix_ms monotonic_ns event bus =
     \<lparr>eb_sent = eb_sent bus @
        [event\<lparr>ne_sequence := eb_sequence bus, ne_unix_ms := unix_ms, ne_monotonic_ns := monotonic_ns\<rparr>],
      eb_sequence = (eb_sequence bus + 1) mod 2 ^ 64\<rparr>"

definition daemon_notice :: "string \<Rightarrow> network_event" where
  "daemon_notice message =
     default_event\<lparr>ne_source := ES_Daemon, ne_severity := severity_i32 EV_Info, ne_summary := message\<rparr>"

definition publish_daemon :: "int \<Rightarrow> nat \<Rightarrow> string \<Rightarrow> event_bus \<Rightarrow> event_bus" where
  "publish_daemon unix_ms monotonic_ns message bus =
     publish unix_ms monotonic_ns (daemon_notice message) bus"

section \<open>The state cache\<close>

record state_cache =
  sc_if_names :: if_names
  sc_if_mtu :: "nat \<rightharpoonup> nat"
  sc_has_global_v4 :: "nat set"
  sc_has_global_v6 :: "nat set"
  sc_addresses :: "nat \<rightharpoonup> string set"
  sc_neighbor_states :: "(nat \<times> string) \<rightharpoonup> neighbor_state"

definition cache_default :: state_cache where
  "cache_default =
     \<lparr>sc_if_names = Map.empty, sc_if_mtu = Map.empty, sc_has_global_v4 = {}, sc_has_global_v6 = {},
      sc_addresses = Map.empty, sc_neighbor_states = Map.empty\<rparr>"

definition base_event :: "event_severity \<Rightarrow> string \<Rightarrow> network_event" where
  "base_event severity summary =
     default_event\<lparr>ne_source := ES_Kernel, ne_severity := severity_i32 severity, ne_summary := summary\<rparr>"

section \<open>Links\<close>

fun link_event_attr :: "link_attr \<Rightarrow> string \<times> nat \<Rightarrow> string \<times> nat" where
  "link_event_attr (L_IfName n) (name, mtu) = (n, mtu)"
| "link_event_attr (L_Mtu m) (name, mtu) = (name, m)"
| "link_event_attr _ (name, mtu) = (name, mtu)"

definition cache_link :: "nat \<Rightarrow> string \<Rightarrow> nat \<Rightarrow> bool \<Rightarrow> state_cache \<Rightarrow> state_cache" where
  "cache_link index name mtu added cache =
     (if added then
        cache\<lparr>sc_if_names := (sc_if_names cache)(index \<mapsto> name),
              sc_if_mtu := (if mtu \<noteq> 0 then (sc_if_mtu cache)(index \<mapsto> mtu) else sc_if_mtu cache)\<rparr>
      else
        cache\<lparr>sc_if_names := (sc_if_names cache)(index := None),
              sc_if_mtu := (sc_if_mtu cache)(index := None),
              sc_has_global_v4 := sc_has_global_v4 cache - {index},
              sc_has_global_v6 := sc_has_global_v6 cache - {index},
              sc_addresses := (sc_addresses cache)(index := None)\<rparr>)"

definition link_event :: "link_message \<Rightarrow> bool \<Rightarrow> state_cache \<Rightarrow> network_event \<times> state_cache" where
  "link_event msg added cache =
     (let index = lm_index msg;
          (name0, mtu) = fold link_event_attr (lm_attributes msg) (name_of (sc_if_names cache) index, 0);
          name = (if name0 = [] then ''if'' @ dec index else name0);
          up = has_flag (lm_flags msg) IFF_UP;
          running = has_flag (lm_flags msg) IFF_RUNNING;
          previous_mtu = (case sc_if_mtu cache index of Some m \<Rightarrow> m | None \<Rightarrow> 0);
          mtu_changed = (mtu \<noteq> 0 \<and> previous_mtu \<noteq> 0 \<and> mtu \<noteq> previous_mtu);
          summary =
            (if \<not> added then name @ '' removed''
             else if mtu_changed then name @ '' MTU '' @ dec previous_mtu @ '' -> '' @ dec mtu
             else if up \<and> running then name @ '' up''
             else if up then name @ '' up, no carrier''
             else name @ '' down'');
          severity = (if \<not> added \<or> \<not> up then EV_Notice else EV_Info)
      in ((base_event severity summary)\<lparr>ne_payload := Some (PL_Link
            \<lparr>le_added = added,
             le_interface = Some (default_interface\<lparr>if_index := index, if_name := name, if_mtu := mtu\<rparr>),
             le_went_up = (added \<and> up), le_went_down = (added \<and> \<not> up),
             le_mtu_changed = mtu_changed, le_previous_mtu = previous_mtu\<rparr>)\<rparr>,
          cache_link index name mtu added cache))"

section \<open>Addresses\<close>

fun event_ip :: "addr_attr list \<Rightarrow> ip_addr option \<Rightarrow> ip_addr option" where
  "event_ip [] ip = ip"
| "event_ip (D_Local a # as) ip = event_ip as (Some a)"
| "event_ip (D_Address a # as) ip = event_ip as (case ip of None \<Rightarrow> Some a | Some x \<Rightarrow> Some x)"
| "event_ip (_ # as) ip = event_ip as ip"

definition text_is_family :: "bool \<Rightarrow> string \<Rightarrow> bool" where
  "text_is_family v6 a =
     (case parse_ip (hd (split_on CHR ''/'' a)) of Some parsed \<Rightarrow> is_ipv6 parsed = v6 | None \<Rightarrow> False)"

definition track_address :: "nat \<Rightarrow> string \<Rightarrow> bool \<Rightarrow> state_cache \<Rightarrow> state_cache" where
  "track_address index text added cache =
     (let entry = (case sc_addresses cache index of Some s \<Rightarrow> s | None \<Rightarrow> {})
      in cache\<lparr>sc_addresses := (sc_addresses cache)(index \<mapsto> (if added then insert text entry else entry - {text}))\<rparr>)"

definition global_set :: "bool \<Rightarrow> state_cache \<Rightarrow> nat set" where
  "global_set v6 cache = (if v6 then sc_has_global_v6 cache else sc_has_global_v4 cache)"

definition set_global :: "bool \<Rightarrow> nat set \<Rightarrow> state_cache \<Rightarrow> state_cache" where
  "set_global v6 s cache = (if v6 then cache\<lparr>sc_has_global_v6 := s\<rparr> else cache\<lparr>sc_has_global_v4 := s\<rparr>)"

definition any_left :: "bool \<Rightarrow> nat \<Rightarrow> state_cache \<Rightarrow> bool" where
  "any_left v6 index cache =
     (case sc_addresses cache index of Some addrs \<Rightarrow> (\<exists>a\<in>addrs. text_is_family v6 a) | None \<Rightarrow> False)"

text \<open>Whether the interface has the family afterwards, and the cache that records it.\<close>

definition update_global :: "bool \<Rightarrow> bool \<Rightarrow> bool \<Rightarrow> nat \<Rightarrow> state_cache \<Rightarrow> bool \<times> state_cache" where
  "update_global v6 is_global added index cache =
     (let had = index \<in> global_set v6 cache
      in if \<not> is_global then (had, cache)
         else if added then (True, set_global v6 (insert index (global_set v6 cache)) cache)
         else let left = any_left v6 index cache
              in (left, if \<not> left then set_global v6 (global_set v6 cache - {index}) cache else cache))"

definition address_event ::
  "address_message \<Rightarrow> bool \<Rightarrow> state_cache \<Rightarrow> network_event option \<times> state_cache" where
  "address_event msg added cache =
     (let index = am_index msg;
          name = (case sc_if_names cache index of Some n \<Rightarrow> n | None \<Rightarrow> ''if'' @ dec index)
      in case event_ip (am_attributes msg) None of
           None \<Rightarrow> (None, cache)
         | Some ip \<Rightarrow>
             (let text = show_ip ip @ ''/'' @ dec (unat (am_prefix_len msg));
                  is_global = (am_scope msg = AS_Universe);
                  v6 = \<not> is_ipv4 ip;
                  cache1 = track_address index text added cache;
                  had = index \<in> global_set v6 cache1;
                  (has_now, cache2) = update_global v6 is_global added index cache1;
                  gained = (\<not> had \<and> has_now);
                  lost = (had \<and> \<not> has_now);
                  family_name = (if v6 then ''IPv6'' else ''IPv4'');
                  summary =
                    (if gained then name @ '' gained '' @ family_name @ '' ('' @ text @ '')''
                     else if lost then name @ '' lost '' @ family_name @ '' (last global address '' @ text @ '' removed)''
                     else if added then name @ '' address added '' @ text
                     else name @ '' address removed '' @ text);
                  severity = (if lost then EV_Warning else if gained then EV_Notice else EV_Debug)
              in (Some ((base_event severity summary)\<lparr>ne_payload := Some (PL_Address
                    \<lparr>ae_added = added, ae_interface_index = index, ae_interface_name = name,
                     ae_address = Some \<lparr>la_prefix = Some (prefix_new ip (am_prefix_len msg)),
                        la_scope = (if is_global then SC_Global else SC_Unspecified),
                        la_flags = None, la_valid_lifetime_sec = 0, la_preferred_lifetime_sec = 0,
                        la_label = [], la_broadcast = None\<rparr>,
                     ae_family_gained = gained, ae_family_lost = lost,
                     ae_family = (if v6 then Family_V6 else Family_V4)\<rparr>)\<rparr>), cache2)))"

section \<open>Routes, rules and neighbours\<close>

definition route_event :: "route_message \<Rightarrow> bool \<Rightarrow> state_cache \<Rightarrow> network_event" where
  "route_event msg added cache =
     (let route = route_to_proto (sc_if_names cache) msg;
          (gateway, dev_name) = (case rt_next_hops route of
              h # _ \<Rightarrow> (nh_gateway h, nh_out_interface_name h) | [] \<Rightarrow> (None, []));
          destination = (case rt_destination route of
              Some d \<Rightarrow> if rt_is_default route then ''default'' else prefix_display d
            | None \<Rightarrow> ''?'');
          via = (case gateway of Some g \<Rightarrow> '' via '' @ display g | None \<Rightarrow> []);
          dev = (if dev_name = [] then [] else '' dev '' @ dev_name);
          verb = (if added then ''added'' else ''removed'');
          summary = ''route '' @ verb @ '': '' @ destination @ via @ dev @ '' table '' @ dec (rt_table route);
          severity = (if rt_is_default route then EV_Notice else EV_Debug)
      in (base_event severity summary)\<lparr>ne_payload := Some (PL_Route
           \<lparr>re_added = added, re_route = Some route, re_default_route_changed = rt_is_default route\<rparr>)\<rparr>)"

definition rule_event :: "rule_message \<Rightarrow> bool \<Rightarrow> network_event" where
  "rule_event msg added =
     (let rule = rule_to_proto msg;
          verb = (if added then ''added'' else ''removed'');
          selector =
            (if rl_has_uid_range rule then '' uidrange '' @ dec (rl_uid_range_start rule) @ ''-'' @ dec (rl_uid_range_end rule)
             else if rl_has_fwmark rule then '' fwmark 0x'' @ hex (unat (rl_fwmark rule)) @ ''/0x'' @ hex (unat (rl_fwmask rule))
             else []);
          summary = ''rule '' @ verb @ '': priority '' @ dec (rl_priority rule) @ selector @ '' lookup '' @ dec (rl_table rule)
      in (base_event EV_Notice summary)\<lparr>ne_payload := Some (PL_Rule \<lparr>ue_added = added, ue_rule = Some rule\<rparr>)\<rparr>)"

fun show_neighbor_state :: "neighbor_state \<Rightarrow> string" where
  "show_neighbor_state NS_Unspecified = ''Unspecified''"
| "show_neighbor_state NS_Incomplete = ''Incomplete''"
| "show_neighbor_state NS_Reachable = ''Reachable''"
| "show_neighbor_state NS_Stale = ''Stale''"
| "show_neighbor_state NS_Delay = ''Delay''"
| "show_neighbor_state NS_Probe = ''Probe''"
| "show_neighbor_state NS_Failed = ''Failed''"
| "show_neighbor_state NS_Noarp = ''Noarp''"
| "show_neighbor_state NS_Permanent = ''Permanent''"
| "show_neighbor_state NS_None = ''None''"

definition neighbor_event ::
  "neighbour_message \<Rightarrow> bool \<Rightarrow> state_cache \<Rightarrow> network_event option \<times> state_cache" where
  "neighbor_event msg added cache =
     (let neighbor = neighbor_to_proto (sc_if_names cache) msg
      in case ne_address neighbor of
           None \<Rightarrow> (None, cache)
         | Some a \<Rightarrow>
             (let address = display a;
                  state = ne_state neighbor;
                  key = (ne_interface_index neighbor, address);
                  previous = (case sc_neighbor_states cache key of Some s \<Rightarrow> s | None \<Rightarrow> NS_Unspecified);
                  cache1 = cache\<lparr>sc_neighbor_states :=
                    (if added then (sc_neighbor_states cache)(key \<mapsto> state)
                     else ((sc_neighbor_states cache)(key \<mapsto> state))(key := None))\<rparr>;
                  was = is_usable previous;
                  now = is_usable state
              in if added \<and> was = now \<and> previous \<noteq> NS_Unspecified then (None, cache1)
                 else
                   (let name = (if ne_interface_name neighbor = [] then ''if'' @ dec (ne_interface_index neighbor)
                                else ne_interface_name neighbor);
                        summary =
                          (if \<not> added then ''neighbour '' @ address @ '' removed on '' @ name
                           else if now then ''neighbour '' @ address @ '' reachable on '' @ name
                           else ''neighbour '' @ address @ '' is '' @ show_neighbor_state state @ '' on '' @ name);
                        severity = (if added \<and> \<not> now then EV_Warning else EV_Info)
                    in (Some ((base_event severity summary)\<lparr>ne_payload := Some (PL_Neighbor
                          \<lparr>ge_added = added, ge_neighbor = Some neighbor, ge_previous_state = previous,
                           ge_is_gateway = ne_is_router neighbor\<rparr>)\<rparr>), cache1))))"

section \<open>Translation and the monitor\<close>

datatype netlink_event =
  M_NewLink link_message | M_DelLink link_message
| M_NewAddress address_message | M_DelAddress address_message
| M_NewRoute route_message | M_DelRoute route_message
| M_NewRule rule_message | M_DelRule rule_message
| M_NewNeighbour neighbour_message | M_DelNeighbour neighbour_message
| M_OtherMessage

fun translate :: "netlink_event \<Rightarrow> state_cache \<Rightarrow> network_event option \<times> state_cache" where
  "translate (M_NewLink m) c = apfst Some (link_event m True c)"
| "translate (M_DelLink m) c = apfst Some (link_event m False c)"
| "translate (M_NewAddress m) c = address_event m True c"
| "translate (M_DelAddress m) c = address_event m False c"
| "translate (M_NewRoute m) c = (Some (route_event m True c), c)"
| "translate (M_DelRoute m) c = (Some (route_event m False c), c)"
| "translate (M_NewRule m) c = (Some (rule_event m True), c)"
| "translate (M_DelRule m) c = (Some (rule_event m False), c)"
| "translate (M_NewNeighbour m) c = neighbor_event m True c"
| "translate (M_DelNeighbour m) c = neighbor_event m False c"
| "translate M_OtherMessage c = (None, c)"

text \<open>
  The monitor's loop over the messages the kernel delivers, each with the clock readings of the
  moment it is handled; \<open>None\<close> is a payload that is no inner message.
\<close>

fun monitor :: "(int \<times> nat \<times> netlink_event option) list \<Rightarrow> state_cache \<Rightarrow> event_bus \<Rightarrow> state_cache \<times> event_bus" where
  "monitor [] cache bus = (cache, bus)"
| "monitor ((u, m, None) # ms) cache bus = monitor ms cache bus"
| "monitor ((u, m, Some msg) # ms) cache bus =
     (case translate msg cache of
        (Some event, cache') \<Rightarrow> monitor ms cache' (publish u m event bus)
      | (None, cache') \<Rightarrow> monitor ms cache' bus)"

text \<open>Without its multicast subscription the monitor fails before it publishes anything.\<close>

definition watch_run ::
  "bool \<Rightarrow> int \<Rightarrow> nat \<Rightarrow> (int \<times> nat \<times> netlink_event option) list \<Rightarrow> event_bus \<Rightarrow> (string + unit) \<times> event_bus" where
  "watch_run subscribed u m ms bus =
     (if \<not> subscribed then (Inl ''could not subscribe to netlink multicast groups'', bus)
      else (Inr (), snd (monitor ms cache_default (publish_daemon u m ''kernel event monitor started'' bus))))"

section \<open>The subscription filter\<close>

record event_filter =
  ef_links :: bool
  ef_addresses :: bool
  ef_routes :: bool
  ef_rules :: bool
  ef_neighbors :: bool
  ef_sockets :: bool
  ef_socket_uids :: "nat list"
  ef_socket_poll_ms :: nat
  ef_exclude_neighbor_probe_noise :: bool
  ef_min_severity :: int

definition default_filter :: event_filter where
  "default_filter = \<lparr>ef_links = False, ef_addresses = False, ef_routes = False, ef_rules = False,
     ef_neighbors = False, ef_sockets = False, ef_socket_uids = [], ef_socket_poll_ms = 0,
     ef_exclude_neighbor_probe_noise = False, ef_min_severity = 0\<rparr>"

definition nothing_selected :: "event_filter \<Rightarrow> bool" where
  "nothing_selected f = (\<not> ef_links f \<and> \<not> ef_addresses f \<and> \<not> ef_routes f \<and> \<not> ef_rules f \<and>
     \<not> ef_neighbors f \<and> \<not> ef_sockets f)"

definition matches_filter :: "network_event \<Rightarrow> event_filter \<Rightarrow> bool" where
  "matches_filter event f =
     (if ne_severity event < ef_min_severity f then False
      else case ne_payload event of
        Some (PL_Link _) \<Rightarrow> nothing_selected f \<or> ef_links f
      | Some (PL_Address _) \<Rightarrow> nothing_selected f \<or> ef_addresses f
      | Some (PL_Route _) \<Rightarrow> nothing_selected f \<or> ef_routes f
      | Some (PL_Rule _) \<Rightarrow> nothing_selected f \<or> ef_rules f
      | Some (PL_Neighbor e) \<Rightarrow>
          if \<not> (nothing_selected f \<or> ef_neighbors f) then False
          else if ef_exclude_neighbor_probe_noise f then
            (let state = (case ge_neighbor e of Some n \<Rightarrow> ne_state n | None \<Rightarrow> NS_Unspecified)
             in if state = NS_Probe \<or> state = NS_Delay then False else True)
          else True
      | Some (PL_Socket e) \<Rightarrow>
          if \<not> (nothing_selected f \<or> ef_sockets f) then False
          else if ef_socket_uids f = [] then True
          else (case ke_socket e of Some s \<Rightarrow> so_uid s \<in> set (ef_socket_uids f) | None \<Rightarrow> False)
      | _ \<Rightarrow> True)"

section \<open>Facts about the bus\<close>

text \<open>The bus as it stands before the counter wraps: the events carry 0, 1, 2 and so on.\<close>

definition bus_ok :: "event_bus \<Rightarrow> bool" where
  "bus_ok bus =
     (map ne_sequence (eb_sent bus) = [0..<length (eb_sent bus)] \<and>
      eb_sequence bus = length (eb_sent bus) mod 2 ^ 64)"

lemma bus_ok_new: "bus_ok bus_new"
  by (simp add: bus_ok_def bus_new_def)

lemma bus_ok_publish:
  assumes "bus_ok bus" and "length (eb_sent bus) < 2 ^ 64"
  shows "bus_ok (publish u m e bus)"
  using assms by (simp add: bus_ok_def publish_def mod_Suc_eq)

lemma length_publish [simp]: "length (eb_sent (publish u m e bus)) = Suc (length (eb_sent bus))"
  by (simp add: publish_def)

lemma monitor_bus:
  assumes "bus_ok bus" and "length (eb_sent bus) + length ms \<le> 2 ^ 64"
  shows "bus_ok (snd (monitor ms cache bus)) \<and>
         length (eb_sent bus) \<le> length (eb_sent (snd (monitor ms cache bus))) \<and>
         take (length (eb_sent bus)) (eb_sent (snd (monitor ms cache bus))) = eb_sent bus"
  using assms
proof (induction ms cache bus rule: monitor.induct)
  case (3 u m msg ms cache bus)
  show ?case
  proof (cases "translate msg cache")
    case (Pair ev c)
    show ?thesis
    proof (cases ev)
      case None
      then show ?thesis using 3 Pair by simp
    next
      case (Some e)
      have "bus_ok (publish u m e bus)" using "3.prems" by (intro bus_ok_publish) auto
      with 3 Pair Some have
        IH: "bus_ok (snd (monitor ms c (publish u m e bus)))"
          "Suc (length (eb_sent bus)) \<le> length (eb_sent (snd (monitor ms c (publish u m e bus))))"
          "take (Suc (length (eb_sent bus))) (eb_sent (snd (monitor ms c (publish u m e bus)))) = eb_sent (publish u m e bus)"
        by auto
      from arg_cong [OF IH(3), of "take (length (eb_sent bus))"]
      have "take (length (eb_sent bus)) (eb_sent (snd (monitor ms c (publish u m e bus)))) = eb_sent bus"
        by (simp add: publish_def min_def)
      with IH Pair Some show ?thesis by simp
    qed
  qed
qed simp_all

text \<open>
  Events are numbered without gaps in the order they are published: as long as fewer than
  \<open>2 ^ 64\<close> events go through the bus, the n-th event published by the monitor carries sequence
  number n, starting with the notice that the monitor runs, and nothing already published is
  changed by what follows.
\<close>

lemma monitor_sequence:
  assumes "length ms < 2 ^ 64"
  shows "map ne_sequence (eb_sent (snd (watch_run True u m ms bus_new))) =
           [0..<length (eb_sent (snd (watch_run True u m ms bus_new)))] \<and>
         (\<exists>rest. eb_sent (snd (watch_run True u m ms bus_new)) =
           (daemon_notice ''kernel event monitor started'')\<lparr>ne_sequence := 0, ne_unix_ms := u, ne_monotonic_ns := m\<rparr> # rest)"
proof -
  let ?b = "publish_daemon u m ''kernel event monitor started'' bus_new"
  have b: "bus_ok ?b" "length (eb_sent ?b) = 1"
    using bus_ok_publish [OF bus_ok_new] by (simp_all add: publish_daemon_def bus_new_def)
  have sent: "eb_sent ?b = [(daemon_notice ''kernel event monitor started'')\<lparr>ne_sequence := 0, ne_unix_ms := u, ne_monotonic_ns := m\<rparr>]"
    by (simp add: publish_daemon_def publish_def bus_new_def)
  from monitor_bus [OF b(1), of ms cache_default] assms b(2)
  have mb: "bus_ok (snd (watch_run True u m ms bus_new))" "take 1 (eb_sent (snd (watch_run True u m ms bus_new))) = eb_sent ?b"
    by (simp_all add: watch_run_def)
  have "\<exists>rest. eb_sent (snd (watch_run True u m ms bus_new)) = hd (eb_sent ?b) # rest"
    using mb(2) unfolding sent by (cases "eb_sent (snd (watch_run True u m ms bus_new))") auto
  with mb(1) show ?thesis unfolding sent by (simp add: bus_ok_def)
qed

section \<open>Facts about address tracking\<close>

lemma set_join: "set (join sep xs) \<subseteq> set sep \<union> \<Union> (set ` set xs)"
  by (induction sep xs rule: join.induct) auto

lemma slash_not_dec: "CHR ''/'' \<notin> set (dec n)"
  using dec_chars [of "CHR ''/''" n] by auto

lemma slash_not_hex: "CHR ''/'' \<notin> set (hex n)"
  using to_digit_hex [of "CHR ''/''" n] by (auto simp: to_digit_def)

lemma slash_not_v4: "CHR ''/'' \<notin> set (show_v4 os)"
  using set_join [of "''.''" "map (\<lambda>b. dec (unat b)) os"] by (auto simp: show_v4_def slash_not_dec)

lemma slash_not_groups: "CHR ''/'' \<notin> set (fmt_subslice gs)"
  using set_join [of "'':''" "map hex gs"] by (auto simp: fmt_subslice_def slash_not_hex)

lemma slash_not_ip: "CHR ''/'' \<notin> set (show_ip ip)"
  by (cases ip) (auto simp: slash_not_v4 show_v6_def Let_def slash_not_groups split: option.splits prod.splits)

definition addr_text :: "ip_addr \<Rightarrow> u8 \<Rightarrow> string" where
  "addr_text ip len = show_ip ip @ ''/'' @ dec (unat len)"

lemma split_addr_text: "split_on CHR ''/'' (addr_text ip len) = [show_ip ip, dec (unat len)]"
  by (simp add: addr_text_def split_on_append [OF slash_not_ip] split_on_no_sep [OF slash_not_dec])

lemma addr_text_inject:
  assumes "wf_ip ip" and "wf_ip ip'"
  shows "addr_text ip len = addr_text ip' len' \<longleftrightarrow> ip = ip' \<and> len = len'"
proof
  assume eq: "addr_text ip len = addr_text ip' len'"
  from arg_cong [OF eq, of "split_on CHR ''/''"]
  have "show_ip ip = show_ip ip'" "dec (unat len) = dec (unat len')" by (simp_all add: split_addr_text)
  then have "Some ip = Some ip'" "unat len = unat len'"
    using parse_show_ip [OF assms(1)] parse_show_ip [OF assms(2)] by (metis, simp only: dec_inject)
  then show "ip = ip' \<and> len = len'" by (simp add: word_unat_eq_iff)
qed simp

lemma text_is_family_text: "wf_ip ip \<Longrightarrow> text_is_family v6 (addr_text ip len) \<longleftrightarrow> is_ipv6 ip = v6"
  by (simp add: text_is_family_def split_addr_text parse_show_ip)

section \<open>What the cache stands for\<close>

text \<open>
  The abstract state is the set of addresses that exist: interface, address and prefix length.
  A message adds or removes one, and the removal of an interface removes all of its addresses.
\<close>

type_synonym address_set = "(nat \<times> ip_addr \<times> u8) set"

fun address_step :: "netlink_event \<Rightarrow> address_set \<Rightarrow> address_set" where
  "address_step (M_NewAddress m) A =
     (case event_ip (am_attributes m) None of Some ip \<Rightarrow> insert (am_index m, ip, am_prefix_len m) A | None \<Rightarrow> A)"
| "address_step (M_DelAddress m) A =
     (case event_ip (am_attributes m) None of Some ip \<Rightarrow> A - {(am_index m, ip, am_prefix_len m)} | None \<Rightarrow> A)"
| "address_step (M_DelLink m) A = {t \<in> A. fst t \<noteq> lm_index m}"
| "address_step _ A = A"

definition has_family :: "address_set \<Rightarrow> nat \<Rightarrow> bool \<Rightarrow> bool" where
  "has_family A index v6 = (\<exists>ip len. (index, ip, len) \<in> A \<and> is_ipv6 ip = v6)"

lemma has_family_simps [simp]:
  "\<not> has_family {} i v6"
  "has_family (insert (j, ip, len) A) i v6 \<longleftrightarrow> (j = i \<and> is_ipv6 ip = v6) \<or> has_family A i v6"
  by (auto simp: has_family_def)

text \<open>
  An address keeps the scope it was announced with: \<open>glob\<close> says which addresses are global, and a
  message about an address carries that scope. The removal of an address is clean when a family that
  loses its last global address on the interface has no other address left there.
\<close>

definition globals :: "(nat \<times> ip_addr \<times> u8 \<Rightarrow> bool) \<Rightarrow> address_set \<Rightarrow> address_set" where
  "globals glob A = {t \<in> A. glob t}"

definition scoped_address :: "(nat \<times> ip_addr \<times> u8 \<Rightarrow> bool) \<Rightarrow> address_message \<Rightarrow> bool" where
  "scoped_address glob m =
     (case event_ip (am_attributes m) None of
        Some ip \<Rightarrow> wf_ip ip \<and> (am_scope m = AS_Universe) = glob (am_index m, ip, am_prefix_len m)
      | None \<Rightarrow> True)"

definition clean_removal :: "(nat \<times> ip_addr \<times> u8 \<Rightarrow> bool) \<Rightarrow> address_message \<Rightarrow> address_set \<Rightarrow> bool" where
  "clean_removal glob m A =
     (case event_ip (am_attributes m) None of
        Some ip \<Rightarrow>
          let rest = A - {(am_index m, ip, am_prefix_len m)} in
          am_scope m = AS_Universe \<longrightarrow> has_family rest (am_index m) (is_ipv6 ip) \<longrightarrow>
            has_family (globals glob rest) (am_index m) (is_ipv6 ip)
      | None \<Rightarrow> True)"

fun orderly_message :: "(nat \<times> ip_addr \<times> u8 \<Rightarrow> bool) \<Rightarrow> netlink_event \<Rightarrow> address_set \<Rightarrow> bool" where
  "orderly_message glob (M_NewAddress m) A = scoped_address glob m"
| "orderly_message glob (M_DelAddress m) A = (scoped_address glob m \<and> clean_removal glob m A)"
| "orderly_message glob _ A = True"

fun orderly :: "(nat \<times> ip_addr \<times> u8 \<Rightarrow> bool) \<Rightarrow> netlink_event list \<Rightarrow> address_set \<Rightarrow> bool" where
  "orderly glob [] A = True"
| "orderly glob (msg # msgs) A = (orderly_message glob msg A \<and> orderly glob msgs (address_step msg A))"

definition tracked :: "state_cache \<Rightarrow> nat \<Rightarrow> string set" where
  "tracked cache index = (case sc_addresses cache index of Some s \<Rightarrow> s | None \<Rightarrow> {})"

definition stands_for :: "(nat \<times> ip_addr \<times> u8 \<Rightarrow> bool) \<Rightarrow> state_cache \<Rightarrow> address_set \<Rightarrow> bool" where
  "stands_for glob cache A =
     ((\<forall>(i, ip, len)\<in>A. wf_ip ip) \<and>
      (\<forall>i. tracked cache i = {addr_text ip len | ip len. (i, ip, len) \<in> A}) \<and>
      (\<forall>i v6. i \<in> global_set v6 cache \<longleftrightarrow> has_family (globals glob A) i v6))"

lemma any_left_tracked: "any_left v6 i cache \<longleftrightarrow> (\<exists>a\<in>tracked cache i. text_is_family v6 a)"
  by (simp add: any_left_def tracked_def split: option.splits)

lemma any_left_family:
  assumes "\<forall>(i, ip, len)\<in>A. wf_ip ip" and "tracked cache i = {addr_text ip len | ip len. (i, ip, len) \<in> A}"
  shows "any_left v6 i cache \<longleftrightarrow> has_family A i v6"
  using assms by (force simp: any_left_tracked has_family_def text_is_family_text)

lemma global_set_set [simp]:
  "global_set v6 (set_global v6' s c) = (if v6 = v6' then s else global_set v6 c)"
  by (auto simp: global_set_def set_global_def)

lemma tracked_set_global [simp]: "tracked (set_global v6 s c) i = tracked c i"
  by (simp add: tracked_def set_global_def)

lemma tracked_track [simp]:
  "tracked (track_address i t added c) j =
     (if j = i then (if added then insert t (tracked c i) else tracked c i - {t}) else tracked c j)"
  by (simp add: tracked_def track_address_def Let_def)

lemma global_set_track [simp]: "global_set v6 (track_address i t added c) = global_set v6 c"
  by (simp add: global_set_def track_address_def Let_def)

definition address_change :: "bool \<Rightarrow> nat \<times> ip_addr \<times> u8 \<Rightarrow> address_set \<Rightarrow> address_set" where
  "address_change added t A = (if added then insert t A else A - {t})"

lemma has_family_change_other:
  "(j, w) \<noteq> (i, is_ipv6 ip) \<Longrightarrow>
   has_family (globals glob (address_change added (i, ip, len) A)) j w \<longleftrightarrow> has_family (globals glob A) j w"
  by (auto simp: has_family_def address_change_def globals_def)

lemma globals_simps [simp]:
  "globals glob {} = {}" "globals glob (insert t A) = (if glob t then insert t (globals glob A) else globals glob A)"
  "globals glob (A - {t}) = globals glob A - {t}"
  by (auto simp: globals_def)

lemma texts_change:
  assumes "\<forall>(i, ip, len)\<in>A. wf_ip ip" and "wf_ip ip"
    and "tracked c j = {addr_text ip len | ip len. (j, ip, len) \<in> A}"
  shows "tracked (track_address i (addr_text ip len) added c) j =
         {addr_text ip' len' | ip' len'. (j, ip', len') \<in> address_change added (i, ip, len) A}"
proof (cases "j = i")
  case True
  have "addr_text ip' len' = addr_text ip len \<longleftrightarrow> ip' = ip \<and> len' = len" if "(i, ip', len') \<in> A" for ip' len'
    using assms(1,2) that by (intro addr_text_inject) auto
  with True assms(3) show ?thesis by (auto simp: address_change_def)
qed (use assms(3) in \<open>auto simp: address_change_def\<close>)

lemma update_global_ok:
  assumes A: "stands_for glob cache A" and ip: "wf_ip ip"
    and upd: "update_global (is_ipv6 ip) (glob (i, ip, len)) added i (track_address i (addr_text ip len) added cache) =
      (has_now, cache2)"
  defines "A1 \<equiv> address_change added (i, ip, len) A"
  assumes clean: "\<not> added \<Longrightarrow> glob (i, ip, len) \<Longrightarrow> has_family A1 i (is_ipv6 ip) \<Longrightarrow>
    has_family (globals glob A1) i (is_ipv6 ip)"
  shows "has_now \<longleftrightarrow> has_family (globals glob A1) i (is_ipv6 ip)" and "stands_for glob cache2 A1"
proof -
  let ?v6 = "is_ipv6 ip" and ?c1 = "track_address i (addr_text ip len) added cache"
  from A have wf: "\<forall>(i, ip, len)\<in>A. wf_ip ip"
    and tr: "tracked cache j = {addr_text ip len | ip len. (j, ip, len) \<in> A}"
    and gl: "j \<in> global_set w cache \<longleftrightarrow> has_family (globals glob A) j w" for j w
    by (auto simp: stands_for_def)
  have wf1: "\<forall>(i, ip, len)\<in>A1. wf_ip ip" using wf ip by (auto simp: A1_def address_change_def)
  have tr1: "tracked ?c1 j = {addr_text ip len | ip len. (j, ip, len) \<in> A1}" for j
    unfolding A1_def by (rule texts_change [OF wf ip tr])
  have "any_left ?v6 i ?c1 \<longleftrightarrow> has_family A1 i ?v6" by (rule any_left_family [OF wf1 tr1])
  moreover have "has_family (globals glob A1) i ?v6 \<Longrightarrow> has_family A1 i ?v6"
    by (auto simp: has_family_def globals_def)
  ultimately have left: "any_left ?v6 i ?c1 \<longleftrightarrow> has_family (globals glob A1) i ?v6" if "\<not> added" "glob (i, ip, len)"
    using clean that by blast
  have add: "added \<Longrightarrow> glob (i, ip, len) \<Longrightarrow> has_family (globals glob A1) i ?v6"
    by (auto simp: A1_def address_change_def has_family_def globals_def)
  have same: "globals glob A1 = globals glob A" if "\<not> glob (i, ip, len)"
    using that by (auto simp: A1_def address_change_def globals_def)
  show has: "has_now \<longleftrightarrow> has_family (globals glob A1) i ?v6"
    using upd add left same gl [of i ?v6] by (auto simp: update_global_def Let_def split: if_splits)
  have other: "has_family (globals glob A1) j w \<longleftrightarrow> has_family (globals glob A) j w" if "(j, w) \<noteq> (i, ?v6)" for j w
    using that unfolding A1_def by (rule has_family_change_other)
  have mono: "\<not> added \<Longrightarrow> has_family (globals glob A1) i ?v6 \<Longrightarrow> has_family (globals glob A) i ?v6"
    by (auto simp: A1_def address_change_def has_family_def globals_def)
  have "j \<in> global_set w cache2 \<longleftrightarrow> has_family (globals glob A1) j w" for j w
  proof (cases "glob (i, ip, len)")
    case True
    then show ?thesis using upd add left mono other [of j w] gl [of j w] gl [of i ?v6]
      by (cases "(j, w) = (i, ?v6)") (auto simp: update_global_def Let_def split: if_splits)
  next
    case False
    then have "cache2 = ?c1" using upd by (simp add: update_global_def)
    then show ?thesis using same [OF False] gl [of j w] by simp
  qed
  moreover have "tracked cache2 j = tracked ?c1 j" for j
    using upd by (auto simp: update_global_def Let_def split: if_splits)
  ultimately show "stands_for glob cache2 A1" using wf1 tr1 by (simp add: stands_for_def)
qed

definition family_flags :: "network_event option \<Rightarrow> (bool \<times> bool) option" where
  "family_flags ev =
     (case ev of
        Some e \<Rightarrow> (case ne_payload e of Some (PL_Address a) \<Rightarrow> Some (ae_family_gained a, ae_family_lost a) | _ \<Rightarrow> None)
      | None \<Rightarrow> None)"

text \<open>The flags the abstract state prescribes for a change.\<close>

definition transition_flags :: "address_set \<Rightarrow> address_set \<Rightarrow> nat \<Rightarrow> bool \<Rightarrow> bool \<times> bool" where
  "transition_flags A A1 i v6 =
     (\<not> has_family A i v6 \<and> has_family A1 i v6, has_family A i v6 \<and> \<not> has_family A1 i v6)"

lemma address_event_sim:
  assumes A: "stands_for glob cache A" and m: "scoped_address glob m" and clean: "added \<or> clean_removal glob m A"
  shows "(case event_ip (am_attributes m) None of
      None \<Rightarrow> address_event m added cache = (None, cache)
    | Some ip \<Rightarrow>
        let A1 = address_change added (am_index m, ip, am_prefix_len m) A in
        family_flags (fst (address_event m added cache)) =
          Some (transition_flags (globals glob A) (globals glob A1) (am_index m) (is_ipv6 ip)) \<and>
        stands_for glob (snd (address_event m added cache)) A1)"
proof (cases "event_ip (am_attributes m) None")
  case None
  then show ?thesis by (simp add: address_event_def Let_def)
next
  case (Some ip)
  let ?i = "am_index m" and ?len = "am_prefix_len m"
  let ?c1 = "track_address ?i (addr_text ip ?len) added cache"
  obtain has_now c2 where upd: "update_global (is_ipv6 ip) (glob (?i, ip, ?len)) added ?i ?c1 = (has_now, c2)" by fastforce
  from m Some have ip: "wf_ip ip" and g: "(am_scope m = AS_Universe) = glob (?i, ip, ?len)"
    by (simp_all add: scoped_address_def)
  have "has_family (globals glob (address_change added (?i, ip, ?len) A)) ?i (is_ipv6 ip)"
    if "\<not> added" "glob (?i, ip, ?len)" "has_family (address_change added (?i, ip, ?len) A) ?i (is_ipv6 ip)"
    using clean that Some g by (simp add: clean_removal_def address_change_def Let_def)
  note ok = update_global_ok [OF A ip upd this]
  have had: "?i \<in> global_set (is_ipv6 ip) ?c1 \<longleftrightarrow> has_family (globals glob A) ?i (is_ipv6 ip)"
    using A by (simp add: stands_for_def)
  have v6: "(\<not> is_ipv4 ip) = is_ipv6 ip" by (simp add: is_ipv6_def)
  have "address_event m added cache = (fst (address_event m added cache), c2)"
    using upd Some g by (simp add: address_event_def Let_def v6 addr_text_def)
  moreover have "family_flags (fst (address_event m added cache)) =
      Some (\<not> has_family (globals glob A) ?i (is_ipv6 ip) \<and> has_now, has_family (globals glob A) ?i (is_ipv6 ip) \<and> \<not> has_now)"
    using upd Some g had by (simp add: address_event_def Let_def v6 addr_text_def family_flags_def base_event_def default_event_def)
  ultimately show ?thesis using ok Some by (simp add: transition_flags_def Let_def) (metis snd_conv)
qed

lemma stands_for_cong:
  assumes "stands_for glob c A" and "\<And>i. tracked c' i = tracked c i" and "\<And>w. global_set w c' = global_set w c"
  shows "stands_for glob c' A"
  using assms by (simp add: stands_for_def)

lemma link_event_sim:
  assumes "stands_for glob cache A"
  shows "stands_for glob (snd (link_event m added cache)) (if added then A else {t \<in> A. fst t \<noteq> lm_index m})"
proof -
  obtain name0 mtu where f: "fold link_event_attr (lm_attributes m) (name_of (sc_if_names cache) (lm_index m), 0) = (name0, mtu)"
    by fastforce
  define name where "name = (if name0 = [] then ''if'' @ dec (lm_index m) else name0)"
  have c: "snd (link_event m added cache) = cache_link (lm_index m) name mtu added cache"
    by (simp add: link_event_def Let_def f name_def)
  show ?thesis
  proof (cases added)
    case True
    with assms show ?thesis
      unfolding c by (auto intro!: stands_for_cong [OF assms] simp: cache_link_def tracked_def global_set_def)
  next
    case False
    have f: "has_family (globals glob {t \<in> A. fst t \<noteq> k}) i w \<longleftrightarrow> i \<noteq> k \<and> has_family (globals glob A) i w" for i k w
      by (auto simp: has_family_def globals_def)
    have t: "tracked (cache_link k name mtu False cache) i = (if i = k then {} else tracked cache i)" for i k
      by (simp add: cache_link_def tracked_def)
    have g: "global_set w (cache_link k name mtu False cache) = global_set w cache - {k}" for w k
      by (simp add: cache_link_def global_set_def)
    from assms False show ?thesis
      unfolding c stands_for_def by (auto simp: f t g)
  qed
qed

lemma neighbor_event_keeps:
  "sc_addresses (snd (neighbor_event m added c)) = sc_addresses c"
  "sc_has_global_v4 (snd (neighbor_event m added c)) = sc_has_global_v4 c"
  "sc_has_global_v6 (snd (neighbor_event m added c)) = sc_has_global_v6 c"
  by (simp_all add: neighbor_event_def Let_def split: option.splits)

lemma translate_sim:
  assumes A: "stands_for glob cache A" and msg: "orderly_message glob msg A"
  shows "stands_for glob (snd (translate msg cache)) (address_step msg A)"
proof (cases msg)
  case (M_NewLink m)
  then show ?thesis using link_event_sim [OF A, of m True] by simp
next
  case (M_DelLink m)
  then show ?thesis using link_event_sim [OF A, of m False] by simp
next
  case (M_NewAddress m)
  then show ?thesis using address_event_sim [OF A, of m True] msg A
    by (auto simp: address_change_def Let_def split: option.splits)
next
  case (M_DelAddress m)
  then show ?thesis using address_event_sim [OF A, of m False] msg A
    by (auto simp: address_change_def Let_def split: option.splits)
next
  case (M_NewNeighbour m)
  then show ?thesis using stands_for_cong [OF A] by (simp add: tracked_def global_set_def neighbor_event_keeps)
next
  case (M_DelNeighbour m)
  then show ?thesis using stands_for_cong [OF A] by (simp add: tracked_def global_set_def neighbor_event_keeps)
qed (use A in simp_all)

lemma stands_for_default: "stands_for glob cache_default {}"
  by (simp add: stands_for_def tracked_def cache_default_def global_set_def has_family_def)

lemma translate_history:
  "orderly glob msgs A \<Longrightarrow> stands_for glob c A \<Longrightarrow>
   stands_for glob (fold (\<lambda>m c. snd (translate m c)) msgs c) (fold address_step msgs A)"
  by (induction msgs arbitrary: c A) (auto intro: translate_sim)

text \<open>
  C7: the gained and lost flags of address events speak of global addresses. After any history of messages in
  which every address keeps its scope and no family loses its last global address on an interface while a
  link-local one remains there, the cache holds all addresses that exist and knows exactly which
  interfaces have a global address of a family. A new address is then flagged \<open>gained\<close> exactly when it is the
  first global one of its family on the interface, a removed one \<open>lost\<close> exactly when it was the last
  global one, again provided that no link-local one remains, and an address that is not global is never
  flagged, though it is tracked.
\<close>

theorem family_transitions:
  assumes "orderly glob msgs {}" and "scoped_address glob m"
    and "event_ip (am_attributes m) None = Some ip"
  defines "A \<equiv> fold address_step msgs {}"
    and "c \<equiv> fold (\<lambda>m c. snd (translate m c)) msgs cache_default"
  shows "stands_for glob c A \<and>
    family_flags (fst (translate (M_NewAddress m) c)) =
      Some (transition_flags (globals glob A) (globals glob (address_step (M_NewAddress m) A)) (am_index m) (is_ipv6 ip)) \<and>
    (clean_removal glob m A \<longrightarrow>
     family_flags (fst (translate (M_DelAddress m) c)) =
      Some (transition_flags (globals glob A) (globals glob (address_step (M_DelAddress m) A)) (am_index m) (is_ipv6 ip)))"
proof -
  have A: "stands_for glob c A"
    unfolding A_def c_def by (rule translate_history [OF assms(1) stands_for_default])
  from address_event_sim [OF A assms(2), of True] address_event_sim [OF A assms(2), of False] assms(3) A
  show ?thesis by (auto simp: Let_def address_change_def)
qed

text \<open>
  An interface that gets a link-local address, then a global one, and loses both in the other order:
  only the global one is reported, once as gained and once as lost.
\<close>

definition demo_v6 :: "u8 \<Rightarrow> address_message" where
  "demo_v6 k = \<lparr>am_index = 3, am_prefix_len = 64, am_flags = 0,
     am_scope = (if k = 0xfe then AS_Link else AS_Universe),
     am_attributes = [D_Address (V6 ([k] @ replicate 14 0 @ [1]))]\<rparr>"

definition demo_glob :: "nat \<times> ip_addr \<times> u8 \<Rightarrow> bool" where
  "demo_glob t = (fst (snd t) \<noteq> V6 ([0xfe] @ replicate 14 0 @ [1]))"

theorem family_transitions_witness:
  "family_flags (fst (translate (M_NewAddress (demo_v6 0xfe)) cache_default)) = Some (False, False) \<and>
   family_flags (fst (translate (M_NewAddress (demo_v6 0x20))
     (fold (\<lambda>m c. snd (translate m c)) [M_NewAddress (demo_v6 0xfe)] cache_default))) = Some (True, False) \<and>
   family_flags (fst (translate (M_DelAddress (demo_v6 0x20))
     (fold (\<lambda>m c. snd (translate m c))
       [M_NewAddress (demo_v6 0xfe), M_NewAddress (demo_v6 0x20), M_DelAddress (demo_v6 0xfe)] cache_default))) = Some (False, True)"
proof -
  have g: "scoped_address demo_glob (demo_v6 k)"
    "event_ip (am_attributes (demo_v6 k)) None = Some (V6 ([k] @ replicate 14 0 @ [1]))" for k
    by (simp_all add: scoped_address_def demo_v6_def demo_glob_def)
  have t: "am_index (demo_v6 k) = 3" "am_prefix_len (demo_v6 k) = 64"
    "am_scope (demo_v6 0xfe) = AS_Link" for k by (simp_all add: demo_v6_def)
  have dg: "demo_glob (i, V6 (k # replicate 14 0 @ [1]), l) \<longleftrightarrow> k \<noteq> 0xfe" for i k l by (simp add: demo_glob_def)
  note r = g t dg transition_flags_def clean_removal_def insert_Diff_if
  show ?thesis
    using family_transitions [OF _ g, of "[]" "0xfe"]
      family_transitions [OF _ g, of "[M_NewAddress (demo_v6 0xfe)]" "0x20"]
      family_transitions [OF _ g, of "[M_NewAddress (demo_v6 0xfe), M_NewAddress (demo_v6 0x20), M_DelAddress (demo_v6 0xfe)]" "0x20"]
    by (simp add: r)
qed

text \<open>
  The restriction to clean removals is needed. The recomputation counts every tracked address
  of the family, link-local ones included: while one is tracked, removing the last global address
  reports nothing lost.
\<close>

lemma family_lost_missed:
  assumes "t \<in> tracked c (am_index m)" and "text_is_family (is_ipv6 ip) t"
    and "event_ip (am_attributes m) None = Some ip" and "am_scope m = AS_Universe"
    and "t \<noteq> addr_text ip (am_prefix_len m)"
  shows "family_flags (fst (address_event m False c)) = Some (False, False) \<or>
         family_flags (fst (address_event m False c)) = Some (True, False)"
proof -
  let ?c1 = "track_address (am_index m) (addr_text ip (am_prefix_len m)) False c"
  have v6: "(\<not> is_ipv4 ip) = is_ipv6 ip" by (simp add: is_ipv6_def)
  have "any_left (is_ipv6 ip) (am_index m) ?c1"
    using assms(1,2,5) by (auto simp: any_left_tracked)
  then have "update_global (is_ipv6 ip) True False (am_index m) ?c1 = (True, ?c1)"
    by (simp add: update_global_def)
  then show ?thesis
    using assms(3,4)
    by (simp add: address_event_def Let_def v6 addr_text_def family_flags_def base_event_def default_event_def)
qed

end
