(* ===== verification/Probe.thy ===== *)
theory Probe
  imports Net_Addr Util
begin

text \<open>
  Routing context and outcome shared by all active probes (\<^verbatim>\<open>daemon/src/probe/mod.rs\<close>), and the
  TCP connect probe (\<^verbatim>\<open>daemon/src/probe/tcp.rs\<close>). System calls appear as arguments that say how
  each call came out; elapsed times are arguments as well.
\<close>

section \<open>I/O errors\<close>

record io_error =
  ioe_errno :: "int option"
  ioe_text :: string

text \<open>The errno values of Linux.\<close>

definition EPERM :: int where "EPERM = 1"
definition EACCES :: int where "EACCES = 13"
definition EADDRNOTAVAIL :: int where "EADDRNOTAVAIL = 99"
definition ENETUNREACH :: int where "ENETUNREACH = 101"
definition ETIMEDOUT :: int where "ETIMEDOUT = 110"
definition ECONNREFUSED :: int where "ECONNREFUSED = 111"
definition EHOSTUNREACH :: int where "EHOSTUNREACH = 113"

lemmas errno_defs = EPERM_def EACCES_def EADDRNOTAVAIL_def ENETUNREACH_def ETIMEDOUT_def
  ECONNREFUSED_def EHOSTUNREACH_def

definition explain_io_error :: "io_error \<Rightarrow> string" where
  "explain_io_error e =
     (case ioe_errno e of
        None \<Rightarrow> ioe_text e
      | Some n \<Rightarrow>
          if n = ENETUNREACH then ''network unreachable (no route for this family on this network)''
          else if n = EHOSTUNREACH then ''host unreachable (ICMP said so, or no neighbour)''
          else if n = ECONNREFUSED then ''connection refused (something answered, and said no)''
          else if n = EACCES \<or> n = EPERM then ''permission denied (firewall or SELinux blocked the socket)''
          else if n = EADDRNOTAVAIL then ''source address not available on this interface''
          else if n = ETIMEDOUT then ''timed out with no response''
          else ioe_text e)"

section \<open>Context\<close>

record probe_context =
  pc_mark :: "u32 option"
  pc_bind_device :: "string option"
  pc_source :: "ip_addr option"
  pc_timeout :: nat

definition DEFAULT_TIMEOUT_MS :: nat where "DEFAULT_TIMEOUT_MS = 3000"

definition with_timeout :: "nat \<Rightarrow> probe_context" where
  "with_timeout timeout_ms =
     \<lparr>pc_mark = None, pc_bind_device = None, pc_source = None,
      pc_timeout = (if timeout_ms = 0 then DEFAULT_TIMEOUT_MS else timeout_ms)\<rparr>"

definition pinned_to_net_id :: "int \<Rightarrow> probe_context \<Rightarrow> probe_context" where
  "pinned_to_net_id net_id ctx =
     (if net_id > 0 then ctx\<lparr>pc_mark := Some (mark_for_net_id (of_int net_id))\<rparr> else ctx)"

definition on_device :: "string \<Rightarrow> probe_context \<Rightarrow> probe_context" where
  "on_device name ctx = (if name \<noteq> [] then ctx\<lparr>pc_bind_device := Some name\<rparr> else ctx)"

definition describe_context :: "probe_context \<Rightarrow> string" where
  "describe_context ctx =
     (let parts =
            (case pc_mark ctx of
               Some mark \<Rightarrow> [''mark=0x'' @ hex (unat mark) @ '' (netId '' @ dec (unat (net_id_from_mark mark)) @ '')'']
             | None \<Rightarrow> [])
            @ (case pc_bind_device ctx of Some dev \<Rightarrow> [''dev='' @ dev] | None \<Rightarrow> [])
            @ (case pc_source ctx of Some src \<Rightarrow> [''src='' @ show_ip src] | None \<Rightarrow> [])
      in if parts = [] then ''default network'' else join '' '' parts)"

text \<open>
  \<open>sock\<close>: how the kernel answers the socket options. The interface name length limit is checked
  before the call.
\<close>

record sock_ops =
  op_set_mark :: "u32 \<Rightarrow> io_error option"
  op_bind_device :: "string \<Rightarrow> io_error option"

definition IFNAMSIZ :: nat where "IFNAMSIZ = 16"

definition bind_to_device :: "sock_ops \<Rightarrow> string \<Rightarrow> io_error option" where
  "bind_to_device sock name =
     (if length name \<ge> IFNAMSIZ then Some \<lparr>ioe_errno = None, ioe_text = ''interface name too long''\<rparr>
      else op_bind_device sock name)"

definition apply_context :: "sock_ops \<Rightarrow> probe_context \<Rightarrow> string option" where
  "apply_context sock ctx =
     (case (case pc_mark ctx of None \<Rightarrow> None | Some mark \<Rightarrow> op_set_mark sock mark) of
        Some _ \<Rightarrow> Some ''SO_MARK failed; probes cannot be pinned to a network''
      | None \<Rightarrow>
          (case pc_bind_device ctx of
             None \<Rightarrow> None
           | Some dev \<Rightarrow>
               (case bind_to_device sock dev of
                  None \<Rightarrow> None
                | Some _ \<Rightarrow> Some (''SO_BINDTODEVICE('' @ dev @ '') failed''))))"

section \<open>Result\<close>

record probe_result =
  pr_ok :: bool
  pr_duration_ms :: nat
  pr_detail :: string
  pr_evidence :: "(string \<times> string) list"
  pr_error :: "string option"

definition success :: "nat \<Rightarrow> string \<Rightarrow> probe_result" where
  "success ms detail =
     \<lparr>pr_ok = True, pr_duration_ms = ms, pr_detail = detail, pr_evidence = [], pr_error = None\<rparr>"

definition failure_result :: "nat \<Rightarrow> string \<Rightarrow> probe_result" where
  "failure_result ms detail =
     \<lparr>pr_ok = False, pr_duration_ms = ms, pr_detail = detail, pr_evidence = [], pr_error = Some detail\<rparr>"

definition with_ev :: "string \<Rightarrow> string \<Rightarrow> probe_result \<Rightarrow> probe_result" where
  "with_ev k v r = r\<lparr>pr_evidence := pr_evidence r @ [(k, v)]\<rparr>"

definition to_error :: "probe_result \<Rightarrow> error option" where
  "to_error r = map_option error_kernel (pr_error r)"

text \<open>Every probe result carries an error exactly when it is not ok.\<close>

definition result_wf :: "probe_result \<Rightarrow> bool" where
  "result_wf r = (pr_error r = (if pr_ok r then None else Some (pr_detail r)))"

lemma result_simps [simp]:
  "pr_ok (success n d)" "\<not> pr_ok (failure_result n d)" "pr_ok (with_ev k v r) = pr_ok r"
  "pr_detail (with_ev k v r) = pr_detail r" "pr_error (with_ev k v r) = pr_error r"
  "pr_duration_ms (with_ev k v r) = pr_duration_ms r"
  "pr_evidence (with_ev k v r) = pr_evidence r @ [(k, v)]"
  "pr_evidence (success n d) = []" "pr_evidence (failure_result n d) = []"
  by (simp_all add: success_def failure_result_def with_ev_def)

lemma result_wf_intros [simp, intro]:
  "result_wf (success n d)" "result_wf (failure_result n d)" "result_wf (with_ev k v r) = result_wf r"
  by (simp_all add: result_wf_def success_def failure_result_def with_ev_def)

section \<open>Socket addresses\<close>

record socket_addr =
  sa_ip :: ip_addr
  sa_port :: nat

definition show_sa :: "socket_addr \<Rightarrow> string" where
  "show_sa a =
     (case sa_ip a of
        V4 os \<Rightarrow> show_ip (V4 os) @ '':'' @ dec (sa_port a)
      | V6 os \<Rightarrow> ''['' @ show_ip (V6 os) @ '']:'' @ dec (sa_port a))"

section \<open>TCP connect\<close>

datatype connect_outcome = Connected "string option" | ConnectError io_error | ConnectTimeout

record tcp_env =
  te_new :: "io_error option"
  te_sock :: sock_ops
  te_bind :: "ip_addr \<Rightarrow> io_error option"
  te_connect :: "socket_addr \<Rightarrow> connect_outcome"
  te_elapsed :: nat

definition tcp_connect :: "tcp_env \<Rightarrow> socket_addr \<Rightarrow> probe_context \<Rightarrow> probe_result" where
  "tcp_connect env target ctx =
     (let ms = te_elapsed env; routing = with_ev ''routing'' (describe_context ctx) in
      case te_new env of
        Some e \<Rightarrow> failure_result ms (''could not create a socket: '' @ explain_io_error e)
      | None \<Rightarrow>
     (case apply_context (te_sock env) ctx of
        Some e \<Rightarrow> routing (failure_result ms (''could not pin the socket to the network under test: '' @ e))
      | None \<Rightarrow>
     (case (case pc_source ctx of None \<Rightarrow> None | Some source \<Rightarrow> map_option (Pair source) (te_bind env source)) of
        Some (source, e) \<Rightarrow>
          routing (failure_result ms
            (''could not bind to source '' @ show_ip source @ '': '' @ explain_io_error e))
      | None \<Rightarrow>
     (case te_connect env target of
        Connected local_addr \<Rightarrow>
          routing (with_ev ''local'' (case local_addr of Some a \<Rightarrow> a | None \<Rightarrow> ''?'')
            (with_ev ''target'' (show_sa target)
              (success ms (''connected to '' @ show_sa target @ '' in '' @ dec ms @ '' ms''))))
      | ConnectError e \<Rightarrow>
          routing (with_ev ''errno'' (case ioe_errno e of Some n \<Rightarrow> dec_int n | None \<Rightarrow> [])
            (with_ev ''target'' (show_sa target)
              (failure_result ms (''connect to '' @ show_sa target @ '' failed: '' @ explain_io_error e))))
      | ConnectTimeout \<Rightarrow>
          routing (with_ev ''target'' (show_sa target)
            (failure_result ms (''connect to '' @ show_sa target @ '' timed out after ''
               @ dec (pc_timeout ctx) @ '' ms with no SYN-ACK'')))))))"

datatype stream_error = StreamIo io_error | StreamPin string | StreamTimedOut

definition connect_stream :: "tcp_env \<Rightarrow> socket_addr \<Rightarrow> probe_context \<Rightarrow> stream_error + string option" where
  "connect_stream env target ctx =
     (case te_new env of
        Some e \<Rightarrow> Inl (StreamIo e)
      | None \<Rightarrow>
     (case apply_context (te_sock env) ctx of
        Some e \<Rightarrow> Inl (StreamPin e)
      | None \<Rightarrow>
     (case (case pc_source ctx of None \<Rightarrow> None | Some source \<Rightarrow> te_bind env source) of
        Some e \<Rightarrow> Inl (StreamIo e)
      | None \<Rightarrow>
     (case te_connect env target of
        Connected local_addr \<Rightarrow> Inr local_addr
      | ConnectError e \<Rightarrow> Inl (StreamIo e)
      | ConnectTimeout \<Rightarrow> Inl StreamTimedOut))))"

lemma tcp_connect_wf: "result_wf (tcp_connect env target ctx)"
  by (simp add: tcp_connect_def Let_def split: option.splits connect_outcome.splits prod.splits)

lemma apply_context_None_iff:
  "apply_context sock ctx = None \<longleftrightarrow>
   (case pc_mark ctx of None \<Rightarrow> True | Some m \<Rightarrow> op_set_mark sock m = None) \<and>
   (case pc_bind_device ctx of None \<Rightarrow> True | Some dev \<Rightarrow> length dev < IFNAMSIZ \<and> op_bind_device sock dev = None)"
  by (auto simp: apply_context_def bind_to_device_def split: option.splits)

text \<open>
  A connect probe is reported as successful only when the connection was made on a socket
  that carries the requested pinning: the mark was accepted, the device binding was accepted (and
  the name fits the kernel's limit), and the source address was bound. Conversely such a
  connection is always reported as a success, and a failure always carries its reason as error.
\<close>

lemma tcp_connect_pinned:
  "result_wf (tcp_connect env target ctx) \<and>
   (pr_ok (tcp_connect env target ctx) \<longleftrightarrow>
     te_new env = None \<and>
     (case pc_mark ctx of None \<Rightarrow> True | Some m \<Rightarrow> op_set_mark (te_sock env) m = None) \<and>
     (case pc_bind_device ctx of None \<Rightarrow> True
      | Some dev \<Rightarrow> length dev < IFNAMSIZ \<and> op_bind_device (te_sock env) dev = None) \<and>
     (case pc_source ctx of None \<Rightarrow> True | Some src \<Rightarrow> te_bind env src = None) \<and>
     (\<exists>l. te_connect env target = Connected l))"
  using apply_context_None_iff [of "te_sock env" ctx] tcp_connect_wf [of env target ctx]
  by (auto simp: tcp_connect_def Let_def split: option.splits connect_outcome.splits prod.splits)

text \<open>The network a pinned probe names is the one it was asked for.\<close>

lemma pinned_net_id:
  assumes "0 < net_id" and "net_id < 2 ^ 16"
  shows "\<exists>m. pc_mark (pinned_to_net_id net_id ctx) = Some m \<and> unat (net_id_from_mark m) = nat net_id"
proof -
  have "unat (take_bit 16 (of_int net_id :: u32)) = nat net_id"
    using assms unfolding unsigned_take_bit_eq
    by (simp add: nat_eq_iff unsigned_of_int take_bit_int_eq_self)
      (simp add: take_bit_nat_eq_self nat_less_iff take_bit_int_eq_self)
  then show ?thesis using assms by (simp add: pinned_to_net_id_def net_id_mark_take)
qed

end
