(* ===== verification/Icmp.thy ===== *)
theory Icmp
  imports Probe "HOL-Library.Monad_Syntax"
begin

text \<open>
  ICMP echo (\<^verbatim>\<open>daemon/src/probe/icmp.rs\<close>): the Internet checksum on 32-bit sums, the packet
  builder, the reply matcher and the probe loop. What the sockets deliver is an argument.
\<close>

section \<open>Model\<close>

definition ICMPV4_ECHO_REQUEST :: u8 where "ICMPV4_ECHO_REQUEST = 8"
definition ICMPV4_ECHO_REPLY :: u8 where "ICMPV4_ECHO_REPLY = 0"
definition ICMPV6_ECHO_REQUEST :: u8 where "ICMPV6_ECHO_REQUEST = 128"
definition ICMPV6_ECHO_REPLY :: u8 where "ICMPV6_ECHO_REPLY = 129"

lemmas icmp_types = ICMPV4_ECHO_REQUEST_def ICMPV4_ECHO_REPLY_def ICMPV6_ECHO_REQUEST_def
  ICMPV6_ECHO_REPLY_def

datatype socket_kind = Datagram | Raw

fun show_kind :: "socket_kind \<Rightarrow> string" where
  "show_kind Datagram = ''Datagram''"
| "show_kind Raw = ''Raw''"

fun sum_pairs :: "u32 \<Rightarrow> bytes \<Rightarrow> u32" where
  "sum_pairs s (a # b # rest) = sum_pairs (s + ucast (from_be16 a b)) rest"
| "sum_pairs s [a] = s + ucast (from_be16 a 0)"
| "sum_pairs s [] = s"

lemma unat_u32_less: "unat (s :: u32) < 4294967296"
proof -
  have "unat s < 2 ^ LENGTH(32)" by (rule unsigned_less)
  then show ?thesis by simp
qed

lemma unat_fold_step:
  "unat ((s :: u32) AND 0xffff) = unat s mod 65536" "unat (drop_bit 16 s) = unat s div 65536"
proof -
  have "s AND 0xffff = take_bit 16 s" by (simp add: take_bit_eq_mask mask_eq_exp_minus_1)
  then show "unat (s AND 0xffff) = unat s mod 65536"
    by (simp only: unsigned_take_bit_eq) (simp add: take_bit_eq_mod)
  show "unat (drop_bit 16 s) = unat s div 65536"
    using unat_u32_less [of s] by (simp only: unsigned_drop_bit_eq) (simp add: drop_bit_eq_div take_bit_eq_mod)
qed

lemma fold_step_less:
  assumes "drop_bit 16 (s :: u32) \<noteq> 0"
  shows "unat ((s AND 0xffff) + drop_bit 16 s) = unat s mod 65536 + unat s div 65536"
    and "unat ((s AND 0xffff) + drop_bit 16 s) < unat s"
proof -
  have s: "unat s < 4294967296" by (rule unat_u32_less)
  have nz: "0 < unat s div 65536"
    using assms by (metis unat_fold_step(2) gr0I unat_0 word_unat_eq_iff)
  have "unat s mod 65536 + unat s div 65536 < 4294967296" using s by linarith
  then show e: "unat ((s AND 0xffff) + drop_bit 16 s) = unat s mod 65536 + unat s div 65536"
    by (simp add: unat_word_ariths unat_fold_step)
  have "unat s = unat s div 65536 * 65536 + unat s mod 65536" by simp
  then show "unat ((s AND 0xffff) + drop_bit 16 s) < unat s" using nz e by linarith
qed

function fold_carry :: "u32 \<Rightarrow> u32" where
  "fold_carry s = (if drop_bit 16 s \<noteq> 0 then fold_carry ((s AND 0xffff) + drop_bit 16 s) else s)"
  by pat_completeness auto
termination by (relation "measure unat") (simp_all add: fold_step_less(2))

declare fold_carry.simps [simp del]

definition checksum :: "bytes \<Rightarrow> u16" where
  "checksum data = NOT (ucast (fold_carry (sum_pairs 0 data)))"

definition build_echo :: "bool \<Rightarrow> u16 \<Rightarrow> u16 \<Rightarrow> bytes \<Rightarrow> bool \<Rightarrow> bytes" where
  "build_echo v6 ident sequence payload fill_checksum =
     (let packet = [if v6 then ICMPV6_ECHO_REQUEST else ICMPV4_ECHO_REQUEST, 0] @ [0, 0]
                   @ be16 ident @ be16 sequence @ payload
      in if fill_checksum \<and> \<not> v6
         then take 2 packet @ be16 (checksum packet) @ drop 4 packet
         else packet)"

text \<open>
  Indexing is checked: \<open>None\<close> is a panic, here and in everything that calls the matcher.
\<close>

definition matches_icmp :: "bytes \<Rightarrow> bool \<Rightarrow> u16 \<Rightarrow> bool option" where
  "matches_icmp icmp v6 sequence =
     (if length icmp < 8 then Some False
      else do {
        t \<leftarrow> get icmp 0;
        if t \<noteq> (if v6 then ICMPV6_ECHO_REPLY else ICMPV4_ECHO_REPLY) then Some False
        else do { s \<leftarrow> get_u16 icmp 6; Some (s = sequence) } })"

definition matches_reply :: "bytes \<Rightarrow> bool \<Rightarrow> socket_kind \<Rightarrow> u16 \<Rightarrow> bool option" where
  "matches_reply buf v6 kind sequence =
     (if \<not> v6 \<and> kind = Raw then
        (if buf = [] then Some False
         else do {
           b \<leftarrow> get buf 0;
           let ihl = unat (b AND 0x0f) * 4;
           if length buf < ihl + 8 then Some False
           else do { icmp \<leftarrow> slice buf ihl (length buf); matches_icmp icmp v6 sequence } })
      else matches_icmp buf v6 sequence)"

datatype recv_event = WouldBlock | RecvFailed io_error | Received bytes

text \<open>What arrives on the socket until the deadline; the list ends when the deadline expires.\<close>

datatype wait_result = Replied | ReceiveFailed io_error | DeadlineExpired

fun wait_for_reply :: "bool \<Rightarrow> socket_kind \<Rightarrow> u16 \<Rightarrow> recv_event list \<Rightarrow> wait_result option" where
  "wait_for_reply v6 kind sequence [] = Some DeadlineExpired"
| "wait_for_reply v6 kind sequence (WouldBlock # evs) = wait_for_reply v6 kind sequence evs"
| "wait_for_reply v6 kind sequence (RecvFailed e # evs) = Some (ReceiveFailed e)"
| "wait_for_reply v6 kind sequence (Received buf # evs) =
     (case matches_reply (take 2048 buf) v6 kind sequence of
        None \<Rightarrow> None
      | Some True \<Rightarrow> Some Replied
      | Some False \<Rightarrow> wait_for_reply v6 kind sequence evs)"

record icmp_env =
  ie_dgram :: "io_error option"
  ie_raw :: "io_error option"
  ie_sock :: sock_ops
  ie_nonblocking :: "io_error option"
  ie_pid :: u32
  ie_send :: "u16 \<Rightarrow> bytes \<Rightarrow> io_error option"
  ie_recv :: "u16 \<Rightarrow> recv_event list"
  ie_rtt :: "u16 \<Rightarrow> nat"
  ie_elapsed :: nat

definition icmp_open :: "icmp_env \<Rightarrow> probe_context \<Rightarrow> io_error + socket_kind" where
  "icmp_open env ctx =
     (case (case ie_dgram env of
              None \<Rightarrow> Inr Datagram
            | Some _ \<Rightarrow> (case ie_raw env of None \<Rightarrow> Inr Raw | Some e \<Rightarrow> Inl e)) of
        Inl e \<Rightarrow> Inl e
      | Inr kind \<Rightarrow>
          (case apply_context (ie_sock env) ctx of
             Some text \<Rightarrow> Inl \<lparr>ioe_errno = None, ioe_text = text\<rparr>
           | None \<Rightarrow> (case ie_nonblocking env of Some e \<Rightarrow> Inl e | None \<Rightarrow> Inr kind)))"

text \<open>One pass of the loop per remaining sequence number.\<close>

fun ping_loop ::
  "icmp_env \<Rightarrow> ip_addr \<Rightarrow> nat \<Rightarrow> nat \<Rightarrow> probe_context \<Rightarrow> socket_kind \<Rightarrow> nat list \<Rightarrow> probe_result option" where
  "ping_loop env target attempts payload_len ctx kind [] =
     Some (with_ev ''routing'' (describe_context ctx)
      (with_ev ''socket'' (show_kind kind)
       (with_ev ''payload_bytes'' (dec payload_len)
        (with_ev ''target'' (show_ip target)
         (failure_result (ie_elapsed env)
           (show_ip target @ '' did not answer '' @ dec (max attempts 1) @ '' echo request(s) within ''
            @ dec (pc_timeout ctx) @ '' ms''))))))"
| "ping_loop env target attempts payload_len ctx kind (n # ns) =
     (let sequence = of_nat n :: u16; v6 = is_ipv6 target;
          packet = build_echo v6 (ucast (ie_pid env AND 0xffff)) sequence
                     (replicate payload_len 0x61) (kind = Raw)
      in case ie_send env sequence packet of
           Some e \<Rightarrow>
             Some (with_ev ''routing'' (describe_context ctx)
               (failure_result (ie_elapsed env)
                 (''could not send an echo request to '' @ show_ip target @ '': '' @ explain_io_error e)))
         | None \<Rightarrow>
             (case wait_for_reply v6 kind sequence (ie_recv env sequence) of
                None \<Rightarrow> None
              | Some Replied \<Rightarrow>
                  Some (with_ev ''routing'' (describe_context ctx)
                   (with_ev ''socket'' (show_kind kind)
                    (with_ev ''payload_bytes'' (dec payload_len)
                     (with_ev ''sequence'' (dec (unat sequence))
                      (with_ev ''rtt_ms'' (dec (ie_rtt env sequence))
                       (with_ev ''target'' (show_ip target)
                        (success (ie_elapsed env)
                          (show_ip target @ '' replied in '' @ dec (ie_rtt env sequence) @ '' ms''))))))))
              | Some (ReceiveFailed e) \<Rightarrow>
                  Some (with_ev ''routing'' (describe_context ctx)
                    (failure_result (ie_elapsed env) (''ICMP receive failed: '' @ explain_io_error e)))
              | Some DeadlineExpired \<Rightarrow> ping_loop env target attempts payload_len ctx kind ns))"

definition ping :: "icmp_env \<Rightarrow> ip_addr \<Rightarrow> nat \<Rightarrow> nat \<Rightarrow> probe_context \<Rightarrow> probe_result option" where
  "ping env target attempts payload_len ctx =
     (case icmp_open env ctx of
        Inl e \<Rightarrow>
          Some (with_ev ''routing'' (describe_context ctx)
            (failure_result (ie_elapsed env) (''could not open an ICMP socket: '' @ explain_io_error e)))
      | Inr kind \<Rightarrow> ping_loop env target attempts payload_len ctx kind [1..<Suc (max attempts 1)])"

section \<open>The checksum\<close>

fun sum16 :: "bytes \<Rightarrow> nat" where
  "sum16 (a # b # rest) = unat (from_be16 a b) + sum16 rest"
| "sum16 [a] = unat (from_be16 a 0)"
| "sum16 [] = 0"

lemma unat_u16_le: "unat (w :: u16) \<le> 65535"
proof -
  have "unat w < 2 ^ LENGTH(16)" by (rule unsigned_less)
  then show ?thesis by simp
qed

lemma sum16_le: "sum16 data \<le> 65535 * ((length data + 1) div 2)"
proof (induction data rule: sum16.induct)
  case (1 a b rest)
  then show ?case using unat_u16_le [of "from_be16 a b"] by simp
next
  case (2 a)
  then show ?case using unat_u16_le [of "from_be16 a 0"] by simp
qed simp

lemma unat_ucast_16_32 [simp]: "unat (ucast (w :: u16) :: u32) = unat w"
  using unat_u16_le [of w] by (simp add: unsigned_ucast_eq take_bit_nat_eq_self)

lemma unat_sum_pairs: "unat s + sum16 data < 4294967296 \<Longrightarrow> unat (sum_pairs s data) = unat s + sum16 data"
proof (induction s data rule: sum_pairs.induct)
  case (1 s a b rest)
  have "unat (s + ucast (from_be16 a b)) = unat s + unat (from_be16 a b)"
    using "1.prems" by (simp add: unat_word_ariths)
  with 1 show ?case by simp
next
  case (2 s a)
  then show ?case by (simp add: unat_word_ariths)
qed simp

lemma mod_65535: "(n mod 65536 + n div 65536) mod 65535 = n mod (65535 :: nat)"
proof -
  have "n = (n div 65536) * 65535 + (n mod 65536 + n div 65536)" by simp
  then show ?thesis by (metis mod_mult_self3)
qed

lemma fold_carry_spec:
  "unat (fold_carry s) < 65536 \<and> unat (fold_carry s) mod 65535 = unat s mod 65535 \<and>
   (unat (fold_carry s) = 0 \<longleftrightarrow> unat s = 0)"
proof (induction s rule: fold_carry.induct)
  case (1 s)
  show ?case
  proof (cases "drop_bit 16 s = 0")
    case True
    then have "unat s div 65536 = 0" by (metis unat_0 unat_fold_step(2))
    with True show ?thesis by (subst (1 2 3) fold_carry.simps) (simp add: div_eq_0_iff)
  next
    case False
    have nz: "unat s \<noteq> 0" using fold_step_less(2) [OF False] by simp
    have "unat s mod 65536 + unat s div 65536 \<noteq> 0" using nz by (metis add_is_0 mod_div_decomp mult_0)
    with "1.IH" [OF False] nz False show ?thesis
      by (subst (1 2 3) fold_carry.simps) (simp add: fold_step_less(1) mod_65535)
  qed
qed

lemma unat_not16: "unat (NOT (w :: u16)) = 65535 - unat w"
proof -
  have "NOT w = - 1 - w" by (simp add: not_eq_complement)
  moreover have "unat (- 1 - w) = unat (- 1 :: u16) - unat w" by (rule unat_sub) simp
  ultimately show ?thesis by (simp add: unsigned_minus_1_eq_mask mask_eq_exp_minus_1)
qed

lemma unat_checksum: "unat (checksum data) = 65535 - unat (fold_carry (sum_pairs 0 data))"
proof -
  have "unat (ucast (fold_carry (sum_pairs 0 data)) :: u16) = unat (fold_carry (sum_pairs 0 data))"
    using fold_carry_spec [of "sum_pairs 0 data"]
    by (simp add: unsigned_ucast_eq take_bit_nat_eq_self)
  then show ?thesis by (simp add: checksum_def unat_not16)
qed

lemma sum16_even_append: "even (length xs) \<Longrightarrow> sum16 (xs @ ys) = sum16 xs + sum16 ys"
  by (induction xs rule: sum16.induct) auto

lemma sum16_be16 [simp]: "sum16 (be16 w) = unat w"
  by (simp add: be16_def)

section \<open>Properties\<close>

text \<open>
  The check of RFC 1071, stated on its own: the 16-bit words of a message, big-endian and with a zero
  byte after an odd last one, add up in one's complement arithmetic to the word of all ones. Adding in
  one's complement is adding modulo 65535 except that a sum of non-zero words is never zero.
\<close>

definition padded :: "bytes \<Rightarrow> bytes" where
  "padded data = (if even (length data) then data else data @ [0])"

definition words16 :: "bytes \<Rightarrow> nat list" where
  "words16 data =
     map (\<lambda>i. unat (padded data ! (2 * i)) * 256 + unat (padded data ! (2 * i + 1))) [0..<length (padded data) div 2]"

definition add_ones :: "nat \<Rightarrow> nat \<Rightarrow> nat" where
  "add_ones a b = (if a + b < 65536 then a + b else a + b - 65535)"

definition rfc1071_valid :: "bytes \<Rightarrow> bool" where
  "rfc1071_valid data = (fold add_ones (words16 data) 0 = 65535)"

lemma words16_pair: "words16 (a # b # rest) = (unat a * 256 + unat b) # words16 rest"
proof -
  have p: "padded (a # b # rest) = a # b # padded rest" by (simp add: padded_def)
  have "[0..<Suc (length (padded rest) div 2)] = 0 # map Suc [0..<length (padded rest) div 2]"
    by (simp add: map_Suc_upt upt_conv_Cons)
  then show ?thesis by (simp add: words16_def p)
qed

lemma sum16_words: "sum16 data = sum_list (words16 data)"
proof (induction data rule: sum16.induct)
  case (1 a b rest)
  then show ?case by (simp add: words16_pair unat_from_be16)
next
  case (2 a)
  then show ?case by (simp add: words16_def padded_def unat_from_be16)
qed (simp add: words16_def padded_def)

lemma words16_less: "w \<in> set (words16 data) \<Longrightarrow> w < 65536"
proof (induction data rule: sum16.induct)
  case (1 a b rest)
  then show ?case using unat_u8_less [of a] unat_u8_less [of b] by (auto simp: words16_pair)
next
  case (2 a)
  then show ?case using unat_u8_less [of a] by (simp add: words16_def padded_def)
qed (simp add: words16_def padded_def)

lemma add_ones_step:
  assumes "a < 65536" "b < 65536"
  shows "add_ones a b < 65536 \<and> add_ones a b mod 65535 = (a + b) mod 65535 \<and> (add_ones a b = 0 \<longleftrightarrow> a + b = 0)"
proof (cases "a + b < 65536")
  case False
  then have "a + b = add_ones a b + 65535" by (simp add: add_ones_def)
  then have "(a + b) mod 65535 = add_ones a b mod 65535" by (simp only: mod_add_self2)
  with False assms show ?thesis by (simp add: add_ones_def)
qed (simp add: add_ones_def)

lemma fold_add_ones:
  "a < 65536 \<Longrightarrow> (\<And>w. w \<in> set ws \<Longrightarrow> w < 65536) \<Longrightarrow>
   fold add_ones ws a < 65536 \<and> fold add_ones ws a mod 65535 = (a + sum_list ws) mod 65535 \<and>
   (fold add_ones ws a = 0 \<longleftrightarrow> a + sum_list ws = 0)"
proof (induction ws arbitrary: a)
  case (Cons w ws)
  have s: "add_ones w a < 65536" "add_ones w a mod 65535 = (a + w) mod 65535" "add_ones w a = 0 \<longleftrightarrow> a + w = 0"
    using add_ones_step [of w a] Cons.prems by (simp_all add: add.commute)
  have m: "(add_ones w a + sum_list ws) mod 65535 = (a + w + sum_list ws) mod 65535"
    by (rule mod_add_cong [OF s(2) refl])
  have "fold add_ones ws (add_ones w a) < 65536 \<and>
      fold add_ones ws (add_ones w a) mod 65535 = (add_ones w a + sum_list ws) mod 65535 \<and>
      (fold add_ones ws (add_ones w a) = 0 \<longleftrightarrow> add_ones w a + sum_list ws = 0)"
    by (rule Cons.IH [OF s(1)]) (simp add: Cons.prems(2))
  then show ?case unfolding m using s(3) by (simp add: add.assoc)
qed simp

lemma rfc1071_valid_iff: "rfc1071_valid data \<longleftrightarrow> 0 < sum16 data \<and> sum16 data mod 65535 = 0"
proof -
  let ?r = "fold add_ones (words16 data) 0"
  have r: "?r < 65536" "?r mod 65535 = sum16 data mod 65535" "?r = 0 \<longleftrightarrow> sum16 data = 0"
    using fold_add_ones [of 0 "words16 data"] words16_less by (auto simp: sum16_words)
  have "?r = 65535 \<longleftrightarrow> 0 < ?r \<and> ?r mod 65535 = 0" using r(1) by (auto elim: dvdE)
  with r show ?thesis by (auto simp: rfc1071_valid_def)
qed

text \<open>
  C33: the packet a raw IPv4 socket sends carries a correct Internet checksum: its 16-bit words,
  checksum field included and with a zero byte after an odd last one, add up in one's complement
  arithmetic to all ones, for every identifier, sequence number and payload of at most 65535 bytes,
  of even or odd length; and the checksum field is the only part of the packet that is filled in.
\<close>

theorem echo_checksum_valid:
  assumes "length payload \<le> 65535"
  shows "rfc1071_valid (build_echo False ident sequence payload True) \<and>
    (\<exists>c. length c = 2 \<and> build_echo False ident sequence payload True =
       [8, 0] @ c @ be16 ident @ be16 sequence @ payload)"
proof -
  let ?head = "[8, 0] :: bytes" and ?tail = "be16 ident @ be16 sequence @ payload"
  let ?p = "?head @ [0, 0] @ ?tail" and ?c = "checksum (?head @ [0, 0] @ be16 ident @ be16 sequence @ payload)"
  let ?q = "?head @ be16 ?c @ ?tail"
  have q: "build_echo False ident sequence payload True = ?q"
    by (simp add: build_echo_def icmp_types Let_def)
  have p: "sum16 ?p = 2048 + sum16 ?tail" by (simp add: unat_from_be16)
  have qs: "sum16 ?q = 2048 + unat ?c + sum16 ?tail"
    using sum16_even_append [of "be16 ?c" ?tail] by (simp add: unat_from_be16)
  have bound: "sum16 ?tail \<le> 65535 * 40000"
  proof -
    have "(length ?tail + 1) div 2 \<le> 40000" using assms by simp
    then have "65535 * ((length ?tail + 1) div 2) \<le> 65535 * 40000" by (intro mult_le_mono2)
    with sum16_le [of ?tail] show ?thesis by (rule le_trans)
  qed
  let ?r = "unat (fold_carry (sum_pairs 0 ?p))"
  have "unat (sum_pairs 0 ?p) = sum16 ?p" using unat_sum_pairs [of 0 ?p] p bound by simp
  then have r: "?r < 65536" "?r mod 65535 = sum16 ?p mod 65535"
    using fold_carry_spec [of "sum_pairs 0 ?p"] by simp_all
  have c: "unat ?c = 65535 - ?r" by (rule unat_checksum)
  have "sum16 ?q + ?r = sum16 ?p + 65535" using qs p c r(1) by simp
  then have "(sum16 ?q + ?r) mod 65535 = ?r mod 65535" using r(2) by (metis mod_add_self2)
  then have m: "sum16 ?q mod 65535 = 0"
    by (metis add_diff_cancel_right' dvd_eq_mod_eq_0 le_add2 mod_eq_dvd_iff_nat)
  have pos: "0 < sum16 ?q" using qs by linarith
  have "rfc1071_valid ?q" by (rule iffD2 [OF rfc1071_valid_iff conjI [OF pos m]])
  moreover have "length (be16 ?c) = 2" by simp
  ultimately show ?thesis unfolding q by blast
qed

theorem echo_checksum_valid_witness:
  "rfc1071_valid (build_echo False 0x1234 1 [97, 98, 99] True)"
  by (rule conjunct1 [OF echo_checksum_valid]) simp

text \<open>
  On a raw IPv4 socket the reply is found behind an IP header of any length: a datagram
  whose header has the length its first byte announces is judged exactly as the ICMP message
  behind it would be on a datagram socket; there, a message of at least eight bytes is accepted
  exactly when it is an echo reply that carries our sequence number, so our own request is never
  taken for an answer.
\<close>

definition is_reply :: "bool \<Rightarrow> u16 \<Rightarrow> bytes \<Rightarrow> bool" where
  "is_reply v6 sequence icmp =
     (8 \<le> length icmp \<and> icmp ! 0 = (if v6 then 129 else 0) \<and> from_be16 (icmp ! 6) (icmp ! 7) = sequence)"

lemma matches_icmp_spec: "matches_icmp icmp v6 sequence = Some (is_reply v6 sequence icmp)"
  by (auto simp: matches_icmp_def is_reply_def icmp_types get_u16_def get_def)

lemma matches_reply_total: "\<exists>b. matches_reply buf v6 kind sequence = Some b"
  by (auto simp: matches_reply_def matches_icmp_spec slice_def get_def Let_def)

lemma matches_reply_spec:
  assumes "header \<noteq> []" and "length header = unat (header ! 0 AND 0x0f) * 4"
  shows "matches_reply (header @ icmp) False Raw sequence = Some (is_reply False sequence icmp) \<and>
         matches_reply icmp v6 Datagram sequence = Some (is_reply v6 sequence icmp) \<and>
         \<not> is_reply v6 sequence (build_echo v6 ident sequence payload fill)"
proof -
  have "(header @ icmp) ! 0 = header ! 0" using assms(1) by (simp add: nth_append)
  then have "matches_reply (header @ icmp) False Raw sequence = Some (is_reply False sequence icmp)"
    using assms by (auto simp: matches_reply_def matches_icmp_spec slice_def get_def is_reply_def Let_def)
  moreover have "build_echo v6 ident sequence payload fill ! 0 = (if v6 then 128 else 8)"
    by (simp add: build_echo_def icmp_types Let_def)
  ultimately show ?thesis by (simp add: matches_reply_def matches_icmp_spec is_reply_def)
qed

lemma wait_for_reply_total: "\<exists>w. wait_for_reply v6 kind sequence evs = Some w"
  by (induction v6 kind sequence evs rule: wait_for_reply.induct)
    (use matches_reply_total in \<open>auto split: option.split bool.split\<close>)

text \<open>Whatever arrives on the socket, a ping returns.\<close>

lemma ping_loop_total: "\<exists>r. ping_loop env target attempts len ctx kind ns = Some r"
proof (induction ns)
  case (Cons n ns)
  obtain w where "wait_for_reply (is_ipv6 target) kind (of_nat n) (ie_recv env (of_nat n)) = Some w"
    using wait_for_reply_total by blast
  with Cons.IH show ?case by (auto simp: Let_def split: option.split wait_result.split)
qed simp

lemma ping_total: "\<exists>r. ping env target attempts len ctx = Some r"
  using ping_loop_total by (auto simp: ping_def split: sum.split)

definition attempt_times_out :: "icmp_env \<Rightarrow> ip_addr \<Rightarrow> nat \<Rightarrow> socket_kind \<Rightarrow> nat \<Rightarrow> bool" where
  "attempt_times_out env target len kind n =
     (ie_send env (of_nat n) (build_echo (is_ipv6 target) (ucast (ie_pid env AND 0xffff)) (of_nat n)
        (replicate len 0x61) (kind = Raw)) = None \<and>
      wait_for_reply (is_ipv6 target) kind (of_nat n) (ie_recv env (of_nat n)) = Some DeadlineExpired)"

definition attempt_answered :: "icmp_env \<Rightarrow> ip_addr \<Rightarrow> nat \<Rightarrow> socket_kind \<Rightarrow> nat \<Rightarrow> bool" where
  "attempt_answered env target len kind n =
     (ie_send env (of_nat n) (build_echo (is_ipv6 target) (ucast (ie_pid env AND 0xffff)) (of_nat n)
        (replicate len 0x61) (kind = Raw)) = None \<and>
      wait_for_reply (is_ipv6 target) kind (of_nat n) (ie_recv env (of_nat n)) = Some Replied)"

definition echo_answered :: "probe_result option \<Rightarrow> bool" where
  "echo_answered r = (\<exists>p. r = Some p \<and> pr_ok p)"

lemma ping_loop_ok:
  "echo_answered (ping_loop env target attempts len ctx kind [m..<m + k]) \<longleftrightarrow>
   (\<exists>n. m \<le> n \<and> n < m + k \<and> attempt_answered env target len kind n \<and>
      (\<forall>j. m \<le> j \<and> j < n \<longrightarrow> attempt_times_out env target len kind j))"
proof (induction k arbitrary: m)
  case 0
  then show ?case by (simp add: echo_answered_def)
next
  case (Suc k)
  have l: "[m..<m + Suc k] = m # [Suc m..<Suc m + k]" by (simp add: upt_rec)
  consider "attempt_answered env target len kind m" | "attempt_times_out env target len kind m"
    | "\<not> attempt_answered env target len kind m" "\<not> attempt_times_out env target len kind m" by blast
  then show ?case
  proof cases
    case 1
    then show ?thesis unfolding l
      by (auto simp: attempt_answered_def echo_answered_def Let_def intro!: exI [of _ m])
  next
    case 2
    then have na: "\<not> attempt_answered env target len kind m"
      by (auto simp: attempt_answered_def attempt_times_out_def)
    have "echo_answered (ping_loop env target attempts len ctx kind [m..<m + Suc k]) =
        echo_answered (ping_loop env target attempts len ctx kind [Suc m..<Suc m + k])"
      using 2 unfolding l by (simp add: attempt_times_out_def Let_def)
    moreover have "(\<forall>j. m \<le> j \<and> j < n \<longrightarrow> attempt_times_out env target len kind j) \<longleftrightarrow>
        (\<forall>j. Suc m \<le> j \<and> j < n \<longrightarrow> attempt_times_out env target len kind j)" for n
      using 2 by (metis Suc_leI le_antisym not_less_eq_eq Suc_leD)
    moreover have "m \<le> n \<and> n < m + Suc k \<and> attempt_answered env target len kind n \<longleftrightarrow>
        Suc m \<le> n \<and> n < Suc m + k \<and> attempt_answered env target len kind n" for n
      using na by (cases "n = m") auto
    ultimately show ?thesis using Suc.IH [of "Suc m"] by (simp only: conj_assoc [symmetric])
  next
    case 3
    then have "\<not> echo_answered (ping_loop env target attempts len ctx kind [m..<m + Suc k])"
      unfolding l by (auto simp: attempt_answered_def attempt_times_out_def echo_answered_def Let_def
          split: option.splits wait_result.splits)
    moreover have "\<not> (m \<le> n \<and> n < m + Suc k \<and> attempt_answered env target len kind n \<and>
        (\<forall>j. m \<le> j \<and> j < n \<longrightarrow> attempt_times_out env target len kind j))" for n
      using 3 by (metis le_neq_implies_less le_refl)
    ultimately show ?thesis by blast
  qed
qed

text \<open>
  \<open>ping\<close> succeeds exactly when the socket opened with its pinning and for some attempt
  \<open>n\<close>, at most \<open>max attempts 1\<close>, every earlier attempt was sent and ran into its deadline, and
  attempt \<open>n\<close> was sent and answered; the loop always returns a result.
\<close>

lemma ping_ok_iff:
  "echo_answered (ping env target attempts len ctx) \<longleftrightarrow>
   (\<exists>kind n. icmp_open env ctx = Inr kind \<and> 1 \<le> n \<and> n \<le> max attempts 1 \<and>
      attempt_answered env target len kind n \<and>
      list_all (attempt_times_out env target len kind) [1..<n])"
proof (cases "icmp_open env ctx")
  case (Inl e)
  then show ?thesis by (simp add: ping_def echo_answered_def)
next
  case (Inr kind)
  have "[1..<Suc (max attempts 1)] = [1..<1 + max attempts 1]" by simp
  with Inr ping_loop_ok [of env target attempts len ctx kind 1 "max attempts 1"] show ?thesis
    by (auto simp: ping_def list_all_iff less_Suc_eq_le)
qed

end
