(* ===== verification/Mtu.thy ===== *)
theory Mtu
  imports Icmp
begin

text \<open>
  Path MTU discovery (\<^verbatim>\<open>daemon/src/probe/mtu.rs\<close>): candidate sizes, the shrinking echo probe on
  top of \<open>ping\<close>, and the kernel's own estimate as reported by the socket calls.
\<close>

section \<open>Model\<close>

definition IPV6_MIN_MTU :: nat where "IPV6_MIN_MTU = 1280"
definition ETHERNET_MTU :: nat where "ETHERNET_MTU = 1500"
definition V4_OVERHEAD :: nat where "V4_OVERHEAD = 20 + 8"
definition V6_OVERHEAD :: nat where "V6_OVERHEAD = 40 + 8"

record mtu_env =
  me_bind :: "io_error option"
  me_sock :: sock_ops
  me_discover :: "io_error option"
  me_connect :: "io_error option"
  me_getsockopt :: "io_error + nat"

definition kernel_path_mtu :: "mtu_env \<Rightarrow> probe_context \<Rightarrow> io_error + nat" where
  "kernel_path_mtu env ctx =
     (case me_bind env of Some e \<Rightarrow> Inl e | None \<Rightarrow>
     (case apply_context (me_sock env) ctx of Some t \<Rightarrow> Inl \<lparr>ioe_errno = None, ioe_text = t\<rparr> | None \<Rightarrow>
     (case me_discover env of Some e \<Rightarrow> Inl e | None \<Rightarrow>
     (case me_connect env of Some e \<Rightarrow> Inl e | None \<Rightarrow> me_getsockopt env))))"

definition payload_for_mtu :: "nat \<Rightarrow> bool \<Rightarrow> nat" where
  "payload_for_mtu mtu v6 = mtu - (if v6 then V6_OVERHEAD else V4_OVERHEAD)"

definition cmp_desc :: "nat \<Rightarrow> nat \<Rightarrow> ordering" where
  "cmp_desc a b = cmp_of b a"

definition candidate_mtus :: "nat \<Rightarrow> bool \<Rightarrow> nat list" where
  "candidate_mtus interface_mtu v6 =
     (let lowest = (if v6 then IPV6_MIN_MTU else 576);
          candidates = filter (\<lambda>m. m \<ge> lowest \<and> m \<le> interface_mtu)
            [interface_mtu, ETHERNET_MTU, 1492, 1480, 1450, 1420, 1400, 1280, 1024, 576]
      in dedup (sort_by cmp_desc candidates))"

text \<open>
  The probing loop: the largest size that was answered and the last size that was not; \<open>None\<close> is
  a panic of the probe.
\<close>

fun probe_sizes ::
  "(nat \<Rightarrow> bool option) \<Rightarrow> nat list \<Rightarrow> nat option \<Rightarrow> (nat option \<times> nat option) option" where
  "probe_sizes answered [] failed = Some (None, failed)"
| "probe_sizes answered (mtu # mtus) failed =
     (case answered mtu of
        None \<Rightarrow> None
      | Some a \<Rightarrow> if a then Some (Some mtu, failed) else probe_sizes answered mtus (Some mtu))"

definition discover ::
  "mtu_env \<Rightarrow> (nat \<Rightarrow> icmp_env) \<Rightarrow> nat \<Rightarrow> ip_addr \<Rightarrow> nat \<Rightarrow> probe_context \<Rightarrow> probe_result option" where
  "discover kenv env elapsed target interface_mtu ctx =
     (let v6 = is_ipv6 target;
          interface_mtu = (if interface_mtu = 0 then ETHERNET_MTU else interface_mtu);
          kernel_mtu = (case kernel_path_mtu kenv ctx of Inr m \<Rightarrow> Some m | Inl _ \<Rightarrow> None);
          candidates = candidate_mtus interface_mtu v6
      in map_option (\<lambda>(largest_ok, smallest_failed).
        let evidence =
            [(''target'', show_ip target), (''interface_mtu'', dec interface_mtu),
             (''routing'', describe_context ctx), (''probed_sizes'', join '', '' (map dec candidates))]
            @ (case kernel_mtu of Some m \<Rightarrow> [(''kernel_path_mtu'', dec m)] | None \<Rightarrow> []);
          result =
            (case (largest_ok, smallest_failed) of
               (Some mtu, None) \<Rightarrow>
                 success elapsed (dec mtu @ '' byte packets reach '' @ show_ip target @ '' without fragmentation'')
             | (Some ok, Some failed) \<Rightarrow>
                 failure_result elapsed (dec failed @ '' byte packets do not reach '' @ show_ip target
                   @ '' but '' @ dec ok @ '' byte packets do; the path MTU is between '' @ dec ok
                   @ '' and '' @ dec failed)
             | (None, _) \<Rightarrow>
                 failure_result elapsed (''no echo reply from '' @ show_ip target
                   @ '' at any size; ICMP is probably filtered, so path MTU could not be measured''));
          result = (case largest_ok of Some mtu \<Rightarrow> with_ev ''measured_path_mtu'' (dec mtu) result | None \<Rightarrow> result)
        in fold (\<lambda>(k, v) r. with_ev k v r) evidence result)
          (probe_sizes (\<lambda>mtu. map_option pr_ok (ping (env mtu) target 1 (payload_for_mtu mtu v6) ctx)) candidates None))"

section \<open>Facts\<close>

interpretation mtu_order: rust_ord cmp_desc
  unfolding cmp_desc_def by (rule rust_ord_key_desc [of "\<lambda>x. x"])

lemma sorted_desc: "sorted_wrt (\<ge>) (sort_by cmp_desc xs)"
proof -
  have "(cmp_desc a b \<noteq> Greater) = (b \<le> a)" for a b by (auto simp: cmp_desc_def cmp_of_def)
  then show ?thesis using mtu_order.sort_by_sorted [of xs] by simp
qed

lemma candidates_strict: "sorted_wrt (>) (candidate_mtus interface_mtu v6)"
  unfolding candidate_mtus_def Let_def by (rule dedup_strict_sorted_desc [OF sorted_desc])

lemma set_candidates:
  "set (candidate_mtus interface_mtu v6) =
     {m \<in> {interface_mtu, 1500, 1492, 1480, 1450, 1420, 1400, 1280, 1024, 576}.
        (if v6 then 1280 else 576) \<le> m \<and> m \<le> interface_mtu}"
  by (auto simp: candidate_mtus_def Let_def IPV6_MIN_MTU_def ETHERNET_MTU_def)

lemma hd_candidates:
  assumes "(if v6 then 1280 else 576) \<le> interface_mtu"
  shows "candidate_mtus interface_mtu v6 \<noteq> [] \<and> hd (candidate_mtus interface_mtu v6) = interface_mtu"
proof -
  let ?cs = "candidate_mtus interface_mtu v6"
  have i: "interface_mtu \<in> set ?cs" using assms by (simp add: set_candidates)
  then obtain x xs where cs: "?cs = x # xs" by (cases ?cs) auto
  have "x \<le> interface_mtu" using set_candidates [of interface_mtu v6] cs by auto
  moreover have "interface_mtu = x \<or> interface_mtu < x"
    using i candidates_strict [of interface_mtu v6] cs by auto
  ultimately show ?thesis using cs by simp
qed

text \<open>Without a panic the loop finds the first size that is answered.\<close>

lemma probe_sizes_spec:
  "\<exists>ok bad. probe_sizes (\<lambda>m. Some (answered m)) ms failed = Some (ok, bad) \<and>
   (case ok of
      Some m \<Rightarrow> (\<exists>pre post. ms = pre @ m # post \<and> answered m \<and> list_all (\<lambda>x. \<not> answered x) pre \<and>
                   bad = (if pre = [] then failed else Some (last pre)))
    | None \<Rightarrow> list_all (\<lambda>x. \<not> answered x) ms \<and> bad = (if ms = [] then failed else Some (last ms)))"
proof (induction ms arbitrary: failed)
  case Nil
  then show ?case by simp
next
  case (Cons m ms)
  show ?case
  proof (cases "answered m")
    case True
    then show ?thesis by (auto intro!: exI [of _ "[]"])
  next
    case False
    obtain ok bad where p: "probe_sizes (\<lambda>m. Some (answered m)) ms (Some m) = Some (ok, bad)"
      and IH: "case ok of
        Some k \<Rightarrow> (\<exists>pre post. ms = pre @ k # post \<and> answered k \<and> list_all (\<lambda>x. \<not> answered x) pre \<and>
                     bad = (if pre = [] then Some m else Some (last pre)))
      | None \<Rightarrow> list_all (\<lambda>x. \<not> answered x) ms \<and> bad = (if ms = [] then Some m else Some (last ms))"
      using Cons.IH [of "Some m"] by blast
    show ?thesis
    proof (cases ok)
      case None
      with IH False p show ?thesis by auto
    next
      case (Some k)
      with IH obtain pre post where "ms = pre @ k # post" "answered k" "list_all (\<lambda>x. \<not> answered x) pre"
        "bad = (if pre = [] then Some m else Some (last pre))" by auto
      then have "m # ms = (m # pre) @ k # post \<and> answered k \<and> list_all (\<lambda>x. \<not> answered x) (m # pre) \<and>
          bad = (if m # pre = [] then failed else Some (last (m # pre)))" using False by auto
      then have "\<exists>pre post. m # ms = pre @ k # post \<and> answered k \<and> list_all (\<lambda>x. \<not> answered x) pre \<and>
          bad = (if pre = [] then failed else Some (last pre))" by blast
      with Some p False show ?thesis by simp
    qed
  qed
qed

lemma find_first: "list_all (\<lambda>x. \<not> P x) pre \<Longrightarrow> P m \<Longrightarrow> find P (pre @ m # post) = Some m"
  by (induction pre) auto

lemma fold_with_ev:
  "pr_ok (fold (\<lambda>(k, v) r. with_ev k v r) ev r) = pr_ok r"
  "pr_evidence (fold (\<lambda>(k, v) r. with_ev k v r) ev r) = pr_evidence r @ ev"
  "pr_detail (fold (\<lambda>(k, v) r. with_ev k v r) ev r) = pr_detail r"
  by (induction ev arbitrary: r) (auto split: prod.splits)

section \<open>Properties\<close>

text \<open>
  The sizes probed are strictly descending without duplicates, never exceed the link MTU,
  never go below the floor of the family (1280 for IPv6), and start with the link MTU itself
  whenever that is not below the floor; the payload for a size fills it exactly, headers
  included.
\<close>

lemma candidate_mtus_ok:
  "sorted_wrt (>) (candidate_mtus interface_mtu v6) \<and>
   list_all (\<lambda>m. m \<le> interface_mtu \<and> (if v6 then 1280 else 576) \<le> m \<and>
               payload_for_mtu m v6 + (if v6 then 48 else 28) = m) (candidate_mtus interface_mtu v6) \<and>
   (interface_mtu < (if v6 then 1280 else 576) \<or>
    (\<exists>rest. candidate_mtus interface_mtu v6 = interface_mtu # rest))"
proof -
  have "list_all (\<lambda>m. m \<le> interface_mtu \<and> (if v6 then 1280 else 576) \<le> m \<and>
      payload_for_mtu m v6 + (if v6 then 48 else 28) = m) (candidate_mtus interface_mtu v6)"
    unfolding list_all_iff set_candidates
    by (auto simp: payload_for_mtu_def V4_OVERHEAD_def V6_OVERHEAD_def)
  moreover have "\<exists>rest. candidate_mtus interface_mtu v6 = interface_mtu # rest"
    if "\<not> interface_mtu < (if v6 then 1280 else 576)"
    using hd_candidates [of v6 interface_mtu] that by (metis list.collapse not_less)
  ultimately show ?thesis using candidates_strict by blast
qed

text \<open>
  Discovery reports what it measured. It succeeds exactly when the largest candidate, the
  link MTU, is answered; it names a measured MTU exactly when some candidate is answered, and
  then it is the largest answered one, every larger candidate having failed.
\<close>

lemma discover_measures:
  fixes kenv env elapsed target link_mtu ctx
  defines "v6 \<equiv> is_ipv6 target"
  defines "cs \<equiv> candidate_mtus (if link_mtu = 0 then ETHERNET_MTU else link_mtu) v6"
  defines "answered \<equiv> \<lambda>m. echo_answered (ping (env m) target 1 (payload_for_mtu m v6) ctx)"
  shows "\<exists>r. discover kenv env elapsed target link_mtu ctx = Some r \<and>
         (pr_ok r \<longleftrightarrow> (\<exists>m ms. cs = m # ms \<and> answered m)) \<and>
         (map_of (pr_evidence r) ''measured_path_mtu'' = map_option dec (find answered cs))"
proof -
  have a: "map_option pr_ok (ping (env m) target 1 (payload_for_mtu m v6) ctx) = Some (answered m)" for m
    using ping_total [of "env m" target 1 "payload_for_mtu m v6" ctx] by (auto simp: answered_def echo_answered_def)
  obtain ok bad where p: "probe_sizes (\<lambda>m. Some (answered m)) cs None = Some (ok, bad)"
    and spec: "case ok of
        Some k \<Rightarrow> (\<exists>pre post. cs = pre @ k # post \<and> answered k \<and> list_all (\<lambda>x. \<not> answered x) pre \<and>
                     bad = (if pre = [] then None else Some (last pre)))
      | None \<Rightarrow> list_all (\<lambda>x. \<not> answered x) cs \<and> bad = (if cs = [] then None else Some (last cs))"
    using probe_sizes_spec [of answered cs None] by blast
  have okf: "ok = find answered cs"
  proof (cases ok)
    case None
    with spec have "list_all (\<lambda>x. \<not> answered x) cs" by simp
    then show ?thesis using None by (simp add: find_None_iff2 list_all_iff)
  next
    case (Some m)
    with spec obtain pre post where *: "cs = pre @ m # post" "answered m" "list_all (\<lambda>x. \<not> answered x) pre"
      by auto
    then show ?thesis using Some by (simp add: find_first)
  qed
  have head: "(\<exists>m. ok = Some m) \<and> bad = None \<longleftrightarrow> (\<exists>m ms. cs = m # ms \<and> answered m)"
    using spec by (cases ok) (auto simp: append_eq_Cons_conv split: if_splits)
  have r: "\<exists>r. discover kenv env elapsed target link_mtu ctx = Some r \<and>
      (pr_ok r \<longleftrightarrow> (\<exists>m. ok = Some m) \<and> bad = None) \<and>
      map_of (pr_evidence r) ''measured_path_mtu'' = map_option dec ok"
    unfolding discover_def Let_def a [unfolded v6_def] cs_def [unfolded v6_def, symmetric] p
    by (cases ok; cases bad; auto simp: fold_with_ev split: sum.splits)
  show ?thesis using r head okf by simp
qed

end
