(* ===== verification/Dns.thy ===== *)
theory Dns
  imports Probe
begin

text \<open>
  The DNS client (\<^verbatim>\<open>daemon/src/probe/dns.rs\<close>): the query encoder, the response decoder on
  arbitrary bytes, the probe, and the NAT64 prefix discovery. Buffer accesses go through the
  checked \<open>get\<close> and \<open>slice\<close>: the result \<open>None\<close> of a decoder is a panic, \<open>Some (Inl e)\<close> an error
  it reports.
\<close>

section \<open>Model\<close>

definition TYPE_A :: u16 where "TYPE_A = 1"
definition TYPE_AAAA :: u16 where "TYPE_AAAA = 28"

datatype rcode = NoError | FormErr | ServFail | NxDomain | NotImp | Refused | OtherCode u8

definition rcode_from_u8 :: "u8 \<Rightarrow> rcode" where
  "rcode_from_u8 v =
     (if v = 0 then NoError else if v = 1 then FormErr else if v = 2 then ServFail
      else if v = 3 then NxDomain else if v = 4 then NotImp else if v = 5 then Refused
      else OtherCode v)"

fun rcode_name :: "rcode \<Rightarrow> string" where
  "rcode_name NoError = ''NOERROR''"
| "rcode_name FormErr = ''FORMERR''"
| "rcode_name ServFail = ''SERVFAIL''"
| "rcode_name NxDomain = ''NXDOMAIN''"
| "rcode_name NotImp = ''NOTIMP''"
| "rcode_name Refused = ''REFUSED''"
| "rcode_name (OtherCode v) = ''RCODE'' @ dec (unat v)"

datatype dns_error =
  LabelTooLong string
| NamePastEnd
| TruncatedPointer
| TooManyLabels
| ShorterThanHeader
| IdMismatch u16 u16

fun show_dns_error :: "dns_error \<Rightarrow> string" where
  "show_dns_error (LabelTooLong l) = ''DNS label '' @ [CHR 0x27] @ l @ [CHR 0x27] @ '' exceeds 63 bytes''"
| "show_dns_error NamePastEnd = ''DNS name runs past the end of the message''"
| "show_dns_error TruncatedPointer = ''truncated DNS compression pointer''"
| "show_dns_error TooManyLabels = ''DNS name has too many labels; refusing to loop''"
| "show_dns_error ShorterThanHeader = ''DNS response is shorter than a header''"
| "show_dns_error (IdMismatch i e) =
     ''DNS response id '' @ dec (unat i) @ '' does not match the query id '' @ dec (unat e)"

definition as_bytes :: "string \<Rightarrow> bytes" where
  "as_bytes s = map (\<lambda>c. of_nat (of_char c)) s"

fun encode_labels :: "string list \<Rightarrow> dns_error + bytes" where
  "encode_labels [] = Inr []"
| "encode_labels (label # ls) =
     (if label = [] then encode_labels ls
      else if length label > 63 then Inl (LabelTooLong label)
      else case encode_labels ls of
             Inl e \<Rightarrow> Inl e
           | Inr rest \<Rightarrow> Inr (of_nat (length label) # as_bytes label @ rest))"

definition encode_query :: "u16 \<Rightarrow> string \<Rightarrow> u16 \<Rightarrow> dns_error + bytes" where
  "encode_query ident name qtype =
     (case encode_labels (split_on CHR ''.'' (trim_end_matches CHR ''.'' name)) of
        Inl e \<Rightarrow> Inl e
      | Inr labels \<Rightarrow>
          Inr (be16 ident @ be16 0x0100 @ be16 1 @ be16 0 @ be16 0 @ be16 0
               @ labels @ [0] @ be16 qtype @ be16 1))"

function skip_name :: "bytes \<Rightarrow> nat \<Rightarrow> nat \<Rightarrow> (dns_error + nat) option" where
  "skip_name buf offset steps =
     (if offset \<ge> length buf then Some (Inl NamePastEnd)
      else case get buf offset of
             None \<Rightarrow> None
           | Some len \<Rightarrow>
               if len AND 0xc0 = 0xc0 then
                 (if offset + 1 \<ge> length buf then Some (Inl TruncatedPointer) else Some (Inr (offset + 2)))
               else if len = 0 then Some (Inr (offset + 1))
               else if steps + 1 > 128 then Some (Inl TooManyLabels)
               else skip_name buf (offset + 1 + unat len) (steps + 1))"
  by pat_completeness auto
termination by (relation "measure (\<lambda>(buf, offset, _). length buf - offset)") auto

declare skip_name.simps [simp del]

fun skip_questions :: "nat \<Rightarrow> bytes \<Rightarrow> nat \<Rightarrow> (dns_error + nat) option" where
  "skip_questions 0 buf offset = Some (Inr offset)"
| "skip_questions (Suc n) buf offset =
     (case skip_name buf offset 0 of
        None \<Rightarrow> None
      | Some (Inl e) \<Rightarrow> Some (Inl e)
      | Some (Inr offset') \<Rightarrow> skip_questions n buf (offset' + 4))"

definition decode_rdata :: "u16 \<Rightarrow> bytes \<Rightarrow> ip_addr list" where
  "decode_rdata qtype rdata =
     (if qtype = TYPE_A \<and> length rdata = 4 then [V4 rdata]
      else if qtype = TYPE_AAAA \<and> length rdata = 16 then [V6 rdata] else [])"

primrec decode_answers :: "nat \<Rightarrow> bytes \<Rightarrow> u16 \<Rightarrow> nat \<Rightarrow> ip_addr list \<Rightarrow> (dns_error + ip_addr list) option" where
  "decode_answers 0 buf qtype offset addresses = Some (Inr addresses)"
| "decode_answers (Suc n) buf qtype offset addresses =
     (if offset \<ge> length buf then Some (Inr addresses)
      else case skip_name buf offset 0 of
        None \<Rightarrow> None
      | Some (Inl e) \<Rightarrow> Some (Inl e)
      | Some (Inr offset) \<Rightarrow>
          if offset + 10 > length buf then Some (Inr addresses)
          else case (get_u16 buf offset, get_u16 buf (offset + 8)) of
            (Some rtype, Some rdlen) \<Rightarrow>
              let rdlength = unat rdlen; offset = offset + 10
              in if offset + rdlength > length buf then Some (Inr addresses)
                 else (case slice buf offset (offset + rdlength) of
                         None \<Rightarrow> None
                       | Some rdata \<Rightarrow>
                           decode_answers n buf qtype (offset + rdlength)
                             (if rtype = qtype then addresses @ decode_rdata qtype rdata else addresses))
          | _ \<Rightarrow> None)"

record dns_message =
  dm_addresses :: "ip_addr list"
  dm_rcode :: rcode
  dm_truncated :: bool
  dm_authoritative :: bool
  dm_ancount :: u16

definition decode_response :: "bytes \<Rightarrow> u16 \<Rightarrow> u16 \<Rightarrow> (dns_error + dns_message) option" where
  "decode_response buf expect_id qtype =
     (if length buf < 12 then Some (Inl ShorterThanHeader)
      else case (get_u16 buf 0, get_u16 buf 2, get_u16 buf 4, get_u16 buf 6) of
        (Some ident, Some flags, Some qdcount, Some ancount) \<Rightarrow>
          if ident \<noteq> expect_id then Some (Inl (IdMismatch ident expect_id))
          else (case skip_questions (unat qdcount) buf 12 of
                  None \<Rightarrow> None
                | Some (Inl e) \<Rightarrow> Some (Inl e)
                | Some (Inr offset) \<Rightarrow>
                    (case decode_answers (unat ancount) buf qtype offset [] of
                       None \<Rightarrow> None
                     | Some (Inl e) \<Rightarrow> Some (Inl e)
                     | Some (Inr addresses) \<Rightarrow>
                         Some (Inr \<lparr>dm_addresses = addresses,
                                    dm_rcode = rcode_from_u8 (ucast (flags AND 0x000f)),
                                    dm_truncated = (flags AND 0x0200 \<noteq> 0),
                                    dm_authoritative = (flags AND 0x0400 \<noteq> 0),
                                    dm_ancount = ancount\<rparr>)))
      | _ \<Rightarrow> None)"

section \<open>Query and probe\<close>

record dns_answer =
  da_message :: dns_message
  da_duration_ms :: nat
  da_server :: socket_addr

datatype dns_recv = DnsReceived bytes | DnsRecvError io_error | DnsTimeout

record dns_env =
  de_monotonic_ns :: u64
  de_bind :: "string option"
  de_sock :: sock_ops
  de_send :: "bytes \<Rightarrow> string option"
  de_recv :: "bytes \<Rightarrow> dns_recv"
  de_duration :: nat
  de_elapsed :: nat

text \<open>The error side carries the text of the error; \<open>None\<close> would be a panic of the decoder.\<close>

definition query :: "dns_env \<Rightarrow> socket_addr \<Rightarrow> string \<Rightarrow> u16 \<Rightarrow> probe_context \<Rightarrow> (string + dns_answer) option" where
  "query env server name qtype ctx =
     (let ident = (ucast (de_monotonic_ns env) :: u16) OR 1 in
      case encode_query ident name qtype of
        Inl e \<Rightarrow> Some (Inl (show_dns_error e))
      | Inr q \<Rightarrow>
     (case de_bind env of Some e \<Rightarrow> Some (Inl e) | None \<Rightarrow>
     (case apply_context (de_sock env) ctx of Some e \<Rightarrow> Some (Inl e) | None \<Rightarrow>
     (case de_send env q of Some e \<Rightarrow> Some (Inl e) | None \<Rightarrow>
     (case de_recv env q of
        DnsRecvError e \<Rightarrow> Some (Inl (explain_io_error e))
      | DnsTimeout \<Rightarrow> Some (Inl (''no response within '' @ dec (pc_timeout ctx) @ '' ms''))
      | DnsReceived buf \<Rightarrow>
          (case decode_response (take 4096 buf) ident qtype of
             None \<Rightarrow> None
           | Some (Inl e) \<Rightarrow> Some (Inl (show_dns_error e))
           | Some (Inr m) \<Rightarrow>
               Some (Inr \<lparr>da_message = m, da_duration_ms = de_duration env, da_server = server\<rparr>)))))))"

definition dns_probe :: "dns_env \<Rightarrow> socket_addr \<Rightarrow> string \<Rightarrow> u16 \<Rightarrow> probe_context \<Rightarrow> probe_result option" where
  "dns_probe env server name qtype ctx =
     (let type_name = (if qtype = TYPE_A then ''A'' else ''AAAA'') in
      case query env server name qtype ctx of
        None \<Rightarrow> None
      | Some (Inl e) \<Rightarrow>
          Some (with_ev ''routing'' (describe_context ctx)
            (with_ev ''server'' (show_sa server)
              (failure_result (de_elapsed env) (type_name @ '' '' @ name @ '' failed: '' @ e))))
      | Some (Inr answer) \<Rightarrow>
          let m = da_message answer;
              addresses = map show_ip (dm_addresses m);
              ok = (dm_rcode m = NoError \<and> dm_addresses m \<noteq> []);
              detail =
                (if ok then type_name @ '' '' @ name @ '' -> '' @ join '', '' addresses @ '' in ''
                            @ dec (da_duration_ms answer) @ '' ms''
                 else if dm_rcode m = NoError
                      then type_name @ '' '' @ name @ '' returned NOERROR with no records''
                 else type_name @ '' '' @ name @ '' returned '' @ rcode_name (dm_rcode m));
              result = (if ok then success (da_duration_ms answer) detail
                        else failure_result (da_duration_ms answer) detail);
              result = with_ev ''routing'' (describe_context ctx)
                (with_ev ''authoritative'' (show_bool (dm_authoritative m))
                 (with_ev ''answers'' (dec (unat (dm_ancount m)))
                  (with_ev ''rcode'' (rcode_name (dm_rcode m))
                   (with_ev ''server'' (show_sa (da_server answer)) result))));
              result = (if addresses \<noteq> [] then with_ev ''addresses'' (join '', '' addresses) result else result)
          in Some (if dm_truncated m
                   then with_ev ''truncated'' ''yes (response exceeded 512 bytes over UDP)'' result
                   else result))"

section \<open>NAT64 prefix discovery\<close>

definition DNS64_PROBE_NAME :: string where "DNS64_PROBE_NAME = ''ipv4only.arpa''"

definition WKA :: "bytes list" where "WKA = [[192, 0, 0, 170], [192, 0, 0, 171]]"

function nat64_candidate :: "bytes \<Rightarrow> nat \<Rightarrow> nat \<Rightarrow> bytes \<Rightarrow> bytes" where
  "nat64_candidate octs plen idx filled =
     (if length filled < 4 \<and> idx < 16 then
        (if idx = 8 \<and> plen < 96 \<and> plen \<noteq> 32 then nat64_candidate octs plen (idx + 1) filled
         else nat64_candidate octs plen (idx + 1) (filled @ [octs ! idx]))
      else filled)"
  by pat_completeness auto
termination by (relation "measure (\<lambda>(_, _, idx, _). 16 - idx)") auto

declare nat64_candidate.simps [simp del]

definition NAT64_OFFSETS :: "(nat \<times> nat) list" where
  "NAT64_OFFSETS = [(4, 32), (5, 40), (6, 48), (8, 56), (9, 64), (12, 96)]"

fun nat64_search :: "bytes \<Rightarrow> (nat \<times> nat) list \<Rightarrow> (bytes \<times> nat) option" where
  "nat64_search octs [] = None"
| "nat64_search octs ((offset, plen) # rest) =
     (let candidate = nat64_candidate octs plen offset [] in
      if length candidate < 4 then nat64_search octs rest
      else if candidate \<in> set WKA
        then Some (take (plen div 8) octs @ replicate (length octs - plen div 8) 0, plen)
      else nat64_search octs rest)"

definition extract_nat64_prefix :: "bytes \<Rightarrow> (bytes \<times> nat) option" where
  "extract_nat64_prefix octs = nat64_search octs NAT64_OFFSETS"

section \<open>The decoder on arbitrary input\<close>

lemma skip_name_total:
  "(\<exists>e. skip_name buf offset steps = Some (Inl e)) \<or>
   (\<exists>o'. skip_name buf offset steps = Some (Inr o') \<and> offset < o' \<and> o' \<le> length buf)"
proof (induction buf offset steps rule: skip_name.induct)
  case (1 buf offset steps)
  show ?case
  proof (cases "offset < length buf")
    case False
    then show ?thesis by (subst (1 2) skip_name.simps) simp
  next
    case True
    let ?len = "buf ! offset"
    show ?thesis
    proof (cases "?len AND 0xc0 = 0xc0 \<or> ?len = 0 \<or> 128 < steps + 1")
      case True
      with \<open>offset < length buf\<close> show ?thesis by (subst (1 2) skip_name.simps) auto
    next
      case False
      with True have "skip_name buf offset steps = skip_name buf (offset + 1 + unat ?len) (steps + 1)"
        by (subst skip_name.simps) simp
      moreover have "(\<exists>e. skip_name buf (offset + 1 + unat ?len) (steps + 1) = Some (Inl e)) \<or>
          (\<exists>o'. skip_name buf (offset + 1 + unat ?len) (steps + 1) = Some (Inr o') \<and>
             offset + 1 + unat ?len < o' \<and> o' \<le> length buf)"
        using 1 [of ?len] True False by simp
      ultimately show ?thesis by auto
    qed
  qed
qed

lemma skip_questions_total: "skip_questions n buf offset \<noteq> None"
proof (induction n arbitrary: offset)
  case 0
  then show ?case by simp
next
  case (Suc n)
  from skip_name_total [of buf offset 0] Suc show ?case by auto
qed

lemma decode_answers_total: "decode_answers n buf qtype offset acc \<noteq> None"
proof (induction n arbitrary: offset acc)
  case 0
  then show ?case by simp
next
  case (Suc n)
  from skip_name_total [of buf offset 0] Suc show ?case by (auto simp: Let_def)
qed

section \<open>The decoder on a well-formed reply\<close>

definition label_ok :: "string \<Rightarrow> bool" where
  "label_ok l = (l \<noteq> [] \<and> length l \<le> 63)"

definition label_bytes :: "string \<Rightarrow> bytes" where
  "label_bytes l = of_nat (length l) # as_bytes l"

definition name_labels :: "string \<Rightarrow> string list" where
  "name_labels name = filter (\<lambda>l. l \<noteq> []) (split_on CHR ''.'' (trim_end_matches CHR ''.'' name))"

lemma encode_labels_ok:
  "encode_labels ls = Inr bs \<Longrightarrow>
   bs = concat (map label_bytes (filter (\<lambda>l. l \<noteq> []) ls)) \<and> list_all label_ok (filter (\<lambda>l. l \<noteq> []) ls)"
  by (induction ls arbitrary: bs) (auto simp: label_bytes_def label_ok_def split: if_splits sum.splits)

lemma encode_labels_iff:
  "(\<exists>bs. encode_labels ls = Inr bs) \<longleftrightarrow> (\<forall>l\<in>set ls. length l \<le> 63)"
  by (induction ls) (auto split: sum.splits)

lemma label_length_byte:
  assumes "label_ok l"
  shows "unat (of_nat (length l) :: u8) = length l" and "(of_nat (length l) :: u8) AND 0xc0 \<noteq> 0xc0"
    and "(of_nat (length l) :: u8) \<noteq> 0"
proof -
  have l: "0 < length l" "length l \<le> 63" using assms by (auto simp: label_ok_def)
  then show u: "unat (of_nat (length l) :: u8) = length l"
    by (simp add: unsigned_of_nat take_bit_nat_eq_self)
  show "(of_nat (length l) :: u8) \<noteq> 0" using u l by (metis unat_0 less_irrefl)
  have "(of_nat (length l) :: u8) AND 0x80 = 0" using l by (simp add: high_bit)
  moreover have "(of_nat (length l) :: u8) AND 0x80 = (of_nat (length l) AND 0xc0) AND 0x80"
    by (simp add: and.assoc)
  ultimately show "(of_nat (length l) :: u8) AND 0xc0 \<noteq> 0xc0" by auto
qed

lemma skip_labels:
  assumes "list_all label_ok ls" and "steps + length ls \<le> 128"
  shows "skip_name (pre @ concat (map label_bytes ls) @ 0 # rest) (length pre) steps =
         Some (Inr (length pre + length (concat (map label_bytes ls)) + 1))"
  using assms
proof (induction ls arbitrary: pre steps)
  case Nil
  then show ?case by (subst skip_name.simps) (simp add: nth_append)
next
  case (Cons l ls)
  let ?buf = "pre @ concat (map label_bytes (l # ls)) @ 0 # rest"
  have l: "label_ok l" using Cons.prems by simp
  have "?buf ! length pre = of_nat (length l)" by (simp add: nth_append label_bytes_def)
  then have "skip_name ?buf (length pre) steps = skip_name ?buf (length pre + 1 + length l) (steps + 1)"
    using label_length_byte [OF l] Cons.prems by (subst skip_name.simps) simp
  also have "\<dots> = skip_name ((pre @ label_bytes l) @ concat (map label_bytes ls) @ 0 # rest)
      (length (pre @ label_bytes l)) (steps + 1)"
    by (simp add: label_bytes_def as_bytes_def)
  also have "\<dots> = Some (Inr (length (pre @ label_bytes l) + length (concat (map label_bytes ls)) + 1))"
    using Cons by (intro Cons.IH) simp_all
  finally show ?case by simp
qed

definition answer_record :: "u16 \<Rightarrow> u32 \<Rightarrow> ip_addr \<Rightarrow> bytes" where
  "answer_record qtype ttl ip =
     [0xc0, 0x0c] @ be16 qtype @ be16 1 @ be32 ttl @ be16 (of_nat (length (octets ip))) @ octets ip"

definition answers_type :: "u16 \<Rightarrow> ip_addr \<Rightarrow> bool" where
  "answers_type qtype ip =
     (wf_ip ip \<and> (if is_ipv4 ip then qtype = TYPE_A else qtype = TYPE_AAAA))"

text \<open>The reply of a server to the query \<open>q\<close>: header, the question repeated, one record per address.\<close>

definition reply_to :: "bytes \<Rightarrow> u16 \<Rightarrow> u16 \<Rightarrow> u32 \<Rightarrow> ip_addr list \<Rightarrow> bytes" where
  "reply_to q flags qtype ttl ips =
     take 2 q @ be16 flags @ be16 1 @ be16 (of_nat (length ips)) @ be16 0 @ be16 0
     @ drop 12 q @ concat (map (answer_record qtype ttl) ips)"

lemma decode_answers_reply:
  assumes "list_all (answers_type qtype) ips"
  shows "decode_answers (length ips) (pre @ concat (map (answer_record qtype ttl) ips)) qtype (length pre) acc =
         Some (Inr (acc @ ips))"
  using assms
proof (induction ips arbitrary: pre acc)
  case Nil
  then show ?case by simp
next
  case (Cons ip ips)
  let ?n = "length (octets ip)" and ?rest = "concat (map (answer_record qtype ttl) ips)"
  let ?buf = "pre @ answer_record qtype ttl ip @ ?rest"
  have ip: "answers_type qtype ip" using Cons.prems by simp
  then have n: "?n = 4 \<or> ?n = 16" by (cases ip) (auto simp: answers_type_def)
  have rec: "answer_record qtype ttl ip @ ?rest =
      0xc0 # 0x0c # be16 qtype @ be16 1 @ be32 ttl @ be16 (of_nat ?n) @ octets ip @ ?rest"
    by (simp add: answer_record_def)
  have skip: "skip_name ?buf (length pre) 0 = Some (Inr (length pre + 2))"
    by (subst skip_name.simps) (simp add: nth_append answer_record_def)
  have len: "length ?buf = length pre + 12 + ?n + length ?rest" by (simp add: answer_record_def)
  have t: "get_u16 ?buf (length pre + 2) = Some qtype"
    by (simp add: get_u16_def get_def nth_append answer_record_def be16_def)
  have l: "get_u16 ?buf (length pre + 10) = Some (of_nat ?n)"
    by (simp add: get_u16_def get_def nth_append answer_record_def be16_def be32_def)
  have u: "unat (of_nat ?n :: u16) = ?n" using n by auto
  have sl: "slice ?buf (length pre + 12) (length pre + 12 + ?n) = Some (octets ip)"
    using len by (simp add: slice_def answer_record_def)
  have d: "decode_rdata qtype (octets ip) = [ip]"
    using ip by (cases ip) (auto simp: answers_type_def decode_rdata_def TYPE_A_def TYPE_AAAA_def)
  have "decode_answers (Suc (length ips)) ?buf qtype (length pre) acc =
      decode_answers (length ips) ?buf qtype (length pre + 12 + ?n) (acc @ [ip])"
    using skip len t l u sl d by (simp add: Let_def add.commute add.left_commute numeral_eq_Suc)
  also have "\<dots> = decode_answers (length ips) ((pre @ answer_record qtype ttl ip) @ ?rest) qtype
      (length (pre @ answer_record qtype ttl ip)) (acc @ [ip])"
    by (simp add: answer_record_def add.assoc)
  also have "\<dots> = Some (Inr ((acc @ [ip]) @ ips))" using Cons by (intro Cons.IH) simp
  finally show ?case by simp
qed

lemma encode_query_form:
  assumes "encode_query ident name qtype = Inr q"
  shows "q = be16 ident @ be16 0x0100 @ be16 1 @ be16 0 @ be16 0 @ be16 0
             @ concat (map label_bytes (name_labels name)) @ 0 # be16 qtype @ be16 1"
    and "list_all label_ok (name_labels name)"
  using assms encode_labels_ok by (auto simp: encode_query_def name_labels_def split: sum.splits)

section \<open>Properties\<close>

lemma decode_response_total: "decode_response buf expect_id qtype \<noteq> None"
proof (cases "length buf < 12")
  case True
  then show ?thesis by (simp add: decode_response_def)
next
  case False
  then show ?thesis
    by (auto simp: decode_response_def skip_questions_total decode_answers_total
        simp del: not_None_eq split: option.splits sum.splits)
qed

lemma query_total: "query env server name qtype ctx \<noteq> None"
  by (auto simp: query_def Let_def decode_response_total simp del: not_None_eq
      split: option.splits sum.splits dns_recv.splits)

lemma dns_probe_total: "dns_probe env server name qtype ctx \<noteq> None"
  using query_total [of env server name qtype ctx]
  by (auto simp: dns_probe_def Let_def split: option.splits sum.splits)

text \<open>
  C29: the response decoder is total on untrusted input: for every byte sequence, expected id and
  type it returns a message or an error and never indexes out of bounds, and every name it skips
  ends inside the message, strictly further on, so its loops make progress.
\<close>

theorem decode_response_no_panic:
  "decode_response buf expect_id qtype \<noteq> None \<and>
   ((\<exists>e. skip_name buf offset steps = Some (Inl e)) \<or>
    (\<exists>o'. skip_name buf offset steps = Some (Inr o') \<and> offset < o' \<and> o' \<le> length buf))"
  using decode_response_total skip_name_total [of buf offset steps] by blast

text \<open>
  C30: what the encoder asks, the decoder understands the answer to. For a name of at most 128
  labels, the reply that repeats the question and adds one record per address, each with a
  compressed name, decodes to exactly these addresses in order, with the response code and the
  truncation and authority bits of its flags.
\<close>

theorem decode_reply:
  assumes "encode_query ident name qtype = Inr q" and "length (name_labels name) \<le> 128"
    and "list_all (answers_type qtype) ips" and "length ips < 2 ^ 16"
  shows "decode_response (reply_to q flags qtype ttl ips) ident qtype =
         Some (Inr \<lparr>dm_addresses = ips, dm_rcode = rcode_from_u8 (ucast (flags AND 0x000f)),
                    dm_truncated = (flags AND 0x0200 \<noteq> 0),
                    dm_authoritative = (flags AND 0x0400 \<noteq> 0), dm_ancount = of_nat (length ips)\<rparr>)"
proof -
  note q = encode_query_form [OF assms(1)]
  let ?head = "be16 ident @ be16 flags @ be16 1 @ be16 (of_nat (length ips)) @ be16 0 @ be16 0"
  let ?names = "concat (map label_bytes (name_labels name))"
  let ?ans = "concat (map (answer_record qtype ttl) ips)"
  let ?pre = "?head @ ?names @ 0 # be16 qtype @ be16 1"
  have r: "reply_to q flags qtype ttl ips = ?pre @ ?ans"
    by (simp add: reply_to_def q(1) be16_def)
  have "skip_name (?head @ ?names @ 0 # (be16 qtype @ be16 1 @ ?ans)) (length ?head) 0 =
      Some (Inr (length ?head + length ?names + 1))"
    using assms(2) by (intro skip_labels [OF q(2)]) simp
  then have sq: "skip_questions 1 (?pre @ ?ans) 12 = Some (Inr (length ?pre))" by simp
  have da: "decode_answers (length ips) (?pre @ ?ans) qtype (length ?pre) [] = Some (Inr ips)"
    using decode_answers_reply [OF assms(3), of ?pre ttl "[]"] by simp
  have w: "get_u16 (?pre @ ?ans) 0 = Some ident" "get_u16 (?pre @ ?ans) 2 = Some flags"
    "get_u16 (?pre @ ?ans) 4 = Some 1" "get_u16 (?pre @ ?ans) 6 = Some (of_nat (length ips))"
    by (simp_all add: get_u16_def be16_def) (simp add: from_be16_def)
  have "\<not> length (?pre @ ?ans) < 12" by simp
  moreover have "unat (of_nat (length ips) :: u16) = length ips"
    using assms(4) by (simp add: unsigned_of_nat take_bit_nat_eq_self)
  ultimately show ?thesis unfolding r decode_response_def w using sq da by simp
qed

theorem decode_reply_witness:
  "decode_response (reply_to (be16 0xabcd @ be16 0x0100 @ be16 1 @ be16 0 @ be16 0 @ be16 0
       @ [2, 97, 98, 0] @ be16 1 @ be16 1) 0x8180 TYPE_A 300 [V4 [93, 184, 216, 34]]) 0xabcd TYPE_A =
     Some (Inr \<lparr>dm_addresses = [V4 [93, 184, 216, 34]], dm_rcode = NoError, dm_truncated = False,
                dm_authoritative = False, dm_ancount = 1\<rparr>)"
proof -
  have q: "encode_query 0xabcd ''ab'' TYPE_A = Inr (be16 0xabcd @ be16 0x0100 @ be16 1 @ be16 0 @ be16 0
      @ be16 0 @ [2, 97, 98, 0] @ be16 1 @ be16 1)"
    by (simp add: encode_query_def trim_end_matches_def as_bytes_def TYPE_A_def)
  show ?thesis
    using decode_reply [OF q, where ips = "[V4 [93, 184, 216, 34]]" and flags = "0x8180" and ttl = "300"]
    by (simp add: name_labels_def trim_end_matches_def answers_type_def TYPE_A_def rcode_from_u8_def)
qed

section \<open>NAT64 prefixes\<close>

text \<open>
  RFC 6052: the address that embeds an IPv4 address behind a prefix of 32, 40, 48, 56, 64 or 96
  bits. Byte 8 is zero for all but the longest prefix.
\<close>

definition rfc6052 :: "nat \<Rightarrow> bytes \<Rightarrow> bytes \<Rightarrow> bytes" where
  "rfc6052 plen prefix v4 =
     (let p = take (plen div 8) prefix; body = p @ v4
      in take 16 (if plen = 96 then body
                  else if length body \<le> 8 then body @ replicate 8 0
                  else take 8 body @ [0] @ drop 8 body @ replicate 8 0))"

lemma nat64_candidate_rule:
  "nat64_candidate octs plen idx filled =
     (if length filled < 4 \<and> idx < 16 then
        nat64_candidate octs plen (idx + 1)
          (if idx = 8 \<and> plen < 96 \<and> plen \<noteq> 32 then filled else filled @ [octs ! idx])
      else filled)"
  by (subst nat64_candidate.simps) simp

lemma nat64_candidates:
  assumes "length octs = 16"
  shows "nat64_candidate octs 32 4 [] = [octs ! 4, octs ! 5, octs ! 6, octs ! 7]"
    and "nat64_candidate octs 40 5 [] = [octs ! 5, octs ! 6, octs ! 7, octs ! 9]"
    and "nat64_candidate octs 48 6 [] = [octs ! 6, octs ! 7, octs ! 9, octs ! 10]"
    and "nat64_candidate octs 56 8 [] = [octs ! 9, octs ! 10, octs ! 11, octs ! 12]"
    and "nat64_candidate octs 64 9 [] = [octs ! 9, octs ! 10, octs ! 11, octs ! 12]"
    and "nat64_candidate octs 96 12 [] = [octs ! 12, octs ! 13, octs ! 14, octs ! 15]"
  by (simp_all add: nat64_candidate.simps)

lemma extract_unfold:
  assumes "length octs = 16"
  shows "extract_nat64_prefix octs =
     (let hit = (\<lambda>plen. Some (take (plen div 8) octs @ replicate (16 - plen div 8) 0, plen)) in
      if [octs ! 4, octs ! 5, octs ! 6, octs ! 7] \<in> set WKA then hit 32
      else if [octs ! 5, octs ! 6, octs ! 7, octs ! 9] \<in> set WKA then hit 40
      else if [octs ! 6, octs ! 7, octs ! 9, octs ! 10] \<in> set WKA then hit 48
      else if [octs ! 9, octs ! 10, octs ! 11, octs ! 12] \<in> set WKA then hit 56
      else if [octs ! 12, octs ! 13, octs ! 14, octs ! 15] \<in> set WKA then hit 96
      else None)"
  by (simp add: extract_nat64_prefix_def NAT64_OFFSETS_def nat64_candidates [OF assms] Let_def assms
      del: One_nat_def)

lemma replicate_eval: "replicate (numeral k) x = x # replicate (pred_numeral k) x"
  by (simp add: numeral_eq_Suc)

lemma list16:
  assumes "length (p :: bytes) = 16"
  obtains a0 a1 a2 a3 a4 a5 a6 a7 a8 a9 a10 a11 a12 a13 a14 a15
  where "p = [a0, a1, a2, a3, a4, a5, a6, a7, a8, a9, a10, a11, a12, a13, a14, a15]"
proof -
  have "length p = Suc (Suc (Suc (Suc (Suc (Suc (Suc (Suc (Suc (Suc (Suc (Suc (Suc (Suc (Suc (Suc 0)))))))))))))))"
    using assms by simp
  then show ?thesis using that by (auto simp only: length_Suc_conv length_0_conv)
qed

text \<open>
  C31: NAT64 discovery recovers the prefix from a synthesised answer: when the well-known IPv4
  address is embedded as RFC 6052 defines behind a prefix of 32, 40, 48 or 96 bits, exactly that
  prefix, zero-padded, and its length are returned (for 96 bits as long as the prefix itself does
  not look like an embedding).
\<close>

theorem nat64_prefix_found:
  assumes "length prefix = 16" and "v4 \<in> set WKA" and "plen \<in> {32, 40, 48, 96}"
    and "plen = 96 \<longrightarrow> prefix ! 4 \<noteq> 192 \<and> prefix ! 5 \<noteq> 192 \<and> prefix ! 6 \<noteq> 192"
  shows "extract_nat64_prefix (rfc6052 plen prefix v4) =
         Some (take (plen div 8) prefix @ replicate (16 - plen div 8) 0, plen)"
proof -
  obtain a0 a1 a2 a3 a4 a5 a6 a7 a8 a9 a10 a11 a12 a13 a14 a15 where
    p: "prefix = [a0, a1, a2, a3, a4, a5, a6, a7, a8, a9, a10, a11, a12, a13, a14, a15]"
    using list16 [OF assms(1)] by blast
  have v: "v4 = [192, 0, 0, 170] \<or> v4 = [192, 0, 0, 171]" using assms(2) by (auto simp: WKA_def)
  from assms(3) consider "plen = 32" | "plen = 40" | "plen = 48" | "plen = 96" by blast
  then show ?thesis
  proof cases
    case 1
    show ?thesis using v unfolding 1 p by (elim disjE) (simp_all add: rfc6052_def extract_unfold WKA_def)
  next
    case 2
    show ?thesis using v unfolding 2 p by (elim disjE) (simp_all add: rfc6052_def extract_unfold WKA_def)
  next
    case 3
    show ?thesis using v unfolding 3 p by (elim disjE) (simp_all add: rfc6052_def extract_unfold WKA_def)
  next
    case 4
    show ?thesis using v assms(4) unfolding 4 p by (elim disjE) (simp_all add: rfc6052_def extract_unfold WKA_def)
  qed
qed

theorem nat64_prefix_found_witness:
  "extract_nat64_prefix [0, 0x64, 0xff, 0x9b, 0, 0, 0, 0, 0, 0, 0, 0, 192, 0, 0, 170] =
     Some ([0, 0x64, 0xff, 0x9b, 0, 0, 0, 0, 0, 0, 0, 0, 0, 0, 0, 0], 96)"
  using nat64_prefix_found [of "[0, 0x64, 0xff, 0x9b, 0, 0, 0, 0, 0, 0, 0, 0, 0, 0, 0, 0]"
      "[192, 0, 0, 170]" 96]
  by (simp add: rfc6052_def WKA_def replicate_eval)

text \<open>
  The remaining two lengths: an address with a 64-bit prefix is taken for a 56-bit one, and an
  address with a 56-bit prefix is not recognised, because the search for 56 bits starts behind
  the reserved byte although the first octet stands before it.
\<close>

lemma nat64_64_read_as_56:
  assumes "length prefix = 16" and "v4 \<in> set WKA" and "prefix ! 4 \<noteq> 192"
  shows "extract_nat64_prefix (rfc6052 64 prefix v4) = Some (take 7 prefix @ replicate 9 0, 56)"
proof -
  obtain a0 a1 a2 a3 a4 a5 a6 a7 a8 a9 a10 a11 a12 a13 a14 a15 where
    p: "prefix = [a0, a1, a2, a3, a4, a5, a6, a7, a8, a9, a10, a11, a12, a13, a14, a15]"
    using list16 [OF assms(1)] by blast
  have v: "v4 = [192, 0, 0, 170] \<or> v4 = [192, 0, 0, 171]" using assms(2) by (auto simp: WKA_def)
  show ?thesis using v assms(3) unfolding p
    by (elim disjE) (simp_all add: rfc6052_def extract_unfold WKA_def)
qed

lemma nat64_56_missed:
  "extract_nat64_prefix (rfc6052 56 [0x20, 0x01, 0x0d, 0xb8, 0, 0, 0, 0, 0, 0, 0, 0, 0, 0, 0, 0] [192, 0, 0, 170]) = None"
  by (simp add: rfc6052_def extract_unfold WKA_def replicate_eval)

end
