(* ===== verification/Tls.thy ===== *)
theory Tls
  imports Dns "HOL-Library.Monad_Syntax"
begin

text \<open>
  The TLS reachability probe (\<^verbatim>\<open>daemon/src/probe/tls.rs\<close>): the ClientHello builder with its nested
  length fields, the classification of the first reply, and the probe. The two readings of the
  monotonic clock that fill key share and random are arguments.
\<close>

section \<open>Model\<close>

definition is_ip_literal :: "string \<Rightarrow> bool" where
  "is_ip_literal name = (parse_ip name \<noteq> None)"

definition sni_body :: "string \<Rightarrow> bytes" where
  "sni_body server_name =
     (let host = as_bytes server_name
      in be16 (of_nat (length host + 3)) @ [0] @ be16 (of_nat (length host)) @ host)"

definition tls_ext :: "u16 \<Rightarrow> bytes \<Rightarrow> bytes" where
  "tls_ext ty body = be16 ty @ be16 (of_nat (length body)) @ body"

definition sni_extension :: "string \<Rightarrow> bytes" where
  "sni_extension server_name =
     (if server_name \<noteq> [] \<and> \<not> is_ip_literal server_name then tls_ext 0x0000 (sni_body server_name) else [])"

definition key_share_byte :: "u64 \<Rightarrow> nat \<Rightarrow> u8" where
  "key_share_byte seed i = ucast (word_rotl (i mod 63) seed XOR (of_nat i * 97))"

definition key_share_entry :: "u64 \<Rightarrow> bytes" where
  "key_share_entry seed = be16 0x001d @ be16 32 @ map (key_share_byte seed) [0..<32]"

definition random_byte :: "u64 \<Rightarrow> nat \<Rightarrow> u8" where
  "random_byte seed i = ucast (drop_bit (i mod 56) seed XOR (of_nat i * 31))"

definition hello_extensions :: "string \<Rightarrow> u64 \<Rightarrow> bytes" where
  "hello_extensions server_name seed =
     sni_extension server_name
     @ tls_ext 0x002b [0x04, 0x03, 0x04, 0x03, 0x03]
     @ tls_ext 0x000a [0x00, 0x04, 0x00, 0x1d, 0x00, 0x17]
     @ tls_ext 0x000d [0x00, 0x04, 0x04, 0x03, 0x08, 0x04]
     @ be16 0x0033 @ be16 (of_nat (length (key_share_entry seed) + 2))
     @ be16 (of_nat (length (key_share_entry seed))) @ key_share_entry seed"

definition hello_body :: "string \<Rightarrow> u64 \<Rightarrow> u64 \<Rightarrow> bytes" where
  "hello_body server_name seed1 seed2 =
     be16 0x0303 @ map (random_byte seed2) [0..<32] @ [0]
     @ be16 8 @ [0x13, 0x01, 0x13, 0x02, 0x13, 0x03, 0xc0, 0x2f] @ [1, 0]
     @ be16 (of_nat (length (hello_extensions server_name seed1))) @ hello_extensions server_name seed1"

definition client_hello :: "string \<Rightarrow> u64 \<Rightarrow> u64 \<Rightarrow> bytes" where
  "client_hello server_name seed1 seed2 =
     (let body = hello_body server_name seed1 seed2;
          len = length body;
          handshake = [0x01, of_nat (len div 65536), of_nat (len div 256), of_nat len] @ body
      in [0x16] @ be16 0x0301 @ be16 (of_nat (length handshake)) @ handshake)"

datatype hello_reply = ServerHello | Alert u8 u8 | NotTls | EmptyReply

text \<open>Indexing is checked: \<open>None\<close> is a panic.\<close>

definition classify_reply :: "bytes \<Rightarrow> hello_reply option" where
  "classify_reply buf =
     (if buf = [] then Some EmptyReply
      else do {
        ty \<leftarrow> get buf 0;
        if ty = 0x16 then
          (if length buf \<ge> 6
           then do { m \<leftarrow> get buf 5; Some (if m = 0x02 then ServerHello else NotTls) }
           else Some NotTls)
        else if ty = 0x15 \<and> length buf \<ge> 7
          then do { level \<leftarrow> get buf 5; description \<leftarrow> get buf 6; Some (Alert level description) }
        else Some NotTls })"

definition alert_name :: "u8 \<Rightarrow> string" where
  "alert_name d =
     (if d = 0 then ''close_notify'' else if d = 10 then ''unexpected_message''
      else if d = 20 then ''bad_record_mac'' else if d = 22 then ''record_overflow''
      else if d = 40 then ''handshake_failure'' else if d = 42 then ''bad_certificate''
      else if d = 47 then ''illegal_parameter'' else if d = 48 then ''unknown_ca''
      else if d = 50 then ''decode_error'' else if d = 51 then ''decrypt_error''
      else if d = 70 then ''protocol_version'' else if d = 71 then ''insufficient_security''
      else if d = 80 then ''internal_error'' else if d = 86 then ''inappropriate_fallback''
      else if d = 109 then ''missing_extension'' else if d = 112 then ''unrecognized_name''
      else if d = 120 then ''no_application_protocol'' else ''unknown alert'')"

datatype tls_read = TlsRead bytes | TlsReadError io_error | TlsTimeout

record tls_env =
  tl_tcp :: tcp_env
  tl_tcp_ms :: nat
  tl_seed1 :: u64
  tl_seed2 :: u64
  tl_write :: "bytes \<Rightarrow> io_error option"
  tl_read :: "bytes \<Rightarrow> tls_read"
  tl_elapsed :: nat

fun explain_stream_error :: "stream_error \<Rightarrow> string" where
  "explain_stream_error (StreamIo e) = explain_io_error e"
| "explain_stream_error (StreamPin text) = text"
| "explain_stream_error StreamTimedOut = ''timed out''"

definition tls_probe :: "tls_env \<Rightarrow> socket_addr \<Rightarrow> string \<Rightarrow> probe_context \<Rightarrow> probe_result option" where
  "tls_probe env target server_name ctx =
     (let ms = tl_elapsed env; routing = with_ev ''routing'' (describe_context ctx) in
      case connect_stream (tl_tcp env) target ctx of
        Inl e \<Rightarrow>
          Some (routing (failure_result ms
            (''TCP connect to '' @ show_sa target @ '' failed: '' @ explain_stream_error e)))
      | Inr _ \<Rightarrow>
          let hello = client_hello server_name (tl_seed1 env) (tl_seed2 env);
              evidence = (\<lambda>r. routing (with_ev ''tcp_connect_ms'' (dec (tl_tcp_ms env))
                 (with_ev ''client_hello_bytes'' (dec (length hello))
                   (with_ev ''sni'' server_name (with_ev ''target'' (show_sa target) r)))))
          in case tl_write env hello of
               Some e \<Rightarrow>
                 Some (routing (with_ev ''tcp_connect_ms'' (dec (tl_tcp_ms env))
                   (failure_result ms (''could not send the ClientHello: '' @ explain_io_error e))))
             | None \<Rightarrow>
                 (case tl_read env hello of
                    TlsRead buf \<Rightarrow>
                      (let buf = take 1024 buf in
                       if buf = [] then
                         Some (evidence (failure_result ms
                           ''the peer closed the connection without answering the ClientHello''))
                       else map_option (\<lambda>reply. case reply of
                         ServerHello \<Rightarrow>
                           evidence (success ms (''TLS ServerHello received in '' @ dec ms @ '' ms''))
                       | Alert level description \<Rightarrow>
                           evidence (with_ev ''alert_description'' (dec (unat description))
                             (failure_result ms (''TLS alert instead of a ServerHello: ''
                                @ alert_name description @ '' ('' @ dec (unat description) @ '', level ''
                                @ dec (unat level) @ '')'')))
                       | NotTls \<Rightarrow>
                           evidence (failure_result ms
                             ''the peer answered with something that is not a TLS handshake'')
                       | EmptyReply \<Rightarrow> evidence (failure_result ms ''empty reply to the ClientHello''))
                         (classify_reply buf))
                  | TlsReadError e \<Rightarrow>
                      Some (evidence (failure_result ms (''read after ClientHello failed: '' @ explain_io_error e)))
                  | TlsTimeout \<Rightarrow>
                      Some (evidence (failure_result ms (''TCP connected but no ServerHello arrived within ''
                        @ dec (pc_timeout ctx) @ '' ms; a large-packet black hole (PMTU) or a filtering middlebox both look like this'')))))"

section \<open>How a server reads the hello\<close>

text \<open>
  A reader of TLS 1.3 ClientHello records (RFC 8446, with the server name of RFC 6066), written from
  the grammar: a vector is a length of one, two or three bytes and that many bytes; a vector that must
  fill what surrounds it leaves nothing over. Numbers are read byte by byte. Unknown or repeated extensions, an
  odd list of 16-bit values, a record above \<open>2 ^ 14\<close> bytes and any length that does not fit are refused.
\<close>

definition be_nat :: "bytes \<Rightarrow> nat" where
  "be_nat b = fold (\<lambda>x n. n * 256 + unat x) b 0"

definition take_vec :: "nat \<Rightarrow> bytes \<Rightarrow> (bytes \<times> bytes) option" where
  "take_vec k b =
     (if length b < k + be_nat (take k b) then None
      else Some (take (be_nat (take k b)) (drop k b), drop (k + be_nat (take k b)) b))"

definition whole_vec :: "nat \<Rightarrow> bytes \<Rightarrow> bytes option" where
  "whole_vec k b = (case take_vec k b of Some (v, []) \<Rightarrow> Some v | _ \<Rightarrow> None)"

fun read_nums :: "bytes \<Rightarrow> nat list option" where
  "read_nums [] = Some []"
| "read_nums [_] = None"
| "read_nums (a # b # rest) = map_option (Cons (unat a * 256 + unat b)) (read_nums rest)"

fun read_extensions :: "nat \<Rightarrow> bytes \<Rightarrow> (nat \<times> bytes) list option" where
  "read_extensions fuel [] = Some []"
| "read_extensions 0 (_ # _) = None"
| "read_extensions (Suc fuel) (a # b # rest) =
     (case take_vec 2 rest of
        None \<Rightarrow> None
      | Some (body, others) \<Rightarrow> map_option (Cons (unat a * 256 + unat b, body)) (read_extensions fuel others))"
| "read_extensions (Suc fuel) [_] = None"

datatype tls_extension =
  ServerName bytes
| SupportedVersions "nat list"
| SupportedGroups "nat list"
| SignatureAlgorithms "nat list"
| KeyShare nat bytes

definition read_server_name :: "bytes \<Rightarrow> tls_extension option" where
  "read_server_name b =
     (case whole_vec 2 b of
        Some (ty # entry) \<Rightarrow> if ty = 0 then map_option ServerName (whole_vec 2 entry) else None
      | _ \<Rightarrow> None)"

definition read_key_share :: "bytes \<Rightarrow> tls_extension option" where
  "read_key_share b =
     (case whole_vec 2 b of
        Some (g1 # g2 # key) \<Rightarrow> map_option (KeyShare (unat g1 * 256 + unat g2)) (whole_vec 2 key)
      | _ \<Rightarrow> None)"

definition read_extension :: "nat \<times> bytes \<Rightarrow> tls_extension option" where
  "read_extension e =
     (let (ty, body) = e in
      if ty = 0 then read_server_name body
      else if ty = 43 then map_option SupportedVersions (Option.bind (whole_vec 1 body) read_nums)
      else if ty = 10 then map_option SupportedGroups (Option.bind (whole_vec 2 body) read_nums)
      else if ty = 13 then map_option SignatureAlgorithms (Option.bind (whole_vec 2 body) read_nums)
      else if ty = 51 then read_key_share body
      else None)"

fun all_some :: "'a option list \<Rightarrow> 'a list option" where
  "all_some [] = Some []"
| "all_some (x # xs) = do { y \<leftarrow> x; ys \<leftarrow> all_some xs; Some (y # ys) }"

record tls_hello =
  th_version :: nat
  th_random :: bytes
  th_session :: bytes
  th_suites :: "nat list"
  th_compression :: bytes
  th_extensions :: "tls_extension list"

definition read_hello_body :: "bytes \<Rightarrow> tls_hello option" where
  "read_hello_body b =
     (if length b < 34 then None
      else do {
        (session, b1) \<leftarrow> take_vec 1 (drop 34 b);
        (suites, b2) \<leftarrow> take_vec 2 b1;
        nums \<leftarrow> read_nums suites;
        (compression, b3) \<leftarrow> take_vec 1 b2;
        block \<leftarrow> whole_vec 2 b3;
        exts \<leftarrow> read_extensions (length block) block;
        parsed \<leftarrow> all_some (map read_extension exts);
        if distinct (map fst exts)
        then Some \<lparr>th_version = be_nat (take 2 b), th_random = take 32 (drop 2 b), th_session = session,
               th_suites = nums, th_compression = compression, th_extensions = parsed\<rparr>
        else None })"

definition read_hello :: "bytes \<Rightarrow> tls_hello option" where
  "read_hello record =
     (case record of
        ty # v1 # v2 # rest \<Rightarrow>
          (case whole_vec 2 rest of
             Some (m # handshake) \<Rightarrow>
               if ty = 22 \<and> v1 = 3 \<and> m = 1 \<and> length handshake < 2 ^ 14
               then Option.bind (whole_vec 3 handshake) read_hello_body else None
           | _ \<Rightarrow> None)
      | _ \<Rightarrow> None)"

section \<open>The length fields\<close>

lemma unat_of_nat_u8: "unat (of_nat n :: u8) = n mod 256"
  by (simp add: unsigned_of_nat take_bit_eq_mod)

lemma be_nat_pair: "be_nat [a, b] = unat a * 256 + unat b"
  by (simp add: be_nat_def)

lemma be_nat_be16: "be_nat (be16 w) = unat w"
  by (metis be16_def be_nat_pair from_be16_be16 unat_from_be16)

lemma be_nat_be24:
  "n < 16777216 \<Longrightarrow> be_nat [of_nat (n div 65536), of_nat (n div 256), of_nat n] = n"
proof -
  assume n: "n < 16777216"
  have a: "n div 65536 mod 256 = n div 65536" using n by simp
  have b: "n div 256 div 256 = n div 65536" by (simp add: div_mult2_eq [symmetric])
  have c: "n div 256 div 256 * 256 + n div 256 mod 256 = n div 256" by simp
  have d: "n div 256 * 256 + n mod 256 = n" by simp
  have "(n div 65536 mod 256 * 256 + n div 256 mod 256) * 256 + n mod 256 = n"
    using a b c d by metis
  then show ?thesis using a by (simp add: be_nat_def unat_of_nat_u8)
qed

lemma take_vec_append:
  "length p = k \<Longrightarrow> be_nat p = length v \<Longrightarrow> take_vec k (p @ v @ rest) = Some (v, rest)"
  by (simp add: take_vec_def)

lemma take_vec16: "length v < 65536 \<Longrightarrow> take_vec 2 (be16 (of_nat (length v)) @ v @ rest) = Some (v, rest)"
  by (rule take_vec_append) (simp_all add: be_nat_be16 unsigned_of_nat take_bit_nat_eq_self)

lemma whole_vec16: "length v < 65536 \<Longrightarrow> whole_vec 2 (be16 (of_nat (length v)) @ v) = Some v"
  using take_vec16 [of v "[]"] by (simp add: whole_vec_def)

lemma read_extensions_ext:
  assumes "length body < 65536"
  shows "read_extensions (Suc fuel) (tls_ext ty body @ rest) =
    map_option (Cons (unat ty, body)) (read_extensions fuel rest)"
proof -
  have "unat (ucast (drop_bit 8 ty) :: u8) * 256 + unat (ucast ty :: u8) = unat ty"
    by (metis from_be16_be16 unat_from_be16)
  then show ?thesis using take_vec16 [OF assms] by (simp add: tls_ext_def be16_def)
qed

lemma length_key_share_entry [simp]: "length (key_share_entry seed) = 36"
  by (simp add: key_share_entry_def)

lemma length_tls_ext [simp]: "length (tls_ext ty body) = 4 + length body"
  by (simp add: tls_ext_def)

lemma length_sni_body: "length (sni_body name) = length name + 5"
  by (simp add: sni_body_def Let_def as_bytes_def)

lemma length_hello_extensions:
  "20 \<le> length (hello_extensions name seed) \<and> length (hello_extensions name seed) \<le> length name + 80"
  by (simp add: hello_extensions_def sni_extension_def length_sni_body)

lemma length_hello_body: "length (hello_body name s1 s2) = 49 + length (hello_extensions name s1)"
  by (simp add: hello_body_def)

text \<open>The contents of the extensions, as a server understands them.\<close>

lemma read_sni:
  assumes "length name \<le> 16000"
  shows "read_server_name (sni_body name) = Some (ServerName (as_bytes name))"
proof -
  let ?entry = "be16 (of_nat (length (as_bytes name))) @ as_bytes name"
  have l: "length (0 # ?entry) = length (as_bytes name) + 3" by simp
  have "sni_body name = be16 (of_nat (length (0 # ?entry))) @ 0 # ?entry"
    unfolding l by (simp add: sni_body_def Let_def)
  moreover have "whole_vec 2 (be16 (of_nat (length (0 # ?entry))) @ 0 # ?entry) = Some (0 # ?entry)"
    using assms by (intro whole_vec16) (simp add: as_bytes_def)
  moreover have "whole_vec 2 ?entry = Some (as_bytes name)"
    using assms by (intro whole_vec16) (simp add: as_bytes_def)
  ultimately show ?thesis by (simp add: read_server_name_def)
qed

lemma read_share:
  "read_key_share (be16 36 @ key_share_entry seed) = Some (KeyShare 29 (map (key_share_byte seed) [0..<32]))"
  using whole_vec16 [of "key_share_entry seed"] whole_vec16 [of "map (key_share_byte seed) [0..<32]"]
  by (simp add: read_key_share_def key_share_entry_def be16_def)

definition fixed_extensions :: "u64 \<Rightarrow> (nat \<times> bytes) list" where
  "fixed_extensions seed =
     [(43, [4, 3, 4, 3, 3]), (10, [0, 4, 0, 29, 0, 23]), (13, [0, 4, 4, 3, 8, 4]),
      (51, be16 36 @ key_share_entry seed)]"

lemma hello_extensions_alt:
  "hello_extensions name seed = sni_extension name @ tls_ext 43 [4, 3, 4, 3, 3] @ tls_ext 10 [0, 4, 0, 29, 0, 23]
     @ tls_ext 13 [0, 4, 4, 3, 8, 4] @ tls_ext 51 (be16 36 @ key_share_entry seed) @ []"
  by (simp add: hello_extensions_def tls_ext_def)

lemma read_extensions_fixed:
  "read_extensions (Suc (Suc (Suc (Suc fuel)))) (tls_ext 43 [4, 3, 4, 3, 3] @ tls_ext 10 [0, 4, 0, 29, 0, 23]
     @ tls_ext 13 [0, 4, 4, 3, 8, 4] @ tls_ext 51 (be16 36 @ key_share_entry seed) @ []) = Some (fixed_extensions seed)"
  by (simp add: read_extensions_ext fixed_extensions_def del: append_Nil2)

lemma read_extensions_block:
  assumes "length name \<le> 16000"
  shows "read_extensions (Suc (Suc (Suc (Suc (Suc fuel))))) (hello_extensions name seed) =
    Some ((if name \<noteq> [] \<and> \<not> is_ip_literal name then [(0, sni_body name)] else []) @ fixed_extensions seed)"
  using assms
  by (simp add: hello_extensions_alt sni_extension_def read_extensions_ext length_sni_body read_extensions_fixed
      del: append_Nil2)

lemma read_fixed:
  "all_some (map read_extension (fixed_extensions seed)) =
    Some [SupportedVersions [0x0304, 0x0303], SupportedGroups [0x1d, 0x17],
          SignatureAlgorithms [0x0403, 0x0804], KeyShare 0x1d (map (key_share_byte seed) [0..<32])]"
  by (simp add: fixed_extensions_def read_extension_def read_share whole_vec_def take_vec_def be_nat_def)

lemma read_block:
  assumes "length name \<le> 16000"
  shows "\<exists>exts. read_extensions (length (hello_extensions name seed)) (hello_extensions name seed) = Some exts \<and>
    distinct (map fst exts) \<and>
    all_some (map read_extension exts) =
      Some ((if name \<noteq> [] \<and> \<not> is_ip_literal name then [ServerName (as_bytes name)] else [])
        @ [SupportedVersions [0x0304, 0x0303], SupportedGroups [0x1d, 0x17],
           SignatureAlgorithms [0x0403, 0x0804], KeyShare 0x1d (map (key_share_byte seed) [0..<32])])"
proof -
  define fuel where "fuel = length (hello_extensions name seed) - 5"
  have "length (hello_extensions name seed) = Suc (Suc (Suc (Suc (Suc fuel))))"
    using length_hello_extensions [of name seed] unfolding fuel_def by linarith
  moreover have "read_extension (0, sni_body name) = Some (ServerName (as_bytes name))"
    using read_sni [OF assms] by (simp add: read_extension_def)
  moreover have "distinct (map fst (fixed_extensions seed))" "0 \<notin> set (map fst (fixed_extensions seed))"
    by (simp_all add: fixed_extensions_def)
  ultimately show ?thesis using read_extensions_block [OF assms] by (simp add: read_fixed)
qed

lemma read_hello_body_client:
  assumes "length name \<le> 16000"
  shows "read_hello_body (hello_body name s1 s2) = Some \<lparr>th_version = 0x0303,
    th_random = map (random_byte s2) [0..<32], th_session = [], th_suites = [0x1301, 0x1302, 0x1303, 0xc02f],
    th_compression = [0],
    th_extensions = (if name \<noteq> [] \<and> \<not> is_ip_literal name then [ServerName (as_bytes name)] else [])
      @ [SupportedVersions [0x0304, 0x0303], SupportedGroups [0x1d, 0x17],
         SignatureAlgorithms [0x0403, 0x0804], KeyShare 0x1d (map (key_share_byte s1) [0..<32])]\<rparr>"
proof -
  let ?ext = "hello_extensions name s1"
  let ?r = "map (random_byte s2) [0..<32]"
  let ?suites = "[0x13, 0x01, 0x13, 0x02, 0x13, 0x03, 0xc0, 0x2f] :: bytes"
  let ?tail = "be16 (of_nat (length ?ext)) @ ?ext"
  have body: "hello_body name s1 s2 = be16 0x0303 @ ?r @ [0] @ (be16 8 @ ?suites) @ [1, 0] @ ?tail"
    by (simp add: hello_body_def)
  have r: "length ?r = 32" by simp
  have d34: "drop 34 (hello_body name s1 s2) = [0] @ (be16 8 @ ?suites) @ [1, 0] @ ?tail"
    unfolding body by (simp add: be16_def)
  have d2: "take 2 (hello_body name s1 s2) = be16 0x0303" "take 32 (drop 2 (hello_body name s1 s2)) = ?r"
    unfolding body by (simp_all add: be16_def)
  have v: "be_nat (be16 0x0303) = 0x0303" by (simp add: be_nat_be16)
  have t1: "take_vec 1 ([0] @ (be16 8 @ ?suites) @ [1, 0] @ ?tail) = Some ([], (be16 8 @ ?suites) @ [1, 0] @ ?tail)"
    using take_vec_append [of "[0]" 1 "[]"] by (simp add: be_nat_def)
  have t2: "take_vec 2 ((be16 8 @ ?suites) @ [1, 0] @ ?tail) = Some (?suites, [1, 0] @ ?tail)"
    using take_vec16 [of ?suites "[1, 0] @ ?tail"] by simp
  have t3: "take_vec 1 ([1, 0] @ ?tail) = Some ([0], ?tail)"
    using take_vec_append [of "[1]" 1 "[0]"] by (simp add: be_nat_def)
  have t4: "whole_vec 2 ?tail = Some ?ext"
    using assms length_hello_extensions [of name s1] by (intro whole_vec16) linarith
  have l: "\<not> length (hello_body name s1 s2) < 34" by (simp add: length_hello_body)
  obtain exts where "read_extensions (length ?ext) ?ext = Some exts" "distinct (map fst exts)"
    "all_some (map read_extension exts) =
      Some ((if name \<noteq> [] \<and> \<not> is_ip_literal name then [ServerName (as_bytes name)] else [])
        @ [SupportedVersions [0x0304, 0x0303], SupportedGroups [0x1d, 0x17],
           SignatureAlgorithms [0x0403, 0x0804], KeyShare 0x1d (map (key_share_byte s1) [0..<32])])"
    using read_block [OF assms] by blast
  then show ?thesis unfolding read_hello_body_def d34 d2 v if_not_P [OF l] t1 Option.bind.simps prod.case
    t2 t3 t4 by simp
qed

text \<open>
  C32: The ClientHello is what a server must be able to read. A reader written from the grammar of RFC 8446
  and RFC 6066, in which every length field has to match what it encloses and every list of 16-bit
  values has to be even, takes the record apart into TLS 1.2 as legacy version, 32 bytes of random, no session, the four
  cipher suites, null compression, the server name exactly when the name is neither empty nor an IP
  literal, the versions 1.3 and 1.2, the groups x25519 and secp256r1, the two signature algorithms, and one
  x25519 key share of 32 bytes. Names are at most 16000 bytes, so that the hello fits one TLS record.
\<close>

theorem client_hello_wf:
  assumes "length name \<le> 16000"
  shows "\<exists>random key. length random = 32 \<and> length key = 32 \<and>
    read_hello (client_hello name s1 s2) = Some \<lparr>th_version = 0x0303, th_random = random, th_session = [],
      th_suites = [0x1301, 0x1302, 0x1303, 0xc02f], th_compression = [0],
      th_extensions = (if name \<noteq> [] \<and> \<not> is_ip_literal name then [ServerName (as_bytes name)] else [])
        @ [SupportedVersions [0x0304, 0x0303], SupportedGroups [0x1d, 0x17],
           SignatureAlgorithms [0x0403, 0x0804], KeyShare 0x1d key]\<rparr>"
proof -
  let ?b = "hello_body name s1 s2"
  let ?h = "[of_nat (length ?b div 65536), of_nat (length ?b div 256), of_nat (length ?b)] @ ?b"
  have lb: "length ?b \<le> 16129" using assms length_hello_extensions [of name s1] by (simp add: length_hello_body)
  have "whole_vec 2 (be16 (of_nat (length (1 # ?h))) @ 1 # ?h) = Some (1 # ?h)"
    by (rule whole_vec16) (use lb in simp)
  moreover have "whole_vec 3 ?h = Some ?b"
    using take_vec_append [of "[of_nat (length ?b div 65536), of_nat (length ?b div 256), of_nat (length ?b)]" 3 ?b "[]"]
      be_nat_be24 [of "length ?b"] lb by (simp add: whole_vec_def)
  moreover have "length ?h < 2 ^ 14" using lb by simp
  moreover have "client_hello name s1 s2 = 22 # 3 # 1 # be16 (of_nat (length (1 # ?h))) @ 1 # ?h"
    by (simp add: client_hello_def Let_def be16_def)
  ultimately have "read_hello (client_hello name s1 s2) = read_hello_body ?b"
    by (simp add: read_hello_def del: length_append)
  then show ?thesis unfolding read_hello_body_client [OF assms]
    by (intro exI [of _ "map (random_byte s2) [0..<32]"] exI [of _ "map (key_share_byte s1) [0..<32]"]) simp
qed

theorem client_hello_wf_witness:
  "\<exists>h. read_hello (client_hello ''one.one'' 7 9) = Some h \<and>
     ServerName (as_bytes ''one.one'') \<in> set (th_extensions h)"
proof -
  have "\<not> is_ip_literal ''one.one''" by code_simp
  then show ?thesis using client_hello_wf [of "''one.one''" 7 9] by auto
qed

section \<open>The probe\<close>

lemma classify_reply_total: "\<exists>r. classify_reply buf = Some r"
  by (cases buf) (auto simp: classify_reply_def get_def)

text \<open>No reply panics the classification: the probe always gives a result.\<close>

lemma tls_probe_total: "\<exists>r. tls_probe env target name ctx = Some r"
proof -
  have "classify_reply buf \<noteq> None" for buf using classify_reply_total [of buf] by auto
  then have "tls_probe env target name ctx \<noteq> None"
    by (auto simp: tls_probe_def Let_def split: sum.splits option.splits tls_read.splits)
  then show ?thesis by blast
qed

text \<open>
  The probe claims success only for a ServerHello: it is ok exactly when the pinned TCP
  connection was made, the hello was written, and the first bytes back are a handshake record
  whose message type is ServerHello.
\<close>

lemma tls_probe_ok_iff:
  "(\<exists>r. tls_probe env target name ctx = Some r \<and> pr_ok r) \<longleftrightarrow>
   (\<exists>l buf. connect_stream (tl_tcp env) target ctx = Inr l \<and>
      tl_write env (client_hello name (tl_seed1 env) (tl_seed2 env)) = None \<and>
      tl_read env (client_hello name (tl_seed1 env) (tl_seed2 env)) = TlsRead buf \<and>
      6 \<le> length buf \<and> buf ! 0 = 0x16 \<and> buf ! 5 = 0x02)"
proof -
  have c: "classify_reply (take 1024 buf) = Some ServerHello \<longleftrightarrow> 6 \<le> length buf \<and> buf ! 0 = 0x16 \<and> buf ! 5 = 0x02"
    for buf by (cases buf) (auto simp: classify_reply_def get_def)
  have e: "classify_reply [] = Some EmptyReply" by (simp add: classify_reply_def)
  show ?thesis
    apply (auto simp: tls_probe_def Let_def c [symmetric] e split: sum.splits option.splits tls_read.splits
        hello_reply.splits)
    subgoal for buf l r reply by (cases reply) auto
    done
qed

end
