(* ===== verification/Checks.thy ===== *)
theory Checks
  imports Correlate Watch Mtu Dns Tls
begin

text \<open>
  The structural checks of the diagnosis engine (\<^verbatim>\<open>daemon/src/diag/mod.rs\<close>): identifiers, the
  check builder, the state all checks share, and the checks that only read that state. The reading
  of a check's stopwatch is an argument, a function of the check.
\<close>

section \<open>Identifiers and results\<close>

datatype check_id =
  CI_Unspecified | CI_AndroidNetworkState | CI_ActiveInterface | CI_Ipv4Address | CI_Ipv6Address
| CI_Ipv4DefaultRoute | CI_Ipv6DefaultRoute | CI_GatewayReachabilityV4 | CI_GatewayReachabilityV6
| CI_DnsA | CI_DnsAaaa | CI_TcpV4 | CI_TcpV6 | CI_TlsHandshake | CI_PrivateDns | CI_Nat64Dns64
| CI_VpnRouting | CI_FirewallAnomaly | CI_MtuPmtu | CI_SuspiciousTcpStates
| CI_FrameworkKernelAgreement | CI_RoutingRuleCoverage | CI_DnsLatency | CI_CaptivePortal
| CI_RouteLookupV4 | CI_RouteLookupV6

fun check_id_i32 :: "check_id \<Rightarrow> int" where
  "check_id_i32 CI_Unspecified = 0"
| "check_id_i32 CI_AndroidNetworkState = 1"
| "check_id_i32 CI_ActiveInterface = 2"
| "check_id_i32 CI_Ipv4Address = 3"
| "check_id_i32 CI_Ipv6Address = 4"
| "check_id_i32 CI_Ipv4DefaultRoute = 5"
| "check_id_i32 CI_Ipv6DefaultRoute = 6"
| "check_id_i32 CI_GatewayReachabilityV4 = 7"
| "check_id_i32 CI_GatewayReachabilityV6 = 8"
| "check_id_i32 CI_DnsA = 9"
| "check_id_i32 CI_DnsAaaa = 10"
| "check_id_i32 CI_TcpV4 = 11"
| "check_id_i32 CI_TcpV6 = 12"
| "check_id_i32 CI_TlsHandshake = 13"
| "check_id_i32 CI_PrivateDns = 14"
| "check_id_i32 CI_Nat64Dns64 = 15"
| "check_id_i32 CI_VpnRouting = 16"
| "check_id_i32 CI_FirewallAnomaly = 17"
| "check_id_i32 CI_MtuPmtu = 18"
| "check_id_i32 CI_SuspiciousTcpStates = 19"
| "check_id_i32 CI_FrameworkKernelAgreement = 20"
| "check_id_i32 CI_RoutingRuleCoverage = 21"
| "check_id_i32 CI_DnsLatency = 22"
| "check_id_i32 CI_CaptivePortal = 23"
| "check_id_i32 CI_RouteLookupV4 = 24"
| "check_id_i32 CI_RouteLookupV6 = 25"

fun check_key :: "check_id \<Rightarrow> string" where
  "check_key CI_Unspecified = ''unspecified''"
| "check_key CI_AndroidNetworkState = ''android.state''"
| "check_key CI_ActiveInterface = ''iface.active''"
| "check_key CI_Ipv4Address = ''addr.v4''"
| "check_key CI_Ipv6Address = ''addr.v6''"
| "check_key CI_Ipv4DefaultRoute = ''route.v4.default''"
| "check_key CI_Ipv6DefaultRoute = ''route.v6.default''"
| "check_key CI_GatewayReachabilityV4 = ''gateway.v4''"
| "check_key CI_GatewayReachabilityV6 = ''gateway.v6''"
| "check_key CI_DnsA = ''dns.a''"
| "check_key CI_DnsAaaa = ''dns.aaaa''"
| "check_key CI_TcpV4 = ''tcp.v4''"
| "check_key CI_TcpV6 = ''tcp.v6''"
| "check_key CI_TlsHandshake = ''tls.handshake''"
| "check_key CI_PrivateDns = ''dns.private''"
| "check_key CI_Nat64Dns64 = ''nat64.dns64''"
| "check_key CI_VpnRouting = ''vpn.routing''"
| "check_key CI_FirewallAnomaly = ''firewall.anomaly''"
| "check_key CI_MtuPmtu = ''mtu.pmtu''"
| "check_key CI_SuspiciousTcpStates = ''sockets.states''"
| "check_key CI_FrameworkKernelAgreement = ''framework.kernel''"
| "check_key CI_RoutingRuleCoverage = ''rules.coverage''"
| "check_key CI_DnsLatency = ''dns.latency''"
| "check_key CI_CaptivePortal = ''captive.portal''"
| "check_key CI_RouteLookupV4 = ''route.lookup.v4''"
| "check_key CI_RouteLookupV6 = ''route.lookup.v6''"

datatype check_status =
  ST_Unspecified | ST_Pass | ST_Fail | ST_Warn | ST_Skip | ST_Info | ST_Running

record check =
  ck_id :: check_id
  ck_key :: string
  ck_title :: string
  ck_status :: check_status
  ck_detail :: string
  ck_duration_ms :: nat
  ck_evidence :: "string \<rightharpoonup> string"
  ck_family :: ip_family
  ck_error :: "error option"
  ck_depends_on :: "string list"

section \<open>The builder\<close>

record check_builder =
  cb_check :: check
  cb_elapsed_ms :: nat

type_synonym clocks = "check_id \<Rightarrow> nat"

definition cb_new :: "clocks \<Rightarrow> check_id \<Rightarrow> string \<Rightarrow> check_builder" where
  "cb_new clk i title =
     \<lparr>cb_check = \<lparr>ck_id = i, ck_key = check_key i, ck_title = title, ck_status = ST_Unspecified,
        ck_detail = [], ck_duration_ms = 0, ck_evidence = Map.empty, ck_family = Family_Unspecified,
        ck_error = None, ck_depends_on = []\<rparr>,
      cb_elapsed_ms = clk i\<rparr>"

definition on_check :: "(check \<Rightarrow> check) \<Rightarrow> check_builder \<Rightarrow> check_builder" where
  "on_check f b = b\<lparr>cb_check := f (cb_check b)\<rparr>"

definition set_family :: "check_builder \<Rightarrow> ip_family \<Rightarrow> check_builder" where
  "set_family b f = on_check (ck_family_update (\<lambda>_. f)) b"

definition depends_on :: "check_builder \<Rightarrow> string list \<Rightarrow> check_builder" where
  "depends_on b ks = on_check (ck_depends_on_update (\<lambda>_. ks)) b"

definition ev :: "check_builder \<Rightarrow> string \<Rightarrow> string \<Rightarrow> check_builder" where
  "ev b k v = on_check (\<lambda>c. c\<lparr>ck_evidence := (ck_evidence c)(k \<mapsto> v)\<rparr>) b"

text \<open>A chain of \<open>ev\<close> calls, in order.\<close>

definition evs :: "check_builder \<Rightarrow> (string \<times> string) list \<Rightarrow> check_builder" where
  "evs b kvs = foldl (\<lambda>b (k, v). ev b k v) b kvs"

definition finish_check :: "check_builder \<Rightarrow> check_status \<Rightarrow> string \<Rightarrow> check" where
  "finish_check b status detail =
     (cb_check b)\<lparr>ck_status := status, ck_detail := detail, ck_duration_ms := cb_elapsed_ms b\<rparr>"

definition pass :: "check_builder \<Rightarrow> string \<Rightarrow> check" where "pass b d = finish_check b ST_Pass d"
definition fail :: "check_builder \<Rightarrow> string \<Rightarrow> check" where "fail b d = finish_check b ST_Fail d"
definition warn :: "check_builder \<Rightarrow> string \<Rightarrow> check" where "warn b d = finish_check b ST_Warn d"
definition skip :: "check_builder \<Rightarrow> string \<Rightarrow> check" where "skip b d = finish_check b ST_Skip d"
definition info :: "check_builder \<Rightarrow> string \<Rightarrow> check" where "info b d = finish_check b ST_Info d"

definition with_probe :: "check_builder \<Rightarrow> probe_result \<Rightarrow> check" where
  "with_probe b r =
     (let b1 = evs (on_check (ck_error_update (\<lambda>_. to_error r)) b) (pr_evidence r);
          c = (if pr_ok r then pass b1 (pr_detail r) else fail b1 (pr_detail r))
      in c\<lparr>ck_duration_ms := pr_duration_ms r\<rparr>)"

section \<open>Requests and the shared state\<close>

record diagnose_target =
  dt_hostname :: string
  dt_ipv4_endpoint :: "ip_address option"
  dt_ipv6_endpoint :: "ip_address option"
  dt_tcp_port :: nat
  dt_as_uid :: nat
  dt_has_as_uid :: bool
  dt_net_id :: int
  dt_timeout_ms :: nat

definition default_target :: diagnose_target where
  "default_target = \<lparr>dt_hostname = [], dt_ipv4_endpoint = None, dt_ipv6_endpoint = None, dt_tcp_port = 0,
     dt_as_uid = 0, dt_has_as_uid = False, dt_net_id = 0, dt_timeout_ms = 0\<rparr>"

record diagnose_request =
  dr_target :: "diagnose_target option"
  dr_android_state :: "android_network_state option"
  dr_passive_only :: bool
  dr_only :: "int list"
  dr_skip :: "int list"

definition target_of :: "diagnose_request \<Rightarrow> diagnose_target" where
  "target_of r = (case dr_target r of Some t \<Rightarrow> t | None \<Rightarrow> default_target)"

record diag_state =
  dg_interfaces :: "interface list"
  dg_rules :: "routing_rule list"
  dg_routes :: "route list"
  dg_neighbors :: "neighbor list"
  dg_sockets :: "socket list"
  dg_socket_summary :: socket_summary
  dg_clat :: clat_state
  dg_network :: "android_network option"
  dg_net_id :: int
  dg_probe_ctx_v4 :: probe_context
  dg_probe_ctx_v6 :: probe_context
  dg_lookup_v4 :: route_lookup_result
  dg_lookup_v6 :: route_lookup_result
  dg_egress_v4 :: "interface option"
  dg_egress_v6 :: "interface option"
  dg_dns_servers :: "ip_addr list"
  dg_dns_from_framework :: bool
  dg_hostname :: string
  dg_v4_endpoint :: socket_addr
  dg_v6_endpoint :: socket_addr
  dg_timeout_ms :: nat

definition DEFAULT_HOSTNAME :: string where "DEFAULT_HOSTNAME = ''connectivitycheck.gstatic.com''"
definition DEFAULT_V4_ENDPOINT :: ip_addr where "DEFAULT_V4_ENDPOINT = V4 [1, 1, 1, 1]"
definition DEFAULT_V6_ENDPOINT :: ip_addr where
  "DEFAULT_V6_ENDPOINT = V6 [0x26, 0x06, 0x47, 0x00, 0x47, 0x00, 0, 0, 0, 0, 0, 0, 0, 0, 0x11, 0x11]"
definition DEFAULT_TCP_PORT :: nat where "DEFAULT_TCP_PORT = 443"
definition FALLBACK_DNS_V4 :: ip_addr where "FALLBACK_DNS_V4 = V4 [1, 1, 1, 1]"
definition FALLBACK_DNS_V6 :: ip_addr where
  "FALLBACK_DNS_V6 = V6 [0x26, 0x06, 0x47, 0x00, 0x47, 0x00, 0, 0, 0, 0, 0, 0, 0, 0, 0x11, 0x11]"
definition SYN_SENT_THRESHOLD :: nat where "SYN_SENT_THRESHOLD = 5"
definition CLOSE_WAIT_THRESHOLD :: nat where "CLOSE_WAIT_THRESHOLD = 20"

section \<open>Names in evidence\<close>

fun family_label :: "ip_family \<Rightarrow> string" where
  "family_label Family_V4 = ''IPv4''"
| "family_label Family_V6 = ''IPv6''"
| "family_label Family_Unspecified = ''any''"

fun show_link_kind :: "link_kind \<Rightarrow> string" where
  "show_link_kind LK_Unspecified = ''Unspecified''"
| "show_link_kind LK_Loopback = ''Loopback''"
| "show_link_kind LK_Ethernet = ''Ethernet''"
| "show_link_kind LK_Wifi = ''Wifi''"
| "show_link_kind LK_Cellular = ''Cellular''"
| "show_link_kind LK_VpnTun = ''VpnTun''"
| "show_link_kind LK_Bluetooth = ''Bluetooth''"
| "show_link_kind LK_Bridge = ''Bridge''"
| "show_link_kind LK_Dummy = ''Dummy''"
| "show_link_kind LK_Clat = ''Clat''"
| "show_link_kind LK_Other = ''Other''"

fun show_oper_state :: "oper_state \<Rightarrow> string" where
  "show_oper_state OS_Unspecified = ''Unspecified''"
| "show_oper_state OS_Unknown = ''Unknown''"
| "show_oper_state OS_NotPresent = ''NotPresent''"
| "show_oper_state OS_Down = ''Down''"
| "show_oper_state OS_LowerLayerDown = ''LowerLayerDown''"
| "show_oper_state OS_Testing = ''Testing''"
| "show_oper_state OS_Dormant = ''Dormant''"
| "show_oper_state OS_Up = ''Up''"

fun show_addr_scope :: "addr_scope \<Rightarrow> string" where
  "show_addr_scope SC_Unspecified = ''Unspecified''"
| "show_addr_scope SC_Global = ''Global''"
| "show_addr_scope SC_Site = ''Site''"
| "show_addr_scope SC_Link = ''Link''"
| "show_addr_scope SC_Host = ''Host''"
| "show_addr_scope SC_Nowhere = ''Nowhere''"

definition opt_name :: "interface option \<Rightarrow> string" where
  "opt_name x = (case x of Some i \<Rightarrow> if_name i | None \<Rightarrow> ''none'')"

text \<open>\<open>Option::or\<close>.\<close>

definition or_else :: "'a option \<Rightarrow> 'a option \<Rightarrow> 'a option" where
  "or_else a b = (case a of Some x \<Rightarrow> Some x | None \<Rightarrow> b)"

definition flag_up :: "interface \<Rightarrow> bool" where
  "flag_up i = (case if_flags i of Some f \<Rightarrow> fl_up f | None \<Rightarrow> False)"

definition flag_running :: "interface \<Rightarrow> bool" where
  "flag_running i = (case if_flags i of Some f \<Rightarrow> fl_running f | None \<Rightarrow> False)"

text \<open>The first hop of a route, or the default hop of an empty list.\<close>

definition first_hop_of :: "route \<Rightarrow> next_hop" where
  "first_hop_of r = (case rt_next_hops r of h # _ \<Rightarrow> h
     | [] \<Rightarrow> \<lparr>nh_gateway = None, nh_out_interface_index = 0, nh_out_interface_name = [], nh_weight = 0, nh_flags = 0\<rparr>)"

definition gateway_text :: "next_hop \<Rightarrow> string" where
  "gateway_text h = (case nh_gateway h of Some g \<Rightarrow> display g | None \<Rightarrow> ''on-link'')"

definition sorted_tables :: "nat list \<Rightarrow> string" where
  "sorted_tables ts = join '', '' (map dec (dedup (sort_by cmp_of ts)))"

section \<open>Structural checks\<close>

definition transport_text :: "int \<Rightarrow> string" where
  "transport_text t = (case transport_try_from t of Some x \<Rightarrow> transport_name x | None \<Rightarrow> ''transport '' @ dec_int t)"

definition check_android_state :: "clocks \<Rightarrow> diag_state \<Rightarrow> diagnose_request \<Rightarrow> check" where
  "check_android_state clk state request =
     (let builder = cb_new clk CI_AndroidNetworkState ''Android framework network state''
      in case dr_android_state request of
           None \<Rightarrow> skip builder ''the app did not supply ConnectivityManager state, so framework-level checks cannot run''
         | Some android \<Rightarrow>
        (case dg_network state of
           None \<Rightarrow> fail (ev builder ''networks'' (dec (length (as_networks android))))
                     ''ConnectivityManager reports no usable network''
         | Some network \<Rightarrow>
             (let caps = caps_of network;
                  transports = map transport_text (an_transports network);
                  id_text = dec_int (an_net_id network);
                  builder = evs builder
                    [(''net_id'', id_text),
                     (''net_id_under_test'', dec_int (dg_net_id state)),
                     (''probe_timeout_ms'', dec (dg_timeout_ms state)),
                     (''network_handle'', dec (an_network_handle network)),
                     (''transports'', join '', '' transports),
                     (''validated'', show_bool (nc_validated caps)),
                     (''internet_capability'', show_bool (nc_internet caps)),
                     (''metered'', show_bool (\<not> nc_not_metered caps)),
                     (''captive_portal'', show_bool (nc_captive_portal caps)),
                     (''is_default'', show_bool (an_is_default network)),
                     (''interface'', case an_link_properties network of Some lp \<Rightarrow> lp_interface_name lp | None \<Rightarrow> [])]
              in if \<not> nc_internet caps then
                   fail builder (''network '' @ id_text @ '' does not claim NET_CAPABILITY_INTERNET'')
                 else if nc_captive_portal caps then
                   warn builder (''network '' @ id_text @ '' is behind a captive portal according to the framework'')
                 else if \<not> nc_validated caps then
                   warn builder (''network '' @ id_text @ '' has INTERNET but not VALIDATED: Android could not confirm end-to-end connectivity'')
                 else if nc_partial_connectivity caps then
                   warn builder (''network '' @ id_text @ '' reports partial connectivity'')
                 else pass builder (''network '' @ id_text @ '' is VALIDATED over '' @ join ''+'' transports))))"

definition check_active_interface :: "clocks \<Rightarrow> diag_state \<Rightarrow> check" where
  "check_active_interface clk state =
     (let builder = cb_new clk CI_ActiveInterface ''Active egress interface''
      in case or_else (dg_egress_v4 state) (dg_egress_v6 state) of
           None \<Rightarrow> fail builder ''the kernel has no route to the internet for either family; nothing would leave the device''
         | Some iface \<Rightarrow>
             (let builder = evs builder
                    [(''interface'', if_name iface),
                     (''index'', dec (if_index iface)),
                     (''mtu'', dec (if_mtu iface)),
                     (''kind'', show_link_kind (if_kind iface)),
                     (''oper_state'', show_oper_state (if_oper_state iface)),
                     (''egress_v4'', opt_name (dg_egress_v4 state)),
                     (''egress_v6'', opt_name (dg_egress_v6 state))]
              in if \<not> flag_up iface then fail builder (if_name iface @ '' is the egress interface but is not UP'')
                 else if \<not> flag_running iface then
                   warn builder (if_name iface @ '' is UP but has no carrier (IFF_RUNNING is clear)'')
                 else pass builder (''traffic leaves via '' @ if_name iface @ '' (index '' @ dec (if_index iface)
                   @ '', MTU '' @ dec (if_mtu iface) @ '')'')))"

definition lookup_of :: "diag_state \<Rightarrow> ip_family \<Rightarrow> route_lookup_result" where
  "lookup_of state family = (if family = Family_V6 then dg_lookup_v6 state else dg_lookup_v4 state)"

definition check_route_lookup :: "clocks \<Rightarrow> diag_state \<Rightarrow> ip_family \<Rightarrow> check" where
  "check_route_lookup clk state family =
     (let (i, lookup, target) =
            (if family = Family_V6 then (CI_RouteLookupV6, dg_lookup_v6 state, DEFAULT_V6_ENDPOINT)
             else (CI_RouteLookupV4, dg_lookup_v4 state, DEFAULT_V4_ENDPOINT));
          builder = evs (set_family (cb_new clk i (''Kernel route lookup ('' @ family_label family @ '')'')) family)
            [(''destination'', show_ip target),
             (''mark'', ''0x'' @ hex (lk_fwmark lookup)),
             (''uid'', dec (lk_uid lookup))]
      in case lk_error lookup of
           Some err \<Rightarrow> fail builder (''the kernel could not route to '' @ show_ip target @ '': '' @ err_message err)
         | None \<Rightarrow>
        (case lk_route lookup of
           None \<Rightarrow> fail builder (''the kernel returned no route to '' @ show_ip target)
         | Some route \<Rightarrow>
             (let hop = first_hop_of route; gateway = gateway_text hop
              in info (evs builder
                   [(''table'', dec (rt_table route) @ '' ('' @ rt_table_name route @ '')''),
                    (''out_interface'', nh_out_interface_name hop),
                    (''gateway'', gateway),
                    (''source'', case rt_preferred_source route of Some a \<Rightarrow> display a | None \<Rightarrow> [])])
                 (''packets to '' @ show_ip target @ '' take table '' @ dec (rt_table route) @ '' out of ''
                  @ nh_out_interface_name hop @ '' via '' @ gateway))))"

definition address_is :: "ip_family \<Rightarrow> link_address \<Rightarrow> bool" where
  "address_is family a =
     (case Option.bind (la_prefix a) prefix_ip of
        Some ip \<Rightarrow> if family = Family_V6 then is_ipv6 ip else is_ipv4 ip
      | None \<Rightarrow> False)"

definition address_text :: "link_address \<Rightarrow> string" where
  "address_text a =
     (case la_prefix a of Some p \<Rightarrow> prefix_display p | None \<Rightarrow> []) @ '' ('' @ show_addr_scope (la_scope a) @ '')''"

definition check_address :: "clocks \<Rightarrow> diag_state \<Rightarrow> ip_family \<Rightarrow> check" where
  "check_address clk state family =
     (let (i, egress) =
            (if family = Family_V6 then (CI_Ipv6Address, dg_egress_v6 state) else (CI_Ipv4Address, dg_egress_v4 state));
          label = family_label family;
          builder = depends_on (set_family (cb_new clk i (label @ '' address assigned'')) family) [''iface.active'']
      in case or_else (or_else egress (dg_egress_v4 state)) (dg_egress_v6 state) of
           None \<Rightarrow> skip builder ''no egress interface was identified''
         | Some iface \<Rightarrow>
             (let addresses = join '', '' (map address_text (filter (address_is family) (if_addresses iface)));
                  builder = evs builder [(''interface'', if_name iface), (''addresses'', addresses)];
                  builder =
                    (if family = Family_V6 then
                       evs builder
                         [(''disable_ipv6'', show_bool (case if_sysctls iface of Some s \<Rightarrow> sy_ipv6_disabled s | None \<Rightarrow> False)),
                          (''accept_ra'', dec_int (case if_sysctls iface of Some s \<Rightarrow> sy_accept_ra s | None \<Rightarrow> 0))]
                     else builder);
                  tentative = list_ex (\<lambda>a. (case la_flags a of Some f \<Rightarrow> af_tentative f | None \<Rightarrow> False)
                    \<and> address_is Family_V6 a) (if_addresses iface)
              in if has_global_address iface family then
                   pass builder (if_name iface @ '' has a global '' @ label @ '' address: '' @ addresses)
                 else if family = Family_V6 \<and> tentative then
                   warn builder (if_name iface @ '' has only tentative IPv6 addresses; duplicate address detection has not finished'')
                 else if family = Family_V6 \<and> (case if_sysctls iface of Some s \<Rightarrow> sy_ipv6_disabled s | None \<Rightarrow> False) then
                   fail builder (''IPv6 is disabled on '' @ if_name iface @ '' by the disable_ipv6 sysctl'')
                 else fail builder (if_name iface @ '' has no global '' @ label @ '' address'')))"

definition describe_route :: "route \<Rightarrow> string" where
  "describe_route r =
     ''table '' @ dec (rt_table r) @ '' via '' @ gateway_text (first_hop_of r) @ '' dev ''
     @ nh_out_interface_name (first_hop_of r) @ '' metric '' @ dec (rt_priority r)"

definition check_default_route :: "clocks \<Rightarrow> diag_state \<Rightarrow> ip_family \<Rightarrow> check" where
  "check_default_route clk state family =
     (let (i, lookup) =
            (if family = Family_V6 then (CI_Ipv6DefaultRoute, dg_lookup_v6 state)
             else (CI_Ipv4DefaultRoute, dg_lookup_v4 state));
          label = family_label family;
          table = map_option rt_table (lk_route lookup);
          defaults = filter (\<lambda>r. rt_is_default r \<and> rt_family r = family) (dg_routes state);
          in_table = filter (\<lambda>r. Some (rt_table r) = table) defaults;
          builder = evs (set_family (cb_new clk i (label @ '' default route'')) family)
            [(''selected_table'', case table of Some t \<Rightarrow> dec t | None \<Rightarrow> ''none''),
             (''default_routes_total'', dec (length defaults)),
             (''all_default_routes'', join '' | '' (map describe_route defaults))]
      in case in_table of
           [] \<Rightarrow>
             if defaults = [] then fail builder (''there is no '' @ label @ '' default route in any table'')
             else (case table of
                 None \<Rightarrow>
                   fail builder (dec (length defaults) @ '' default route(s) exist (in table(s) ''
                     @ sorted_tables (map rt_table defaults)
                     @ '') but the kernel's policy lookup reaches none of them, so this traffic has no ''
                     @ label @ '' path at all'')
               | Some t \<Rightarrow>
                   fail builder (''there are '' @ dec (length defaults) @ '' default route(s) for '' @ label
                     @ '' but none in table '' @ dec t @ '', which is the table this traffic uses''))
         | [r] \<Rightarrow> pass builder (label @ '' default route present: '' @ describe_route r)
         | _ \<Rightarrow>
             warn builder (''table '' @ dec (case table of Some t \<Rightarrow> t | None \<Rightarrow> 0) @ '' has ''
               @ dec (length in_table) @ '' competing '' @ label @ '' default routes''))"

definition check_rule_coverage :: "clocks \<Rightarrow> diag_state \<Rightarrow> check" where
  "check_rule_coverage clk state =
     (let rules = dg_rules state;
          uid_rules = filter rl_has_uid_range rules;
          mark_rules = filter rl_has_fwmark rules;
          builder = evs (cb_new clk CI_RoutingRuleCoverage ''Policy routing rule coverage'')
            [(''total_rules'', dec (length rules)),
             (''uid_range_rules'', dec (length uid_rules)),
             (''fwmark_rules'', dec (length mark_rules)),
             (''tables_referenced'', sorted_tables (map rl_table rules))]
      in if rules = [] then
           fail builder ''the kernel reports no policy routing rules at all, which is impossible on a healthy Android device''
         else if mark_rules = [] then
           warn builder ''no fwmark-based rules are installed; Android normally uses them to bind sockets to networks''
         else pass builder (dec (length rules) @ '' rules installed, '' @ dec (length mark_rules)
           @ '' of them selecting on fwmark and '' @ dec (length uid_rules) @ '' on uid ranges''))"

section \<open>VPN and firewall\<close>

definition routed_by :: "nat \<Rightarrow> route \<Rightarrow> bool" where
  "routed_by index r = list_ex (\<lambda>h. nh_out_interface_index h = index) (rt_next_hops r)"

definition has_default_by :: "diag_state \<Rightarrow> ip_family \<Rightarrow> nat \<Rightarrow> bool" where
  "has_default_by state family index =
     list_ex (\<lambda>r. rt_is_default r \<and> rt_family r = family \<and> routed_by index r) (dg_routes state)"

definition ipv6_blackholed :: "diag_state \<Rightarrow> nat option \<Rightarrow> bool" where
  "ipv6_blackholed state vpn_table =
     (list_ex (\<lambda>r. rt_is_default r \<and> rt_family r = Family_V6 \<and> Some (rt_table r) = vpn_table
        \<and> list_ex (\<lambda>h. nh_out_interface_name h = ''lo'' \<or> nh_out_interface_index h = 1) (rt_next_hops r)) (dg_routes state)
      \<or> list_ex (\<lambda>r. rt_is_default r \<and> rt_family r = Family_V6 \<and> Some (rt_table r) = vpn_table
        \<and> (rt_type r = RT_Unreachable \<or> rt_type r = RT_Blackhole \<or> rt_type r = RT_Prohibit)) (dg_routes state))"

definition egress_is :: "nat \<Rightarrow> interface option \<Rightarrow> bool" where
  "egress_is index e = (case e of Some i \<Rightarrow> if_index i = index | None \<Rightarrow> False)"

definition check_vpn :: "clocks \<Rightarrow> diag_state \<Rightarrow> check" where
  "check_vpn clk state =
     (let vpn_ifaces = filter is_up_vpn (dg_interfaces state);
          framework_vpn = (case dg_network state of Some n \<Rightarrow> TRANSPORT_VPN \<in> set (an_transports n) | None \<Rightarrow> False);
          builder = evs (cb_new clk CI_VpnRouting ''VPN routing'')
            [(''vpn_interfaces'', join '', '' (map if_name vpn_ifaces)),
             (''framework_reports_vpn'', show_bool framework_vpn)]
      in case vpn_ifaces of
           [] \<Rightarrow>
             if \<not> framework_vpn then skip builder ''no VPN is active''
             else fail builder ''the framework reports a VPN transport but no tun interface is up in the kernel''
         | vpn # _ \<Rightarrow>
             (let egress_is_vpn = (egress_is (if_index vpn) (dg_egress_v4 state) \<or> egress_is (if_index vpn) (dg_egress_v6 state));
                  vpn_default_v6 = has_default_by state Family_V6 (if_index vpn);
                  vpn_default_v4 = has_default_by state Family_V4 (if_index vpn);
                  vpn_table = map_option rt_table (lk_route (dg_lookup_v4 state));
                  blackholed = ipv6_blackholed state vpn_table;
                  builder = evs builder
                    [(''egress_is_vpn'', show_bool egress_is_vpn),
                     (''vpn_has_ipv6_routes'', show_bool vpn_default_v6),
                     (''vpn_default_route_v4'', show_bool vpn_default_v4),
                     (''ipv6_blackholed_in_vpn_table'', show_bool blackholed),
                     (''vpn_table'', case vpn_table of Some t \<Rightarrow> dec t | None \<Rightarrow> ''?'')]
              in if \<not> egress_is_vpn then
                   warn builder (if_name vpn @ '' is up but this traffic does not go through it; it is being routed around the VPN'')
                 else if \<not> vpn_default_v6 then
                   (if blackholed then
                      info builder (if_name vpn @ '' carries IPv4 only, and IPv6 is deliberately blackholed inside the VPN's routing table; applications fall back to IPv4 cleanly and nothing leaks'')
                    else
                      warn builder (if_name vpn @ '' carries IPv4 but has no IPv6 default route and IPv6 is not blackholed; IPv6 traffic may leave outside the tunnel''))
                 else pass builder (''traffic is routed through '' @ if_name vpn @ '', for both IPv4 and IPv6'')))"

text \<open>The debug text of a list of integers.\<close>

definition show_ints :: "int list \<Rightarrow> string" where
  "show_ints is = ''['' @ join '', '' (map dec_int is) @ '']''"

definition check_firewall :: "clocks \<Rightarrow> firewall_env \<Rightarrow> diagnose_request \<Rightarrow> check" where
  "check_firewall clk fw request =
     (let builder = cb_new clk CI_FirewallAnomaly ''Firewall interaction'';
          target = target_of request
      in if \<not> dt_has_as_uid target then
           (let f = collect fw False
            in info (evs builder
                 [(''backends'', show_ints (fs_backends_detected f)),
                  (''bpf_objects'', dec (length (fs_bpf_pinned_objects f))),
                  (''note'', fs_collection_note f)]) (fs_collection_note f))
         else
           (let uid = dt_as_uid target;
                uid_state = read_uid_firewall fw uid;
                matches = join '', '' (decode_match_bits (uf_raw_match uid_state));
                builder = evs builder
                  [(''uid'', dec uid),
                   (''raw_match'', ''0x'' @ hex (unat (uf_raw_match uid_state))),
                   (''matches'', matches),
                   (''source_available'', show_bool (uf_source_available uid_state))]
            in if \<not> uf_source_available uid_state then
                 skip builder ''netd's eBPF uid_owner_map could not be read, so per-app firewall state is not determinable''
               else if is_unambiguously_denied uid_state then
                 fail builder (''uid '' @ dec uid @ '' is denied by a firewall rule: '' @ matches)
               else if uf_raw_match uid_state = 0 then
                 pass builder (''no per-uid firewall rules apply to uid '' @ dec uid)
               else info builder (''uid '' @ dec uid @ '' has firewall bits set: '' @ matches)))"

section \<open>Sockets, agreement and captive portal\<close>

text \<open>
  The retransmission ratio is a 32-bit float compared with 0.25. The counts are bounded by the
  dump's limit of 4096 rows, where the conversions are exact and a quotient above 0.25 exceeds it by
  more than the rounding, so the comparison is the one on integers.
\<close>

definition check_socket_states :: "clocks \<Rightarrow> diag_state \<Rightarrow> check" where
  "check_socket_states clk state =
     (let summary = dg_socket_summary state;
          syn_sent_v6 = length (filter (\<lambda>s. so_state s = TS_SynSent \<and> so_family s = Family_V6) (dg_sockets state));
          syn_sent_v4 = ss_syn_sent summary - min syn_sent_v6 (ss_syn_sent summary);
          builder = evs (cb_new clk CI_SuspiciousTcpStates ''TCP socket states'')
            [(''syn_sent_v4'', dec syn_sent_v4),
             (''syn_sent_v6'', dec syn_sent_v6),
             (''total'', dec (ss_total summary)),
             (''established'', dec (ss_established summary)),
             (''syn_sent'', dec (ss_syn_sent summary)),
             (''close_wait'', dec (ss_close_wait summary)),
             (''fin_wait'', dec (ss_fin_wait summary)),
             (''time_wait'', dec (ss_time_wait summary)),
             (''retransmitting'', dec (ss_retransmitting summary))]
      in if ss_total summary = 0 then skip builder ''no sockets were readable''
         else if ss_syn_sent summary \<ge> SYN_SENT_THRESHOLD then
           fail builder (dec (ss_syn_sent summary) @ '' sockets are stuck in SYN_SENT: SYNs are leaving and nothing is answering'')
         else if ss_close_wait summary \<ge> CLOSE_WAIT_THRESHOLD then
           warn builder (dec (ss_close_wait summary) @ '' sockets are in CLOSE_WAIT, which usually means an app is not closing connections the peer already finished with'')
         else if ss_retransmitting summary > 0 \<and> ss_established summary > 0
              \<and> 4 * ss_retransmitting summary > ss_established summary then
           warn builder (dec (ss_retransmitting summary) @ '' of '' @ dec (ss_established summary) @ '' established connections are retransmitting'')
         else pass builder (dec (ss_total summary) @ '' sockets, '' @ dec (ss_established summary) @ '' established, nothing stuck''))"

definition framework_default :: "link_properties \<Rightarrow> (ip_addr \<Rightarrow> bool) \<Rightarrow> bool" where
  "framework_default lp fam =
     list_ex (\<lambda>r. ar_is_default r \<and> (case Option.bind (ar_destination r) prefix_ip of Some ip \<Rightarrow> fam ip | None \<Rightarrow> False))
       (lp_routes lp)"

definition interface_disagreements :: "link_properties \<Rightarrow> interface option \<Rightarrow> string list" where
  "interface_disagreements lp kernel_iface =
     (case kernel_iface of
        None \<Rightarrow>
          if lp_interface_name lp \<noteq> [] then
            [''the framework names interface '' @ lp_interface_name lp @ '' but the kernel has no such interface'']
          else []
      | Some iface \<Rightarrow>
          (if \<not> flag_up iface then [''the framework is using '' @ if_name iface @ '' but the kernel has it DOWN''] else [])
          @ (if lp_mtu lp > 0 \<and> if_mtu iface > 0 \<and> nat (lp_mtu lp) \<noteq> if_mtu iface then
               [''MTU mismatch on '' @ if_name iface @ '': framework says '' @ dec_int (lp_mtu lp)
                @ '', kernel says '' @ dec (if_mtu iface)]
             else [])
          @ (let kernel_addrs = List.map_filter (\<lambda>a. map_option prefix_display (la_prefix a)) (if_addresses iface)
             in List.map_filter (\<lambda>a. let text = prefix_display a in
                  if text \<notin> set kernel_addrs then
                    Some (''the framework reports address '' @ text @ '' on '' @ if_name iface @ '' but the kernel does not have it'')
                  else None) (lp_link_addresses lp)))"

definition check_framework_agreement :: "clocks \<Rightarrow> diag_state \<Rightarrow> check" where
  "check_framework_agreement clk state =
     (let builder = cb_new clk CI_FrameworkKernelAgreement ''Framework and kernel agree''
      in case dg_network state of
           None \<Rightarrow> skip builder ''no framework state to compare against''
         | Some network \<Rightarrow>
        (case an_link_properties network of
           None \<Rightarrow> skip builder ''the framework reported no LinkProperties''
         | Some lp \<Rightarrow>
             (let framework_default_v4 = framework_default lp is_ipv4;
                  framework_default_v6 = framework_default lp is_ipv6;
                  kernel_default_v4 = (lk_route (dg_lookup_v4 state) \<noteq> None);
                  kernel_default_v6 = (lk_route (dg_lookup_v6 state) \<noteq> None);
                  disagreements =
                    interface_disagreements lp (find (\<lambda>i. if_name i = lp_interface_name lp) (dg_interfaces state))
                    @ (if framework_default_v6 \<and> \<not> kernel_default_v6 then
                         [''the framework lists an IPv6 default route but the kernel cannot route IPv6 to the internet''] else [])
                    @ (if framework_default_v4 \<and> \<not> kernel_default_v4 then
                         [''the framework lists an IPv4 default route but the kernel cannot route IPv4 to the internet''] else []);
                  builder = evs builder
                    [(''framework_interface'', lp_interface_name lp),
                     (''framework_mtu'', dec_int (lp_mtu lp)),
                     (''framework_default_routes'', ''v4='' @ show_bool framework_default_v4 @ '' v6='' @ show_bool framework_default_v6),
                     (''kernel_default_routes'', ''v4='' @ show_bool kernel_default_v4 @ '' v6='' @ show_bool kernel_default_v6),
                     (''disagreements'', dec (length disagreements))]
              in if disagreements = [] then
                   pass builder ''the framework's view of interfaces, addresses and routes matches the kernel''
                 else fail builder (join ''; '' disagreements))))"

definition check_captive_portal :: "clocks \<Rightarrow> diag_state \<Rightarrow> check" where
  "check_captive_portal clk state =
     (let builder = cb_new clk CI_CaptivePortal ''Captive portal''
      in case dg_network state of
           None \<Rightarrow> skip builder ''no framework state; captive portal status comes from Android''
         | Some network \<Rightarrow>
             (let caps = caps_of network;
                  portal_url = (case an_link_properties network of Some lp \<Rightarrow> lp_captive_portal_api_url lp | None \<Rightarrow> []);
                  builder = evs builder
                    [(''captive_portal_capability'', show_bool (nc_captive_portal caps)),
                     (''validated'', show_bool (nc_validated caps)),
                     (''captive_portal_api_url'', portal_url)]
              in if nc_captive_portal caps then
                   fail builder ''Android has detected a captive portal; traffic is being intercepted until the portal is satisfied''
                 else if \<not> nc_validated caps \<and> nc_internet caps then
                   warn builder ''the network is not validated; a captive portal that Android has not classified yet would look exactly like this''
                 else pass builder ''no captive portal detected''))"

end
