(* ===== verification/Probe_Checks.thy ===== *)
theory Probe_Checks
  imports Checks Icmp
begin

text \<open>
  The checks that send packets (\<^verbatim>\<open>daemon/src/diag/mod.rs\<close>): gateway, DNS, TCP, TLS, Private DNS,
  NAT64 and MTU. Each probe runs in an environment of its own, as its theory models it; \<open>None\<close>
  stands for a panic of the code that reads a reply (DNS, ICMP or TLS).
\<close>

section \<open>The environment of the probes\<close>

record probe_env =
  pe_ping :: "ip_addr \<Rightarrow> icmp_env"
  pe_dns :: "ip_addr \<Rightarrow> u16 \<Rightarrow> dns_env"
  pe_nat64 :: dns_env
  pe_tcp :: "socket_addr \<Rightarrow> tcp_env"
  pe_tls :: tls_env
  pe_mtu :: mtu_env
  pe_mtu_ping :: "nat \<Rightarrow> icmp_env"
  pe_mtu_elapsed :: nat

definition ctx_for :: "diag_state \<Rightarrow> ip_addr \<Rightarrow> probe_context" where
  "ctx_for state server = (if is_ipv6 server then dg_probe_ctx_v6 state else dg_probe_ctx_v4 state)"

section \<open>Gateway\<close>

definition check_gateway :: "clocks \<Rightarrow> probe_env \<Rightarrow> diag_state \<Rightarrow> ip_family \<Rightarrow> check option" where
  "check_gateway clk pe state family =
     (let (i, lookup, ctx) =
            (if family = Family_V6 then (CI_GatewayReachabilityV6, dg_lookup_v6 state, dg_probe_ctx_v6 state)
             else (CI_GatewayReachabilityV4, dg_lookup_v4 state, dg_probe_ctx_v4 state));
          label = family_label family;
          builder = depends_on (set_family (cb_new clk i (label @ '' gateway reachable'')) family)
            [if family = Family_V6 then ''route.v6.default'' else ''route.v4.default'']
      in case lk_route lookup of
           None \<Rightarrow> Some (skip builder (''no '' @ label @ '' route, so there is no gateway to test''))
         | Some route \<Rightarrow>
        (let hop = first_hop_of route
         in case Option.bind (nh_gateway hop) to_ip of
              None \<Rightarrow> Some (skip builder (''the '' @ label @ '' route is on-link (no gateway to probe)''))
            | Some gateway \<Rightarrow>
                (let entry = find_gateway (dg_neighbors state) gateway (nh_out_interface_index hop);
                     neighbor_state = (case entry of Some n \<Rightarrow> ne_state n | None \<Rightarrow> NS_None)
                 in map_option (\<lambda>echo.
                 let builder = evs builder
                       [(''gateway'', show_ip gateway),
                        (''interface'', nh_out_interface_name hop),
                        (''neighbor_state'', show_neighbor_state neighbor_state),
                        (''link_address'', case entry of Some n \<Rightarrow> format_mac (ne_link_address n) | None \<Rightarrow> []),
                        (''icmp'', pr_detail echo),
                        (''routing'', describe_context ctx)]
                 in if pr_ok echo then pass builder (''gateway '' @ show_ip gateway @ '' answers ICMP echo'')
                    else if is_usable neighbor_state then
                      warn builder (''gateway '' @ show_ip gateway @ '' does not answer ICMP but is present in the neighbour table as ''
                        @ show_neighbor_state neighbor_state @ ''; many gateways filter ICMP, so this is not conclusive'')
                    else fail builder (''gateway '' @ show_ip gateway @ '' is unreachable: neighbour state is ''
                        @ show_neighbor_state neighbor_state @ '' and it does not answer ICMP''))
                   (ping (pe_ping pe gateway) gateway 2 56 ctx))))"

section \<open>DNS\<close>

fun dns_loop ::
  "probe_env \<Rightarrow> diag_state \<Rightarrow> u16 \<Rightarrow> nat \<Rightarrow> ip_addr list \<Rightarrow> check_builder \<Rightarrow> probe_result option \<Rightarrow> check option" where
  "dns_loop pe state qtype index [] builder prev =
     Some (case prev of Some r \<Rightarrow> with_probe builder r | None \<Rightarrow> skip builder ''no DNS server was tried'')"
| "dns_loop pe state qtype index (server # servers) builder prev =
     (case dns_probe (pe_dns pe server qtype) \<lparr>sa_ip = server, sa_port = 53\<rparr> (dg_hostname state) qtype (ctx_for state server) of
        None \<Rightarrow> None
      | Some r \<Rightarrow>
          (let builder = ev builder (''server_'' @ dec index) (show_ip server @ '': '' @ pr_detail r)
           in if pr_ok r then Some (with_probe builder r)
              else dns_loop pe state qtype (index + 1) servers builder (Some r)))"

definition check_dns :: "clocks \<Rightarrow> probe_env \<Rightarrow> diag_state \<Rightarrow> u16 \<Rightarrow> check option" where
  "check_dns clk pe state qtype =
     (let (i, label) = (if qtype = TYPE_A then (CI_DnsA, ''A'') else (CI_DnsAaaa, ''AAAA''));
          builder = evs (cb_new clk i (''DNS '' @ label @ '' lookup''))
            [(''hostname'', dg_hostname state),
             (''from_framework'', show_bool (dg_dns_from_framework state)),
             (''servers'', join '', '' (map show_ip (dg_dns_servers state)))]
      in if dg_dns_servers state = [] then Some (skip builder ''no DNS servers are configured for this network'')
         else dns_loop pe state qtype 0 (dg_dns_servers state) builder None)"

section \<open>Transport\<close>

definition check_tcp :: "clocks \<Rightarrow> probe_env \<Rightarrow> diag_state \<Rightarrow> ip_family \<Rightarrow> check" where
  "check_tcp clk pe state family =
     (let (i, endpoint, ctx, address_check) =
            (if family = Family_V6 then (CI_TcpV6, dg_v6_endpoint state, dg_probe_ctx_v6 state, ''addr.v6'')
             else (CI_TcpV4, dg_v4_endpoint state, dg_probe_ctx_v4 state, ''addr.v4''));
          label = family_label family;
          builder = depends_on (set_family (cb_new clk i (''TCP connection over '' @ label)) family) [address_check];
          has_route = (lk_route (lookup_of state family) \<noteq> None)
      in if \<not> has_route then
           skip builder (''no '' @ label @ '' route to the internet, so a TCP test would only repeat that'')
         else with_probe builder (tcp_connect (pe_tcp pe endpoint) endpoint ctx))"

definition passed_key :: "check list \<Rightarrow> string \<Rightarrow> bool" where
  "passed_key existing key = list_ex (\<lambda>c. ck_key c = key \<and> ck_status c = ST_Pass) existing"

definition check_tls :: "clocks \<Rightarrow> probe_env \<Rightarrow> diag_state \<Rightarrow> check list \<Rightarrow> check option" where
  "check_tls clk pe state existing =
     (let builder = depends_on (cb_new clk CI_TlsHandshake ''TLS handshake'') [''tcp.v4'', ''tcp.v6''];
          chosen =
            (if passed_key existing ''tcp.v6'' then Some (dg_v6_endpoint state, dg_probe_ctx_v6 state, Family_V6)
             else if passed_key existing ''tcp.v4'' then Some (dg_v4_endpoint state, dg_probe_ctx_v4 state, Family_V4)
             else None)
      in case chosen of
           None \<Rightarrow> Some (skip builder ''no TCP connection succeeded, so there is nothing to handshake over'')
         | Some (endpoint, ctx, family) \<Rightarrow>
             map_option (with_probe (ev (set_family builder family) ''family'' (family_label family)))
               (tls_probe (pe_tls pe) endpoint (dg_hostname state) ctx))"

section \<open>Private DNS\<close>

definition dot_probe :: "probe_env \<Rightarrow> diag_state \<Rightarrow> ip_addr \<Rightarrow> probe_result" where
  "dot_probe pe state server =
     (let target = \<lparr>sa_ip = server, sa_port = 853\<rparr> in tcp_connect (pe_tcp pe target) target (ctx_for state server))"

definition check_private_dns :: "clocks \<Rightarrow> probe_env \<Rightarrow> diag_state \<Rightarrow> check" where
  "check_private_dns clk pe state =
     (let builder = cb_new clk CI_PrivateDns ''Private DNS''
      in case dg_network state of
           None \<Rightarrow> skip builder ''Private DNS configuration comes from the framework''
         | Some network \<Rightarrow>
        (case an_link_properties network of
           None \<Rightarrow> skip builder ''no LinkProperties to read Private DNS from''
         | Some lp \<Rightarrow>
             (let mode = (case private_dns_try_from (lp_private_dns_mode lp) of Some m \<Rightarrow> m | None \<Rightarrow> PD_Unspecified);
                  builder = evs builder
                    [(''mode'', show_private_dns mode),
                     (''hostname'', lp_private_dns_server_name lp),
                     (''active'', show_bool (lp_private_dns_active lp)),
                     (''validated_servers'', join '', '' (map display (lp_validated_private_dns_servers lp)))]
              in if mode = PD_Off \<or> mode = PD_Unspecified then skip builder ''Private DNS is off''
                 else
                   (let servers =
                          (if lp_validated_private_dns_servers lp = [] then dg_dns_servers state
                           else List.map_filter to_ip (lp_validated_private_dns_servers lp));
                        reachable = map show_ip (filter (\<lambda>s. pr_ok (dot_probe pe state s)) servers);
                        unreachable = map (\<lambda>s. show_ip s @ '' ('' @ pr_detail (dot_probe pe state s) @ '')'')
                          (filter (\<lambda>s. \<not> pr_ok (dot_probe pe state s)) servers);
                        builder = evs builder
                          [(''dot_reachable'', join '', '' reachable), (''dot_unreachable'', join ''; '' unreachable)]
                    in if reachable = [] \<and> servers \<noteq> [] then
                         (if mode = PD_Strict then
                            fail builder ''Private DNS is in strict mode but no server answers on port 853; Android will not fall back to plaintext DNS, so name resolution is completely down''
                          else
                            warn builder ''no Private DNS server answers on port 853; Android will fall back to plaintext DNS, with a delay on every first lookup'')
                       else if \<not> lp_private_dns_active lp \<and> mode \<noteq> PD_Off then
                         warn builder ''Private DNS is configured but the framework does not report it as active''
                       else pass builder (''Private DNS ('' @ show_private_dns mode @ '') is working; ''
                         @ dec (length reachable) @ '' server(s) answer on port 853'')))))"

section \<open>NAT64 and MTU\<close>

fun prefix_of_answer :: "ip_addr \<Rightarrow> (bytes \<times> nat) option" where
  "prefix_of_answer (V6 os) = extract_nat64_prefix os"
| "prefix_of_answer (V4 os) = None"

definition first_prefix :: "ip_addr list \<Rightarrow> (bytes \<times> nat) option" where
  "first_prefix addresses =
     (case List.map_filter prefix_of_answer addresses of p # _ \<Rightarrow> Some p | [] \<Rightarrow> None)"

definition nat64_verdict :: "check_builder \<Rightarrow> clat_state \<Rightarrow> (bytes \<times> nat) option \<Rightarrow> check" where
  "nat64_verdict builder clat synthesised =
     (case synthesised of
        Some (p, len) \<Rightarrow>
          (let prefix = show_ip (V6 p) @ ''/'' @ dec len
           in if cl_active clat then
                pass builder (''DNS64 is synthesising with prefix '' @ prefix @ '' and clatd is running on '' @ cl_interface clat)
              else
                warn builder (''DNS64 is synthesising with prefix '' @ prefix @ '' but no clat interface exists; apps using raw IPv4 sockets or IPv4 literals have no path out''))
      | None \<Rightarrow>
          if cl_active clat then
            warn builder (''clatd is running on '' @ cl_interface clat @ '' but the resolver does not synthesise AAAA records for ipv4only.arpa; the NAT64 prefix may have been learned another way, or DNS64 has stopped'')
          else skip builder ''this network is not using NAT64/DNS64'')"

definition framework_nat64 :: "diag_state \<Rightarrow> string" where
  "framework_nat64 state =
     (case Option.bind (Option.bind (dg_network state) an_link_properties) lp_nat64_prefix of
        Some p \<Rightarrow> prefix_display p | None \<Rightarrow> [])"

definition check_nat64 :: "clocks \<Rightarrow> probe_env \<Rightarrow> diag_state \<Rightarrow> check option" where
  "check_nat64 clk pe state =
     (let builder = evs (cb_new clk CI_Nat64Dns64 ''NAT64 / DNS64'')
            [(''clat_active'', show_bool (cl_active (dg_clat state))),
             (''clat_interface'', cl_interface (dg_clat state)),
             (''framework_nat64_prefix'', framework_nat64 state)]
      in case dg_dns_servers state of
           [] \<Rightarrow> Some (skip builder ''no DNS servers to run the RFC 7050 discovery query against'')
         | server # _ \<Rightarrow>
        (case query (pe_nat64 pe) \<lparr>sa_ip = server, sa_port = 53\<rparr> DNS64_PROBE_NAME TYPE_AAAA (ctx_for state server) of
           None \<Rightarrow> None
         | Some answer \<Rightarrow>
             (let builder = ev builder ''probe_server'' (show_ip server)
              in Some (case answer of
                   Inl e \<Rightarrow> nat64_verdict (ev builder ''probe_error'' e) (dg_clat state) None
                 | Inr a \<Rightarrow>
                     (let addresses = dm_addresses (da_message a)
                      in nat64_verdict
                           (evs builder
                             [(''rcode'', rcode_name (dm_rcode (da_message a))),
                              (''ipv4only_arpa_aaaa'', join '', '' (map show_ip addresses))])
                           (dg_clat state) (first_prefix addresses))))))"

definition check_mtu :: "clocks \<Rightarrow> probe_env \<Rightarrow> diag_state \<Rightarrow> check option" where
  "check_mtu clk pe state =
     (let builder = cb_new clk CI_MtuPmtu ''MTU / path MTU''
      in case or_else (dg_egress_v4 state) (dg_egress_v6 state) of
           None \<Rightarrow> Some (skip builder ''no egress interface to measure'')
         | Some iface \<Rightarrow>
        (case (if lk_route (dg_lookup_v4 state) \<noteq> None then
                 Some (sa_ip (dg_v4_endpoint state), dg_probe_ctx_v4 state, Family_V4)
               else if lk_route (dg_lookup_v6 state) \<noteq> None then
                 Some (sa_ip (dg_v6_endpoint state), dg_probe_ctx_v6 state, Family_V6)
               else None) of
           None \<Rightarrow> Some (skip builder ''no route to measure a path MTU along'')
         | Some (target, ctx, family) \<Rightarrow>
             (let route_mtu = (case Option.bind (lk_route (lookup_of state family)) rt_metrics of
                    Some m \<Rightarrow> mt_mtu m | None \<Rightarrow> 0);
                  builder = evs (set_family builder family)
                    [(''interface'', if_name iface),
                     (''interface_mtu'', dec (if_mtu iface)),
                     (''route_mtu'', dec route_mtu)]
              in map_option (\<lambda>result.
                let check = with_probe builder result
                in if route_mtu > 0 \<and> route_mtu < if_mtu iface then
                   check\<lparr>ck_status := ST_Info,
                     ck_detail := ''the kernel has cached a path MTU of '' @ dec route_mtu
                       @ '' for this route, below the interface MTU of '' @ dec (if_mtu iface)
                       @ ''; PMTU discovery is working''\<rparr>
                 else check)
                (discover (pe_mtu pe) (pe_mtu_ping pe) (pe_mtu_elapsed pe) target (if_mtu iface) ctx))))"

end
