(* ===== verification/Rule_Texts.thy ===== *)
theory Rule_Texts
  imports Rust_Text
begin

text \<open>
  The texts the findings carry (\<^verbatim>\<open>daemon/src/diag/rules.rs\<close>): the interpretation and the suggested
  actions of each rule, with what the rule inserts as arguments. They are kept apart so that the
  rules read as conditions.
\<close>

section \<open>Interpretations\<close>

definition no_connectivity_text :: "string" where
  \<open>no_connectivity_text =
     ''Neither IPv4 nor IPv6 completed a TCP connection, and DNS failed over both families. Nothing '' @
     ''above the link layer is getting through.'' @
     nl @
     nl @
     ''When both families fail together the cause is usually below them: no usable address, no default '' @
     ''route, an unreachable first hop, or a firewall dropping this device's traffic entirely. The '' @
     ''checks above show which of those is the case.''\<close>

definition aaaa_returned_text :: "string" where
  \<open>aaaa_returned_text =
     nl @
     nl @
     ''DNS is returning AAAA records, so applications will prefer IPv6 and try it first. Happy '' @
     ''Eyeballs (RFC 8305) normally hides a broken family behind a short delay, but that only works '' @
     ''when the IPv6 attempt fails quickly. A path that silently drops packets makes every connection '' @
     ''wait for a timeout instead, which is what "the internet is slow" usually means on a network in '' @
     ''this state.''\<close>

definition no_aaaa_text :: "string" where
  \<open>no_aaaa_text =
     nl @
     nl @
     ''DNS is not returning AAAA records for the test host, which limits the damage: most applications '' @
     ''will not attempt IPv6 at all.''\<close>

definition broken_ipv6_text :: "string \<Rightarrow> string" where
  \<open>broken_ipv6_text extra =
     ''IPv6 is fully configured on this device: a global address is assigned and a default route '' @
     ''exists. IPv4 works end to end. But no TCP connection completes over IPv6.'' @
     nl @
     nl @
     ''That combination points upstream, not at the device. The local configuration is what it should '' @
     ''be, so the packets are being dropped somewhere beyond the first hop.'' @
     extra\<close>

definition no_route_text :: "string \<Rightarrow> string" where
  \<open>no_route_text d =
     ''The interface has a global IPv6 address but there is no IPv6 default route in the table this '' @
     ''traffic uses.'' @
     nl @
     nl @
     ''An address without a route usually means the router advertisement carried a prefix but no '' @
     ''router lifetime, or the route expired and was not refreshed. Only on-link IPv6 destinations are '' @
     ''reachable in this state.'' @
     nl @
     nl @
     d\<close>

definition disabled_text :: "string" where
  \<open>disabled_text =
     ''The `disable_ipv6` sysctl is set for the egress interface, so the kernel will not configure or '' @
     ''use IPv6 on it regardless of what the network offers.'' @
     nl @
     nl @
     ''This is a local setting, not a network problem. Something on the device set it: a VPN app, a '' @
     ''tethering configuration, or a manual change.''\<close>

definition gateway_unreachable_text :: "string \<Rightarrow> string \<Rightarrow> string" where
  \<open>gateway_unreachable_text which d =
     ''The '' @
     which @
     '' gateway does not answer, and the kernel has no usable neighbour entry for it.'' @
     nl @
     nl @
     ''This is a link-layer problem rather than a routing one: the device has a route pointing at a '' @
     ''gateway that is not responding to ARP or neighbour discovery. The association may look fine '' @
     ''while the access point has actually stopped forwarding, which is common right after a roam or '' @
     ''when a router is rebooting.'' @
     nl @
     nl @
     d\<close>

definition dns_broken_text :: "string \<Rightarrow> string \<Rightarrow> string" where
  \<open>dns_broken_text servers note =
     ''TCP connections to literal addresses succeed, so packets reach the internet. Name resolution '' @
     ''fails against every configured server ('' @
     servers @
     '').'' @
     nl @
     nl @
     ''Because the transport works, this is the resolver or the path to it, not connectivity. Common '' @
     ''causes are a resolver that is reachable but not answering, a network that blocks port 53 to '' @
     ''anything but its own resolver, or a Private DNS hostname that no longer resolves.'' @
     note\<close>

definition public_resolver_note :: "string" where
  \<open>public_resolver_note =
     nl @
     nl @
     ''Note: the framework supplied no DNS servers, so this test used public resolvers. The network's '' @
     ''own resolver was not exercised.''\<close>

definition private_dns_text :: "string \<Rightarrow> string" where
  \<open>private_dns_text d =
     d @
     nl @
     nl @
     ''In strict mode Android refuses to fall back to plaintext DNS. If the configured DoT server '' @
     ''cannot be reached on port 853, name resolution stops completely, while everything that uses '' @
     ''literal addresses keeps working. That asymmetry is why this failure is so often misread as '' @
     ''"some apps work".''\<close>

definition captive_portal_text :: "string" where
  \<open>captive_portal_text =
     ''Android has classified this network as being behind a captive portal. Until the portal is '' @
     ''satisfied, DNS answers and HTTP responses may be forged, so other checks in this report can '' @
     ''show misleading results.''\<close>

definition validated_text :: "string \<Rightarrow> string" where
  \<open>validated_text what =
     ''NetworkCapabilities still carries NET_CAPABILITY_VALIDATED for this network, but live probes '' @
     ''fail'' @
     what @
     ''.'' @
     nl @
     nl @
     ''Validation is a point-in-time result that Android caches and only re-runs periodically or on '' @
     ''specific triggers. A network that worked when it was validated and broke afterwards keeps the '' @
     ''flag, so apps keep using it and the system does not switch to another network. This gap between '' @
     ''the framework's belief and the kernel's reality is exactly the situation where the framework '' @
     ''alone cannot tell you anything useful.''\<close>

definition disagreement_text :: "string \<Rightarrow> string" where
  \<open>disagreement_text d =
     d @
     nl @
     nl @
     ''LinkProperties is what apps see; the kernel's tables are what packets obey. When they diverge, '' @
     ''an app can be told it has a route that does not exist, or be handed an address the interface no '' @
     ''longer holds. This usually means a network transition was interrupted partway through, and it '' @
     ''often resolves itself when the network is next reconfigured.''\<close>

definition vpn_leak_text :: "string \<Rightarrow> string \<Rightarrow> string" where
  \<open>vpn_leak_text vpn_interfaces does =
     ''A VPN interface ('' @
     vpn_interfaces @
     '') is up, but the kernel's own route lookup sends this traffic out of a different interface.'' @
     nl @
     nl @
     ''On Android that normally means a uid range rule excludes this traffic from the VPN: either the '' @
     ''VPN app's allowed/disallowed application list, or a bypass the app requested explicitly. The '' @
     ''framework '' @
     does @
     '' report a VPN transport for the network under test, which is a useful cross-check on which of '' @
     ''those it is.''\<close>

definition vpn_blackhole_text :: "string \<Rightarrow> string" where
  \<open>vpn_blackhole_text table =
     ''Traffic goes through the VPN, the tunnel carries no IPv6, and the VPN's routing table ('' @
     table @
     '') sends the IPv6 default route to loopback or to an unreachable route.'' @
     nl @
     nl @
     ''That is Android deliberately blackholing IPv6 for a VPN that only supports IPv4. It is the '' @
     ''correct behaviour: IPv6 connections fail immediately, applications fall back to IPv4 without a '' @
     ''stall, and no IPv6 traffic escapes the tunnel. Every IPv6 failure elsewhere in this report '' @
     ''follows from this and is expected.''\<close>

definition vpn_open_text :: "string \<Rightarrow> string" where
  \<open>vpn_open_text table =
     ''Traffic goes through the VPN, but the tunnel has no IPv6 default route and the VPN's routing '' @
     ''table ('' @
     table @
     '') does not blackhole IPv6 either.'' @
     nl @
     nl @
     ''That combination is the leaky one. IPv6 traffic is not carried by the tunnel and is not '' @
     ''stopped, so it can leave over the underlying network outside the VPN. This is a privacy problem '' @
     ''rather than a connectivity one: things keep working, which is exactly why it goes unnoticed.''\<close>

definition mtu_blackhole_text :: "string \<Rightarrow> string \<Rightarrow> string" where
  \<open>mtu_blackhole_text interface_mtu d =
     ''TCP connections establish but the TLS handshake never completes. That is the classic signature '' @
     ''of a path MTU problem.'' @
     nl @
     nl @
     ''The three-way handshake uses small packets and gets through. The ClientHello is the first '' @
     ''substantial packet, and if something on the path cannot carry it and does not send back an ICMP '' @
     ''"fragmentation needed" or "packet too big" message, the packet simply disappears. Path MTU '' @
     ''discovery has nothing to learn from, so the connection hangs rather than failing.'' @
     nl @
     nl @
     ''Interface MTU is '' @
     interface_mtu @
     ''. '' @
     d\<close>

definition nat64_text :: "string \<Rightarrow> string" where
  \<open>nat64_text d =
     d @
     nl @
     nl @
     ''On an IPv6-only network Android normally starts clatd, which presents a synthetic IPv4 '' @
     ''interface so that IPv4-only applications keep working. Without it, anything that uses a '' @
     ''hard-coded IPv4 literal or a raw IPv4 socket has no path out, while everything that resolves '' @
     ''names keeps working through DNS64. Apps failing selectively, with no obvious pattern, is what '' @
     ''that looks like from the outside.''\<close>

definition firewall_text :: "string \<Rightarrow> string" where
  \<open>firewall_text d =
     d @
     nl @
     nl @
     ''Android enforces per-app network restrictions in eBPF rather than in netfilter, so this does '' @
     ''not appear in any iptables dump. Data Saver, background restriction, battery optimisation and '' @
     ''OEM-specific power managers all write into the same map. The app sees ordinary connection '' @
     ''failures with no indication that policy, rather than the network, is the cause.''\<close>

definition syn_sent_text :: "string \<Rightarrow> string" where
  \<open>syn_sent_text n =
     n @
     '' sockets are sitting in SYN_SENT. The kernel has sent a SYN and is waiting for a SYN-ACK that '' @
     ''has not arrived.'' @
     nl @
     nl @
     ''This is what a silent drop looks like from the socket table: the packets are leaving the device '' @
     ''and nothing is answering, as opposed to a refused connection (which produces a RST and closes '' @
     ''immediately) or a routing failure (which fails instantly with ENETUNREACH). A firewall that '' @
     ''drops rather than rejects, a broken path, or a dead peer all produce this.''\<close>

definition close_wait_text :: "string \<Rightarrow> string" where
  \<open>close_wait_text n =
     n @
     '' sockets are in CLOSE_WAIT: the peer has closed its half of the connection and the local '' @
     ''application has not closed its own.'' @
     nl @
     nl @
     ''This is an application bug rather than a network fault, and it leaks file descriptors. It is '' @
     ''worth noting here because the symptom people report is "the app stops being able to connect", '' @
     ''which looks like a network problem until you count the sockets.''\<close>

definition multiple_routes_text :: "string \<Rightarrow> string" where
  \<open>multiple_routes_text d =
     d @
     nl @
     nl @
     ''The kernel will pick the lowest metric, so this is not broken on its own. It usually means an '' @
     ''interface went down without its routes being cleaned up, and it becomes a real problem if the '' @
     ''winning route points at a gateway that no longer works.''\<close>

definition metered_text :: "string" where
  \<open>metered_text =
     ''The network is marked metered and does not carry NET_CAPABILITY_NOT_RESTRICTED. Background '' @
     ''traffic for most apps will be blocked by policy, which produces connection failures that look '' @
     ''like network faults but are deliberate.''\<close>

section \<open>Suggested actions\<close>

definition no_connectivity_actions :: "string list" where
  \<open>no_connectivity_actions =
     [''Check whether the gateway is reachable at all'',
      ''Confirm the interface has a global address and a default route'',
      ''If this is a captive portal network, open a browser and complete the portal'']\<close>

definition broken_ipv6_actions :: "string list" where
  \<open>broken_ipv6_actions =
     [''Test the same device on a different network to confirm the problem follows the network'',
      ''If this is a home network, check whether the router's IPv6 delegation is still valid'',
      ''As a workaround, disabling IPv6 on this network removes the stall at the cost of IPv6 connectivity'']\<close>

definition no_route_actions :: "string list" where
  \<open>no_route_actions =
     [''Check whether router advertisements are still arriving on this link'',
      ''Confirm accept_ra is not disabled for this interface'']\<close>

definition disabled_actions :: "string list" where
  \<open>disabled_actions =
     [''Identify what set disable_ipv6; VPN apps are the most common cause'']\<close>

definition gateway_actions :: "string list" where
  \<open>gateway_actions =
     [''Re-associate with the network (toggle Wi-Fi) and see whether the neighbour entry recovers'',
      ''Check whether the router is up and forwarding for other devices'']\<close>

definition dns_broken_actions :: "string list" where
  \<open>dns_broken_actions =
     [''Check the Private DNS setting; strict mode with an unreachable server disables DNS entirely'',
      ''Try a different resolver to see whether the configured one is the problem'']\<close>

definition private_dns_actions :: "string list" where
  \<open>private_dns_actions =
     [''Switch Private DNS to Automatic to confirm the diagnosis'',
      ''Check whether this network blocks outbound port 853'']\<close>

definition captive_portal_actions :: "string list" where
  \<open>captive_portal_actions =
     [''Open the portal page and complete sign-in, then run the diagnosis again'']\<close>

definition validated_actions :: "string list" where
  \<open>validated_actions =
     [''Toggle the network off and on to force Android to re-validate it'',
      ''Compare with another device on the same network to separate device from network'']\<close>

definition disagreement_actions :: "string list" where
  \<open>disagreement_actions =
     [''Toggle the network to force the framework and netd to re-apply configuration'']\<close>

definition vpn_leak_actions :: "string list" where
  \<open>vpn_leak_actions =
     [''Check the VPN app's per-app settings for this uid'',
      ''Look at the uid range rules in the Routing view to see which rule matched'']\<close>

definition vpn_blackhole_actions :: "string list" where
  \<open>vpn_blackhole_actions =
     [''Nothing to fix; use a VPN with IPv6 support if you need IPv6'']\<close>

definition vpn_open_actions :: "string list" where
  \<open>vpn_open_actions =
     [''Check whether the VPN app has an IPv6 or "block IPv6" setting'',
      ''Enable Always-on VPN with "Block connections without VPN" to stop the leak'']\<close>

definition mtu_actions :: "string list" where
  \<open>mtu_actions =
     [''Lower the interface MTU (1400 is a safe test value) and retry'',
      ''If a VPN is active, its encapsulation overhead is the most likely cause'']\<close>

definition nat64_actions :: "string list" where
  \<open>nat64_actions =
     [''Toggle the network; clatd is started as part of network setup'']\<close>

definition firewall_actions :: "string list" where
  \<open>firewall_actions =
     [''Check Data Saver and background data restrictions for this app'',
      ''Check battery optimisation and any OEM power-saving list'']\<close>

definition syn_sent_actions :: "string list" where
  \<open>syn_sent_actions =
     [''Cross-reference with the per-app view to see which app owns these sockets'']\<close>

definition close_wait_actions :: "string list" where
  \<open>close_wait_actions =
     [''Identify the owning app in the per-app view; the leak is in its code'']\<close>

definition multiple_routes_actions :: "string list" where
  \<open>multiple_routes_actions =
     [''Check whether an old interface's routes were left behind'']\<close>

definition metered_actions :: "string list" where
  \<open>metered_actions =
     [''Check Data Saver, and whether the app is allowed unrestricted data'']\<close>

named_theorems action_simps \<open>no list of actions is empty\<close>

lemma actions_not_Nil [action_simps]:
  "no_connectivity_actions \<noteq> []"
  "broken_ipv6_actions \<noteq> []"
  "no_route_actions \<noteq> []"
  "disabled_actions \<noteq> []"
  "gateway_actions \<noteq> []"
  "dns_broken_actions \<noteq> []"
  "private_dns_actions \<noteq> []"
  "captive_portal_actions \<noteq> []"
  "validated_actions \<noteq> []"
  "disagreement_actions \<noteq> []"
  "vpn_leak_actions \<noteq> []"
  "vpn_blackhole_actions \<noteq> []"
  "vpn_open_actions \<noteq> []"
  "mtu_actions \<noteq> []"
  "nat64_actions \<noteq> []"
  "firewall_actions \<noteq> []"
  "syn_sent_actions \<noteq> []"
  "close_wait_actions \<noteq> []"
  "multiple_routes_actions \<noteq> []"
  "metered_actions \<noteq> []"
  by (simp_all add: no_connectivity_actions_def broken_ipv6_actions_def no_route_actions_def disabled_actions_def gateway_actions_def dns_broken_actions_def private_dns_actions_def captive_portal_actions_def validated_actions_def disagreement_actions_def vpn_leak_actions_def vpn_blackhole_actions_def vpn_open_actions_def mtu_actions_def nat64_actions_def firewall_actions_def syn_sent_actions_def close_wait_actions_def multiple_routes_actions_def metered_actions_def)

end
