(* ===== verification/Rules.thy ===== *)
theory Rules
  imports Checks Rule_Texts
begin

text \<open>
  The interpretation layer of the diagnosis (\<^verbatim>\<open>daemon/src/diag/rules.rs\<close>): the index over the
  checks, the nineteen rules and the evaluation that orders their findings. The texts are in
  \<open>Rule_Texts\<close>.
\<close>

section \<open>Findings\<close>

datatype finding_id =
  FI_Unspecified | FI_BrokenUpstreamIpv6 | FI_Ipv6ConfiguredNoRoute | FI_NoConnectivityAtAll
| FI_DnsBrokenTransportOk | FI_PrivateDnsBlocking | FI_CaptivePortal | FI_VpnLeak | FI_VpnBlackhole
| FI_FrameworkKernelDisagreement | FI_ValidatedButBroken | FI_MtuBlackhole | FI_GatewayUnreachable
| FI_Nat64WithoutClat | FI_ClatWithoutNat64 | FI_FirewallBlockingUid | FI_SocketsStuckSynSent
| FI_SocketsStuckCloseWait | FI_MeteredRestriction | FI_NoUidRuleMatch | FI_MultipleDefaultRoutes
| FI_Ipv6DisabledBySysctl | FI_HappyEyeballsDelay

datatype finding_severity = FS_Unspecified | FS_Info | FS_Low | FS_Medium | FS_High | FS_Critical

fun finding_severity_i32 :: "finding_severity \<Rightarrow> int" where
  "finding_severity_i32 FS_Unspecified = 0"
| "finding_severity_i32 FS_Info = 1"
| "finding_severity_i32 FS_Low = 2"
| "finding_severity_i32 FS_Medium = 3"
| "finding_severity_i32 FS_High = 4"
| "finding_severity_i32 FS_Critical = 5"

record finding =
  fi_id :: finding_id
  fi_key :: string
  fi_severity :: int
  fi_title :: string
  fi_interpretation :: string
  fi_supporting_checks :: "string list"
  fi_suggested_actions :: "string list"
  fi_confidence :: nat

definition mk_finding ::
  "finding_id \<Rightarrow> string \<Rightarrow> finding_severity \<Rightarrow> string \<Rightarrow> string \<Rightarrow> string list \<Rightarrow> string list \<Rightarrow> nat \<Rightarrow> finding" where
  "mk_finding i key severity title interpretation supporting actions confidence =
     \<lparr>fi_id = i, fi_key = key, fi_severity = finding_severity_i32 severity, fi_title = title,
      fi_interpretation = interpretation, fi_supporting_checks = supporting,
      fi_suggested_actions = actions, fi_confidence = confidence\<rparr>"

section \<open>The index\<close>

text \<open>Collected into a map, a later check replaces an earlier one of the same key.\<close>

type_synonym check_index = "string \<rightharpoonup> check"

definition index_new :: "check list \<Rightarrow> check_index" where
  "index_new checks = fold (\<lambda>c m. m(ck_key c \<mapsto> c)) checks Map.empty"

definition status_of :: "check_index \<Rightarrow> string \<Rightarrow> check_status option" where
  "status_of index key = map_option ck_status (index key)"

definition passed :: "check_index \<Rightarrow> string \<Rightarrow> bool" where
  "passed index key = (status_of index key = Some ST_Pass)"

definition failed :: "check_index \<Rightarrow> string \<Rightarrow> bool" where
  "failed index key = (status_of index key = Some ST_Fail)"

definition warned :: "check_index \<Rightarrow> string \<Rightarrow> bool" where
  "warned index key = (status_of index key = Some ST_Warn)"

definition skipped :: "check_index \<Rightarrow> string \<Rightarrow> bool" where
  "skipped index key = (status_of index key = Some ST_Skip)"

definition detail :: "check_index \<Rightarrow> string \<Rightarrow> string" where
  "detail index key = (case index key of Some c \<Rightarrow> ck_detail c | None \<Rightarrow> [])"

definition evidence :: "check_index \<Rightarrow> string \<Rightarrow> string \<Rightarrow> string option" where
  "evidence index key field = Option.bind (index key) (\<lambda>c. ck_evidence c field)"

type_synonym rule = "check_index \<Rightarrow> diag_state \<Rightarrow> finding option"

section \<open>Connectivity and IPv6\<close>

definition rule_no_connectivity_at_all :: rule where
  "rule_no_connectivity_at_all index state =
     (let v4_dead = (failed index ''tcp.v4'' \<or> skipped index ''tcp.v4'');
          v6_dead = (failed index ''tcp.v6'' \<or> skipped index ''tcp.v6'');
          dns_dead = (failed index ''dns.a'' \<and> failed index ''dns.aaaa'')
      in if \<not> (v4_dead \<and> v6_dead \<and> dns_dead) then None
         else if skipped index ''tcp.v4'' \<and> skipped index ''tcp.v6'' \<and> failed index ''iface.active'' then None
         else Some (mk_finding FI_NoConnectivityAtAll ''no_connectivity'' FS_Critical
           ''Suspected problem: no working path to the internet'' no_connectivity_text
           [''tcp.v4'', ''tcp.v6'', ''dns.a'', ''dns.aaaa''] no_connectivity_actions 90))"

definition rule_broken_upstream_ipv6 :: rule where
  "rule_broken_upstream_ipv6 index state =
     (let configured = (passed index ''addr.v6'' \<and> passed index ''route.v6.default'');
          v6_transport_broken = failed index ''tcp.v6'';
          v4_works = passed index ''tcp.v4'';
          aaaa_returned = passed index ''dns.aaaa'';
          confidence = 75 + (if aaaa_returned then 15 else 0)
            + (if passed index ''gateway.v6'' \<or> warned index ''gateway.v6'' then 5 else 0);
          extra = (if aaaa_returned then aaaa_returned_text else no_aaaa_text)
      in if \<not> (configured \<and> v6_transport_broken \<and> v4_works) then None
         else Some (mk_finding FI_BrokenUpstreamIpv6 ''broken_upstream_ipv6'' FS_High
           ''Suspected problem: broken upstream IPv6'' (broken_ipv6_text extra)
           [''addr.v6'', ''route.v6.default'', ''dns.aaaa'', ''tcp.v6'', ''tcp.v4''] broken_ipv6_actions
           (min confidence 100)))"

definition rule_ipv6_configured_no_route :: rule where
  "rule_ipv6_configured_no_route index state =
     (if \<not> (passed index ''addr.v6'' \<and> failed index ''route.v6.default'') then None
      else Some (mk_finding FI_Ipv6ConfiguredNoRoute ''ipv6_no_default_route'' FS_Medium
        ''IPv6 address assigned but no default route'' (no_route_text (detail index ''route.v6.default''))
        [''addr.v6'', ''route.v6.default''] no_route_actions 85))"

definition rule_ipv6_disabled_by_sysctl :: rule where
  "rule_ipv6_disabled_by_sysctl index state =
     (if evidence index ''addr.v6'' ''disable_ipv6'' \<noteq> Some ''true'' then None
      else Some (mk_finding FI_Ipv6DisabledBySysctl ''ipv6_disabled_sysctl'' FS_Medium
        ''IPv6 is administratively disabled on this interface'' disabled_text
        [''addr.v6''] disabled_actions 95))"

definition rule_gateway_unreachable :: rule where
  "rule_gateway_unreachable index state =
     (let v4 = failed index ''gateway.v4''; v6 = failed index ''gateway.v6'';
          which = (case (v4, v6) of (True, True) \<Rightarrow> ''both IPv4 and IPv6'' | (True, False) \<Rightarrow> ''IPv4'' | _ \<Rightarrow> ''IPv6'')
      in if \<not> (v4 \<or> v6) then None
         else Some (mk_finding FI_GatewayUnreachable ''gateway_unreachable''
           (if v4 \<and> v6 then FS_Critical else FS_High)
           ''Suspected problem: the first hop is not reachable''
           (gateway_unreachable_text which (detail index (if v4 then ''gateway.v4'' else ''gateway.v6'')))
           [''gateway.v4'', ''gateway.v6''] gateway_actions 85))"

section \<open>DNS, portal and framework\<close>

definition rule_dns_broken_transport_ok :: rule where
  "rule_dns_broken_transport_ok index state =
     (let dns_broken = (failed index ''dns.a'' \<and> failed index ''dns.aaaa'');
          transport_ok = (passed index ''tcp.v4'' \<or> passed index ''tcp.v6'');
          from_framework = (evidence index ''dns.a'' ''from_framework'' = Some ''true'');
          servers = (case evidence index ''dns.a'' ''servers'' of Some s \<Rightarrow> s | None \<Rightarrow> [])
      in if \<not> (dns_broken \<and> transport_ok) then None
         else Some (mk_finding FI_DnsBrokenTransportOk ''dns_broken_transport_ok'' FS_High
           ''Suspected problem: DNS is broken while the network itself works''
           (dns_broken_text servers (if from_framework then [] else public_resolver_note))
           [''dns.a'', ''dns.aaaa'', ''tcp.v4'', ''tcp.v6''] dns_broken_actions 85))"

definition rule_private_dns_blocking :: rule where
  "rule_private_dns_blocking index state =
     (if \<not> failed index ''dns.private'' then None
      else Some (mk_finding FI_PrivateDnsBlocking ''private_dns_blocking'' FS_High
        ''Suspected problem: strict Private DNS has no reachable server''
        (private_dns_text (detail index ''dns.private''))
        [''dns.private'', ''dns.a''] private_dns_actions 90))"

definition rule_captive_portal :: rule where
  "rule_captive_portal index state =
     (if \<not> failed index ''captive.portal'' then None
      else Some (mk_finding FI_CaptivePortal ''captive_portal'' FS_Medium
        ''A captive portal is intercepting this network'' captive_portal_text
        [''captive.portal'', ''android.state''] captive_portal_actions 95))"

definition rule_validated_but_broken :: rule where
  "rule_validated_but_broken index state =
     (let validated = (case Option.bind (dg_network state) an_capabilities of Some c \<Rightarrow> nc_validated c | None \<Rightarrow> False);
          transport_broken = (failed index ''tcp.v4'' \<and> failed index ''tcp.v6'');
          dns_broken = (failed index ''dns.a'' \<and> failed index ''dns.aaaa'')
      in if \<not> validated then None
         else if \<not> (transport_broken \<or> dns_broken) then None
         else Some (mk_finding FI_ValidatedButBroken ''validated_but_broken'' FS_High
           ''Android reports VALIDATED but connectivity is broken''
           (validated_text (if transport_broken \<and> dns_broken then '' for both transport and DNS''
              else if transport_broken then '' for TCP on both families'' else '' for DNS on both families''))
           [''android.state'', ''tcp.v4'', ''tcp.v6'', ''dns.a'', ''dns.aaaa''] validated_actions 88))"

definition rule_framework_kernel_disagreement :: rule where
  "rule_framework_kernel_disagreement index state =
     (if \<not> failed index ''framework.kernel'' then None
      else Some (mk_finding FI_FrameworkKernelDisagreement ''framework_kernel_disagreement'' FS_Medium
        ''The Android framework and the Linux kernel disagree''
        (disagreement_text (detail index ''framework.kernel''))
        [''framework.kernel''] disagreement_actions 80))"

section \<open>VPN, MTU and NAT64\<close>

definition rule_vpn_leak :: rule where
  "rule_vpn_leak index state =
     (let vpn_interfaces = (case evidence index ''vpn.routing'' ''vpn_interfaces'' of Some s \<Rightarrow> s | None \<Rightarrow> []);
          framework_vpn = (case dg_network state of Some n \<Rightarrow> TRANSPORT_VPN \<in> set (an_transports n) | None \<Rightarrow> False)
      in if evidence index ''vpn.routing'' ''egress_is_vpn'' \<noteq> Some ''false'' then None
         else if vpn_interfaces = [] then None
         else Some (mk_finding FI_VpnLeak ''vpn_leak'' FS_High ''Traffic is bypassing the active VPN''
           (vpn_leak_text vpn_interfaces (if framework_vpn then ''does'' else ''does not''))
           [''vpn.routing'', ''route.lookup.v4'', ''route.lookup.v6''] vpn_leak_actions 80))"

definition rule_vpn_ipv6_blackhole :: rule where
  "rule_vpn_ipv6_blackhole index state =
     (let blackholed = (evidence index ''vpn.routing'' ''ipv6_blackholed_in_vpn_table'' = Some ''true'');
          table = (case evidence index ''vpn.routing'' ''vpn_table'' of Some t \<Rightarrow> t | None \<Rightarrow> ''?'')
      in if evidence index ''vpn.routing'' ''vpn_has_ipv6_routes'' \<noteq> Some ''false'' then None
         else if evidence index ''vpn.routing'' ''egress_is_vpn'' \<noteq> Some ''true'' then None
         else
           (let (severity, title, interpretation, actions, confidence) =
              (if blackholed then
                 (FS_Info, ''The VPN blocks IPv6 on purpose'', vpn_blackhole_text table, vpn_blackhole_actions, 90)
               else
                 (FS_Medium, ''The VPN carries IPv4 but not IPv6, and IPv6 is not blocked'', vpn_open_text table,
                  vpn_open_actions, 75))
            in Some (mk_finding FI_VpnBlackhole ''vpn_ipv6_blackhole'' severity title interpretation
              [''vpn.routing'', ''tcp.v6'', ''route.v6.default''] actions confidence)))"

definition rule_mtu_blackhole :: rule where
  "rule_mtu_blackhole index state =
     (let tcp_ok = (passed index ''tcp.v4'' \<or> passed index ''tcp.v6'');
          tls_broken = failed index ''tls.handshake'';
          mtu_detail = detail index ''mtu.pmtu'';
          measured = evidence index ''mtu.pmtu'' ''measured_path_mtu'';
          interface_mtu = (case evidence index ''mtu.pmtu'' ''interface_mtu'' of Some m \<Rightarrow> m | None \<Rightarrow> ''?'');
          confidence = (if measured \<noteq> None then 80 else 55)
      in if \<not> (tcp_ok \<and> tls_broken) then None
         else if passed index ''mtu.pmtu'' then None
         else Some (mk_finding FI_MtuBlackhole ''mtu_blackhole'' FS_High
           ''Suspected problem: large packets are being dropped (MTU black hole)''
           (mtu_blackhole_text interface_mtu
             (if mtu_detail = [] then ''The MTU probe produced no measurement.'' else mtu_detail))
           [''tcp.v4'', ''tcp.v6'', ''tls.handshake'', ''mtu.pmtu''] mtu_actions confidence))"

definition rule_nat64_without_clat :: rule where
  "rule_nat64_without_clat index state =
     (if \<not> warned index ''nat64.dns64'' then None
      else if cl_active (dg_clat state) \<or> passed index ''addr.v4'' then None
      else Some (mk_finding FI_Nat64WithoutClat ''nat64_without_clat'' FS_Medium
        ''DNS64 is active but 464XLAT is not running'' (nat64_text (detail index ''nat64.dns64''))
        [''nat64.dns64'', ''addr.v4''] nat64_actions 75))"

section \<open>Firewall, sockets, routes and metering\<close>

definition rule_firewall_blocking_uid :: rule where
  "rule_firewall_blocking_uid index state =
     (if \<not> failed index ''firewall.anomaly'' then None
      else Some (mk_finding FI_FirewallBlockingUid ''firewall_blocking_uid'' FS_High
        ''This app is blocked by a firewall rule'' (firewall_text (detail index ''firewall.anomaly''))
        [''firewall.anomaly''] firewall_actions 85))"

definition rule_sockets_stuck_syn_sent :: rule where
  "rule_sockets_stuck_syn_sent index state =
     (if evidence index ''sockets.states'' ''syn_sent'' = None \<or> \<not> failed index ''sockets.states'' then None
      else Some (mk_finding FI_SocketsStuckSynSent ''sockets_stuck_syn_sent'' FS_Medium
        ''Connections are piling up in SYN_SENT''
        (syn_sent_text (case evidence index ''sockets.states'' ''syn_sent'' of Some s \<Rightarrow> s | None \<Rightarrow> ''?''))
        [''sockets.states''] syn_sent_actions 80))"

definition rule_sockets_stuck_close_wait :: rule where
  "rule_sockets_stuck_close_wait index state =
     (let n = (case Option.bind (evidence index ''sockets.states'' ''close_wait'') (parse_uint 32) of
          Some c \<Rightarrow> c | None \<Rightarrow> 0)
      in if \<not> warned index ''sockets.states'' then None
         else if n < 20 then None
         else Some (mk_finding FI_SocketsStuckCloseWait ''sockets_stuck_close_wait'' FS_Low
           ''Sockets are accumulating in CLOSE_WAIT'' (close_wait_text (dec n))
           [''sockets.states''] close_wait_actions 85))"

definition rule_multiple_default_routes :: rule where
  "rule_multiple_default_routes index state =
     (let v4 = warned index ''route.v4.default''; v6 = warned index ''route.v6.default'';
          key = (if v4 then ''route.v4.default'' else ''route.v6.default'')
      in if \<not> (v4 \<or> v6) then None
         else if \<not> contains_str (detail index key) ''competing'' then None
         else Some (mk_finding FI_MultipleDefaultRoutes ''multiple_default_routes'' FS_Low
           ''Several default routes compete in the same table'' (multiple_routes_text (detail index key))
           [key] multiple_routes_actions 70))"

definition rule_metered_restriction :: rule where
  "rule_metered_restriction index state =
     (let metered = (evidence index ''android.state'' ''metered'' = Some ''true'');
          restricted = (case Option.bind (dg_network state) an_capabilities of Some c \<Rightarrow> \<not> nc_not_restricted c | None \<Rightarrow> False)
      in if \<not> metered then None
         else if \<not> restricted then None
         else Some (mk_finding FI_MeteredRestriction ''metered_restriction'' FS_Info
           ''This network is metered and restricted'' metered_text [''android.state''] metered_actions 90))"

section \<open>Evaluation\<close>

definition RULES :: "rule list" where
  "RULES =
     [rule_no_connectivity_at_all, rule_broken_upstream_ipv6, rule_ipv6_configured_no_route,
      rule_ipv6_disabled_by_sysctl, rule_gateway_unreachable, rule_dns_broken_transport_ok,
      rule_private_dns_blocking, rule_captive_portal, rule_validated_but_broken,
      rule_framework_kernel_disagreement, rule_vpn_leak, rule_vpn_ipv6_blackhole,
      rule_mtu_blackhole, rule_nat64_without_clat, rule_firewall_blocking_uid,
      rule_sockets_stuck_syn_sent, rule_sockets_stuck_close_wait, rule_multiple_default_routes,
      rule_metered_restriction]"

definition finding_cmp :: "finding \<Rightarrow> finding \<Rightarrow> ordering" where
  "finding_cmp a b =
     then_cmp (cmp_of (fi_severity b) (fi_severity a)) (cmp_of (fi_confidence b) (fi_confidence a))"

definition evaluate :: "check list \<Rightarrow> diag_state \<Rightarrow> finding list" where
  "evaluate checks state =
     (let index = index_new checks
      in sort_by finding_cmp (List.map_filter (\<lambda>rule. rule index state) RULES))"

section \<open>What every finding carries\<close>

definition RULE_IDS :: "finding_id list" where
  "RULE_IDS =
     [FI_NoConnectivityAtAll, FI_BrokenUpstreamIpv6, FI_Ipv6ConfiguredNoRoute, FI_Ipv6DisabledBySysctl,
      FI_GatewayUnreachable, FI_DnsBrokenTransportOk, FI_PrivateDnsBlocking, FI_CaptivePortal,
      FI_ValidatedButBroken, FI_FrameworkKernelDisagreement, FI_VpnLeak, FI_VpnBlackhole,
      FI_MtuBlackhole, FI_Nat64WithoutClat, FI_FirewallBlockingUid, FI_SocketsStuckSynSent,
      FI_SocketsStuckCloseWait, FI_MultipleDefaultRoutes, FI_MeteredRestriction]"

text \<open>A check says something when it failed, warned or carries evidence.\<close>

definition speaks :: "check \<Rightarrow> bool" where
  "speaks c = (ck_status c = ST_Fail \<or> ck_status c = ST_Warn \<or> ck_evidence c \<noteq> Map.empty)"

definition finding_ok :: "check_index \<Rightarrow> finding \<Rightarrow> bool" where
  "finding_ok index f =
     (0 < fi_confidence f \<and> fi_confidence f \<le> 100 \<and> 0 < fi_severity f \<and> fi_suggested_actions f \<noteq> [] \<and>
      list_ex (\<lambda>k. case index k of Some c \<Rightarrow> speaks c | None \<Rightarrow> False) (fi_supporting_checks f))"

lemma failed_speaks: "failed index k \<Longrightarrow> (case index k of Some c \<Rightarrow> speaks c | None \<Rightarrow> False)"
  by (cases "index k") (auto simp: failed_def status_of_def speaks_def)

lemma warned_speaks: "warned index k \<Longrightarrow> (case index k of Some c \<Rightarrow> speaks c | None \<Rightarrow> False)"
  by (cases "index k") (auto simp: warned_def status_of_def speaks_def)

lemma evidence_speaks: "evidence index k f = Some v \<Longrightarrow> (case index k of Some c \<Rightarrow> speaks c | None \<Rightarrow> False)"
  by (cases "index k") (auto simp: evidence_def speaks_def)

lemmas speaking = failed_speaks warned_speaks evidence_speaks

definition rule_ok :: "rule \<Rightarrow> finding_id \<Rightarrow> bool" where
  "rule_ok r i = (\<forall>index state f. r index state = Some f \<longrightarrow> fi_id f = i \<and> finding_ok index f)"

lemma rule_okI:
  "(\<And>index state f. r index state = Some f \<Longrightarrow> fi_id f = i \<and> finding_ok index f) \<Longrightarrow> rule_ok r i"
  by (simp add: rule_ok_def)

lemmas rule_simps = mk_finding_def finding_ok_def Let_def action_simps

lemma connectivity_rules_ok:
  "rule_ok rule_no_connectivity_at_all FI_NoConnectivityAtAll"
  "rule_ok rule_broken_upstream_ipv6 FI_BrokenUpstreamIpv6"
  "rule_ok rule_ipv6_configured_no_route FI_Ipv6ConfiguredNoRoute"
  "rule_ok rule_ipv6_disabled_by_sysctl FI_Ipv6DisabledBySysctl"
  "rule_ok rule_gateway_unreachable FI_GatewayUnreachable"
  by (rule rule_okI; auto simp: rule_simps rule_no_connectivity_at_all_def rule_broken_upstream_ipv6_def
      rule_ipv6_configured_no_route_def rule_ipv6_disabled_by_sysctl_def rule_gateway_unreachable_def
      speaking split: if_splits)+

lemma dns_rules_ok:
  "rule_ok rule_dns_broken_transport_ok FI_DnsBrokenTransportOk"
  "rule_ok rule_private_dns_blocking FI_PrivateDnsBlocking"
  "rule_ok rule_captive_portal FI_CaptivePortal"
  "rule_ok rule_validated_but_broken FI_ValidatedButBroken"
  "rule_ok rule_framework_kernel_disagreement FI_FrameworkKernelDisagreement"
  by (rule rule_okI; auto simp: rule_simps rule_dns_broken_transport_ok_def rule_private_dns_blocking_def
      rule_captive_portal_def rule_validated_but_broken_def rule_framework_kernel_disagreement_def
      speaking split: if_splits)+

lemma path_rules_ok:
  "rule_ok rule_vpn_leak FI_VpnLeak"
  "rule_ok rule_vpn_ipv6_blackhole FI_VpnBlackhole"
  "rule_ok rule_mtu_blackhole FI_MtuBlackhole"
  "rule_ok rule_nat64_without_clat FI_Nat64WithoutClat"
  by (rule rule_okI; auto simp: rule_simps rule_vpn_leak_def rule_vpn_ipv6_blackhole_def
      rule_mtu_blackhole_def rule_nat64_without_clat_def speaking split: if_splits)+

lemma policy_rules_ok:
  "rule_ok rule_firewall_blocking_uid FI_FirewallBlockingUid"
  "rule_ok rule_sockets_stuck_syn_sent FI_SocketsStuckSynSent"
  "rule_ok rule_sockets_stuck_close_wait FI_SocketsStuckCloseWait"
  "rule_ok rule_multiple_default_routes FI_MultipleDefaultRoutes"
  "rule_ok rule_metered_restriction FI_MeteredRestriction"
  by (rule rule_okI; auto simp: rule_simps rule_firewall_blocking_uid_def rule_sockets_stuck_syn_sent_def
      rule_sockets_stuck_close_wait_def rule_multiple_default_routes_def rule_metered_restriction_def
      speaking split: if_splits)+

lemma rules_ok: "list_all2 rule_ok RULES RULE_IDS"
  by (simp add: RULES_def RULE_IDS_def connectivity_rules_ok dns_rules_ok path_rules_ok policy_rules_ok)

lemma RULE_IDS_distinct: "distinct RULE_IDS"
  by (simp add: RULE_IDS_def)

lemma fired_ids_subset:
  "list_all2 rule_ok rs ids \<Longrightarrow> fi_id ` set (List.map_filter (\<lambda>r. r index state) rs) \<subseteq> set ids"
  by (induction rs ids rule: list_all2_induct) (auto simp: map_filter_simps rule_ok_def split: option.splits)

lemma fired_ids_distinct:
  "list_all2 rule_ok rs ids \<Longrightarrow> distinct ids \<Longrightarrow> distinct (map fi_id (List.map_filter (\<lambda>r. r index state) rs))"
proof (induction rs ids rule: list_all2_induct)
  case (Cons r rs i ids)
  then have "\<And>f. r index state = Some f \<Longrightarrow> fi_id f = i" by (auto simp: rule_ok_def)
  with Cons fired_ids_subset [of rs ids index state] show ?case
    by (auto simp: map_filter_simps split: option.splits)
qed (simp add: map_filter_simps)

lemma fired_iff:
  assumes "list_all2 rule_ok rs ids" "distinct ids" "(r, i) \<in> set (zip rs ids)"
  shows "i \<in> fi_id ` set (List.map_filter (\<lambda>r. r index state) rs) \<longleftrightarrow> r index state \<noteq> None"
  using assms
proof (induction rs ids rule: list_all2_induct)
  case (Cons r' rs i' ids)
  have ok: "\<And>f. r' index state = Some f \<Longrightarrow> fi_id f = i'" using Cons.hyps by (auto simp: rule_ok_def)
  have sub: "fi_id ` set (List.map_filter (\<lambda>r. r index state) rs) \<subseteq> set ids"
    using Cons.hyps by (intro fired_ids_subset)
  show ?case
  proof (cases "(r, i) = (r', i')")
    case True
    with Cons.prems sub ok show ?thesis by (auto simp: map_filter_simps split: option.splits)
  next
    case False
    with Cons.prems have mem: "(r, i) \<in> set (zip rs ids)" by auto
    then have "i \<noteq> i'" using Cons.prems by (auto dest: set_zip_rightD)
    with Cons.IH Cons.prems mem ok show ?thesis by (auto simp: map_filter_simps split: option.splits)
  qed
qed simp

lemma reported_iff:
  "(r, i) \<in> set (zip RULES RULE_IDS) \<Longrightarrow>
   i \<in> fi_id ` set (evaluate checks state) \<longleftrightarrow> r (index_new checks) state \<noteq> None"
  unfolding evaluate_def Let_def set_sort_by by (rule fired_iff [OF rules_ok RULE_IDS_distinct])

interpretation finding_order: rust_ord finding_cmp
  unfolding finding_cmp_def by (intro rust_ord_then rust_ord_key_desc)

lemma finding_cmp_not_Greater:
  "finding_cmp a b \<noteq> Greater \<longleftrightarrow>
     fi_severity b < fi_severity a \<or> fi_severity a = fi_severity b \<and> fi_confidence b \<le> fi_confidence a"
  by (auto simp: finding_cmp_def then_cmp_Greater cmp_of_def)

lemma index_fold: "fold (\<lambda>c m. m(ck_key c \<mapsto> c)) cs m k = Some c \<Longrightarrow> m k = Some c \<or> c \<in> set cs \<and> ck_key c = k"
proof (induction cs arbitrary: m)
  case (Cons a cs)
  from Cons.prems have "fold (\<lambda>c m. m(ck_key c \<mapsto> c)) cs (m(ck_key a \<mapsto> a)) k = Some c"
    by (simp only: fold_simps)
  from Cons.IH [OF this] have "(m(ck_key a \<mapsto> a)) k = Some c \<or> c \<in> set cs \<and> ck_key c = k" .
  then show ?case by (auto split: if_splits)
qed simp

lemma index_new_Some: "index_new cs k = Some c \<Longrightarrow> c \<in> set cs \<and> ck_key c = k"
  unfolding index_new_def by (drule index_fold) simp

lemma evaluate_ok: "f \<in> set (evaluate checks state) \<Longrightarrow> finding_ok (index_new checks) f"
proof -
  assume "f \<in> set (evaluate checks state)"
  then obtain r where r: "r \<in> set RULES" "r (index_new checks) state = Some f"
    by (auto simp: evaluate_def Let_def map_filter_def)
  then obtain n where "n < length RULES" "RULES ! n = r" by (auto simp: in_set_conv_nth)
  with rules_ok have "rule_ok r (RULE_IDS ! n)" by (metis list_all2_nthD)
  with r show ?thesis by (auto simp: rule_ok_def)
qed

text \<open>
  C10: the findings of a report are ordered and grounded: no finding id occurs twice; they are sorted
  by severity and then confidence, both descending; and each has a severity, a confidence between 1
  and 100, at least one suggested action, and names at least one check of the report that failed,
  warned or carries evidence.
\<close>

theorem findings_grounded:
  "distinct (map fi_id (evaluate checks state)) \<and>
   sorted_wrt (\<lambda>a b. fi_severity b < fi_severity a \<or>
     fi_severity a = fi_severity b \<and> fi_confidence b \<le> fi_confidence a) (evaluate checks state) \<and>
   list_all (\<lambda>f. 0 < fi_severity f \<and> 0 < fi_confidence f \<and> fi_confidence f \<le> 100 \<and> fi_suggested_actions f \<noteq> [] \<and>
     (\<exists>c. c \<in> set checks \<and> ck_key c \<in> set (fi_supporting_checks f) \<and> speaks c)) (evaluate checks state)"
proof (intro conjI)
  have "mset (map fi_id (evaluate checks state)) =
      mset (map fi_id (List.map_filter (\<lambda>r. r (index_new checks) state) RULES))"
    by (metis evaluate_def mset_map mset_sort_by)
  then show "distinct (map fi_id (evaluate checks state))"
    using fired_ids_distinct [OF rules_ok RULE_IDS_distinct, of "index_new checks" state]
    by (metis mset_eq_imp_distinct_iff)
  show "sorted_wrt (\<lambda>a b. fi_severity b < fi_severity a \<or>
      fi_severity a = fi_severity b \<and> fi_confidence b \<le> fi_confidence a) (evaluate checks state)"
    using finding_order.sort_by_sorted unfolding evaluate_def Let_def finding_cmp_not_Greater .
  show "list_all (\<lambda>f. 0 < fi_severity f \<and> 0 < fi_confidence f \<and> fi_confidence f \<le> 100 \<and> fi_suggested_actions f \<noteq> [] \<and>
      (\<exists>c. c \<in> set checks \<and> ck_key c \<in> set (fi_supporting_checks f) \<and> speaks c)) (evaluate checks state)"
    using evaluate_ok index_new_Some
    by (fastforce simp: list_all_iff list_ex_iff finding_ok_def split: option.splits)
qed

end
