(* ===== verification/Diag.thy ===== *)
theory Diag
  imports Probe_Checks Rules
begin

text \<open>
  The diagnosis engine (\<^verbatim>\<open>daemon/src/diag/mod.rs\<close>): gathering the shared state once, running the
  wanted checks in their fixed order, and the report. \<open>None\<close> is a socket dump whose receive loop
  never ends; everything else returns.
\<close>

section \<open>Gathering\<close>

record diagnose_env =
  gv_links :: "string + link_message list"
  gv_addrs :: "string + address_message list"
  gv_fs :: file_system
  gv_neigh :: "address_family \<Rightarrow> string + neighbour_message list"
  gv_kernel :: kernel_env
  gv_probes :: probe_env
  gv_clocks :: clocks
  gv_started_unix_ms :: int
  gv_total_ms :: nat

definition resolve_net_id :: "diagnose_target \<Rightarrow> android_network_state option \<Rightarrow> int" where
  "resolve_net_id target android_state =
     (if dt_net_id target \<noteq> 0 then dt_net_id target
      else case android_state of
        Some s \<Rightarrow> if as_has_active_network s then as_active_net_id s else 0
      | None \<Rightarrow> 0)"

definition egress_interface :: "route_lookup_result \<Rightarrow> interface list \<Rightarrow> interface option" where
  "egress_interface lookup interfaces =
     Option.bind (lk_route lookup) (\<lambda>route.
       case rt_next_hops route of
         [] \<Rightarrow> None
       | hop # _ \<Rightarrow> find (\<lambda>i. if_index i = nh_out_interface_index hop) interfaces)"

definition resolve_dns_servers :: "android_network option \<Rightarrow> ip_addr list \<times> bool" where
  "resolve_dns_servers network =
     (case Option.bind network an_link_properties of
        Some lp \<Rightarrow>
          (let servers = List.map_filter to_ip (lp_dns_servers lp)
           in if servers \<noteq> [] then (servers, True) else ([FALLBACK_DNS_V4, FALLBACK_DNS_V6], False))
      | None \<Rightarrow> ([FALLBACK_DNS_V4, FALLBACK_DNS_V6], False))"

definition find_network :: "android_network_state option \<Rightarrow> int \<Rightarrow> android_network option" where
  "find_network android_state net_id =
     Option.bind android_state (\<lambda>s.
       or_else (find (\<lambda>n. an_net_id n = net_id) (as_networks s)) (find an_is_default (as_networks s)))"

definition endpoint :: "ip_address option \<Rightarrow> ip_addr \<Rightarrow> nat \<Rightarrow> socket_addr" where
  "endpoint wanted default_ip port =
     \<lparr>sa_ip = (case Option.bind wanted to_ip of Some ip \<Rightarrow> ip | None \<Rightarrow> default_ip), sa_port = port\<rparr>"

definition device_ctx :: "probe_context \<Rightarrow> interface option \<Rightarrow> probe_context" where
  "device_ctx ctx egress = (case egress of Some iface \<Rightarrow> on_device (if_name iface) ctx | None \<Rightarrow> ctx)"

text \<open>A failed socket dump leaves an empty one behind; the others end the gathering.\<close>

definition gather_sockets :: "diag_env \<Rightarrow> if_names \<Rightarrow> socket_dump option" where
  "gather_sockets env names =
     (case get_sockets env (any_socket\<lparr>sf_include_tcp_info := True\<rparr>) names of
        None \<Rightarrow> None
      | Some (Inl _) \<Rightarrow> Some \<lparr>sd_sockets = [], sd_summary = summarize [], sd_truncated = False\<rparr>
      | Some (Inr d) \<Rightarrow> Some d)"

definition build_state ::
  "kernel_env \<Rightarrow> diagnose_request \<Rightarrow> interface list \<Rightarrow> if_names \<Rightarrow> route list \<Rightarrow> routing_rule list
   \<Rightarrow> neighbor list \<Rightarrow> socket_dump \<Rightarrow> diag_state" where
  "build_state kern request interfaces names routes rules neighbors dump =
     (let target = target_of request;
          net_id = resolve_net_id target (dr_android_state request);
          network = find_network (dr_android_state request) net_id;
          base_ctx = pinned_to_net_id net_id (with_timeout (dt_timeout_ms target));
          uid = (if dt_has_as_uid target then Some (dt_as_uid target) else None);
          mark = map_option unat (pc_mark base_ctx);
          lookup = (\<lambda>dst. route_lookup (ke_lookup kern) dst None uid mark 0 names);
          lookup_v4 = lookup DEFAULT_V4_ENDPOINT;
          lookup_v6 = lookup DEFAULT_V6_ENDPOINT;
          egress_v4 = egress_interface lookup_v4 interfaces;
          egress_v6 = egress_interface lookup_v6 interfaces;
          (dns_servers, dns_from_framework) = resolve_dns_servers network;
          port = (if dt_tcp_port target = 0 then DEFAULT_TCP_PORT else dt_tcp_port target mod 2 ^ 16)
      in \<lparr>dg_interfaces = interfaces, dg_rules = rules, dg_routes = routes, dg_neighbors = neighbors,
          dg_sockets = sd_sockets dump, dg_socket_summary = sd_summary dump, dg_clat = detect_clat interfaces,
          dg_network = network, dg_net_id = net_id,
          dg_probe_ctx_v4 = device_ctx base_ctx egress_v4, dg_probe_ctx_v6 = device_ctx base_ctx egress_v6,
          dg_lookup_v4 = lookup_v4, dg_lookup_v6 = lookup_v6, dg_egress_v4 = egress_v4, dg_egress_v6 = egress_v6,
          dg_dns_servers = dns_servers, dg_dns_from_framework = dns_from_framework,
          dg_hostname = (if dt_hostname target = [] then DEFAULT_HOSTNAME else dt_hostname target),
          dg_v4_endpoint = endpoint (dt_ipv4_endpoint target) DEFAULT_V4_ENDPOINT port,
          dg_v6_endpoint = endpoint (dt_ipv6_endpoint target) DEFAULT_V6_ENDPOINT port,
          dg_timeout_ms = dt_timeout_ms target\<rparr>)"

definition gather :: "diagnose_env \<Rightarrow> diagnose_request \<Rightarrow> (string + diag_state) option" where
  "gather env request =
     (let kern = gv_kernel env in
      case get_interfaces (gv_links env) (gv_addrs env) (gv_fs env) True True of
        Inl e \<Rightarrow> Some (Inl e)
      | Inr interfaces \<Rightarrow>
     (let names = interface_names interfaces in
      case get_routes (ke_route_dump kern) Family_Unspecified 0 False 0 names of
        Inl e \<Rightarrow> Some (Inl e)
      | Inr route_dump \<Rightarrow>
     (case get_rules (ke_rule_dump kern) Family_Unspecified None of
        Inl e \<Rightarrow> Some (Inl e)
      | Inr rules \<Rightarrow>
     (case get_neighbors (gv_neigh env) Family_Unspecified 0 False names of
        Inl e \<Rightarrow> Some (Inl e)
      | Inr neighbors \<Rightarrow>
     (case gather_sockets (ke_diag kern) names of
        None \<Rightarrow> None
      | Some dump \<Rightarrow>
          Some (Inr (build_state kern request interfaces names (rd_routes route_dump) rules neighbors dump)))))))"

section \<open>The report\<close>

record diagnose_response =
  rp_started_unix_ms :: int
  rp_total_duration_ms :: nat
  rp_checks :: "check list"
  rp_findings :: "finding list"
  rp_summary :: string
  rp_worst_severity :: int
  rp_passed :: nat
  rp_failed :: nat
  rp_warned :: nat
  rp_skipped :: nat

definition count_status :: "check_status \<Rightarrow> check list \<Rightarrow> nat" where
  "count_status st checks = fold (\<lambda>c n. if ck_status c = st then n + 1 else n) checks 0"

definition worst_of :: "finding list \<Rightarrow> int" where
  "worst_of findings =
     (case map fi_severity findings of [] \<Rightarrow> finding_severity_i32 FS_Unspecified | s # ss \<Rightarrow> fold max ss s)"

definition finish :: "int \<Rightarrow> nat \<Rightarrow> check list \<Rightarrow> finding list \<Rightarrow> diagnose_response" where
  "finish started total_ms checks findings =
     (let failed = count_status ST_Fail checks; warned = count_status ST_Warn checks
      in \<lparr>rp_started_unix_ms = started, rp_total_duration_ms = total_ms, rp_checks = checks,
          rp_findings = findings,
          rp_summary =
            (case findings of
               f # _ \<Rightarrow> fi_title f
             | [] \<Rightarrow>
                 if failed = 0 \<and> warned = 0 then
                   ''No problems found; connectivity looks healthy on every layer checked''
                 else if failed = 0 then dec warned @ '' warning(s), nothing conclusive''
                 else dec failed @ '' check(s) failed but no known pattern matched''),
          rp_worst_severity = worst_of findings,
          rp_passed = count_status ST_Pass checks, rp_failed = failed, rp_warned = warned,
          rp_skipped = count_status ST_Skip checks\<rparr>)"

section \<open>Running the checks\<close>

definition wanted :: "diagnose_request \<Rightarrow> check_id \<Rightarrow> bool" where
  "wanted request i =
     (if check_id_i32 i \<in> set (dr_skip request) then False
      else dr_only request = [] \<or> check_id_i32 i \<in> set (dr_only request))"

fun probe_check_title :: "check_id \<Rightarrow> string" where
  "probe_check_title CI_GatewayReachabilityV4 = ''IPv4 gateway reachable''"
| "probe_check_title CI_GatewayReachabilityV6 = ''IPv6 gateway reachable''"
| "probe_check_title CI_DnsA = ''DNS A lookup''"
| "probe_check_title CI_DnsAaaa = ''DNS AAAA lookup''"
| "probe_check_title CI_TcpV4 = ''TCP connection over IPv4''"
| "probe_check_title CI_TcpV6 = ''TCP connection over IPv6''"
| "probe_check_title CI_TlsHandshake = ''TLS handshake''"
| "probe_check_title CI_PrivateDns = ''Private DNS''"
| "probe_check_title CI_Nat64Dns64 = ''NAT64 / DNS64''"
| "probe_check_title CI_MtuPmtu = ''MTU / path MTU''"
| "probe_check_title _ = ''Check''"

text \<open>A step of the run: the check to make and how, given the checks made before it.\<close>

type_synonym check_step = "check_id \<times> (check list \<Rightarrow> check option)"

definition structural_steps :: "diagnose_env \<Rightarrow> diag_state \<Rightarrow> diagnose_request \<Rightarrow> check_step list" where
  "structural_steps env state request =
     (let clk = gv_clocks env in
      [(CI_AndroidNetworkState, \<lambda>_. Some (check_android_state clk state request)),
       (CI_ActiveInterface, \<lambda>_. Some (check_active_interface clk state)),
       (CI_RouteLookupV4, \<lambda>_. Some (check_route_lookup clk state Family_V4)),
       (CI_RouteLookupV6, \<lambda>_. Some (check_route_lookup clk state Family_V6)),
       (CI_Ipv4Address, \<lambda>_. Some (check_address clk state Family_V4)),
       (CI_Ipv6Address, \<lambda>_. Some (check_address clk state Family_V6)),
       (CI_Ipv4DefaultRoute, \<lambda>_. Some (check_default_route clk state Family_V4)),
       (CI_Ipv6DefaultRoute, \<lambda>_. Some (check_default_route clk state Family_V6)),
       (CI_RoutingRuleCoverage, \<lambda>_. Some (check_rule_coverage clk state)),
       (CI_VpnRouting, \<lambda>_. Some (check_vpn clk state)),
       (CI_FirewallAnomaly, \<lambda>_. Some (check_firewall clk (ke_firewall (gv_kernel env)) request)),
       (CI_SuspiciousTcpStates, \<lambda>_. Some (check_socket_states clk state)),
       (CI_FrameworkKernelAgreement, \<lambda>_. Some (check_framework_agreement clk state)),
       (CI_CaptivePortal, \<lambda>_. Some (check_captive_portal clk state))])"

definition PROBE_IDS :: "check_id list" where
  "PROBE_IDS = [CI_GatewayReachabilityV4, CI_GatewayReachabilityV6, CI_DnsA, CI_DnsAaaa, CI_TcpV4, CI_TcpV6,
     CI_TlsHandshake, CI_PrivateDns, CI_Nat64Dns64, CI_MtuPmtu]"

definition passive_steps :: "clocks \<Rightarrow> check_step list" where
  "passive_steps clk = map (\<lambda>i. (i, \<lambda>_. Some (skip (cb_new clk i (probe_check_title i))
     ''skipped: the request asked for passive analysis only''))) PROBE_IDS"

definition probe_steps :: "clocks \<Rightarrow> probe_env \<Rightarrow> diag_state \<Rightarrow> check_step list" where
  "probe_steps clk pe state =
     [(CI_GatewayReachabilityV4, \<lambda>_. check_gateway clk pe state Family_V4),
      (CI_GatewayReachabilityV6, \<lambda>_. check_gateway clk pe state Family_V6),
      (CI_DnsA, \<lambda>_. check_dns clk pe state TYPE_A),
      (CI_DnsAaaa, \<lambda>_. check_dns clk pe state TYPE_AAAA),
      (CI_TcpV4, \<lambda>_. Some (check_tcp clk pe state Family_V4)),
      (CI_TcpV6, \<lambda>_. Some (check_tcp clk pe state Family_V6)),
      (CI_TlsHandshake, \<lambda>checks. check_tls clk pe state checks),
      (CI_PrivateDns, \<lambda>_. Some (check_private_dns clk pe state)),
      (CI_Nat64Dns64, \<lambda>_. check_nat64 clk pe state),
      (CI_MtuPmtu, \<lambda>_. check_mtu clk pe state)]"

fun run_steps :: "diagnose_request \<Rightarrow> check_step list \<Rightarrow> check list \<Rightarrow> check list option" where
  "run_steps request [] checks = Some checks"
| "run_steps request ((i, step) # steps) checks =
     (if wanted request i then
        (case step checks of
           None \<Rightarrow> None
         | Some c \<Rightarrow> run_steps request steps (checks @ [c]))
      else run_steps request steps checks)"

text \<open>
  The response and the checks offered to the progress channel, in order. The channel may refuse an
  offer when it is full; the report does not depend on that.
\<close>

definition run :: "diagnose_env \<Rightarrow> diagnose_request \<Rightarrow> bool \<Rightarrow> (diagnose_response \<times> check list) option" where
  "run env request emit =
     (let report = (\<lambda>checks findings.
            (finish (gv_started_unix_ms env) (gv_total_ms env) checks findings, if emit then checks else []))
      in case gather env request of
           None \<Rightarrow> None
         | Some (Inl e) \<Rightarrow>
             Some (report [fail (cb_new (gv_clocks env) CI_ActiveInterface ''Collect kernel state'')
               (''could not read kernel networking state: '' @ e)] [])
         | Some (Inr state) \<Rightarrow>
             (case run_steps request
                (structural_steps env state request @
                 (if dr_passive_only request then passive_steps (gv_clocks env)
                  else probe_steps (gv_clocks env) (gv_probes env) state)) [] of
                None \<Rightarrow> None
              | Some checks \<Rightarrow> Some (report checks (evaluate checks state))))"

section \<open>What the builder keeps\<close>

lemma builder_keeps [check_simps]:
  "ck_id (cb_check (cb_new clk i t)) = i" "ck_key (cb_check (cb_new clk i t)) = check_key i"
  "ck_id (cb_check (set_family b f)) = ck_id (cb_check b)" "ck_key (cb_check (set_family b f)) = ck_key (cb_check b)"
  "ck_id (cb_check (depends_on b ks)) = ck_id (cb_check b)" "ck_key (cb_check (depends_on b ks)) = ck_key (cb_check b)"
  "ck_id (cb_check (ev b k v)) = ck_id (cb_check b)" "ck_key (cb_check (ev b k v)) = ck_key (cb_check b)"
  by (simp_all add: cb_new_def set_family_def depends_on_def ev_def on_check_def)

lemma evs_keeps [check_simps]:
  "ck_id (cb_check (evs b kvs)) = ck_id (cb_check b)" "ck_key (cb_check (evs b kvs)) = ck_key (cb_check b)"
  by (induction kvs arbitrary: b) (auto simp: evs_def check_simps)

lemma finish_check_fields [check_simps]:
  "ck_id (finish_check b st d) = ck_id (cb_check b)" "ck_key (finish_check b st d) = ck_key (cb_check b)"
  "ck_status (finish_check b st d) = st" "ck_detail (finish_check b st d) = d"
  "ck_evidence (finish_check b st d) = ck_evidence (cb_check b)"
  by (simp_all add: finish_check_def)

lemmas verdict_defs = pass_def fail_def warn_def skip_def info_def

lemma with_probe_keeps [check_simps]:
  "ck_id (with_probe b r) = ck_id (cb_check b)" "ck_key (with_probe b r) = ck_key (cb_check b)"
  by (simp_all add: with_probe_def Let_def verdict_defs check_simps on_check_def)

definition made :: "check_id \<Rightarrow> check \<Rightarrow> bool" where
  "made i c = (ck_id c = i \<and> ck_key c = check_key i)"

definition making :: "check_id \<Rightarrow> check_builder \<Rightarrow> bool" where
  "making i b = made i (cb_check b)"

lemma making_intros:
  "making i (cb_new clk i t)"
  "making i b \<Longrightarrow> making i (set_family b f)" "making i b \<Longrightarrow> making i (depends_on b ks)"
  "making i b \<Longrightarrow> making i (ev b k v)" "making i b \<Longrightarrow> making i (evs b kvs)"
  by (simp_all add: making_def made_def check_simps)

lemma made_intros:
  "making i b \<Longrightarrow> made i (pass b d)" "making i b \<Longrightarrow> made i (fail b d)" "making i b \<Longrightarrow> made i (warn b d)"
  "making i b \<Longrightarrow> made i (skip b d)" "making i b \<Longrightarrow> made i (info b d)" "making i b \<Longrightarrow> made i (with_probe b r)"
  by (simp_all add: making_def made_def check_simps verdict_defs)

lemma made_cases:
  "made i c \<Longrightarrow> made i c' \<Longrightarrow> made i (if P then c else c')"
  "made i c \<Longrightarrow> (\<And>x. made i (f x)) \<Longrightarrow> made i (case y of None \<Rightarrow> c | Some x \<Rightarrow> f x)"
  "made i c \<Longrightarrow> (\<And>x xs. made i (g x xs)) \<Longrightarrow> made i (case ys of [] \<Rightarrow> c | x # xs \<Rightarrow> g x xs)"
  "(\<And>x y. made i (h x y)) \<Longrightarrow> made i (case p of (x, y) \<Rightarrow> h x y)"
  "made i (e v) \<Longrightarrow> made i (Let v e)"
  "made i c \<Longrightarrow> made i (c\<lparr>ck_status := st, ck_detail := d\<rparr>)"
  by (auto simp: made_def split: option.split list.split prod.split)

lemma making_cases:
  "making i b \<Longrightarrow> making i b' \<Longrightarrow> making i (if P then b else b')"
  by simp

lemmas made_rules = made_cases made_intros making_cases making_intros

lemma structural_made:
  "made CI_AndroidNetworkState (check_android_state clk state request)"
  "made CI_ActiveInterface (check_active_interface clk state)"
  "made CI_RoutingRuleCoverage (check_rule_coverage clk state)"
  "made CI_VpnRouting (check_vpn clk state)"
  "made CI_FirewallAnomaly (check_firewall clk fw request)"
  "made CI_SuspiciousTcpStates (check_socket_states clk state)"
  "made CI_FrameworkKernelAgreement (check_framework_agreement clk state)"
  "made CI_CaptivePortal (check_captive_portal clk state)"
  unfolding check_android_state_def check_active_interface_def check_rule_coverage_def check_vpn_def
    check_firewall_def check_socket_states_def check_framework_agreement_def check_captive_portal_def
  by (intro made_rules)+

text \<open>The checks made once per family, with the family resolved.\<close>

lemmas family_simps = ip_family.distinct simp_thms if_True if_False Let_def prod.case

lemma family_made:
  "made CI_RouteLookupV4 (check_route_lookup clk state Family_V4)"
  "made CI_RouteLookupV6 (check_route_lookup clk state Family_V6)"
  "made CI_Ipv4Address (check_address clk state Family_V4)"
  "made CI_Ipv6Address (check_address clk state Family_V6)"
  "made CI_Ipv4DefaultRoute (check_default_route clk state Family_V4)"
  "made CI_Ipv6DefaultRoute (check_default_route clk state Family_V6)"
  "made CI_TcpV4 (check_tcp clk pe state Family_V4)"
  "made CI_TcpV6 (check_tcp clk pe state Family_V6)"
  unfolding check_route_lookup_def check_address_def check_default_route_def check_tcp_def
  by (simp only: family_simps, intro made_rules)+

lemma dns_loop_made:
  "dns_loop pe state qtype n servers b prev = Some c \<Longrightarrow> ck_id c = ck_id (cb_check b) \<and> ck_key c = ck_key (cb_check b)"
  by (induction pe state qtype n servers b prev rule: dns_loop.induct)
    (auto simp: Let_def check_simps verdict_defs split: option.splits if_splits)

text \<open>
  The checks that read a reply: a check is made whatever the reply, because the reader never panics.
\<close>

definition surely_made :: "check_id \<Rightarrow> check option \<Rightarrow> bool" where
  "surely_made i r = (\<exists>c. r = Some c \<and> made i c)"

lemma surely_made_rules:
  "made i c \<Longrightarrow> surely_made i (Some c)"
  "(\<And>x. made i (f x)) \<Longrightarrow> \<exists>x. r = Some x \<Longrightarrow> surely_made i (map_option f r)"
  "surely_made i d \<Longrightarrow> (\<And>x. surely_made i (g x)) \<Longrightarrow> surely_made i (case y of None \<Rightarrow> d | Some x \<Rightarrow> g x)"
  "(\<And>x y. surely_made i (h x y)) \<Longrightarrow> surely_made i (case p of (x, y) \<Rightarrow> h x y)"
  "surely_made i (e v) \<Longrightarrow> surely_made i (Let v e)"
  by (auto simp: surely_made_def split: option.split prod.split)

lemma discover_total: "\<exists>r. discover kenv env elapsed target link_mtu ctx = Some r"
  using discover_measures by blast

lemmas reply_rules = surely_made_rules ping_total tls_probe_total discover_total made_rules

lemma probe_made:
  "made CI_PrivateDns (check_private_dns clk pe state)"
  "surely_made CI_TlsHandshake (check_tls clk pe state checks)"
  "surely_made CI_MtuPmtu (check_mtu clk pe state)"
  unfolding check_tls_def check_private_dns_def check_mtu_def
  by (intro reply_rules)+

lemma gateway_made:
  "surely_made CI_GatewayReachabilityV4 (check_gateway clk pe state Family_V4)"
  "surely_made CI_GatewayReachabilityV6 (check_gateway clk pe state Family_V6)"
  unfolding check_gateway_def by (simp only: family_simps, intro reply_rules)+

lemma nat64_verdict_keeps:
  "ck_id (nat64_verdict b clat p) = ck_id (cb_check b)" "ck_key (nat64_verdict b clat p) = ck_key (cb_check b)"
  by (simp_all add: nat64_verdict_def Let_def verdict_defs check_simps split: option.split prod.split)

lemma query_made:
  "check_dns clk pe state TYPE_A = Some c \<Longrightarrow> made CI_DnsA c"
  "check_dns clk pe state TYPE_AAAA = Some c \<Longrightarrow> made CI_DnsAaaa c"
  "check_nat64 clk pe state = Some c \<Longrightarrow> made CI_Nat64Dns64 c"
  by (auto simp: made_def check_dns_def check_nat64_def Let_def check_simps verdict_defs TYPE_A_def TYPE_AAAA_def
      nat64_verdict_keeps dest!: dns_loop_made split: if_splits list.splits option.splits sum.splits)

lemma query_total_checks: "check_dns clk pe state qtype \<noteq> None" "check_nat64 clk pe state \<noteq> None"
proof -
  have "dns_loop pe state qtype n servers b prev \<noteq> None" for n servers b prev
    by (induction servers arbitrary: n b prev)
      (auto simp: Let_def dns_probe_total simp del: not_None_eq split: option.split)
  then show "check_dns clk pe state qtype \<noteq> None"
    unfolding check_dns_def Let_def by (cases "qtype = TYPE_A") (simp_all del: not_None_eq)
  show "check_nat64 clk pe state \<noteq> None"
    using query_total by (simp add: check_nat64_def Let_def query_total del: not_None_eq split: list.split option.split)
qed

section \<open>Facts about runs\<close>

definition step_ok :: "check_step \<Rightarrow> bool" where
  "step_ok s = (\<forall>checks. \<exists>c. snd s checks = Some c \<and> made (fst s) c)"

lemma probe_steps_ok: "list_all step_ok (probe_steps clk pe state)"
proof -
  have "\<exists>c. check_dns clk pe state TYPE_A = Some c \<and> made CI_DnsA c"
    "\<exists>c. check_dns clk pe state TYPE_AAAA = Some c \<and> made CI_DnsAaaa c"
    "\<exists>c. check_nat64 clk pe state = Some c \<and> made CI_Nat64Dns64 c"
    using query_total_checks query_made by (metis not_None_eq)+
  then show ?thesis
    using gateway_made [of clk pe state] probe_made [of clk pe state] family_made
    by (simp add: probe_steps_def step_ok_def surely_made_def)
qed

lemma passive_steps_ok: "list_all step_ok (passive_steps clk)"
  by (simp add: passive_steps_def PROBE_IDS_def step_ok_def made_intros making_intros)

lemma structural_steps_ok: "list_all step_ok (structural_steps env state request)"
  by (simp add: structural_steps_def Let_def step_ok_def structural_made family_made)

definition CHECK_ORDER :: "check_id list" where
  "CHECK_ORDER =
     [CI_AndroidNetworkState, CI_ActiveInterface, CI_RouteLookupV4, CI_RouteLookupV6, CI_Ipv4Address,
      CI_Ipv6Address, CI_Ipv4DefaultRoute, CI_Ipv6DefaultRoute, CI_RoutingRuleCoverage, CI_VpnRouting,
      CI_FirewallAnomaly, CI_SuspiciousTcpStates, CI_FrameworkKernelAgreement, CI_CaptivePortal] @ PROBE_IDS"

definition all_steps :: "diagnose_env \<Rightarrow> diag_state \<Rightarrow> diagnose_request \<Rightarrow> check_step list" where
  "all_steps env state request =
     structural_steps env state request @
       (if dr_passive_only request then passive_steps (gv_clocks env)
        else probe_steps (gv_clocks env) (gv_probes env) state)"

lemma all_steps_ok: "list_all step_ok (all_steps env state request)"
  by (simp add: all_steps_def structural_steps_ok passive_steps_ok probe_steps_ok)

lemma all_steps_order: "map fst (all_steps env state request) = CHECK_ORDER"
  by (simp add: all_steps_def CHECK_ORDER_def structural_steps_def passive_steps_def probe_steps_def PROBE_IDS_def Let_def)

lemma CHECK_ORDER_distinct: "distinct CHECK_ORDER"
  by (simp add: CHECK_ORDER_def PROBE_IDS_def)

lemma check_key_inject: "check_key i = check_key j \<longleftrightarrow> i = j"
  by (cases i; cases j) simp_all

lemma run_steps_total:
  "list_all step_ok steps \<Longrightarrow>
   \<exists>cs. run_steps request steps acc = Some (acc @ cs) \<and> map ck_id cs = filter (wanted request) (map fst steps) \<and>
     list_all (\<lambda>c. ck_key c = check_key (ck_id c)) cs"
proof (induction steps arbitrary: acc)
  case (Cons s steps)
  obtain i step where s: "s = (i, step)" by (cases s)
  from Cons.prems have rest: "list_all step_ok steps" by simp
  show ?case
  proof (cases "wanted request i")
    case True
    from Cons.prems obtain c where c: "step acc = Some c" "made i c" by (auto simp: s step_ok_def)
    from Cons.IH [OF rest, of "acc @ [c]"] obtain cs where
      cs: "run_steps request steps (acc @ [c]) = Some ((acc @ [c]) @ cs)"
        "map ck_id cs = filter (wanted request) (map fst steps)" "list_all (\<lambda>c. ck_key c = check_key (ck_id c)) cs"
      by blast
    with c True show ?thesis by (intro exI [of _ "c # cs"]) (simp add: s made_def)
  next
    case False
    with Cons.IH [OF rest, of acc] show ?thesis by (simp add: s)
  qed
qed simp

lemma run_steps_keeps: "run_steps request steps acc = Some cs \<Longrightarrow> set acc \<subseteq> set cs"
  by (induction steps arbitrary: acc) (force split: if_splits option.splits)+

lemma run_steps_has:
  "run_steps request steps acc = Some cs \<Longrightarrow> (i, \<lambda>_. Some c) \<in> set steps \<Longrightarrow> wanted request i \<Longrightarrow> c \<in> set cs"
proof (induction steps arbitrary: acc)
  case (Cons s steps)
  obtain j step where s: "s = (j, step)" by (cases s)
  show ?case
  proof (cases "(i, \<lambda>_. Some c) = s")
    case True
    with Cons.prems have "run_steps request steps (acc @ [c]) = Some cs" by auto
    then show ?thesis using run_steps_keeps by fastforce
  next
    case False
    with Cons.prems have "(i, \<lambda>_. Some c) \<in> set steps" by auto
    with Cons.IH Cons.prems(1,3) show ?thesis by (auto simp: s split: if_splits option.splits)
  qed
qed simp

lemma run_cases:
  "run env request emit =
     (case gather env request of
        None \<Rightarrow> None
      | Some (Inl e) \<Rightarrow>
          (let cs = [fail (cb_new (gv_clocks env) CI_ActiveInterface ''Collect kernel state'')
             (''could not read kernel networking state: '' @ e)]
           in Some (finish (gv_started_unix_ms env) (gv_total_ms env) cs [], if emit then cs else []))
      | Some (Inr state) \<Rightarrow>
          (let cs = the (run_steps request (all_steps env state request) [])
           in Some (finish (gv_started_unix_ms env) (gv_total_ms env) cs (evaluate cs state), if emit then cs else [])))"
proof (cases "gather env request")
  case (Some g)
  show ?thesis
  proof (cases g)
    case (Inr state)
    obtain cs where "run_steps request (all_steps env state request) [] = Some cs"
      using run_steps_total [OF all_steps_ok [of env state request], of request "[]"] by auto
    then show ?thesis by (simp add: run_def Some Inr Let_def all_steps_def)
  qed (simp add: run_def Some Let_def)
qed (simp add: run_def)

lemma run_checks:
  obtains cs where "run_steps request (all_steps env state request) [] = Some cs"
    "map ck_id cs = filter (wanted request) CHECK_ORDER"
    "map ck_key cs = map check_key (filter (wanted request) CHECK_ORDER)" "distinct (map ck_key cs)"
proof -
  obtain cs where cs: "run_steps request (all_steps env state request) [] = Some cs"
    "map ck_id cs = filter (wanted request) CHECK_ORDER" "list_all (\<lambda>c. ck_key c = check_key (ck_id c)) cs"
    using run_steps_total [OF all_steps_ok [of env state request], of request "[]"] by (auto simp: all_steps_order)
  have "map ck_key cs = map check_key (map ck_id cs)" using cs(3) by (simp add: list_all_iff)
  then have keys: "map ck_key cs = map check_key (filter (wanted request) CHECK_ORDER)" by (simp only: cs(2))
  have "distinct (map check_key (filter (wanted request) CHECK_ORDER))"
    using CHECK_ORDER_distinct by (simp add: distinct_map inj_on_def check_key_inject)
  then have "distinct (map ck_key cs)" by (simp only: keys)
  with cs(1,2) keys show thesis by (rule that)
qed

lemma count_status_length: "count_status st cs = length (filter (\<lambda>c. ck_status c = st) cs)"
proof -
  have "fold (\<lambda>c n. if ck_status c = st then n + 1 else n) cs n = n + length (filter (\<lambda>c. ck_status c = st) cs)" for n :: nat
    by (induction cs arbitrary: n) simp_all
  then show ?thesis by (simp add: count_status_def)
qed

lemma worst_of_sorted:
  assumes "sorted_wrt (\<lambda>a b. finding_cmp a b \<noteq> Greater) fs"
  shows "worst_of fs = (case fs of [] \<Rightarrow> 0 | f # _ \<Rightarrow> fi_severity f)"
proof (cases fs)
  case (Cons f rest)
  then have "\<And>g. g \<in> set rest \<Longrightarrow> fi_severity g \<le> fi_severity f"
    using assms by (auto simp: finding_cmp_not_Greater)
  then have "fold max (map fi_severity rest) (fi_severity f) = fi_severity f"
    by (induction rest) (auto simp: max_absorb2)
  with Cons show ?thesis by (simp add: worst_of_def)
qed (simp add: worst_of_def)

lemma evaluate_sorted: "sorted_wrt (\<lambda>a b. finding_cmp a b \<noteq> Greater) (evaluate checks state)"
  unfolding evaluate_def Let_def by (rule finding_order.sort_by_sorted)

section \<open>Properties\<close>

text \<open>
  C8: a report is complete: when the kernel state could be read, the checks of the report are
  exactly the wanted ones, each once, in the fixed order, under their own key, whether the probes
  run or the analysis is passive; the counters count them by status; the worst severity is that of
  the first finding, which also gives the summary; and the progress channel is offered exactly the
  checks of the report.
\<close>

theorem report_complete:
  assumes "gather env request = Some (Inr state)"
  shows "\<exists>resp. run env request True = Some (resp, rp_checks resp) \<and>
    map ck_id (rp_checks resp) = filter (wanted request) CHECK_ORDER \<and>
    map ck_key (rp_checks resp) = map check_key (filter (wanted request) CHECK_ORDER) \<and>
    distinct (map ck_key (rp_checks resp)) \<and>
    rp_passed resp = length (filter (\<lambda>c. ck_status c = ST_Pass) (rp_checks resp)) \<and>
    rp_failed resp = length (filter (\<lambda>c. ck_status c = ST_Fail) (rp_checks resp)) \<and>
    rp_warned resp = length (filter (\<lambda>c. ck_status c = ST_Warn) (rp_checks resp)) \<and>
    rp_skipped resp = length (filter (\<lambda>c. ck_status c = ST_Skip) (rp_checks resp)) \<and>
    rp_findings resp = evaluate (rp_checks resp) state \<and>
    rp_worst_severity resp = (case rp_findings resp of [] \<Rightarrow> 0 | f # _ \<Rightarrow> fi_severity f) \<and>
    (case rp_findings resp of [] \<Rightarrow> True | f # _ \<Rightarrow> rp_summary resp = fi_title f)"
proof -
  obtain cs where cs: "run_steps request (all_steps env state request) [] = Some cs"
    "map ck_id cs = filter (wanted request) CHECK_ORDER"
    "map ck_key cs = map check_key (filter (wanted request) CHECK_ORDER)" "distinct (map ck_key cs)"
    by (rule run_checks)
  with assms show ?thesis
    using worst_of_sorted [OF evaluate_sorted, of cs state]
    by (simp add: run_cases Let_def finish_def count_status_length split: list.split)
qed

lemma gather_probes [simp]: "gather (env\<lparr>gv_probes := p\<rparr>) request = gather env request"
  unfolding gather_def Let_def by (simp split: sum.split option.split)

lemma run_steps_append:
  "run_steps request (xs @ ys) acc = Option.bind (run_steps request xs acc) (run_steps request ys)"
  by (induction xs arbitrary: acc) (auto split: option.split)

text \<open>The checks that send nothing come first and are the same whatever the probes receive.\<close>

lemma all_steps_split:
  "\<exists>cs. map ck_id cs = filter (wanted request) (take 14 CHECK_ORDER) \<and>
     (\<forall>p. \<exists>probed. run_steps request (all_steps (env\<lparr>gv_probes := p\<rparr>) state request) [] = Some (cs @ probed) \<and>
        map ck_id probed = filter (wanted request) PROBE_IDS)"
proof -
  let ?later = "\<lambda>p. if dr_passive_only request then passive_steps (gv_clocks env) else probe_steps (gv_clocks env) p state"
  have "map fst (structural_steps env state request) = take 14 CHECK_ORDER"
    by (simp add: structural_steps_def CHECK_ORDER_def Let_def)
  then obtain cs where cs: "run_steps request (structural_steps env state request) [] = Some cs"
    "map ck_id cs = filter (wanted request) (take 14 CHECK_ORDER)"
    using run_steps_total [OF structural_steps_ok [of env state request], of request "[]"] by auto
  have "\<exists>probed. run_steps request (?later p) cs = Some (cs @ probed) \<and> map ck_id probed = filter (wanted request) PROBE_IDS" for p
  proof -
    have "list_all step_ok (?later p)" by (simp add: passive_steps_ok probe_steps_ok)
    moreover have "map fst (?later p) = PROBE_IDS" by (simp add: passive_steps_def probe_steps_def PROBE_IDS_def)
    ultimately show ?thesis using run_steps_total [of "?later p" request cs] by metis
  qed
  moreover have "all_steps (env\<lparr>gv_probes := p\<rparr>) state request = structural_steps env state request @ ?later p" for p
    by (simp add: all_steps_def structural_steps_def)
  ultimately show ?thesis using cs by (auto simp: run_steps_append)
qed

text \<open>
  C18: no reply can stop a diagnosis or reach the checks that send nothing. The readers of DNS, ICMP and
  TLS replies index with a check, and an index out of range is a panic (\<open>None\<close>) that would end the run
  without a report. Once the kernel state was gathered, the run returns a report whatever bytes the probes
  receive, which starts with one and the same list of checks, those of the first fourteen that are
  wanted, and goes on with one check for every wanted probe. A dump that failed is itself
  reported, as the one failed check. Gathering fails to return only when a socket dump of the kernel
  does not end.
\<close>

theorem run_returns:
  "case gather env request of
     None \<Rightarrow> run env request emit = None
   | Some (Inl e) \<Rightarrow>
       (\<exists>resp off. run env request emit = Some (resp, off) \<and> map ck_status (rp_checks resp) = [ST_Fail] \<and>
          rp_failed resp = 1 \<and> rp_findings resp = [])
   | Some (Inr state) \<Rightarrow>
       (\<exists>cs. map ck_id cs = filter (wanted request) (take 14 CHECK_ORDER) \<and>
          (\<forall>p. \<exists>resp off probed. run (env\<lparr>gv_probes := p\<rparr>) request emit = Some (resp, off) \<and>
             rp_checks resp = cs @ probed \<and> map ck_id probed = filter (wanted request) PROBE_IDS))"
proof (cases "gather env request")
  case (Some g)
  show ?thesis
  proof (cases g)
    case (Inl e)
    with Some show ?thesis
      by (simp add: run_cases Let_def finish_def count_status_length fail_def check_simps)
  next
    case (Inr state)
    obtain cs where cs: "map ck_id cs = filter (wanted request) (take 14 CHECK_ORDER)"
      and p: "\<And>p. \<exists>probed. run_steps request (all_steps (env\<lparr>gv_probes := p\<rparr>) state request) [] = Some (cs @ probed) \<and>
        map ck_id probed = filter (wanted request) PROBE_IDS"
      using all_steps_split [of request env state] by blast
    have "\<exists>resp off probed. run (env\<lparr>gv_probes := p\<rparr>) request emit = Some (resp, off) \<and>
        rp_checks resp = cs @ probed \<and> map ck_id probed = filter (wanted request) PROBE_IDS" for p
      using p [of p] Some Inr by (auto simp: run_cases Let_def finish_def)
    with cs Some Inr show ?thesis by auto
  qed
qed (simp add: run_cases)

text \<open>
  C17: a passive analysis sends nothing: with \<open>passive_only\<close> set, the report does not depend on
  how any probe would be answered, because none is made.
\<close>

theorem passive_sends_nothing:
  assumes "dr_passive_only request"
  shows "run (env\<lparr>gv_probes := p\<rparr>) request emit = run env request emit"
proof -
  have "all_steps (env\<lparr>gv_probes := p\<rparr>) state request = all_steps env state request" for state
    using assms by (simp add: all_steps_def structural_steps_def)
  then show ?thesis by (simp add: run_cases split: option.split sum.split)
qed

section \<open>From the socket table to the finding\<close>

lemma build_state_sockets:
  "dg_sockets (build_state k rq ifs ns rs us nbs d) = sd_sockets d"
  "dg_socket_summary (build_state k rq ifs ns rs us nbs d) = sd_summary d"
  by (simp_all add: build_state_def Let_def split: prod.split)

lemma gather_sockets_summary: "gather_sockets env ns = Some d \<Longrightarrow> sd_summary d = summarize (sd_sockets d)"
  by (auto simp: gather_sockets_def get_sockets_def Let_def split: sum.splits option.splits prod.splits)

lemma gather_summary:
  "gather env request = Some (Inr state) \<Longrightarrow> dg_socket_summary state = summarize (dg_sockets state)"
  by (auto simp: gather_def Let_def build_state_sockets gather_sockets_summary split: sum.splits option.splits)

lemma index_new_distinct:
  assumes "distinct (map ck_key cs)" "c \<in> set cs"
  shows "index_new cs (ck_key c) = Some c"
proof -
  have "fold (\<lambda>c m. m(ck_key c \<mapsto> c)) ds m (ck_key c) \<noteq> None" if "m (ck_key c) \<noteq> None \<or> c \<in> set ds" for ds m
    using that by (induction ds arbitrary: m) auto
  then obtain d where d: "index_new cs (ck_key c) = Some d" using assms(2) unfolding index_new_def by blast
  with index_new_Some [OF this] assms show ?thesis by (auto simp: distinct_map inj_on_def)
qed

lemma index_new_None: "k \<notin> ck_key ` set cs \<Longrightarrow> index_new cs k = None"
  using index_new_Some by (metis imageI option.exhaust)

lemma socket_check:
  "ck_status (check_socket_states clk state) = ST_Fail \<longleftrightarrow>
     ss_total (dg_socket_summary state) \<noteq> 0 \<and> SYN_SENT_THRESHOLD \<le> ss_syn_sent (dg_socket_summary state)"
  "ck_evidence (check_socket_states clk state) ''syn_sent'' \<noteq> None"
  by (simp_all add: check_socket_states_def Let_def verdict_defs check_simps evs_def ev_def on_check_def cb_new_def)

lemma syn_sent_count: "ss_syn_sent (summarize xs) = length (filter (\<lambda>s. so_state s = TS_SynSent) xs)"
  "ss_total (summarize xs) = length xs"
  by (simp_all add: summarize_def fold_count [OF count_socket_step(4)] fold_total)

text \<open>
  The finding about sockets stuck in SYN_SENT is in the report exactly when the check is wanted and at
  least five sockets of the dump are in that state: the code compares with \<open>>=\<close>, although the
  threshold is described as the number above which the state is suspicious.
\<close>

lemma stuck_connections_threshold:
  assumes "gather env request = Some (Inr state)" "run env request emit = Some (resp, off)"
  shows "FI_SocketsStuckSynSent \<in> fi_id ` set (rp_findings resp) \<longleftrightarrow>
    wanted request CI_SuspiciousTcpStates \<and> 5 \<le> length (filter (\<lambda>s. so_state s = TS_SynSent) (dg_sockets state))"
proof -
  obtain cs where cs: "run_steps request (all_steps env state request) [] = Some cs"
    and keys: "map ck_key cs = map check_key (filter (wanted request) CHECK_ORDER)" and dist: "distinct (map ck_key cs)"
    by (rule run_checks)
  have fs: "rp_findings resp = evaluate cs state"
    using assms cs by (auto simp: run_cases Let_def finish_def)
  let ?c = "check_socket_states (gv_clocks env) state"
  have idx: "index_new cs ''sockets.states'' = (if wanted request CI_SuspiciousTcpStates then Some ?c else None)"
  proof (cases "wanted request CI_SuspiciousTcpStates")
    case True
    have "(CI_SuspiciousTcpStates, \<lambda>_. Some ?c) \<in> set (all_steps env state request)"
      by (simp add: all_steps_def structural_steps_def Let_def)
    from run_steps_has [OF cs this True] have "?c \<in> set cs" .
    moreover have "ck_key ?c = ''sockets.states''" using structural_made(6) by (simp add: made_def)
    ultimately show ?thesis using index_new_distinct [OF dist, of ?c] True by simp
  next
    case False
    have "ck_key ` set cs = check_key ` {i \<in> set CHECK_ORDER. wanted request i}"
      using arg_cong [OF keys, of set] by simp
    moreover have "''sockets.states'' = check_key CI_SuspiciousTcpStates" by simp
    ultimately have "''sockets.states'' \<notin> ck_key ` set cs"
      using False check_key_inject by (metis (no_types, lifting) imageE mem_Collect_eq)
    from index_new_None [OF this] False show ?thesis by simp
  qed
  have "(rule_sockets_stuck_syn_sent, FI_SocketsStuckSynSent) \<in> set (zip RULES RULE_IDS)"
    by (simp add: RULES_def RULE_IDS_def)
  from reported_iff [OF this] have "FI_SocketsStuckSynSent \<in> fi_id ` set (rp_findings resp) \<longleftrightarrow>
      rule_sockets_stuck_syn_sent (index_new cs) state \<noteq> None" by (simp add: fs)
  also have "\<dots> \<longleftrightarrow> wanted request CI_SuspiciousTcpStates \<and> ck_status ?c = ST_Fail"
    using socket_check(2) [of "gv_clocks env" state]
    by (auto simp: rule_sockets_stuck_syn_sent_def idx evidence_def failed_def status_of_def)
  also have "\<dots> \<longleftrightarrow> wanted request CI_SuspiciousTcpStates \<and>
      5 \<le> length (filter (\<lambda>s. so_state s = TS_SynSent) (dg_sockets state))"
    by (auto simp: socket_check(1) gather_summary [OF assms(1)] syn_sent_count SYN_SENT_THRESHOLD_def)
  finally show ?thesis .
qed

text \<open>
  C39: connections that do not complete are reported and nothing else is taken for them: the finding
  about sockets stuck in SYN_SENT is in the report exactly when the check is wanted and more than five
  sockets of the dump the report was made from are in that state. The boundary, exactly five, is left out:
  there the code reports and the comment at the threshold says that it should not.
\<close>

theorem stuck_connections_reported:
  assumes "gather env request = Some (Inr state)" "run env request emit = Some (resp, off)"
    and "length (filter (\<lambda>s. so_state s = TS_SynSent) (dg_sockets state)) \<noteq> 5"
  shows "FI_SocketsStuckSynSent \<in> fi_id ` set (rp_findings resp) \<longleftrightarrow>
    wanted request CI_SuspiciousTcpStates \<and> 5 < length (filter (\<lambda>s. so_state s = TS_SynSent) (dg_sockets state))"
  using stuck_connections_threshold [OF assms(1,2)] assms(3) by auto

section \<open>Witnesses\<close>

text \<open>
  A device whose kernel dumps are empty and whose socket table holds one connection in
  SYN_SENT per byte given.
\<close>

definition demo_syn :: inet_response where
  "demo_syn = (demo_row 1)\<lparr>ir_state := 2\<rparr>"

definition demo_kernel :: "bytes \<Rightarrow> kernel_env" where
  "demo_kernel rows =
     \<lparr>ke_rule_dump = (\<lambda>_. Inr []), ke_route_dump = (\<lambda>_. Inr []), ke_lookup = (\<lambda>_. Inr []),
      ke_diag = \<lparr>de_open = None, de_bind = None,
        de_exchange = (\<lambda>rq. Inr [Inr (if rq_protocol rq = IPPROTO_TCP \<and> rq_family rq = AF_INET then rows else []), Inr [0]]),
        de_deserialize = (\<lambda>buf. Inr (1, if hd buf = 0 then DP_Done else DP_Response demo_syn))\<rparr>,
      ke_firewall = \<lparr>fw_exists = (\<lambda>_. False), fw_obj_get = (\<lambda>_. False), fw_lookup = (\<lambda>_. ML_NotFound),
        fw_read_dir = (\<lambda>_. None), fw_run_tool = (\<lambda>_ _. None)\<rparr>\<rparr>"

definition demo_sock :: sock_ops where
  "demo_sock = \<lparr>op_set_mark = (\<lambda>_. None), op_bind_device = (\<lambda>_. None)\<rparr>"

definition demo_icmp :: icmp_env where
  "demo_icmp = \<lparr>ie_dgram = None, ie_raw = None, ie_sock = demo_sock, ie_nonblocking = None, ie_pid = 1,
     ie_send = (\<lambda>_ _. None), ie_recv = (\<lambda>_. []), ie_rtt = (\<lambda>_. 0), ie_elapsed = 0\<rparr>"

definition demo_dns :: dns_env where
  "demo_dns = \<lparr>de_monotonic_ns = 0, de_bind = None, de_sock = demo_sock, de_send = (\<lambda>_. None),
     de_recv = (\<lambda>_. DnsTimeout), de_duration = 0, de_elapsed = 0\<rparr>"

definition demo_tcp :: tcp_env where
  "demo_tcp = \<lparr>te_new = None, te_sock = demo_sock, te_bind = (\<lambda>_. None), te_connect = (\<lambda>_. ConnectTimeout), te_elapsed = 0\<rparr>"

definition demo_probes :: probe_env where
  "demo_probes =
     \<lparr>pe_ping = (\<lambda>_. demo_icmp), pe_dns = (\<lambda>_ _. demo_dns), pe_nat64 = demo_dns, pe_tcp = (\<lambda>_. demo_tcp),
      pe_tls = \<lparr>tl_tcp = demo_tcp, tl_tcp_ms = 0, tl_seed1 = 0, tl_seed2 = 0, tl_write = (\<lambda>_. None),
        tl_read = (\<lambda>_. TlsTimeout), tl_elapsed = 0\<rparr>,
      pe_mtu = \<lparr>me_bind = None, me_sock = demo_sock, me_discover = None, me_connect = None, me_getsockopt = Inr 1500\<rparr>,
      pe_mtu_ping = (\<lambda>_. demo_icmp), pe_mtu_elapsed = 0\<rparr>"

definition demo_env :: "bytes \<Rightarrow> diagnose_env" where
  "demo_env rows =
     \<lparr>gv_links = Inr [], gv_addrs = Inr [], gv_fs = (\<lambda>_. None), gv_neigh = (\<lambda>_. Inr []),
      gv_kernel = demo_kernel rows, gv_probes = demo_probes, gv_clocks = (\<lambda>_. 0), gv_started_unix_ms = 0, gv_total_ms = 0\<rparr>"

definition demo_request :: diagnose_request where
  "demo_request = \<lparr>dr_target = None, dr_android_state = None, dr_passive_only = True, dr_only = [], dr_skip = []\<rparr>"

lemma demo_wanted: "wanted demo_request i"
  by (simp add: wanted_def demo_request_def)

lemma demo_sockets:
  "\<exists>d. gather_sockets (ke_diag (demo_kernel [1, 1, 1, 1, 1, 1])) Map.empty = Some d \<and> length (sd_sockets d) = 6 \<and>
     list_all (\<lambda>s. so_state s = TS_SynSent) (sd_sockets d)"
proof -
  let ?f = "any_socket\<lparr>sf_include_tcp_info := True\<rparr>" and ?env = "ke_diag (demo_kernel [1, 1, 1, 1, 1, 1])"
  have dump: "diag_dump ?env fam proto ?f =
      Some (Inr (if proto = IPPROTO_TCP \<and> fam = AF_INET then [demo_syn, demo_syn, demo_syn, demo_syn, demo_syn, demo_syn] else []))"
    for fam proto
    by (simp add: diag_dump_def demo_kernel_def dump_request_def parse_datagram.simps)
  have order: "dump_order ?f = [(IPPROTO_TCP, AF_INET), (IPPROTO_TCP, AF_INET6), (IPPROTO_UDP, AF_INET), (IPPROTO_UDP, AF_INET6)]"
    by (simp add: dump_order_def wanted_protocols_def wanted_families_def any_socket_def)
  obtain s where s: "response_to_proto demo_syn IPPROTO_TCP Map.empty = Some s" "so_state s = TS_SynSent"
    by (auto simp: response_to_proto_def demo_syn_def demo_row_def tcp_state_to_proto_def)
  have pass: "passes_filter x ?f" for x by (simp add: passes_filter_def any_socket_def)
  have neq: "IPPROTO_UDP \<noteq> IPPROTO_TCP" "AF_INET6 \<noteq> AF_INET"
    by (simp_all add: IPPROTO_UDP_def IPPROTO_TCP_def AF_INET6_def AF_INET_def)
  have lim: "socket_limit ?f = 4096" by (simp add: socket_limit_def any_socket_def DEFAULT_SOCKET_LIMIT_def)
  have "collect_dumps ?env (socket_limit ?f) ?f Map.empty (dump_order ?f) [] = Some (Inr ([s, s, s, s, s, s], False))"
    unfolding order by (simp add: dump s(1) pass neq lim)
  moreover have "de_open ?env = None" "diag_env.de_bind ?env = None" by (simp_all add: demo_kernel_def)
  ultimately show ?thesis by (simp add: gather_sockets_def get_sockets_def s(2))
qed

lemma demo_gather:
  "\<exists>state. gather (demo_env [1, 1, 1, 1, 1, 1]) demo_request = Some (Inr state) \<and> length (dg_sockets state) = 6 \<and>
     list_all (\<lambda>s. so_state s = TS_SynSent) (dg_sockets state)"
proof -
  let ?env = "demo_env [1, 1, 1, 1, 1, 1]"
  have dumps: "get_interfaces (gv_links ?env) (gv_addrs ?env) (gv_fs ?env) True True = Inr []"
    "\<exists>d. get_routes (ke_route_dump (gv_kernel ?env)) Family_Unspecified 0 False 0 Map.empty = Inr d"
    "get_rules (ke_rule_dump (gv_kernel ?env)) Family_Unspecified None = Inr []"
    "get_neighbors (gv_neigh ?env) Family_Unspecified 0 False Map.empty = Inr []"
    by (simp_all add: demo_env_def demo_kernel_def get_interfaces_def get_routes_def get_rules_def get_neighbors_def)
  obtain d where d: "gather_sockets (ke_diag (gv_kernel ?env)) Map.empty = Some d" "length (sd_sockets d) = 6"
    "list_all (\<lambda>s. so_state s = TS_SynSent) (sd_sockets d)"
    using demo_sockets by (auto simp: demo_env_def)
  have names: "interface_names [] = Map.empty" by (simp add: interface_names_def)
  from dumps(2) obtain rd where "get_routes (ke_route_dump (gv_kernel ?env)) Family_Unspecified 0 False 0 Map.empty = Inr rd" ..
  with dumps d show ?thesis by (simp add: gather_def names build_state_sockets)
qed

theorem report_complete_witness:
  "\<exists>resp. run (demo_env [1, 1, 1, 1, 1, 1]) demo_request True = Some (resp, rp_checks resp) \<and>
     map ck_id (rp_checks resp) = CHECK_ORDER"
proof -
  obtain state where "gather (demo_env [1, 1, 1, 1, 1, 1]) demo_request = Some (Inr state)" using demo_gather by blast
  from report_complete [OF this] show ?thesis by (auto simp: demo_wanted)
qed

theorem passive_sends_nothing_witness:
  "dr_passive_only demo_request \<and>
   run (demo_env [1]\<lparr>gv_probes := demo_probes\<lparr>pe_mtu_elapsed := 7\<rparr>\<rparr>) demo_request True = run (demo_env [1]) demo_request True"
  using passive_sends_nothing [of demo_request "demo_probes\<lparr>pe_mtu_elapsed := 7\<rparr>" "demo_env [1]" True] by (simp add: demo_request_def)

theorem stuck_connections_reported_witness:
  "\<exists>resp off. run (demo_env [1, 1, 1, 1, 1, 1]) demo_request True = Some (resp, off) \<and>
     FI_SocketsStuckSynSent \<in> fi_id ` set (rp_findings resp)"
proof -
  obtain state where g: "gather (demo_env [1, 1, 1, 1, 1, 1]) demo_request = Some (Inr state)"
    and socks: "length (dg_sockets state) = 6" "list_all (\<lambda>s. so_state s = TS_SynSent) (dg_sockets state)"
    using demo_gather by blast
  obtain resp off where r: "run (demo_env [1, 1, 1, 1, 1, 1]) demo_request True = Some (resp, off)"
    by (simp add: run_cases g Let_def)
  have "filter (\<lambda>s. so_state s = TS_SynSent) (dg_sockets state) = dg_sockets state"
    using socks(2) by (simp add: list_all_iff filter_id_conv)
  with stuck_connections_reported [OF g r] socks(1) r show ?thesis by (auto simp: demo_wanted)
qed

end
