(* ===== verification/Rpc.thy ===== *)
theory Rpc
  imports Snapshot Diag Daemon_State Watch
begin

text \<open>
  The unary calls of the daemon and its start-up (\<^verbatim>\<open>daemon/src/daemon.rs\<close>), with the reply each
  request of the session is answered with. A call reads the device once, through a \<open>device_env\<close>;
  \<open>None\<close> is a socket dump that never ends. The second argument renders the chain of causes of the
  error a call meets, which becomes its detail.
\<close>

section \<open>Errors of a call\<close>

text \<open>\<open>From<anyhow::Error>\<close>: the outermost text is the message, the debug rendering the detail.\<close>

definition error_from :: "(string \<Rightarrow> string) \<Rightarrow> string \<Rightarrow> error" where
  "error_from dbg e = with_detail (error_internal e) (dbg e)"

definition map_err :: "(string \<Rightarrow> string) \<Rightarrow> string + 'a \<Rightarrow> error + 'a" where
  "map_err dbg r = (case r of Inl e \<Rightarrow> Inl (error_from dbg e) | Inr x \<Rightarrow> Inr x)"

definition family_of :: "int \<Rightarrow> error + ip_family" where
  "family_of i = (case ip_family_try_from i of
     Some f \<Rightarrow> Inr f | None \<Rightarrow> Inl (error_invalid ''unknown address family''))"

section \<open>Requests\<close>

record get_interfaces_request =
  iq_include_stats :: bool
  iq_include_sysctls :: bool
  iq_names :: "string list"
  iq_indexes :: "nat list"

record get_routes_request =
  oq_family :: int
  oq_table :: nat
  oq_only_default :: bool
  oq_interface_index :: nat

record get_rules_request =
  uq_family :: int
  uq_has_uid :: bool
  uq_uid :: nat

record get_neighbors_request =
  nq_family :: int
  nq_interface_index :: nat
  nq_only_routers :: bool

record app_state_request =
  aq_app :: "app_ref option"
  aq_android_state :: "android_network_state option"
  aq_include_tcp_info :: bool
  aq_skip_route_lookup :: bool

record route_lookup_request =
  lq_destination :: "ip_address option"
  lq_source_hint :: "ip_address option"
  lq_has_uid :: bool
  lq_uid :: nat
  lq_has_fwmark :: bool
  lq_fwmark :: nat
  lq_out_interface_index :: nat

section \<open>Unary calls\<close>

definition interfaces_of :: "device_env \<Rightarrow> (string \<Rightarrow> string) \<Rightarrow> bool \<Rightarrow> bool \<Rightarrow> error + interface list" where
  "interfaces_of dv dbg st sy = map_err dbg (get_interfaces (dv_links dv) (dv_addrs dv) (dv_fs dv) st sy)"

definition daemon_if_names :: "device_env \<Rightarrow> (string \<Rightarrow> string) \<Rightarrow> error + if_names" where
  "daemon_if_names dv dbg = map_sum (\<lambda>e. e) interface_names (interfaces_of dv dbg False False)"

definition rpc_get_snapshot ::
  "device_env \<Rightarrow> (string \<Rightarrow> string) \<Rightarrow> snapshot_request \<Rightarrow> (error + snapshot option) option" where
  "rpc_get_snapshot dv dbg request =
     map_option (\<lambda>r. map_sum (\<lambda>e. e) Some (map_err dbg r)) (collect_snapshot dv request)"

definition rpc_get_interfaces ::
  "device_env \<Rightarrow> (string \<Rightarrow> string) \<Rightarrow> get_interfaces_request \<Rightarrow> error + interface list" where
  "rpc_get_interfaces dv dbg request =
     (case interfaces_of dv dbg (iq_include_stats request) (iq_include_sysctls request) of
        Inl e \<Rightarrow> Inl e
      | Inr is \<Rightarrow>
          Inr (if iq_names request \<noteq> [] \<or> iq_indexes request \<noteq> []
               then filter (\<lambda>i. if_name i \<in> set (iq_names request) \<or> if_index i \<in> set (iq_indexes request)) is
               else is))"

definition rpc_get_routes ::
  "device_env \<Rightarrow> (string \<Rightarrow> string) \<Rightarrow> get_routes_request \<Rightarrow> error + route_dump" where
  "rpc_get_routes dv dbg request =
     (case daemon_if_names dv dbg of
        Inl e \<Rightarrow> Inl e
      | Inr names \<Rightarrow>
     (case family_of (oq_family request) of
        Inl e \<Rightarrow> Inl e
      | Inr family \<Rightarrow>
          map_err dbg (get_routes (ke_route_dump (dv_kernel dv)) family (oq_table request)
            (oq_only_default request) (oq_interface_index request) names)))"

definition rpc_get_routing_rules ::
  "device_env \<Rightarrow> (string \<Rightarrow> string) \<Rightarrow> get_rules_request \<Rightarrow> error + routing_rule list" where
  "rpc_get_routing_rules dv dbg request =
     (case family_of (uq_family request) of
        Inl e \<Rightarrow> Inl e
      | Inr family \<Rightarrow>
          map_err dbg (get_rules (ke_rule_dump (dv_kernel dv)) family
            (if uq_has_uid request then Some (uq_uid request) else None)))"

definition rpc_get_neighbors ::
  "device_env \<Rightarrow> (string \<Rightarrow> string) \<Rightarrow> get_neighbors_request \<Rightarrow> error + neighbor list" where
  "rpc_get_neighbors dv dbg request =
     (case daemon_if_names dv dbg of
        Inl e \<Rightarrow> Inl e
      | Inr names \<Rightarrow>
     (case family_of (nq_family request) of
        Inl e \<Rightarrow> Inl e
      | Inr family \<Rightarrow>
          map_err dbg (get_neighbors (dv_neigh dv) family (nq_interface_index request)
            (nq_only_routers request) names)))"

definition rpc_get_sockets ::
  "device_env \<Rightarrow> (string \<Rightarrow> string) \<Rightarrow> socket_filter option \<Rightarrow> (error + socket_dump) option" where
  "rpc_get_sockets dv dbg filter_opt =
     (case daemon_if_names dv dbg of
        Inl e \<Rightarrow> Some (Inl e)
      | Inr names \<Rightarrow>
          map_option (map_err dbg) (get_sockets (ke_diag (dv_kernel dv))
            (case filter_opt of Some f \<Rightarrow> f | None \<Rightarrow> any_socket) names))"

definition uid_required :: string where
  "uid_required = ''an app uid is required; the app resolves the package name to a uid, the daemon has no PackageManager''"

definition rpc_get_app_network_state ::
  "device_env \<Rightarrow> (string \<Rightarrow> string) \<Rightarrow> app_state_request \<Rightarrow> (error + app_network_state option) option" where
  "rpc_get_app_network_state dv dbg request =
     (case aq_app request of
        None \<Rightarrow> Some (Inl (error_invalid ''the request names no app''))
      | Some app \<Rightarrow>
          if ap_uid app = 0 then Some (Inl (error_invalid uid_required))
          else (case interfaces_of dv dbg False False of
                  Inl e \<Rightarrow> Some (Inl e)
                | Inr is \<Rightarrow>
                    map_option (\<lambda>r. map_sum (\<lambda>e. e) Some (map_err dbg r))
                      (app_network_state (dv_kernel dv) is (interface_names is)
                        \<lparr>ci_app = app, ci_android_state = aq_android_state request,
                         ci_include_tcp_info = aq_include_tcp_info request,
                         ci_skip_route_lookup = aq_skip_route_lookup request\<rparr>)))"

definition rpc_route_lookup ::
  "device_env \<Rightarrow> (string \<Rightarrow> string) \<Rightarrow> route_lookup_request \<Rightarrow> error + route_lookup_result option" where
  "rpc_route_lookup dv dbg request =
     (case (case lq_destination request of Some a \<Rightarrow> if is_set a then Some a else None | None \<Rightarrow> None) of
        None \<Rightarrow> Inl (error_invalid ''destination must be a 4 or 16 byte address'')
      | Some a \<Rightarrow>
     (case to_ip a of
        None \<Rightarrow> Inl (error_invalid ''destination is not a valid IP address'')
      | Some destination \<Rightarrow>
     (case daemon_if_names dv dbg of
        Inl e \<Rightarrow> Inl e
      | Inr names \<Rightarrow>
          Inr (Some (route_lookup (ke_lookup (dv_kernel dv)) destination
            (Option.bind (lq_source_hint request) to_ip)
            (if lq_has_uid request then Some (lq_uid request) else None)
            (if lq_has_fwmark request then Some (lq_fwmark request) else None)
            (lq_out_interface_index request) names)))))"

text \<open>Each publication reads the two clocks; the argument gives the readings in order.\<close>

fun push_framework_loop ::
  "(nat \<Rightarrow> int \<times> nat) \<Rightarrow> network_event list \<Rightarrow> nat \<Rightarrow> event_bus \<Rightarrow> nat \<times> event_bus" where
  "push_framework_loop clk [] accepted bus = (accepted, bus)"
| "push_framework_loop clk (event # events) accepted bus =
     push_framework_loop clk events (accepted + 1)
       (publish (fst (clk accepted)) (snd (clk accepted)) (event\<lparr>ne_source := ES_Framework\<rparr>) bus)"

definition push_framework_event ::
  "(nat \<Rightarrow> int \<times> nat) \<Rightarrow> network_event list \<Rightarrow> event_bus \<Rightarrow> nat \<times> event_bus" where
  "push_framework_event clk events bus = push_framework_loop clk events 0 bus"

section \<open>Requests of a session and their answers\<close>

datatype unary_request =
  Q_Snapshot snapshot_request | Q_Interfaces get_interfaces_request | Q_Routes get_routes_request
| Q_Rules get_rules_request | Q_Neighbors get_neighbors_request | Q_Sockets "socket_filter option"
| Q_AppState app_state_request | Q_RouteLookup route_lookup_request
| Q_PushFramework "network_event list"

datatype unary_response =
  P_Snapshot "snapshot option" | P_Interfaces "interface list" | P_Routes route_dump
| P_Rules "routing_rule list" | P_Neighbors "neighbor list" | P_Sockets socket_dump
| P_AppState "app_network_state option" | P_RouteLookup "route_lookup_result option"
| P_PushFramework nat

fun unary_call ::
  "device_env \<Rightarrow> (string \<Rightarrow> string) \<Rightarrow> (nat \<Rightarrow> int \<times> nat) \<Rightarrow> unary_request \<Rightarrow> event_bus
   \<Rightarrow> (error + unary_response) option \<times> event_bus" where
  "unary_call dv dbg clk (Q_Snapshot q) bus =
     (map_option (map_sum (\<lambda>e. e) P_Snapshot) (rpc_get_snapshot dv dbg q), bus)"
| "unary_call dv dbg clk (Q_Interfaces q) bus =
     (Some (map_sum (\<lambda>e. e) P_Interfaces (rpc_get_interfaces dv dbg q)), bus)"
| "unary_call dv dbg clk (Q_Routes q) bus =
     (Some (map_sum (\<lambda>e. e) P_Routes (rpc_get_routes dv dbg q)), bus)"
| "unary_call dv dbg clk (Q_Rules q) bus =
     (Some (map_sum (\<lambda>e. e) P_Rules (rpc_get_routing_rules dv dbg q)), bus)"
| "unary_call dv dbg clk (Q_Neighbors q) bus =
     (Some (map_sum (\<lambda>e. e) P_Neighbors (rpc_get_neighbors dv dbg q)), bus)"
| "unary_call dv dbg clk (Q_Sockets q) bus =
     (map_option (map_sum (\<lambda>e. e) P_Sockets) (rpc_get_sockets dv dbg q), bus)"
| "unary_call dv dbg clk (Q_AppState q) bus =
     (map_option (map_sum (\<lambda>e. e) P_AppState) (rpc_get_app_network_state dv dbg q), bus)"
| "unary_call dv dbg clk (Q_RouteLookup q) bus =
     (Some (map_sum (\<lambda>e. e) P_RouteLookup (rpc_route_lookup dv dbg q)), bus)"
| "unary_call dv dbg clk (Q_PushFramework events) bus =
     (let (accepted, bus') = push_framework_event clk events bus in (Some (Inr (P_PushFramework accepted)), bus'))"

section \<open>Start-up\<close>

record startup_env =
  su_netlink_route :: bool
  su_inet_diag :: bool
  su_packet_fd :: int
  su_icmp_fd :: int
  su_gid :: nat
  su_fs :: file_system
  su_exists :: "string \<Rightarrow> bool"

definition which_dirs :: "string list" where
  "which_dirs = [''/system/bin'', ''/system/xbin'', ''/vendor/bin'', ''/usr/bin'', ''/bin'', ''/sbin'']"

definition which :: "startup_env \<Rightarrow> string \<Rightarrow> bool" where
  "which su program = list_ex (\<lambda>dir. su_exists su (dir @ ''/'' @ program)) which_dirs"

definition icmp_warning :: "startup_env \<Rightarrow> string" where
  "icmp_warning su =
     (if ping_group_range_allows (su_fs su) (su_gid su)
      then ''raw ICMP sockets are unavailable, but ping_group_range allows datagram ICMP sockets, so ping probes will still work''
      else ''neither raw nor datagram ICMP sockets are available; ping probes will be skipped'')"

definition probe_capabilities :: "startup_env \<Rightarrow> daemon_capabilities \<times> string list" where
  "probe_capabilities su =
     (let packet_capture = (su_packet_fd su \<ge> 0); raw_icmp = (su_icmp_fd su \<ge> 0);
          warnings =
            (if su_netlink_route su then [] else [''NETLINK_ROUTE is unavailable; almost nothing will work''])
            @ (if su_inet_diag su then []
               else [''NETLINK_INET_DIAG is unavailable; per-socket and per-app views will be empty''])
            @ (if packet_capture then [] else [''AF_PACKET is unavailable; packet capture is disabled''])
            @ (if raw_icmp then [] else [icmp_warning su])
      in (\<lparr>cap_netlink_route = su_netlink_route su, cap_inet_diag = su_inet_diag su,
           cap_route_lookup = su_netlink_route su, cap_packet_capture = packet_capture,
           cap_bpf_maps = su_exists su ''/sys/fs/bpf'', cap_nftables = which su ''nft'',
           cap_iptables = which su ''iptables-save'', cap_tc = su_netlink_route su,
           cap_raw_icmp = raw_icmp, cap_so_mark = True\<rparr>, warnings))"

text \<open>The version is the crate's, fixed when the daemon is built.\<close>

definition daemon_new :: "startup_env \<Rightarrow> string \<Rightarrow> int \<Rightarrow> daemon" where
  "daemon_new su version now =
     (let (capabilities, warnings) = probe_capabilities su
      in \<lparr>d_version = version, d_started_unix_ms = now, d_capabilities = capabilities,
          d_warnings = warnings, d_captures = [], d_next_capture_id = 1\<rparr>)"

section \<open>Facts\<close>

lemma map_err_simps [simp]:
  "map_err dbg (Inl e) = Inl (error_from dbg e)" "map_err dbg (Inr x) = Inr x"
  by (simp_all add: map_err_def)

lemma map_err_Inl: "map_err dbg r = Inl e \<Longrightarrow> err_code e = Err_Internal"
  by (cases r) (auto simp: error_from_def error_internal_def error_new_def with_detail_def)

lemma error_codes [simp]:
  "err_code (error_invalid m) = Err_InvalidArgument" "err_code (error_from dbg m) = Err_Internal"
  by (simp_all add: error_invalid_def error_new_def error_from_def error_internal_def with_detail_def)

lemma map_sum_Inl [simp]: "map_sum (\<lambda>e. e) f r = Inl e \<longleftrightarrow> r = Inl e"
  by (cases r) auto

lemma family_of_cases:
  "family_of i = Inl e \<longleftrightarrow> ip_family_try_from i = None \<and> e = error_invalid ''unknown address family''"
  "family_of i = Inr f \<longleftrightarrow> ip_family_try_from i = Some f"
  by (auto simp: family_of_def split: option.splits)

fun malformed :: "unary_request \<Rightarrow> bool" where
  "malformed (Q_Routes q) = (ip_family_try_from (oq_family q) = None)"
| "malformed (Q_Rules q) = (ip_family_try_from (uq_family q) = None)"
| "malformed (Q_Neighbors q) = (ip_family_try_from (nq_family q) = None)"
| "malformed (Q_AppState q) = (case aq_app q of None \<Rightarrow> True | Some app \<Rightarrow> ap_uid app = 0)"
| "malformed (Q_RouteLookup q) = (case lq_destination q of None \<Rightarrow> True | Some a \<Rightarrow> \<not> is_set a)"
| "malformed _ = False"

text \<open>The interfaces of the device can be read.\<close>

definition links_readable :: "device_env \<Rightarrow> bool" where
  "links_readable dv = (\<forall>st sy. \<exists>is. get_interfaces (dv_links dv) (dv_addrs dv) (dv_fs dv) st sy = Inr is)"

lemma links_readable_names:
  assumes "links_readable dv"
  obtains names where "daemon_if_names dv dbg = Inr names"
  using assms by (metis links_readable_def daemon_if_names_def interfaces_of_def map_err_simps(2) map_sum.simps(2))

lemma links_readable_interfaces:
  assumes "links_readable dv"
  obtains ifs where "interfaces_of dv dbg st sy = Inr ifs"
  using assms by (metis links_readable_def interfaces_of_def map_err_simps(2))

lemma unary_malformed:
  assumes "links_readable dv" and "malformed q"
  shows "\<exists>e. unary_call dv dbg clk q bus = (Some (Inl e), bus) \<and> err_code e = Err_InvalidArgument"
proof -
  obtain names where "daemon_if_names dv dbg = Inr names" using assms(1) by (rule links_readable_names)
  with assms(2) show ?thesis
    by (cases q) (auto simp: rpc_get_routes_def rpc_get_routing_rules_def rpc_get_neighbors_def
        rpc_get_app_network_state_def rpc_route_lookup_def family_of_def split: option.splits)
qed

lemmas rpc_defs = rpc_get_snapshot_def rpc_get_interfaces_def rpc_get_routes_def rpc_get_routing_rules_def
  rpc_get_neighbors_def rpc_get_sockets_def rpc_get_app_network_state_def rpc_route_lookup_def

lemma unary_wellformed:
  assumes "unary_call dv dbg clk q bus = (Some (Inl e), bus')" and "\<not> malformed q"
  shows "err_code e = Err_Internal \<and> bus' = bus"
proof -
  have names: "daemon_if_names dv dbg = Inl x \<Longrightarrow> err_code x = Err_Internal" for x
    by (auto simp: daemon_if_names_def interfaces_of_def dest: map_err_Inl)
  have ifs: "interfaces_of dv dbg st sy = Inl x \<Longrightarrow> err_code x = Err_Internal" for x st sy
    by (auto simp: interfaces_of_def dest: map_err_Inl)
  show ?thesis
    using assms
    by (cases q) (auto simp: rpc_defs family_of_cases is_set_iff_to_ip map_option_case
        dest: names ifs map_err_Inl split: option.splits sum.splits prod.splits)
qed

lemma push_framework_loop_sent:
  "eb_sent (snd (push_framework_loop clk events n bus)) = eb_sent bus @
     map (\<lambda>i. (events ! i)\<lparr>ne_source := ES_Framework, ne_sequence := (eb_sequence bus + i) mod 2 ^ 64,
       ne_unix_ms := fst (clk (n + i)), ne_monotonic_ns := snd (clk (n + i))\<rparr>) [0..<length events]"
  if "eb_sequence bus < 2 ^ 64"
  using that
proof (induction events arbitrary: n bus)
  case (Cons event events)
  show ?case
    using Cons.prems
    by (simp add: Cons.IH publish_def map_upt_Suc mod_Suc_eq mod_simps del: upt_Suc)
qed simp

lemma push_framework_loop_accepted: "fst (push_framework_loop clk events n bus) = n + length events"
  by (induction events arbitrary: n bus) simp_all

lemma daemon_new_captures: "captures_wf (daemon_new su version now)"
  by (simp add: daemon_new_def captures_wf_def hm_wf_def split: prod.split)

lemma startup_warning_count:
  "length (d_warnings (daemon_new su version now)) =
     (let c = d_capabilities (daemon_new su version now)
      in length (filter Not [cap_netlink_route c, cap_inet_diag c, cap_packet_capture c, cap_raw_icmp c]))"
  by (simp add: daemon_new_def probe_capabilities_def Let_def)

lemma map_nth_comp: "map (\<lambda>i. f (xs ! i)) [0..<length xs] = map f xs"
  by (rule nth_equalityI) auto

section \<open>Properties\<close>

text \<open>
  C20: how unary calls fail. On a device whose interfaces can be read, a request is refused as an
  invalid argument exactly when it is malformed: an unknown address family, no app or the uid of
  root, a destination that is not an address of 4 or 16 bytes. Every other failure is reported as
  internal, and a call that fails publishes no event.
\<close>

theorem unary_call_errors:
  assumes "links_readable dv"
  shows "(malformed q \<longleftrightarrow>
            (\<exists>e. fst (unary_call dv dbg clk q bus) = Some (Inl e) \<and> err_code e = Err_InvalidArgument)) \<and>
         (\<forall>e. fst (unary_call dv dbg clk q bus) = Some (Inl e) \<longrightarrow>
            snd (unary_call dv dbg clk q bus) = bus \<and>
            (err_code e = Err_InvalidArgument \<or> err_code e = Err_Internal))"
proof (cases "malformed q")
  case True
  with assms unary_malformed [of dv q dbg clk bus] show ?thesis by auto
next
  case False
  have "err_code e = Err_Internal \<and> snd (unary_call dv dbg clk q bus) = bus"
    if "fst (unary_call dv dbg clk q bus) = Some (Inl e)" for e
    using unary_wellformed [OF _ False] that by (metis prod.collapse)
  with False show ?thesis by fastforce
qed

theorem unary_call_errors_witness:
  "\<exists>e. fst (unary_call bare_device (\<lambda>e. e) (\<lambda>_. (0, 0))
         (Q_Rules \<lparr>uq_family = 7, uq_has_uid = False, uq_uid = 0\<rparr>) bus_new) = Some (Inl e) \<and>
       err_code e = Err_InvalidArgument"
proof -
  have "links_readable bare_device"
    by (simp add: links_readable_def get_interfaces_def bare_device_def)
  from unary_call_errors [OF this, of "Q_Rules \<lparr>uq_family = 7, uq_has_uid = False, uq_uid = 0\<rparr>"]
  show ?thesis by (simp add: ip_family_try_from_def)
qed

text \<open>
  A client cannot forge kernel events. Whatever a client pushes, the events already on the
  timeline stay as they are; exactly the pushed events are appended, in their order, each with
  its content, the next sequence numbers and the source forced to the framework; and the answer
  counts them.
\<close>

lemma push_framework_forced:
  assumes "eb_sequence bus < 2 ^ 64" and "push_framework_event clk events bus = (accepted, bus')"
  shows "accepted = length events \<and>
         (\<exists>new. eb_sent bus' = eb_sent bus @ new \<and>
            map ne_source new = replicate (length events) ES_Framework \<and>
            map ne_sequence new = map (\<lambda>i. (eb_sequence bus + i) mod 2 ^ 64) [0..<length events] \<and>
            map ne_payload new = map ne_payload events \<and>
            map ne_summary new = map ne_summary events \<and>
            map ne_severity new = map ne_severity events)"
proof -
  let ?new = "map (\<lambda>i. (events ! i)\<lparr>ne_source := ES_Framework, ne_sequence := (eb_sequence bus + i) mod 2 ^ 64,
       ne_unix_ms := fst (clk i), ne_monotonic_ns := snd (clk i)\<rparr>) [0..<length events]"
  have "accepted = length events"
    using assms(2) push_framework_loop_accepted [of clk events 0 bus] by (simp add: push_framework_event_def)
  moreover have "eb_sent bus' = eb_sent bus @ ?new"
    using assms push_framework_loop_sent [of bus clk events 0] by (simp add: push_framework_event_def)
  ultimately show ?thesis
    by (intro conjI exI [of _ ?new]) (simp_all add: comp_def map_replicate_const map_nth_comp)
qed

end
