(* ===== verification/Codec.thy ===== *)
theory Codec
  imports Prelude
begin

text \<open>
  Length-delimited framing (\<^verbatim>\<open>crates/netdiag-ipc/src/codec.rs\<close>). A stream is the bytes still to
  come and what happens after them: end of file, or an I/O error. The functions of the protobuf
  library (\<open>encode_length_delimited\<close>, \<open>decode\<close>) are arguments of the definitions; the documented
  wire format of a length-delimited message, a base-128 varint followed by the body, is the
  specification \<open>delimited\<close>.
\<close>

section \<open>Model\<close>

definition MAX_FRAME_BYTES :: nat where
  "MAX_FRAME_BYTES = 32 * 1024 * 1024"

datatype io_kind = UnexpectedEof | OtherKind string

record stream =
  pending :: bytes
  failure :: "io_kind option"

datatype codec_error =
  FrameTooLarge nat
| ShortRead
| MalformedFrame
| EofInVarint
| LengthReadError io_kind
| VarintTooLong

fun read_varint_loop ::
  "io_kind option \<Rightarrow> u64 \<Rightarrow> nat \<Rightarrow> bytes \<Rightarrow> codec_error + (u64 \<times> bytes) option" where
  "read_varint_loop fl value shift [] =
     (case fl of
        None \<Rightarrow> if shift = 0 then Inr None else Inl EofInVarint
      | Some k \<Rightarrow> if k = UnexpectedEof \<and> shift = 0 then Inr None else Inl (LengthReadError k))"
| "read_varint_loop fl value shift (b # bs) =
     (let value' = value OR push_bit shift (ucast (b AND 0x7f)) in
      if b AND 0x80 = 0 then Inr (Some (value', bs))
      else if shift + 7 \<ge> 64 then Inl VarintTooLong
      else read_varint_loop fl value' (shift + 7) bs)"

definition read_varint :: "stream \<Rightarrow> codec_error + (u64 \<times> stream) option" where
  "read_varint s =
     (case read_varint_loop (failure s) 0 0 (pending s) of
        Inl e \<Rightarrow> Inl e
      | Inr None \<Rightarrow> Inr None
      | Inr (Some (v, bs)) \<Rightarrow> Inr (Some (v, s\<lparr>pending := bs\<rparr>)))"

definition read_exact :: "nat \<Rightarrow> stream \<Rightarrow> (bytes \<times> stream) option" where
  "read_exact n s =
     (if length (pending s) < n then None
      else Some (take n (pending s), s\<lparr>pending := drop n (pending s)\<rparr>))"

definition read_body :: "stream \<Rightarrow> codec_error + (bytes \<times> stream) option" where
  "read_body s =
     (case read_varint s of
        Inl e \<Rightarrow> Inl e
      | Inr None \<Rightarrow> Inr None
      | Inr (Some (len, s1)) \<Rightarrow>
          if unat len > MAX_FRAME_BYTES then Inl (FrameTooLarge (unat len))
          else (case read_exact (unat len) s1 of
                  None \<Rightarrow> Inl ShortRead
                | Some (buf, s2) \<Rightarrow> Inr (Some (buf, s2))))"

definition read_frame ::
  "(bytes \<Rightarrow> 'm option) \<Rightarrow> stream \<Rightarrow> codec_error + ('m \<times> stream) option" where
  "read_frame decode s =
     (case read_body s of
        Inl e \<Rightarrow> Inl e
      | Inr None \<Rightarrow> Inr None
      | Inr (Some (buf, s1)) \<Rightarrow>
          (case decode buf of None \<Rightarrow> Inl MalformedFrame | Some m \<Rightarrow> Inr (Some (m, s1))))"

definition write_frame :: "('m \<Rightarrow> bytes) \<Rightarrow> 'm \<Rightarrow> stream \<Rightarrow> stream" where
  "write_frame encode_length_delimited m s =
     s\<lparr>pending := pending s @ encode_length_delimited m\<rparr>"

text \<open>Reading frame after frame until the clean end, as the session and the client do.\<close>

fun read_all ::
  "(stream \<Rightarrow> codec_error + ('a \<times> stream) option) \<Rightarrow> nat \<Rightarrow> stream \<Rightarrow> codec_error + 'a list" where
  "read_all rd 0 s = Inr []"
| "read_all rd (Suc k) s =
     (case rd s of
        Inl e \<Rightarrow> Inl e
      | Inr None \<Rightarrow> Inr []
      | Inr (Some (a, s1)) \<Rightarrow>
          (case read_all rd k s1 of Inl e \<Rightarrow> Inl e | Inr as \<Rightarrow> Inr (a # as)))"

section \<open>The documented wire format\<close>

fun varint :: "nat \<Rightarrow> bytes" where
  "varint n = (if n < 128 then [of_nat n] else of_nat (128 + n mod 128) # varint (n div 128))"

declare varint.simps [simp del]

definition delimited :: "bytes \<Rightarrow> bytes" where
  "delimited body = varint (length body) @ body"

section \<open>Reading a varint back\<close>

lemma low7: "b AND 0x7f = take_bit 7 (b :: u8)"
  by (simp add: take_bit_eq_mask mask_eq_exp_minus_1)

lemma unat_low7: "unat (b AND 0x7f :: u8) = unat b mod 128"
  unfolding low7 unsigned_take_bit_eq by (simp add: take_bit_eq_mod)

lemma unat_or_shift:
  fixes v :: u64 and w :: u64
  assumes v: "unat v < 2 ^ s" and w: "unat w * 2 ^ s < 2 ^ 64"
  shows "unat (v OR push_bit s w) = unat v + unat w * 2 ^ s"
proof -
  have "v OR push_bit s w = v + push_bit s w"
  proof (rule disjunctive_add [symmetric])
    fix n
    show "\<not> bit v n \<or> \<not> bit (push_bit s w) n"
    proof (cases "n < s")
      case True then show ?thesis by (simp add: bit_push_bit_iff)
    next
      case False
      have "take_bit s (unat v) = unat v" using v by (simp add: take_bit_nat_eq_self)
      then have "\<not> bit (unat v) n" using False by (metis bit_take_bit_iff)
      then show ?thesis by (simp add: bit_unsigned_iff)
    qed
  qed
  moreover have p: "unat (push_bit s w) = unat w * 2 ^ s"
    using w unfolding unsigned_push_bit_eq by (simp add: push_bit_eq_mult take_bit_nat_eq_self)
  moreover have "unat v + unat w * 2 ^ s < 2 ^ 64"
  proof (cases "unat w = 0")
    case True
    then show ?thesis using unsigned_less [of v] by simp
  next
    case False
    then have "2 ^ s \<le> unat w * 2 ^ s" by simp
    then have "(2::nat) ^ s < 2 ^ 64" using w by (rule le_less_trans)
    then have s: "s < 64" by (rule power_less_imp_less_exp [rotated]) simp
    then have e: "(2::nat) ^ 64 = 2 ^ (64 - s) * 2 ^ s" by (simp flip: power_add)
    have "unat w < 2 ^ (64 - s)" using w unfolding e by (simp only: mult_less_cancel2)
    then have "Suc (unat w) * 2 ^ s \<le> 2 ^ (64 - s) * 2 ^ s" by (intro mult_le_mono1) simp
    then show ?thesis using v unfolding e by (simp add: mult_Suc)
  qed
  ultimately show ?thesis by (simp add: unat_add_lem [THEN iffD1])
qed

lemma unat_step:
  assumes "unat (value :: u64) < 2 ^ shift" and "(n mod 128) * 2 ^ shift < 2 ^ 64"
  shows "unat (value OR push_bit shift (ucast ((of_nat n :: u8) AND 0x7f))) =
         unat value + (n mod 128) * 2 ^ shift"
proof -
  have "unat (ucast ((of_nat n :: u8) AND 0x7f) :: u64) = n mod 128"
    unfolding unsigned_ucast_eq unat_low7
    by (simp add: unsigned_of_nat take_bit_eq_mod mod_mod_cancel)
  then show ?thesis using unat_or_shift [of "value" shift] assms by metis
qed

lemma read_varint_loop_varint:
  assumes "unat value < 2 ^ shift" and "n * 2 ^ shift < 2 ^ 64"
  shows "read_varint_loop fl value shift (varint n @ rest) =
         Inr (Some (of_nat (unat value + n * 2 ^ shift), rest))"
  using assms
proof (induction n arbitrary: "value" shift rule: varint.induct)
  case (1 n)
  let ?v = "value OR push_bit shift (ucast ((of_nat n :: u8) AND 0x7f))"
  have "(n mod 128) * 2 ^ shift \<le> n * 2 ^ shift" by (intro mult_le_mono1) simp
  then have v: "unat ?v = unat value + (n mod 128) * 2 ^ shift"
    using unat_step [of "value" shift n] "1.prems" by linarith
  show ?case
  proof (cases "n < 128")
    case True
    then have "?v = of_nat (unat value + n * 2 ^ shift)"
      using arg_cong [OF v, of "of_nat :: nat \<Rightarrow> u64"] by simp
    with True show ?thesis by (subst varint.simps) (simp add: high_bit)
  next
    case False
    have b: "(of_nat (128 + n mod 128) :: u8) AND 0x7f = of_nat n AND 0x7f"
      unfolding low7 take_bit_of_nat by (simp add: take_bit_eq_mod)
    have "2 ^ (shift + 7) \<le> n * 2 ^ shift" using False by (simp add: power_add)
    with "1.prems"(2) have "(2::nat) ^ (shift + 7) < 2 ^ 64" by linarith
    then have s: "shift + 7 < 64" by (rule power_less_imp_less_exp [rotated]) simp
    have e: "(n div 128) * 2 ^ (shift + 7) + (n mod 128) * 2 ^ shift = n * 2 ^ shift"
      using arg_cong [OF div_mult_mod_eq [of n 128], of "\<lambda>m. m * 2 ^ shift"]
      unfolding add_mult_distrib by (simp add: power_add mult_ac)
    have "(n mod 128) * 2 ^ shift \<le> 127 * 2 ^ shift" by (intro mult_le_mono1) simp
    moreover have "(2::nat) ^ (shift + 7) = 128 * 2 ^ shift" by (simp add: power_add)
    ultimately have lt: "unat ?v < 2 ^ (shift + 7)" using "1.prems"(1) v by linarith
    have "(n div 128) * 2 ^ (shift + 7) < 2 ^ 64" using e "1.prems"(2) by linarith
    note IH = "1.IH" [OF False lt this]
    have "unat ?v + (n div 128) * 2 ^ (shift + 7) = unat value + n * 2 ^ shift"
      using v e by linarith
    moreover have "(128 + n mod 128) div 128 = (n mod 128) div 128 + 1"
      by (rule div_add_self1) simp
    then have "odd ((128 + n mod 128) div 128)" by simp
    ultimately show ?thesis using IH s b False
      by (subst varint.simps) (simp add: Let_def high_bit del: of_nat_add)
  qed
qed

lemma read_varint_varint:
  assumes "n < 2 ^ 64" and "pending s = varint n @ rest"
  shows "read_varint s = Inr (Some (of_nat n, s\<lparr>pending := rest\<rparr>))"
  using read_varint_loop_varint [of 0 0 n "failure s" rest] assms by (simp add: read_varint_def)

section \<open>Transport interface\<close>

text \<open>
  What the session and the client rely on: a written unit is read back whole, the rest of the
  stream is left alone, and an exhausted stream is a clean end. A sequence of units then reads
  back as that sequence.
\<close>

locale frame_transport =
  fixes put :: "'a \<Rightarrow> bytes"
    and get :: "stream \<Rightarrow> codec_error + ('a \<times> stream) option"
    and ok :: "'a \<Rightarrow> bool"
  assumes get_put: "ok a \<Longrightarrow> pending s = put a @ rest \<Longrightarrow> get s = Inr (Some (a, s\<lparr>pending := rest\<rparr>))"
    and get_end: "pending s = [] \<Longrightarrow> failure s = None \<Longrightarrow> get s = Inr None"
begin

lemma read_all_put:
  assumes "\<forall>a\<in>set as. ok a" and "pending s = concat (map put as)" and "failure s = None"
    and "length as < k"
  shows "read_all get k s = Inr as"
  using assms
proof (induction as arbitrary: s k)
  case Nil
  then show ?case by (cases k) (simp_all add: get_end)
next
  case (Cons a as)
  then obtain k' where k: "k = Suc k'" by (cases k) auto
  have "get s = Inr (Some (a, s\<lparr>pending := concat (map put as)\<rparr>))"
    using Cons.prems by (intro get_put) auto
  with Cons k show ?case by simp
qed

end

lemma read_body_delimited:
  assumes "length body \<le> MAX_FRAME_BYTES" and "pending s = delimited body @ rest"
  shows "read_body s = Inr (Some (body, s\<lparr>pending := rest\<rparr>))"
proof -
  have n: "length body < 2 ^ 64" using assms(1) by (simp add: MAX_FRAME_BYTES_def)
  then have u: "unat (of_nat (length body) :: u64) = length body"
    by (simp add: unsigned_of_nat take_bit_nat_eq_self)
  have "read_varint s = Inr (Some (of_nat (length body), s\<lparr>pending := body @ rest\<rparr>))"
    using n assms(2) by (intro read_varint_varint) (simp_all add: delimited_def)
  then show ?thesis using assms(1) u by (simp add: read_body_def read_exact_def)
qed

lemma read_body_end:
  "pending s = [] \<Longrightarrow> failure s = None \<Longrightarrow> read_body s = Inr None"
  by (simp add: read_body_def read_varint_def)

interpretation body: frame_transport delimited read_body "\<lambda>b. length b \<le> MAX_FRAME_BYTES"
  by unfold_locales (fact read_body_delimited, fact read_body_end)

lemma frame_transport_frames:
  assumes "\<forall>m. eld m = delimited (enc m)" and "\<forall>m. dec (enc m) = Some m"
  shows "frame_transport eld (read_frame dec) (\<lambda>m. length (enc m) \<le> MAX_FRAME_BYTES)"
  by unfold_locales (simp_all add: read_frame_def assms body.get_put body.get_end)

lemma pending_write_frames:
  "pending (fold (write_frame eld) ms s) = pending s @ concat (map eld ms)"
  "failure (fold (write_frame eld) ms s) = failure s"
  by (induction ms arbitrary: s) (simp_all add: write_frame_def)

section \<open>What a successful or failed read says\<close>

lemma read_varint_loop_suffix:
  assumes "read_varint_loop fl value shift bs = Inr (Some (v, rest))"
  shows "\<exists>used. bs = used @ rest \<and> used \<noteq> [] \<and> shift + 7 * (length used - 1) < 64 \<or> shift \<ge> 64"
  using assms
proof (induction fl "value" shift bs rule: read_varint_loop.induct)
  case (1 fl "value" shift)
  then show ?case by (auto split: option.splits if_splits)
next
  case (2 fl "value" shift b bs)
  show ?case
  proof (cases "b AND 0x80 = 0")
    case True
    then have "b # bs = [b] @ rest" using "2.prems" by (simp add: Let_def)
    then show ?thesis by (intro exI [of _ "[b]"]) auto
  next
    case False
    then have s: "shift + 7 < 64"
      and r: "read_varint_loop fl (value OR push_bit shift (ucast (b AND 0x7f))) (shift + 7) bs
          = Inr (Some (v, rest))"
      using "2.prems" by (auto simp: Let_def split: if_splits)
    from "2.IH" [OF refl False _ r] s obtain used
      where "bs = used @ rest" "used \<noteq> []" "shift + 7 + 7 * (length used - 1) < 64" by auto
    then have "b # bs = (b # used) @ rest \<and> b # used \<noteq> [] \<and> shift + 7 * (length (b # used) - 1) < 64"
      by (cases used) auto
    then show ?thesis by blast
  qed
qed

lemma read_varint_suffix:
  assumes "read_varint s = Inr (Some (v, s1))"
  shows "\<exists>used. pending s = used @ pending s1 \<and> used \<noteq> [] \<and> length used \<le> 10 \<and> failure s1 = failure s"
proof -
  from assms obtain bs where r: "read_varint_loop (failure s) 0 0 (pending s) = Inr (Some (v, bs))"
    and s1: "s1 = s\<lparr>pending := bs\<rparr>"
    by (auto simp: read_varint_def split: sum.splits option.splits)
  from read_varint_loop_suffix [OF r] s1 show ?thesis by auto
qed

lemma read_varint_loop_end:
  "read_varint_loop fl value shift bs = Inr None \<Longrightarrow>
   bs = [] \<and> shift = 0 \<and> (fl = None \<or> fl = Some UnexpectedEof)"
  by (induction fl "value" shift bs rule: read_varint_loop.induct)
    (auto simp: Let_def split: option.splits if_splits)

definition continues :: "u8 \<Rightarrow> bool" where
  "continues b = (b AND 0x80 \<noteq> 0)"

lemma read_varint_loop_error:
  "read_varint_loop fl value shift bs = Inl e \<Longrightarrow>
   (e = EofInVarint \<and> fl = None \<and> (shift \<noteq> 0 \<or> bs \<noteq> []) \<and> list_all continues bs) \<or>
   (\<exists>k. e = LengthReadError k \<and> fl = Some k \<and> list_all continues bs) \<or>
   (\<exists>n. e = VarintTooLong \<and> n \<le> length bs \<and> 64 \<le> shift + 7 * n \<and> list_all continues (take n bs))"
proof (induction fl "value" shift bs rule: read_varint_loop.induct)
  case (1 fl "value" shift)
  then show ?case by (auto split: option.splits if_splits)
next
  case (2 fl "value" shift b bs)
  then have b: "continues b" by (auto simp: continues_def Let_def split: if_splits)
  show ?case
  proof (cases "64 \<le> shift + 7")
    case True
    with 2 b have "e = VarintTooLong \<and> 1 \<le> length (b # bs) \<and> 64 \<le> shift + 7 * 1 \<and>
        list_all continues (take 1 (b # bs))"
      by (auto simp: continues_def Let_def split: if_splits)
    then show ?thesis by blast
  next
    case False
    have c: "b AND 0x80 \<noteq> 0" using b by (simp add: continues_def)
    with False "2.prems" have "read_varint_loop fl (value OR push_bit shift (ucast (b AND 0x7f))) (shift + 7) bs = Inl e"
      by (simp add: Let_def)
    from "2.IH" [OF refl c False this] consider "e = EofInVarint" "fl = None" "list_all continues bs"
      | k where "e = LengthReadError k" "fl = Some k" "list_all continues bs"
      | n where "e = VarintTooLong" "n \<le> length bs" "64 \<le> shift + 7 + 7 * n" "list_all continues (take n bs)"
      by auto
    then show ?thesis
    proof cases
      case 3
      then have "Suc n \<le> length (b # bs) \<and> 64 \<le> shift + 7 * Suc n \<and>
        list_all continues (take (Suc n) (b # bs))" using b by simp
      with 3 show ?thesis by blast
    qed (use b in auto)
  qed
qed

lemma read_body_cases:
  "(\<exists>e. read_body s = Inl e \<and> read_varint s = Inl e) \<or>
   (read_body s = Inr None \<and> read_varint s = Inr None) \<or>
   (\<exists>len s1. read_varint s = Inr (Some (len, s1)) \<and>
      (read_body s = Inl (FrameTooLarge (unat len)) \<and> MAX_FRAME_BYTES < unat len \<or>
       read_body s = Inl ShortRead \<and> length (pending s1) < unat len \<or>
       (\<exists>body. read_body s = Inr (Some (body, s1\<lparr>pending := drop (unat len) (pending s1)\<rparr>)) \<and>
          body = take (unat len) (pending s1) \<and> length body = unat len \<and> unat len \<le> MAX_FRAME_BYTES)))"
proof (cases "read_varint s")
  case (Inl e)
  then show ?thesis by (simp add: read_body_def)
next
  case (Inr r)
  then show ?thesis by (cases r) (auto simp: read_body_def read_exact_def)
qed

section \<open>Properties\<close>

text \<open>
  C11: messages written with \<open>write_frame\<close> are read back by \<open>read_frame\<close> one by one, in order,
  and the read after the last one reports the clean end of the stream. It holds for any message
  library that emits the documented length-delimited format and decodes what it encodes, for
  messages within the frame limit.
\<close>

theorem frames_roundtrip:
  assumes "\<forall>m. encode_length_delimited m = delimited (encode m)"
    and "\<forall>m. decode (encode m) = Some m"
    and "\<forall>m\<in>set ms. length (encode m) \<le> MAX_FRAME_BYTES"
    and "length ms < k"
  shows "read_all (read_frame decode) k
           (fold (write_frame encode_length_delimited) ms \<lparr>pending = [], failure = None\<rparr>) = Inr ms"
  using assms
  by (intro frame_transport.read_all_put [OF frame_transport_frames])
    (simp_all add: pending_write_frames)

theorem frames_roundtrip_witness:
  "read_all (read_frame Some) 3
     (fold (write_frame delimited) [[1, 2], []] \<lparr>pending = [], failure = None\<rparr>) = Inr [[1, 2], []]"
  by (rule frames_roundtrip [where encode = "\<lambda>m. m"]) (simp_all add: MAX_FRAME_BYTES_def)

text \<open>
  C12: a message is returned only for a body of at most \<open>MAX_FRAME_BYTES\<close> bytes that stood whole
  in the stream behind a length prefix of one to ten bytes; exactly prefix and body are consumed,
  and the message is what the body decodes to.
\<close>

theorem read_frame_some:
  assumes "read_frame decode s = Inr (Some (m, s1))"
  shows "\<exists>prefix body. pending s = prefix @ body @ pending s1 \<and> prefix \<noteq> [] \<and> length prefix \<le> 10 \<and>
           length body \<le> MAX_FRAME_BYTES \<and> decode body = Some m \<and> failure s1 = failure s"
proof -
  from assms obtain body where b: "read_body s = Inr (Some (body, s1))" and d: "decode body = Some m"
    by (auto simp: read_frame_def split: sum.splits option.splits)
  with read_body_cases [of s] obtain len s0 where v: "read_varint s = Inr (Some (len, s0))"
    and s1: "s1 = s0\<lparr>pending := drop (unat len) (pending s0)\<rparr>"
    and body: "body = take (unat len) (pending s0)" "length body \<le> MAX_FRAME_BYTES" by auto
  from read_varint_suffix [OF v] obtain used where
    "pending s = used @ pending s0" "used \<noteq> []" "length used \<le> 10" "failure s0 = failure s" by blast
  then have "pending s = used @ body @ pending s1 \<and> used \<noteq> [] \<and> length used \<le> 10 \<and>
      length body \<le> MAX_FRAME_BYTES \<and> decode body = Some m \<and> failure s1 = failure s"
    using s1 body d by simp
  then show ?thesis by blast
qed

theorem read_frame_some_witness:
  "\<exists>prefix body. [2, 7, 8, 9] = prefix @ body @ [9 :: u8] \<and> prefix \<noteq> [] \<and> length prefix \<le> 10 \<and>
     length body \<le> MAX_FRAME_BYTES \<and> Some body = Some [7, 8] \<and> (None :: io_kind option) = None"
  using read_frame_some [of Some "\<lparr>pending = [2, 7, 8, 9], failure = None\<rparr>" "[7, 8]"
      "\<lparr>pending = [9], failure = None\<rparr>"]
  by (simp add: read_frame_def read_body_def read_varint_def read_exact_def MAX_FRAME_BYTES_def)

text \<open>
  Every other outcome of \<open>read_frame\<close> has its cause in the stream. The clean end needs a
  stream with nothing left; each error is raised exactly for its defect: a prefix that stops
  half-way, a transport error, ten continuation bytes, an announced length above the limit, a
  body that is cut short, a body the decoder refuses.
\<close>

lemma read_frame_no_message:
  "(\<exists>m s1. read_frame decode s = Inr (Some (m, s1))) \<or>
   (case read_frame decode s of
      Inr _ \<Rightarrow> pending s = [] \<and> (failure s = None \<or> failure s = Some UnexpectedEof)
    | Inl EofInVarint \<Rightarrow> failure s = None \<and> pending s \<noteq> [] \<and> list_all continues (pending s)
    | Inl (LengthReadError k) \<Rightarrow> failure s = Some k \<and> list_all continues (pending s)
    | Inl VarintTooLong \<Rightarrow> 10 \<le> length (pending s) \<and> list_all continues (take 10 (pending s))
    | Inl (FrameTooLarge n) \<Rightarrow>
        MAX_FRAME_BYTES < n \<and> (\<exists>len s1. read_varint s = Inr (Some (len, s1)) \<and> unat len = n)
    | Inl ShortRead \<Rightarrow>
        (\<exists>len s1. read_varint s = Inr (Some (len, s1)) \<and> length (pending s1) < unat len)
    | Inl MalformedFrame \<Rightarrow> (\<exists>body s1. read_body s = Inr (Some (body, s1)) \<and> decode body = None))"
proof (cases "read_varint s")
  case (Inl e)
  then have "read_frame decode s = Inl e" by (simp add: read_frame_def read_body_def)
  moreover have "read_varint_loop (failure s) 0 0 (pending s) = Inl e"
    using Inl by (auto simp: read_varint_def split: sum.splits option.splits)
  note read_varint_loop_error [OF this]
  moreover have "10 \<le> length (pending s) \<and> list_all continues (take 10 (pending s))"
    if "n \<le> length (pending s)" "64 \<le> 7 * n" "list_all continues (take n (pending s))" for n
    using that by (auto simp: list_all_length)
  ultimately show ?thesis by auto
next
  case (Inr r)
  show ?thesis
  proof (cases r)
    case None
    then have "read_varint_loop (failure s) 0 0 (pending s) = Inr None"
      using Inr by (auto simp: read_varint_def split: sum.splits option.splits)
    from read_varint_loop_end [OF this] None Inr show ?thesis
      by (simp add: read_frame_def read_body_def)
  next
    case (Some p)
    with Inr read_body_cases [of s] show ?thesis
      by (cases p) (auto simp: read_frame_def split: option.splits)
  qed
qed

end
