(* ===== verification/Session.thy ===== *)
theory Session
  imports Daemon_State Codec
begin

text \<open>
  One client connection (\<^verbatim>\<open>daemon/src/ipc/session.rs\<close>): the stream registry, the read loop with
  its greeting gate, the dispatcher, and the tasks it spawns. Tasks run concurrently with the
  read loop; a transition of \<open>session_step\<close> is what happens between two suspension points of one
  of them, and aborting a task takes effect before its next transition. The awaits inside
  \<open>spawn_stream\<close> (before the registration) and at the end of a stream task (before the removal)
  are suspension points, so the transitions of other tasks interleave there.
\<close>

section \<open>Frames\<close>

datatype 'q client_body =
  B_Hello hello_request
| B_Cancel nat
| B_GetSnapshot 'q
| B_GetInterfaces 'q
| B_GetRoutes 'q
| B_GetRoutingRules 'q
| B_GetNeighbors 'q
| B_GetSockets 'q
| B_GetAppNetworkState 'q
| B_RouteLookup 'q
| B_PushFrameworkEvent 'q
| B_Diagnose 'q
| B_WatchNetwork 'q
| B_WatchRoutes 'q
| B_WatchSockets 'q
| B_StartCapture 'q
| B_StopCapture nat

record 'q client_frame =
  cf_id :: nat
  cf_body :: "'q client_body option"

record stream_end =
  se_error :: "error option"
  se_reason :: string
  se_items_sent :: nat

datatype 'r server_body =
  R_Hello hello_response
| R_Cancel bool
| R_Error error
| R_StreamEnd stream_end
| R_CaptureFinished nat string
| R_Message 'r

record stream_outcome =
  so_reason :: string
  so_items_sent :: nat
  so_error :: "error option"

definition outcome_done :: "string \<Rightarrow> nat \<Rightarrow> stream_outcome" where
  "outcome_done reason items = \<lparr>so_reason = reason, so_items_sent = items, so_error = None\<rparr>"

definition outcome_failed :: "error \<Rightarrow> nat \<Rightarrow> stream_outcome" where
  "outcome_failed e items = \<lparr>so_reason = ''error'', so_items_sent = items, so_error = Some e\<rparr>"

section \<open>The stream registry\<close>

definition WRITE_QUEUE_DEPTH :: nat where "WRITE_QUEUE_DEPTH = 512"

definition MAX_STREAMS :: nat where "MAX_STREAMS = 16"

type_synonym registry = "(nat \<times> nat) list"

definition registry_insert :: "nat \<Rightarrow> nat \<Rightarrow> registry \<Rightarrow> error + nat option \<times> registry" where
  "registry_insert i h streams =
     (if length streams \<ge> MAX_STREAMS
      then Inl (error_new Err_ResourceExhausted
                  (''too many concurrent streams (limit '' @ dec MAX_STREAMS @ '')''))
      else Inr (map_of streams i, hm_insert i h streams))"

definition registry_remove :: "nat \<Rightarrow> registry \<Rightarrow> registry" where
  "registry_remove i streams = hm_remove i streams"

definition registry_cancel :: "nat \<Rightarrow> registry \<Rightarrow> nat option \<times> registry" where
  "registry_cancel i streams = (map_of streams i, hm_remove i streams)"

definition registry_abort_all :: "registry \<Rightarrow> nat list \<times> registry" where
  "registry_abort_all streams = (map snd streams, [])"

section \<open>Tasks and session state\<close>

datatype phase = Running | Ending | Done | Aborted

record stream_task =
  st_id :: nat
  st_phase :: phase
  st_capture :: "nat option"

datatype loop_pc = Reading | Inserting nat nat | Closed

record 'r session =
  s_greeted :: bool
  s_handled :: nat
  s_streams :: registry
  s_tasks :: "stream_task list"
  s_unary :: "nat list"
  s_outbox :: "(nat \<times> 'r server_body) list"
  s_writer :: bool
  s_pc :: loop_pc
  s_daemon :: daemon

definition session_start :: "daemon \<Rightarrow> 'r session" where
  "session_start d =
     \<lparr>s_greeted = False, s_handled = 0, s_streams = [], s_tasks = [], s_unary = [],
      s_outbox = [], s_writer = True, s_pc = Reading, s_daemon = d\<rparr>"

text \<open>
  \<open>Responder\<close>: a frame is queued while the writer lives; afterwards every send reports failure.
\<close>

definition reply :: "nat \<Rightarrow> 'r server_body \<Rightarrow> 'r session \<Rightarrow> 'r session" where
  "reply i body s = (if s_writer s then s\<lparr>s_outbox := s_outbox s @ [(i, body)]\<rparr> else s)"

definition reply_error :: "nat \<Rightarrow> error \<Rightarrow> 'r session \<Rightarrow> 'r session" where
  "reply_error i e s = reply i (R_Error e) s"

definition end_stream :: "nat \<Rightarrow> string \<Rightarrow> nat \<Rightarrow> error option \<Rightarrow> 'r session \<Rightarrow> 'r session" where
  "end_stream i reason items err s =
     reply i (R_StreamEnd \<lparr>se_error = err, se_reason = reason, se_items_sent = items\<rparr>) s"

definition abort_task :: "stream_task \<Rightarrow> stream_task" where
  "abort_task t = (if st_phase t = Running \<or> st_phase t = Ending then t\<lparr>st_phase := Aborted\<rparr> else t)"

definition abort :: "nat \<Rightarrow> 'r session \<Rightarrow> 'r session" where
  "abort h s = s\<lparr>s_tasks := (s_tasks s)[h := abort_task (s_tasks s ! h)]\<rparr>"

definition cancel_stream :: "nat \<Rightarrow> 'r session \<Rightarrow> bool \<times> 'r session" where
  "cancel_stream i s =
     (case registry_cancel i (s_streams s) of
        (Some h, streams) \<Rightarrow> (True, abort h (s\<lparr>s_streams := streams\<rparr>))
      | (None, streams) \<Rightarrow> (False, s\<lparr>s_streams := streams\<rparr>))"

section \<open>The dispatcher\<close>

definition spawn_unary :: "nat \<Rightarrow> 'r session \<Rightarrow> 'r session" where
  "spawn_unary i s = s\<lparr>s_unary := s_unary s @ [i]\<rparr>"

definition spawn_stream :: "nat \<Rightarrow> 'r session \<Rightarrow> 'r session" where
  "spawn_stream i s =
     s\<lparr>s_tasks := s_tasks s @ [\<lparr>st_id = i, st_phase = Running, st_capture = None\<rparr>],
       s_pc := Inserting i (length (s_tasks s))\<rparr>"

definition finish_insert :: "nat \<Rightarrow> nat \<Rightarrow> 'r session \<Rightarrow> 'r session" where
  "finish_insert i h s =
     (let s = s\<lparr>s_pc := Reading\<rparr> in
      case registry_insert i h (s_streams s) of
        Inl err \<Rightarrow> reply_error i err (abort h s)
      | Inr (Some previous, streams) \<Rightarrow> abort previous (s\<lparr>s_streams := streams\<rparr>)
      | Inr (None, streams) \<Rightarrow> s\<lparr>s_streams := streams\<rparr>)"

definition dispatch_stop_capture :: "nat \<Rightarrow> nat \<Rightarrow> 'r session \<Rightarrow> 'r session" where
  "dispatch_stop_capture i cid s =
     (let (cancelled, s) = cancel_stream cid s;
          (stopped, s) =
            (if cancelled then (True, s)
             else case stop_capture cid (s_daemon s) of (ok, d) \<Rightarrow> (ok, s\<lparr>s_daemon := d\<rparr>))
      in if stopped
         then reply i (R_CaptureFinished cid ''stopped'')
                (end_stream cid ''stopped by the client'' 0 None s)
         else reply_error i (error_not_found (''no capture with id '' @ dec cid)) s)"

fun dispatch :: "nat \<Rightarrow> 'q client_body \<Rightarrow> 'r session \<Rightarrow> 'r session" where
  "dispatch i (B_GetSnapshot q) s = spawn_unary i s"
| "dispatch i (B_GetInterfaces q) s = spawn_unary i s"
| "dispatch i (B_GetRoutes q) s = spawn_unary i s"
| "dispatch i (B_GetRoutingRules q) s = spawn_unary i s"
| "dispatch i (B_GetNeighbors q) s = spawn_unary i s"
| "dispatch i (B_GetSockets q) s = spawn_unary i s"
| "dispatch i (B_GetAppNetworkState q) s = spawn_unary i s"
| "dispatch i (B_RouteLookup q) s = spawn_unary i s"
| "dispatch i (B_PushFrameworkEvent q) s = spawn_unary i s"
| "dispatch i (B_Diagnose q) s = spawn_stream i s"
| "dispatch i (B_WatchNetwork q) s = spawn_stream i s"
| "dispatch i (B_WatchRoutes q) s = spawn_stream i s"
| "dispatch i (B_WatchSockets q) s = spawn_stream i s"
| "dispatch i (B_StartCapture q) s = spawn_stream i s"
| "dispatch i (B_StopCapture cid) s = dispatch_stop_capture i cid s"
| "dispatch i (B_Hello h) s = s"
| "dispatch i (B_Cancel target) s = s"

section \<open>The read loop\<close>

definition hello_first :: string where
  "hello_first = ''send Hello before any other request so versions can be checked''"

definition serve_body ::
  "(daemon \<Rightarrow> hello_request \<Rightarrow> hello_response) \<Rightarrow> nat \<Rightarrow> 'q client_body \<Rightarrow> 'r session \<Rightarrow> 'r session" where
  "serve_body greet i body s =
     (case body of
        B_Hello request \<Rightarrow> reply i (R_Hello (greet (s_daemon s) request)) (s\<lparr>s_greeted := True\<rparr>)
      | B_Cancel target \<Rightarrow>
          (case cancel_stream target s of
             (was_active, s) \<Rightarrow>
               reply i (R_Cancel was_active)
                 (if was_active then end_stream target ''cancelled by the client'' 0 None s else s))
      | _ \<Rightarrow> if \<not> s_greeted s then reply_error i (error_invalid hello_first) s
             else dispatch i body s)"

definition serve_frame ::
  "(daemon \<Rightarrow> hello_request \<Rightarrow> hello_response) \<Rightarrow> 'q client_frame \<Rightarrow> 'r session \<Rightarrow> 'r session" where
  "serve_frame greet frame s =
     (case cf_body frame of
        None \<Rightarrow> reply_error (cf_id frame) (error_invalid ''frame carries no request'') s
      | Some body \<Rightarrow>
          if cf_id frame = 0 then reply_error 0 (error_invalid ''request id must not be zero'') s
          else serve_body greet (cf_id frame) body (s\<lparr>s_handled := s_handled s + 1\<rparr>))"

definition close_session :: "'r session \<Rightarrow> 'r session" where
  "close_session s =
     (case registry_abort_all (s_streams s) of
        (handles, streams) \<Rightarrow> fold abort handles (s\<lparr>s_streams := streams, s_pc := Closed\<rparr>))"

text \<open>\<open>show_codec\<close> is the text the error library gives a codec error.\<close>

definition serve_read ::
  "(codec_error \<Rightarrow> string) \<Rightarrow> (daemon \<Rightarrow> hello_request \<Rightarrow> hello_response) \<Rightarrow>
   codec_error + 'q client_frame option \<Rightarrow> 'r session \<Rightarrow> 'r session" where
  "serve_read show_codec greet r s =
     (case r of
        Inl e \<Rightarrow> close_session
                  (reply_error 0 (with_detail (error_invalid ''malformed frame'') (show_codec e)) s)
      | Inr None \<Rightarrow> close_session s
      | Inr (Some frame) \<Rightarrow> serve_frame greet frame s)"

section \<open>Task transitions\<close>

definition unary_complete :: "nat \<Rightarrow> error + 'r \<Rightarrow> 'r session \<Rightarrow> 'r session" where
  "unary_complete i r s =
     (let s = s\<lparr>s_unary := remove1 i (s_unary s)\<rparr> in
      case r of Inl e \<Rightarrow> reply_error i e s | Inr body \<Rightarrow> reply i (R_Message body) s)"

definition stream_item :: "nat \<Rightarrow> 'r \<Rightarrow> 'r session \<Rightarrow> 'r session" where
  "stream_item h item s = reply (st_id (s_tasks s ! h)) (R_Message item) s"

definition set_phase :: "nat \<Rightarrow> phase \<Rightarrow> 'r session \<Rightarrow> 'r session" where
  "set_phase h p s = s\<lparr>s_tasks := (s_tasks s)[h := (s_tasks s ! h)\<lparr>st_phase := p\<rparr>]\<rparr>"

text \<open>
  The body of a stream task returns: a capture has run \<open>finish_capture\<close> by then; the task sends
  its \<open>StreamEnd\<close> and goes on to take the registry lock.
\<close>

definition stream_return :: "nat \<Rightarrow> stream_outcome \<Rightarrow> 'r session \<Rightarrow> 'r session" where
  "stream_return h outcome s =
     (let t = s_tasks s ! h;
          s = (case st_capture t of
                 Some cid \<Rightarrow> s\<lparr>s_daemon := finish_capture cid (s_daemon s)\<rparr>
               | None \<Rightarrow> s)
      in end_stream (st_id t) (so_reason outcome) (so_items_sent outcome) (so_error outcome)
           (set_phase h Ending s))"

definition stream_remove :: "nat \<Rightarrow> 'r session \<Rightarrow> 'r session" where
  "stream_remove h s =
     (let s = set_phase h Done s
      in s\<lparr>s_streams := registry_remove (st_id (s_tasks s ! h)) (s_streams s)\<rparr>)"

text \<open>The first half of \<open>start_capture\<close>: allocate the id and, when the socket opened, register it.\<close>

definition capture_open :: "nat \<Rightarrow> bool \<Rightarrow> 'r session \<Rightarrow> 'r session" where
  "capture_open h opened s =
     (case allocate_capture_id (s_daemon s) of
        (cid, d) \<Rightarrow>
          if opened
          then s\<lparr>s_daemon := register_capture cid d,
                 s_tasks := (s_tasks s)[h := (s_tasks s ! h)\<lparr>st_capture := Some cid\<rparr>]\<rparr>
          else s\<lparr>s_daemon := d\<rparr>)"

text \<open>
  \<open>accept\<close> restricts what the client sends; \<open>\<lambda>_ _. True\<close> is an arbitrary client. The other
  connections that share the daemon change its capture registry at any time.
\<close>

inductive session_step ::
  "('r session \<Rightarrow> 'q client_frame \<Rightarrow> bool) \<Rightarrow> (codec_error \<Rightarrow> string) \<Rightarrow>
   (daemon \<Rightarrow> hello_request \<Rightarrow> hello_response) \<Rightarrow> 'r session \<Rightarrow> 'r session \<Rightarrow> bool"
  for accept :: "'r session \<Rightarrow> 'q client_frame \<Rightarrow> bool" and show_codec :: "codec_error \<Rightarrow> string"
    and greet :: "daemon \<Rightarrow> hello_request \<Rightarrow> hello_response" where
  step_frame: "s_pc s = Reading \<Longrightarrow> accept s frame \<Longrightarrow>
    session_step accept show_codec greet s (serve_read show_codec greet (Inr (Some frame)) s)"
| step_end: "s_pc s = Reading \<Longrightarrow>
    session_step accept show_codec greet s (serve_read show_codec greet (Inr None :: codec_error + 'q client_frame option) s)"
| step_bad: "s_pc s = Reading \<Longrightarrow>
    session_step accept show_codec greet s (serve_read show_codec greet (Inl e :: codec_error + 'q client_frame option) s)"
| step_insert: "s_pc s = Inserting i h \<Longrightarrow>
    session_step accept show_codec greet s (finish_insert i h s)"
| step_unary: "i \<in> set (s_unary s) \<Longrightarrow>
    session_step accept show_codec greet s (unary_complete i r s)"
| step_item: "h < length (s_tasks s) \<Longrightarrow> st_phase (s_tasks s ! h) = Running \<Longrightarrow>
    session_step accept show_codec greet s (stream_item h item s)"
| step_return: "h < length (s_tasks s) \<Longrightarrow> st_phase (s_tasks s ! h) = Running \<Longrightarrow>
    session_step accept show_codec greet s (stream_return h outcome s)"
| step_remove: "h < length (s_tasks s) \<Longrightarrow> st_phase (s_tasks s ! h) = Ending \<Longrightarrow>
    session_step accept show_codec greet s (stream_remove h s)"
| step_capture: "h < length (s_tasks s) \<Longrightarrow> st_phase (s_tasks s ! h) = Running \<Longrightarrow>
    st_capture (s_tasks s ! h) = None \<Longrightarrow>
    session_step accept show_codec greet s (capture_open h opened s)"
| step_writer: "session_step accept show_codec greet s (s\<lparr>s_writer := False\<rparr>)"
| step_others: "captures_wf d \<Longrightarrow> session_step accept show_codec greet s (s\<lparr>s_daemon := d\<rparr>)"

section \<open>How the operations act on the fields\<close>

definition ids :: "'r session \<Rightarrow> nat list" where
  "ids s = map st_id (s_tasks s)"

lemma reply_fields [simp]:
  "s_greeted (reply i b s) = s_greeted s" "s_streams (reply i b s) = s_streams s"
  "s_tasks (reply i b s) = s_tasks s" "s_unary (reply i b s) = s_unary s"
  "s_writer (reply i b s) = s_writer s" "s_pc (reply i b s) = s_pc s"
  "s_daemon (reply i b s) = s_daemon s" "ids (reply i b s) = ids s"
  by (simp_all add: reply_def ids_def)

lemma responder_fields [simp]:
  "s_greeted (reply_error i e s) = s_greeted s" "s_streams (reply_error i e s) = s_streams s"
  "s_tasks (reply_error i e s) = s_tasks s" "s_unary (reply_error i e s) = s_unary s"
  "s_writer (reply_error i e s) = s_writer s" "s_pc (reply_error i e s) = s_pc s"
  "s_daemon (reply_error i e s) = s_daemon s" "ids (reply_error i e s) = ids s"
  "s_greeted (end_stream i r n x s) = s_greeted s" "s_streams (end_stream i r n x s) = s_streams s"
  "s_tasks (end_stream i r n x s) = s_tasks s" "s_unary (end_stream i r n x s) = s_unary s"
  "s_writer (end_stream i r n x s) = s_writer s" "s_pc (end_stream i r n x s) = s_pc s"
  "s_daemon (end_stream i r n x s) = s_daemon s" "ids (end_stream i r n x s) = ids s"
  by (simp_all add: reply_error_def end_stream_def)

lemma st_id_abort_task [simp]: "st_id (abort_task t) = st_id t"
  by (simp add: abort_task_def)

lemma map_st_id_update [simp]:
  "st_id t = st_id (ts ! h) \<Longrightarrow> map st_id (ts[h := t]) = map st_id ts"
  by (cases "h < length ts") (simp_all add: map_update list_update_same_conv list_update_beyond)

lemma abort_fields [simp]:
  "s_greeted (abort h s) = s_greeted s" "s_streams (abort h s) = s_streams s"
  "s_unary (abort h s) = s_unary s" "s_writer (abort h s) = s_writer s" "s_pc (abort h s) = s_pc s"
  "s_daemon (abort h s) = s_daemon s" "s_outbox (abort h s) = s_outbox s" "ids (abort h s) = ids s"
  "s_greeted (fold abort hs s) = s_greeted s" "s_streams (fold abort hs s) = s_streams s"
  "s_unary (fold abort hs s) = s_unary s" "s_writer (fold abort hs s) = s_writer s"
  "s_pc (fold abort hs s) = s_pc s" "s_daemon (fold abort hs s) = s_daemon s"
  "s_outbox (fold abort hs s) = s_outbox s" "ids (fold abort hs s) = ids s"
proof -
  show *: "s_greeted (abort h s) = s_greeted s" "s_streams (abort h s) = s_streams s"
    "s_unary (abort h s) = s_unary s" "s_writer (abort h s) = s_writer s" "s_pc (abort h s) = s_pc s"
    "s_daemon (abort h s) = s_daemon s" "s_outbox (abort h s) = s_outbox s" "ids (abort h s) = ids s"
    for h and s :: "'a session" by (simp_all add: abort_def ids_def)
  show "s_greeted (fold abort hs s) = s_greeted s" "s_streams (fold abort hs s) = s_streams s"
    "s_unary (fold abort hs s) = s_unary s" "s_writer (fold abort hs s) = s_writer s"
    "s_pc (fold abort hs s) = s_pc s" "s_daemon (fold abort hs s) = s_daemon s"
    "s_outbox (fold abort hs s) = s_outbox s" "ids (fold abort hs s) = ids s"
    by (induction hs arbitrary: s) (simp_all add: *)
qed

lemma set_phase_fields [simp]:
  "s_greeted (set_phase h p s) = s_greeted s" "s_streams (set_phase h p s) = s_streams s"
  "s_unary (set_phase h p s) = s_unary s" "s_writer (set_phase h p s) = s_writer s"
  "s_pc (set_phase h p s) = s_pc s" "s_daemon (set_phase h p s) = s_daemon s"
  "s_outbox (set_phase h p s) = s_outbox s" "ids (set_phase h p s) = ids s"
  by (simp_all add: set_phase_def ids_def)

lemma ids_update [simp]:
  "ids (s\<lparr>s_greeted := a\<rparr>) = ids s" "ids (s\<lparr>s_handled := b\<rparr>) = ids s"
  "ids (s\<lparr>s_streams := c\<rparr>) = ids s" "ids (s\<lparr>s_unary := d\<rparr>) = ids s"
  "ids (s\<lparr>s_outbox := e\<rparr>) = ids s" "ids (s\<lparr>s_writer := f\<rparr>) = ids s"
  "ids (s\<lparr>s_pc := g\<rparr>) = ids s" "ids (s\<lparr>s_daemon := k\<rparr>) = ids s"
  by (simp_all add: ids_def)

section \<open>Well-formed sessions\<close>

definition session_wf :: "'r session \<Rightarrow> bool" where
  "session_wf s =
     (hm_wf (s_streams s) \<and> length (s_streams s) \<le> MAX_STREAMS \<and>
      (\<forall>(i, h)\<in>set (s_streams s). h < length (ids s) \<and> ids s ! h = i) \<and>
      (\<forall>i h. s_pc s = Inserting i h \<longrightarrow> h < length (ids s) \<and> ids s ! h = i))"

lemma session_wf_cong:
  "session_wf s \<Longrightarrow> s_streams t = s_streams s \<Longrightarrow> ids t = ids s \<Longrightarrow> s_pc t = s_pc s \<Longrightarrow> session_wf t"
  by (simp add: session_wf_def)

lemma session_wf_remove:
  assumes "session_wf s" and "s_streams t = hm_remove i (s_streams s)" and "ids t = ids s"
    and "s_pc t = s_pc s"
  shows "session_wf t"
  using assms hm.bounded_remove [of "s_streams s" MAX_STREAMS i] by (auto simp: session_wf_def)

lemma cancel_streamD:
  "cancel_stream i s = (c, t) \<Longrightarrow>
   (c \<longleftrightarrow> map_of (s_streams s) i \<noteq> None) \<and>
   s_streams t = hm_remove i (s_streams s) \<and> ids t = ids s \<and> s_pc t = s_pc s \<and>
   s_greeted t = s_greeted s \<and> s_unary t = s_unary s \<and> s_writer t = s_writer s \<and>
   s_outbox t = s_outbox s \<and> s_daemon t = s_daemon s \<and>
   s_tasks t = (case map_of (s_streams s) i of
      Some h \<Rightarrow> (s_tasks s)[h := abort_task (s_tasks s ! h)] | None \<Rightarrow> s_tasks s)"
  by (auto simp: cancel_stream_def registry_cancel_def abort_def ids_def split: option.splits)

lemma stop_capture_fields [simp]:
  "s_streams (dispatch_stop_capture i cid s) = hm_remove cid (s_streams s)"
  "ids (dispatch_stop_capture i cid s) = ids s" "s_pc (dispatch_stop_capture i cid s) = s_pc s"
  "s_greeted (dispatch_stop_capture i cid s) = s_greeted s"
  "s_unary (dispatch_stop_capture i cid s) = s_unary s"
  "s_writer (dispatch_stop_capture i cid s) = s_writer s"
  "s_tasks (dispatch_stop_capture i cid s) = s_tasks (snd (cancel_stream cid s))"
  by (auto simp: dispatch_stop_capture_def Let_def split: prod.splits if_splits dest!: cancel_streamD)

text \<open>What a request body does to the fields, by the kind of the request.\<close>

fun is_stream_body :: "'q client_body \<Rightarrow> bool" where
  "is_stream_body (B_Diagnose _) = True"
| "is_stream_body (B_WatchNetwork _) = True"
| "is_stream_body (B_WatchRoutes _) = True"
| "is_stream_body (B_WatchSockets _) = True"
| "is_stream_body (B_StartCapture _) = True"
| "is_stream_body _ = False"

fun cancels :: "'q client_body \<Rightarrow> nat option" where
  "cancels (B_Cancel target) = Some target"
| "cancels (B_StopCapture cid) = Some cid"
| "cancels _ = None"

lemma serve_body_cases:
  fixes greet :: "daemon \<Rightarrow> hello_request \<Rightarrow> hello_response"
  shows "s_tasks (serve_body greet i b s) = s_tasks s \<and> s_streams (serve_body greet i b s) = s_streams s \<and>
     s_pc (serve_body greet i b s) = s_pc s \<and> cancels b = None \<or>
   (\<exists>target. cancels b = Some target \<and> (s_greeted s \<or> b = B_Cancel target) \<and>
      s_tasks (serve_body greet i b s) = s_tasks (snd (cancel_stream target s)) \<and>
      s_streams (serve_body greet i b s) = hm_remove target (s_streams s) \<and>
      s_pc (serve_body greet i b s) = s_pc s) \<or>
   cancels b \<noteq> None \<and> serve_body greet i b s = reply_error i (error_invalid hello_first) s \<or>
   is_stream_body b \<and> s_greeted s \<and> serve_body greet i b s = spawn_stream i s"
  by (cases b)
    (auto simp: serve_body_def spawn_unary_def split: prod.splits dest!: cancel_streamD)

lemma session_wf_spawn: "session_wf s \<Longrightarrow> session_wf (spawn_stream i s)"
  by (auto simp: session_wf_def spawn_stream_def ids_def nth_append)

lemma ids_cancel: "ids (snd (cancel_stream i s)) = ids s"
  using cancel_streamD [of i s] by (cases "cancel_stream i s") auto

lemma session_wf_serve_body:
  assumes "session_wf s"
  shows "session_wf (serve_body greet i b s)"
proof -
  let ?t = "serve_body greet i b s"
  consider "s_tasks ?t = s_tasks s" "s_streams ?t = s_streams s" "s_pc ?t = s_pc s"
    | target where "s_tasks ?t = s_tasks (snd (cancel_stream target s))"
        "s_streams ?t = hm_remove target (s_streams s)" "s_pc ?t = s_pc s"
    | "?t = reply_error i (error_invalid hello_first) s"
    | "?t = spawn_stream i s"
    using serve_body_cases [of greet i b s] by blast
  then show ?thesis
  proof cases
    case 1
    then show ?thesis by (intro session_wf_cong [OF assms]) (simp_all add: ids_def)
  next
    case (2 target)
    with ids_cancel [of target s] show ?thesis
      by (intro session_wf_remove [OF assms, of _ target]) (simp_all add: ids_def)
  next
    case 3
    then show ?thesis by (intro session_wf_cong [OF assms]) simp_all
  next
    case 4
    with assms show ?thesis by (simp add: session_wf_spawn)
  qed
qed

lemma session_wf_finish_insert:
  assumes "session_wf s" and "s_pc s = Inserting i h"
  shows "session_wf (finish_insert i h s)"
proof (cases "length (s_streams s) \<ge> MAX_STREAMS")
  case True
  with assms show ?thesis
    by (simp add: finish_insert_def registry_insert_def session_wf_def Let_def)
next
  case False
  then have f: "s_streams (finish_insert i h s) = hm_insert i h (s_streams s)"
    "ids (finish_insert i h s) = ids s" "s_pc (finish_insert i h s) = Reading"
    by (simp_all add: finish_insert_def registry_insert_def Let_def split: option.splits)
  have "hm_wf (hm_insert i h (s_streams s)) \<and> length (hm_insert i h (s_streams s)) \<le> MAX_STREAMS"
    using assms False by (intro hm.bounded_insert) (auto simp: session_wf_def)
  with f assms show ?thesis by (auto simp: session_wf_def hm_insert_def)
qed

lemma session_wf_close: "session_wf s \<Longrightarrow> session_wf (close_session s)"
  by (simp add: close_session_def registry_abort_all_def session_wf_def hm_wf_def)

lemma session_wf_serve_read: "session_wf s \<Longrightarrow> session_wf (serve_read show_codec greet r s)"
proof -
  assume wf: "session_wf s"
  have upd: "session_wf (s\<lparr>s_handled := n\<rparr>)" for n using wf by (simp add: session_wf_def)
  have err: "session_wf (reply_error i e s)" for i e using wf by (simp add: session_wf_def)
  show ?thesis using wf upd err
    by (auto simp: serve_read_def serve_frame_def session_wf_close session_wf_serve_body
        split: sum.splits option.splits)
qed

lemma task_fields [simp]:
  "s_streams (unary_complete i r s) = s_streams s" "ids (unary_complete i r s) = ids s"
  "s_pc (unary_complete i r s) = s_pc s" "s_tasks (unary_complete i r s) = s_tasks s"
  "s_streams (stream_item h x s) = s_streams s" "ids (stream_item h x s) = ids s"
  "s_pc (stream_item h x s) = s_pc s" "s_tasks (stream_item h x s) = s_tasks s"
  "s_streams (stream_return h y s) = s_streams s" "ids (stream_return h y s) = ids s"
  "s_pc (stream_return h y s) = s_pc s"
  "s_streams (capture_open h z s) = s_streams s" "ids (capture_open h z s) = ids s"
  "s_pc (capture_open h z s) = s_pc s"
  by (simp_all add: unary_complete_def stream_item_def stream_return_def capture_open_def Let_def
      ids_def set_phase_def allocate_capture_id_def split: sum.splits option.splits)

lemma tasks_stream_return:
  "s_tasks (stream_return h y s) = (s_tasks s)[h := (s_tasks s ! h)\<lparr>st_phase := Ending\<rparr>]"
  by (simp add: stream_return_def Let_def set_phase_def split: option.splits)

lemma phase_capture_open:
  "k < length (s_tasks s) \<Longrightarrow> st_phase (s_tasks (capture_open h z s) ! k) = st_phase (s_tasks s ! k)"
  by (cases "h = k") (auto simp: capture_open_def allocate_capture_id_def)

lemma session_wf_step:
  assumes "session_wf s" and "session_step accept show_codec greet s t"
  shows "session_wf t"
  using assms(2)
proof cases
  case (step_remove h)
  then show ?thesis
    by (intro session_wf_remove [OF assms(1), of _ "st_id (s_tasks (set_phase h Done s) ! h)"])
      (simp_all add: stream_remove_def registry_remove_def Let_def)
next
  case (step_insert i h)
  with assms(1) show ?thesis by (simp add: session_wf_finish_insert)
qed (simp_all only:, simp_all add: assms(1) session_wf_serve_read session_wf_cong [OF assms(1)])

interpretation session_machine:
  invariant_machine "session_start d" "session_step accept show_codec greet" session_wf
  for d and accept :: "'r session \<Rightarrow> 'q client_frame \<Rightarrow> bool" and show_codec greet
  by unfold_locales
    (simp_all add: session_wf_step, simp add: session_wf_def session_start_def hm_wf_def)

section \<open>Every running stream is registered\<close>

definition live :: "stream_task \<Rightarrow> bool" where
  "live t = (st_phase t = Running \<or> st_phase t = Ending)"

definition fresh_stream_id :: "'r session \<Rightarrow> 'q client_frame \<Rightarrow> bool" where
  "fresh_stream_id s frame =
     (case cf_body frame of None \<Rightarrow> True | Some b \<Rightarrow> is_stream_body b \<longrightarrow> cf_id frame \<notin> set (ids s))"

definition held :: "'r session \<Rightarrow> nat \<Rightarrow> bool" where
  "held s h = ((ids s ! h, h) \<in> set (s_streams s) \<or> s_pc s = Inserting (ids s ! h) h)"

definition tracked :: "'r session \<Rightarrow> bool" where
  "tracked s = (session_wf s \<and> distinct (ids s) \<and>
     (\<forall>h < length (s_tasks s). live (s_tasks s ! h) \<longrightarrow> held s h))"

lemma length_ids [simp]: "length (ids s) = length (s_tasks s)"
  by (simp add: ids_def)

lemma live_abort_task [simp]: "\<not> live (abort_task t)"
  by (cases "st_phase t") (simp_all add: live_def abort_task_def)

lemma live_update_abort [simp]:
  "h < length ts \<Longrightarrow> live (ts[k := abort_task (ts ! k)] ! h) \<longleftrightarrow> live (ts ! h) \<and> h \<noteq> k"
  by (cases "h = k") auto

lemma tasks_abort [simp]: "s_tasks (abort h s) = (s_tasks s)[h := abort_task (s_tasks s ! h)]"
  by (simp add: abort_def)

lemma live_fold_abort:
  "h < length (s_tasks s) \<Longrightarrow>
   live (s_tasks (fold abort hs s) ! h) \<longleftrightarrow> live (s_tasks s ! h) \<and> h \<notin> set hs"
proof (induction hs arbitrary: s)
  case Nil
  then show ?case by simp
next
  case (Cons a hs)
  then have "h < length (s_tasks (abort a s))" by simp
  from Cons.IH [OF this] Cons.prems have
    "live (s_tasks (fold abort hs (abort a s)) ! h) \<longleftrightarrow> live (s_tasks s ! h) \<and> h \<noteq> a \<and> h \<notin> set hs"
    by simp
  then show ?case by auto
qed

lemma length_tasks_ids: "ids t = ids s \<Longrightarrow> length (s_tasks t) = length (s_tasks s)"
  by (metis length_ids)

lemma trackedI:
  assumes "tracked s" and "session_wf t" and "ids t = ids s"
    and "\<And>h. h < length (s_tasks s) \<Longrightarrow> live (s_tasks t ! h) \<Longrightarrow> live (s_tasks s ! h) \<and> (held s h \<longrightarrow> held t h)"
  shows "tracked t"
  using assms length_tasks_ids [OF assms(3)] by (auto simp: tracked_def)

lemma tracked_same:
  assumes "tracked s" and "session_wf t" and "s_tasks t = s_tasks s" and "s_streams t = s_streams s"
    and "s_pc t = s_pc s"
  shows "tracked t"
  by (rule trackedI [OF assms(1,2)]) (simp_all add: assms held_def ids_def)

lemma registered_handle:
  assumes "session_wf s" and "(i, h) \<in> set (s_streams s)"
  shows "map_of (s_streams s) i = Some h" and "h < length (s_tasks s)" and "ids s ! h = i"
  using assms by (auto simp: session_wf_def hm_wf_def)

lemma tracked_cancel:
  assumes "tracked s" and "s_tasks t = s_tasks (snd (cancel_stream target s))"
    and "s_streams t = hm_remove target (s_streams s)" and "s_pc t = s_pc s" and "session_wf t"
  shows "tracked t"
proof -
  have wf: "session_wf s" using assms(1) by (simp add: tracked_def)
  have i: "ids t = ids s" using assms(2) ids_cancel [of target s] by (simp add: ids_def)
  obtain c u where u: "cancel_stream target s = (c, u)" by (cases "cancel_stream target s")
  show ?thesis
  proof (rule trackedI [OF assms(1,5) i])
    fix h assume h: "h < length (s_tasks s)" and l: "live (s_tasks t ! h)"
    have ts: "s_tasks t = (case map_of (s_streams s) target of
        Some k \<Rightarrow> (s_tasks s)[k := abort_task (s_tasks s ! k)] | None \<Rightarrow> s_tasks s)"
      using assms(2) u cancel_streamD [OF u] by simp
    have n: "map_of (s_streams s) target \<noteq> Some h" and ls: "live (s_tasks s ! h)"
      using l h by (auto simp: ts split: option.splits)
    have "held t h" if "held s h"
      using that n registered_handle [OF wf, of target h] i assms(3,4) by (auto simp: held_def)
    with ls show "live (s_tasks s ! h) \<and> (held s h \<longrightarrow> held t h)" by blast
  qed
qed

lemma tracked_serve_body:
  assumes "tracked s" and "s_pc s = Reading" and "is_stream_body b \<longrightarrow> i \<notin> set (ids s)"
  shows "tracked (serve_body greet i b s)"
proof -
  let ?t = "serve_body greet i b s"
  have wf: "session_wf ?t" using assms(1) by (simp add: tracked_def session_wf_serve_body)
  consider "s_tasks ?t = s_tasks s" "s_streams ?t = s_streams s" "s_pc ?t = s_pc s"
    | target where "s_tasks ?t = s_tasks (snd (cancel_stream target s))"
        "s_streams ?t = hm_remove target (s_streams s)" "s_pc ?t = s_pc s"
    | "?t = reply_error i (error_invalid hello_first) s"
    | "?t = spawn_stream i s" "is_stream_body b"
    using serve_body_cases [of greet i b s] by blast
  then show ?thesis
  proof cases
    case 1
    then show ?thesis by (rule tracked_same [OF assms(1) wf])
  next
    case (2 target)
    then show ?thesis using tracked_cancel [OF assms(1)] wf by blast
  next
    case 3
    then show ?thesis by (intro tracked_same [OF assms(1) wf]) simp_all
  next
    case 4
    then have "ids ?t = ids s @ [i]" "s_pc ?t = Inserting i (length (s_tasks s))"
      "s_streams ?t = s_streams s"
      "s_tasks ?t = s_tasks s @ [\<lparr>st_id = i, st_phase = Running, st_capture = None\<rparr>]"
      by (simp_all add: spawn_stream_def ids_def)
    moreover have "i \<notin> set (ids s)" using 4 assms(3) by simp
    ultimately show ?thesis using assms(1,2) wf
      by (auto simp: tracked_def held_def nth_append less_Suc_eq)
  qed
qed

lemma tracked_close: "tracked s \<Longrightarrow> s_pc s = Reading \<Longrightarrow> tracked (close_session s)"
proof -
  assume t: "tracked s" and pc: "s_pc s = Reading"
  let ?u = "s\<lparr>s_streams := [], s_pc := Closed\<rparr>"
  have c: "close_session s = fold abort (map snd (s_streams s)) ?u"
    by (simp add: close_session_def registry_abort_all_def)
  have "\<not> live (s_tasks (close_session s) ! h)" if "h < length (s_tasks s)" for h
  proof
    assume l: "live (s_tasks (close_session s) ! h)"
    have "h < length (s_tasks ?u)" using that by simp
    from live_fold_abort [OF this] l have "live (s_tasks s ! h)" "h \<notin> snd ` set (s_streams s)"
      unfolding c by auto
    moreover from this that t have "held s h" by (simp add: tracked_def)
    ultimately show False using pc by (force simp: held_def)
  qed
  moreover have "session_wf (close_session s)" using t by (simp add: tracked_def session_wf_close)
  moreover have "ids (close_session s) = ids s" by (simp add: c)
  ultimately show ?thesis using t by (auto simp: tracked_def dest: length_tasks_ids)
qed

lemma tracked_finish_insert:
  assumes "tracked s" and "s_pc s = Inserting i h"
  shows "tracked (finish_insert i h s)"
proof -
  let ?t = "finish_insert i h s"
  have wf: "session_wf s" using assms(1) by (simp add: tracked_def)
  have wt: "session_wf ?t" using wf assms(2) by (rule session_wf_finish_insert)
  have h: "h < length (s_tasks s)" "ids s ! h = i" using wf assms(2) by (auto simp: session_wf_def)
  have d: "distinct (ids s)" using assms(1) by (simp add: tracked_def)
  have it: "ids ?t = ids s" and pc: "s_pc ?t = Reading"
    by (auto simp: finish_insert_def registry_insert_def Let_def split: option.splits)
  have same: "k = h" if "(i, k) \<in> set (s_streams s)" for k
    using registered_handle [OF wf that] h nth_eq_iff_index_eq [OF d, of k h] by simp
  show ?thesis
  proof (cases "length (s_streams s) \<ge> MAX_STREAMS")
    case True
    then have t: "s_tasks ?t = (s_tasks s)[h := abort_task (s_tasks s ! h)]"
      "s_streams ?t = s_streams s"
      by (simp_all add: finish_insert_def registry_insert_def Let_def abort_def)
    show ?thesis
      by (rule trackedI [OF assms(1) wt it]) (use assms(2) h it in \<open>auto simp: t held_def\<close>)
  next
    case False
    then have t: "s_tasks ?t = (case map_of (s_streams s) i of
          Some k \<Rightarrow> (s_tasks s)[k := abort_task (s_tasks s ! k)] | None \<Rightarrow> s_tasks s)"
      "s_streams ?t = hm_insert i h (s_streams s)"
      by (simp_all add: finish_insert_def registry_insert_def Let_def abort_def split: option.splits)
    show ?thesis
    proof (rule trackedI [OF assms(1) wt it])
      fix k assume k: "k < length (s_tasks s)" and l: "live (s_tasks ?t ! k)"
      have "live (s_tasks s ! k)" using l k by (auto simp: t split: option.splits)
      moreover have "held ?t k" if "held s k"
        using that assms(2) h it same by (auto simp: held_def t hm_insert_def)
      ultimately show "live (s_tasks s ! k) \<and> (held s k \<longrightarrow> held ?t k)" by blast
    qed
  qed
qed

lemma tracked_remove:
  assumes "tracked s" and h: "h < length (s_tasks s)"
  shows "tracked (stream_remove h s)"
proof -
  let ?t = "stream_remove h s"
  have wf: "session_wf s" and d: "distinct (ids s)" using assms(1) by (auto simp: tracked_def)
  have t: "s_tasks ?t = (s_tasks s)[h := (s_tasks s ! h)\<lparr>st_phase := Done\<rparr>]"
    "s_streams ?t = hm_remove (ids s ! h) (s_streams s)" "ids ?t = ids s" "s_pc ?t = s_pc s"
    using h by (simp_all add: stream_remove_def registry_remove_def Let_def set_phase_def ids_def)
  have "session_wf ?t" using t by (intro session_wf_remove [OF wf, of _ "ids s ! h"]) auto
  then show ?thesis
  proof (rule trackedI [OF assms(1) _ t(3)])
    fix k assume k: "k < length (s_tasks s)" and l: "live (s_tasks ?t ! k)"
    then have kh: "k \<noteq> h" using h by (auto simp: t live_def)
    with l k have "live (s_tasks s ! k)" by (simp add: t)
    moreover have "ids s ! k \<noteq> ids s ! h" using d k h kh by (simp add: nth_eq_iff_index_eq)
    ultimately show "live (s_tasks s ! k) \<and> (held s k \<longrightarrow> held ?t k)" by (auto simp: held_def t)
  qed
qed

lemma tracked_phase:
  assumes "tracked s" and "session_wf t" and "s_streams t = s_streams s" and "s_pc t = s_pc s"
    and "ids t = ids s" and "\<And>k. k < length (s_tasks s) \<Longrightarrow> live (s_tasks t ! k) \<Longrightarrow> live (s_tasks s ! k)"
  shows "tracked t"
  by (rule trackedI [OF assms(1,2,5)]) (use assms in \<open>auto simp: held_def\<close>)

lemma tracked_step:
  assumes "tracked s" and "session_step fresh_stream_id show_codec greet s t"
  shows "tracked t"
proof -
  have wt: "session_wf t" using assms session_wf_step by (auto simp: tracked_def)
  have same: "tracked (reply_error i e s)" "tracked (s\<lparr>s_handled := n\<rparr>)" for i e n
  proof -
    have wf: "session_wf s" using assms(1) by (simp add: tracked_def)
    show "tracked (reply_error i e s)"
      by (rule tracked_same [OF assms(1) session_wf_cong [OF wf]]) simp_all
    show "tracked (s\<lparr>s_handled := n\<rparr>)"
      by (rule tracked_same [OF assms(1) session_wf_cong [OF wf]]) simp_all
  qed
  show ?thesis using assms(2)
  proof cases
    case (step_frame frame)
    show ?thesis
    proof (cases "cf_body frame")
      case None
      then show ?thesis using same step_frame by (simp add: serve_read_def serve_frame_def)
    next
      case (Some b)
      with step_frame have "is_stream_body b \<longrightarrow> cf_id frame \<notin> set (ids s)"
        by (simp add: fresh_stream_id_def)
      then have "tracked (serve_body greet (cf_id frame) b (s\<lparr>s_handled := s_handled s + 1\<rparr>))"
        using step_frame(2) by (intro tracked_serve_body [OF same(2)]) simp_all
      then show ?thesis using Some same step_frame by (simp add: serve_read_def serve_frame_def)
    qed
  next
    case (step_return h outcome)
    then show ?thesis using wt
      by (intro tracked_phase [OF assms(1)])
        (auto simp: tasks_stream_return nth_list_update live_def split: if_splits)
  next
    case (step_capture h opened)
    then show ?thesis using wt
      by (intro tracked_phase [OF assms(1)])
        (auto simp: phase_capture_open live_def)
  qed (use assms(1) wt same in \<open>auto simp: serve_read_def tracked_close tracked_finish_insert tracked_remove
      intro: tracked_same\<close>)
qed

interpretation tracked_machine:
  invariant_machine "session_start d" "session_step fresh_stream_id show_codec greet" tracked
  for d show_codec greet
proof
  show "tracked (session_start d)"
    by (simp add: tracked_def session_wf_def session_start_def hm_wf_def ids_def)
qed (fact tracked_step)

section \<open>Stream ends\<close>

fun is_end :: "'r server_body \<Rightarrow> bool" where
  "is_end (R_StreamEnd _) = True"
| "is_end _ = False"

definition ends :: "nat \<Rightarrow> 'r session \<Rightarrow> nat" where
  "ends i s = length (filter (\<lambda>(j, b). j = i \<and> is_end b) (s_outbox s))"

text \<open>A client that does not reuse the id of a stream and cancels nothing.\<close>

definition no_cancel :: "'r session \<Rightarrow> 'q client_frame \<Rightarrow> bool" where
  "no_cancel s frame =
     (fresh_stream_id s frame \<and>
      (case cf_body frame of None \<Rightarrow> True | Some b \<Rightarrow> cancels b = None))"

definition ends_wf :: "'r session \<Rightarrow> bool" where
  "ends_wf s =
     (distinct (ids s) \<and> (\<forall>i. i \<notin> set (ids s) \<longrightarrow> ends i s = 0) \<and>
      (\<forall>h < length (s_tasks s).
         (st_phase (s_tasks s ! h) = Running \<longrightarrow> ends (ids s ! h) s = 0) \<and> ends (ids s ! h) s \<le> 1 \<and>
         (s_writer s \<and> (st_phase (s_tasks s ! h) = Ending \<or> st_phase (s_tasks s ! h) = Done) \<longrightarrow>
            ends (ids s ! h) s = 1)))"

lemma ends_reply [simp]:
  "\<not> is_end b \<Longrightarrow> ends i (reply j b s) = ends i s"
  "ends i (reply_error j e s) = ends i s"
  "ends i (end_stream j r n x s) = ends i s + (if j = i \<and> s_writer s then 1 else 0)"
  by (simp_all add: ends_def reply_def reply_error_def end_stream_def)

lemma ends_outbox: "s_outbox t = s_outbox s \<Longrightarrow> ends i t = ends i s"
  by (simp add: ends_def)

lemma ends_other [simp]:
  "ends i (abort h s) = ends i s" "ends i (fold abort hs s) = ends i s"
  "ends i (set_phase h p s) = ends i s" "ends i (spawn_stream j s) = ends i s"
  "ends i (s\<lparr>s_greeted := a\<rparr>) = ends i s" "ends i (s\<lparr>s_handled := b\<rparr>) = ends i s"
  "ends i (s\<lparr>s_streams := c\<rparr>) = ends i s" "ends i (s\<lparr>s_unary := d\<rparr>) = ends i s"
  "ends i (s\<lparr>s_writer := f\<rparr>) = ends i s" "ends i (s\<lparr>s_tasks := g\<rparr>) = ends i s"
  "ends i (s\<lparr>s_pc := l\<rparr>) = ends i s" "ends i (s\<lparr>s_daemon := k\<rparr>) = ends i s"
  by (simp_all add: ends_def spawn_stream_def)

lemma serve_body_no_cancel:
  assumes "cancels b = None"
  shows "ends i (serve_body greet j b s) = ends i s \<and> s_writer (serve_body greet j b s) = s_writer s \<and>
    (s_tasks (serve_body greet j b s) = s_tasks s \<or>
     is_stream_body b \<and> serve_body greet j b s = spawn_stream j s)"
  using assms by (cases b) (simp_all add: serve_body_def spawn_unary_def spawn_stream_def)

lemma ends_wfI:
  assumes "ends_wf s" and "ids t = ids s" and "\<And>i. ends i t = ends i s"
    and "s_writer t \<longrightarrow> s_writer s"
    and "\<And>h. h < length (s_tasks s) \<Longrightarrow>
      st_phase (s_tasks t ! h) = st_phase (s_tasks s ! h) \<or> st_phase (s_tasks t ! h) = Aborted \<or>
      st_phase (s_tasks s ! h) = Ending \<and> st_phase (s_tasks t ! h) = Done"
  shows "ends_wf t"
  unfolding ends_wf_def
proof (intro conjI allI impI)
  show "distinct (ids t)" using assms(1,2) by (simp add: ends_wf_def)
  show "ends i t = 0" if "i \<notin> set (ids t)" for i using that assms(1-3) by (simp add: ends_wf_def)
  fix h assume "h < length (s_tasks t)"
  then have h: "h < length (s_tasks s)" using length_tasks_ids [OF assms(2)] by simp
  note old = assms(1) [unfolded ends_wf_def, THEN conjunct2, THEN conjunct2, rule_format, OF h]
  show "ends (ids t ! h) t = 0" if "st_phase (s_tasks t ! h) = Running"
    using that old assms(2,3) assms(5) [OF h] by auto
  show "ends (ids t ! h) t \<le> 1" using old assms(2,3) by simp
  show "ends (ids t ! h) t = 1"
    if "s_writer t \<and> (st_phase (s_tasks t ! h) = Ending \<or> st_phase (s_tasks t ! h) = Done)"
    using that old assms(2-4) assms(5) [OF h] by auto
qed

lemma phase_abort:
  "k < length (s_tasks s) \<Longrightarrow>
   st_phase (s_tasks (abort h s) ! k) = st_phase (s_tasks s ! k) \<or> st_phase (s_tasks (abort h s) ! k) = Aborted"
  by (cases "h = k") (auto simp: abort_task_def)

lemma phase_fold_abort:
  "k < length (s_tasks s) \<Longrightarrow>
   st_phase (s_tasks (fold abort hs s) ! k) = st_phase (s_tasks s ! k) \<or>
   st_phase (s_tasks (fold abort hs s) ! k) = Aborted"
proof (induction hs arbitrary: s)
  case Nil
  then show ?case by simp
next
  case (Cons h hs)
  then have "k < length (s_tasks (abort h s))" by simp
  from Cons.IH [OF this] phase_abort [OF Cons.prems, of h] show ?case by auto
qed

lemma ends_wf_spawn:
  assumes "ends_wf s" and "i \<notin> set (ids s)"
  shows "ends_wf (spawn_stream i s)"
proof -
  have f: "ids (spawn_stream i s) = ids s @ [i]" "s_writer (spawn_stream i s) = s_writer s"
    "s_tasks (spawn_stream i s) = s_tasks s @ [\<lparr>st_id = i, st_phase = Running, st_capture = None\<rparr>]"
    by (simp_all add: spawn_stream_def ids_def)
  show ?thesis using assms unfolding ends_wf_def f
    by (auto simp: nth_append less_Suc_eq)
qed

lemma ends_wf_return:
  assumes "ends_wf s" and h: "h < length (s_tasks s)" and "st_phase (s_tasks s ! h) = Running"
  shows "ends_wf (stream_return h y s)"
proof -
  let ?t = "stream_return h y s"
  have e: "ends i ?t = ends i s + (if ids s ! h = i \<and> s_writer s then 1 else 0)" for i
    using h by (auto simp: stream_return_def Let_def ids_def split: option.splits)
  have w: "s_writer ?t = s_writer s" by (simp add: stream_return_def Let_def split: option.splits)
  have d: "distinct (ids s)" and z: "ends (ids s ! h) s = 0" using assms by (simp_all add: ends_wf_def)
  have other: "ids s ! k \<noteq> ids s ! h" if "k < length (s_tasks s)" "k \<noteq> h" for k
    using nth_eq_iff_index_eq [OF d, of k h] that h by simp
  show ?thesis
    unfolding ends_wf_def
  proof (intro conjI allI impI)
    show "distinct (ids ?t)" using d by simp
    show "ends i ?t = 0" if "i \<notin> set (ids ?t)" for i
      using that assms(1) h by (auto simp: e ends_wf_def)
    fix k assume "k < length (s_tasks ?t)"
    then have k: "k < length (s_tasks s)" by (simp add: tasks_stream_return)
    note old = assms(1) [unfolded ends_wf_def, THEN conjunct2, THEN conjunct2, rule_format, OF k]
    show "ends (ids ?t ! k) ?t = 0" if "st_phase (s_tasks ?t ! k) = Running"
      using that old other [OF k] k by (cases "k = h") (auto simp: e tasks_stream_return)
    show "ends (ids ?t ! k) ?t \<le> 1"
      using old other [OF k] k z by (cases "k = h") (auto simp: e)
    show "ends (ids ?t ! k) ?t = 1"
      if "s_writer ?t \<and> (st_phase (s_tasks ?t ! k) = Ending \<or> st_phase (s_tasks ?t ! k) = Done)"
      using that old other [OF k] k z by (cases "k = h") (auto simp: e w tasks_stream_return)
  qed
qed

lemma ends_wf_close: "ends_wf s \<Longrightarrow> ends_wf (close_session s)"
proof -
  assume e: "ends_wf s"
  let ?u = "s\<lparr>s_streams := [], s_pc := Closed\<rparr>"
  have c: "close_session s = fold abort (map snd (s_streams s)) ?u"
    by (simp add: close_session_def registry_abort_all_def)
  show ?thesis
  proof (rule ends_wfI [OF e])
    fix h assume "h < length (s_tasks s)"
    then show "st_phase (s_tasks (close_session s) ! h) = st_phase (s_tasks s ! h) \<or>
        st_phase (s_tasks (close_session s) ! h) = Aborted \<or>
        st_phase (s_tasks s ! h) = Ending \<and> st_phase (s_tasks (close_session s) ! h) = Done"
      using phase_fold_abort [of h ?u "map snd (s_streams s)"] by (auto simp: c)
  qed (simp_all add: c)
qed

lemma ends_wf_finish_insert: "ends_wf s \<Longrightarrow> ends_wf (finish_insert i h s)"
proof -
  assume e: "ends_wf s"
  let ?t = "finish_insert i h s"
  have f: "ids ?t = ids s" "ends j ?t = ends j s" "s_writer ?t = s_writer s" for j
    by (simp_all add: finish_insert_def registry_insert_def Let_def split: option.splits)
  have "s_tasks ?t = s_tasks s \<or> (\<exists>k. s_tasks ?t = s_tasks (abort k s))"
    by (auto simp: finish_insert_def registry_insert_def Let_def split: option.splits)
  then have "st_phase (s_tasks ?t ! k) = st_phase (s_tasks s ! k) \<or> st_phase (s_tasks ?t ! k) = Aborted"
    if "k < length (s_tasks s)" for k using phase_abort [OF that] by metis
  then show ?thesis by (intro ends_wfI [OF e]) (simp_all add: f, blast)
qed

lemma ends_wf_same:
  assumes "ends_wf s" and "s_tasks t = s_tasks s" and "s_writer t = s_writer s" and "\<And>i. ends i t = ends i s"
  shows "ends_wf t"
  by (rule ends_wfI [OF assms(1)]) (simp_all add: ids_def assms)

lemma ends_wf_step:
  assumes e: "ends_wf s" and "session_step no_cancel show_codec greet s t"
  shows "ends_wf t"
  using assms(2)
proof cases
  case (step_frame frame)
  show ?thesis
  proof (cases "cf_body frame")
    case None
    then show ?thesis using step_frame by (intro ends_wf_same [OF e]) (simp_all add: serve_read_def serve_frame_def)
  next
    case (Some b)
    let ?u = "s\<lparr>s_handled := s_handled s + 1\<rparr>"
    have u: "ends_wf ?u" by (rule ends_wf_same [OF e]) simp_all
    have c: "cancels b = None" "is_stream_body b \<longrightarrow> cf_id frame \<notin> set (ids s)"
      using Some step_frame by (simp_all add: no_cancel_def fresh_stream_id_def)
    have "ends_wf (serve_body greet (cf_id frame) b ?u)"
    proof (cases "is_stream_body b \<and> serve_body greet (cf_id frame) b ?u = spawn_stream (cf_id frame) ?u")
      case True
      then show ?thesis using c u by (simp add: ends_wf_spawn)
    next
      case False
      then show ?thesis using serve_body_no_cancel [OF c(1), of _ greet "cf_id frame" ?u]
        by (intro ends_wf_same [OF u]) auto
    qed
    moreover have "ends_wf (reply_error 0 x s)" for x by (rule ends_wf_same [OF e]) simp_all
    ultimately show ?thesis using Some step_frame by (simp add: serve_read_def serve_frame_def)
  qed
next
  case step_end
  then show ?thesis using e by (simp add: serve_read_def ends_wf_close)
next
  case (step_bad x)
  have "ends_wf (reply_error 0 y s)" for y by (rule ends_wf_same [OF e]) simp_all
  then show ?thesis using step_bad by (simp add: serve_read_def ends_wf_close)
next
  case (step_insert i h)
  then show ?thesis using e by (simp add: ends_wf_finish_insert)
next
  case (step_unary i r)
  then show ?thesis
    by (intro ends_wf_same [OF e]) (simp_all add: unary_complete_def Let_def split: sum.splits)
next
  case (step_item h item)
  then show ?thesis by (intro ends_wf_same [OF e]) (simp_all add: stream_item_def)
next
  case (step_return h outcome)
  then show ?thesis using e by (simp add: ends_wf_return)
next
  case (step_remove h)
  show ?thesis unfolding step_remove(1)
    by (rule ends_wfI [OF e])
      (use step_remove in \<open>auto simp: stream_remove_def Let_def set_phase_def ids_def nth_list_update\<close>)
next
  case (step_capture h opened)
  have "ends i (capture_open h opened s) = ends i s" "s_writer (capture_open h opened s) = s_writer s" for i
    by (simp_all add: capture_open_def allocate_capture_id_def)
  then show ?thesis using step_capture
    by (intro ends_wfI [OF e]) (simp_all add: phase_capture_open)
next
  case step_writer
  then show ?thesis by (intro ends_wfI [OF e]) simp_all
next
  case (step_others d)
  then show ?thesis by (intro ends_wf_same [OF e]) simp_all
qed

interpretation ends_machine:
  invariant_machine "session_start d" "session_step no_cancel show_codec greet" ends_wf
  for d show_codec greet
proof
  show "ends_wf (session_start d)"
    by (simp add: ends_wf_def session_start_def ids_def ends_def)
qed (fact ends_wf_step)

section \<open>Streams within the limit\<close>

text \<open>
  A client that cancels nothing, does not reuse the id of a stream, and opens a stream only while fewer
  than \<open>MAX_STREAMS\<close> are registered: none of its streams is refused or replaced.
\<close>

definition within_limit :: "'r session \<Rightarrow> 'q client_frame \<Rightarrow> bool" where
  "within_limit s frame =
     (no_cancel s frame \<and>
      (case cf_body frame of None \<Rightarrow> True | Some b \<Rightarrow> is_stream_body b \<longrightarrow> length (s_streams s) < MAX_STREAMS))"

lemma session_step_mono:
  assumes "session_step accept show_codec greet s t" and "\<And>s f. accept s f \<Longrightarrow> accept' s f"
  shows "session_step accept' show_codec greet s t"
  using assms(1) by cases (auto intro: session_step.intros assms(2))

definition unrefused :: "'r session \<Rightarrow> bool" where
  "unrefused s =
     ((s_pc s \<noteq> Closed \<longrightarrow> (\<forall>t\<in>set (s_tasks s). st_phase t \<noteq> Aborted)) \<and>
      (\<forall>i h. s_pc s = Inserting i h \<longrightarrow> length (s_streams s) < MAX_STREAMS \<and> map_of (s_streams s) i = None))"

lemma unrefused_same:
  "unrefused s \<Longrightarrow> s_tasks t = s_tasks s \<Longrightarrow> s_streams t = s_streams s \<Longrightarrow> s_pc t = s_pc s \<Longrightarrow> unrefused t"
  by (simp add: unrefused_def)

lemma unrefused_closed: "s_pc t = Closed \<Longrightarrow> unrefused t"
  by (simp add: unrefused_def)

lemma fresh_not_registered:
  assumes "session_wf s" and "i \<notin> set (ids s)"
  shows "map_of (s_streams s) i = None"
  using assms by (fastforce simp: session_wf_def map_of_eq_None_iff dest: nth_mem)

lemma unrefused_step:
  assumes u: "unrefused s" and wf: "session_wf s" and "session_step within_limit show_codec greet s t"
  shows "unrefused t"
  using assms(3)
proof cases
  case (step_frame frame)
  show ?thesis
  proof (cases "cf_body frame")
    case None
    then show ?thesis using step_frame by (intro unrefused_same [OF u]) (simp_all add: serve_read_def serve_frame_def)
  next
    case (Some b)
    let ?u = "s\<lparr>s_handled := s_handled s + 1\<rparr>"
    have c: "cancels b = None" "is_stream_body b \<longrightarrow> cf_id frame \<notin> set (ids s) \<and> length (s_streams s) < MAX_STREAMS"
      using Some step_frame by (simp_all add: within_limit_def no_cancel_def fresh_stream_id_def)
    have "unrefused (spawn_stream (cf_id frame) ?u)" if "is_stream_body b"
      using u c(2) that fresh_not_registered [OF wf] step_frame(2) by (auto simp: unrefused_def spawn_stream_def)
    moreover have "unrefused (serve_body greet (cf_id frame) b ?u)"
      if "\<not> (is_stream_body b \<and> serve_body greet (cf_id frame) b ?u = spawn_stream (cf_id frame) ?u)"
      using that c(1) by (intro unrefused_same [OF u])
        (cases b; simp add: serve_body_def spawn_unary_def split: if_splits)+
    ultimately have "unrefused (serve_body greet (cf_id frame) b ?u)" by metis
    moreover have "unrefused (reply_error 0 x s)" for x by (rule unrefused_same [OF u]) simp_all
    ultimately show ?thesis using Some step_frame by (simp add: serve_read_def serve_frame_def)
  qed
next
  case step_end
  then show ?thesis by (intro unrefused_closed) (simp add: serve_read_def close_session_def registry_abort_all_def)
next
  case (step_bad x)
  then show ?thesis by (intro unrefused_closed) (simp add: serve_read_def close_session_def registry_abort_all_def)
next
  case (step_insert i h)
  then have "length (s_streams s) < MAX_STREAMS" "map_of (s_streams s) i = None"
    using u by (auto simp: unrefused_def)
  then show ?thesis using u step_insert
    by (simp add: finish_insert_def registry_insert_def unrefused_def Let_def)
next
  case (step_unary i r)
  then show ?thesis
    by (intro unrefused_same [OF u]) (simp_all add: unary_complete_def Let_def split: sum.splits)
next
  case (step_item h item)
  then show ?thesis by (intro unrefused_same [OF u]) (simp_all add: stream_item_def)
next
  case (step_return h outcome)
  then show ?thesis using u
    by (auto simp: unrefused_def tasks_stream_return stream_return_def Let_def set_phase_def
        dest!: set_update_subset_insert [THEN subsetD] split: option.splits)
next
  case (step_remove h)
  have "length (hm_remove j (s_streams s)) < MAX_STREAMS" if "length (s_streams s) < MAX_STREAMS" for j
    using length_hm_remove [of j "s_streams s"] that by linarith
  then show ?thesis using u step_remove
    by (auto simp: unrefused_def stream_remove_def set_phase_def Let_def registry_remove_def map_of_hm_remove
        dest!: set_update_subset_insert [THEN subsetD])
next
  case (step_capture h opened)
  then show ?thesis using u
    by (auto simp: unrefused_def capture_open_def allocate_capture_id_def
        dest!: set_update_subset_insert [THEN subsetD] split: if_splits)
next
  case step_writer
  then show ?thesis by (intro unrefused_same [OF u]) simp_all
next
  case (step_others d)
  then show ?thesis by (intro unrefused_same [OF u]) simp_all
qed

interpretation unrefused_machine:
  invariant_machine "session_start d" "session_step within_limit show_codec greet"
    "\<lambda>s. session_wf s \<and> ends_wf s \<and> unrefused s"
  for d show_codec greet
proof
  show "session_wf (session_start d) \<and> ends_wf (session_start d) \<and> unrefused (session_start d)"
    using session_machine.inv_init [of d] ends_machine.inv_init [of d] by (auto simp: unrefused_def session_start_def)
qed (use unrefused_step session_wf_step ends_wf_step session_step_mono in \<open>fastforce simp: within_limit_def\<close>)

section \<open>The greeting gate\<close>

definition harmless :: "nat \<times> 'r server_body \<Rightarrow> bool" where
  "harmless f = (case snd f of R_Error _ \<Rightarrow> True | R_Cancel b \<Rightarrow> \<not> b | _ \<Rightarrow> False)"

definition gate :: "'r session \<Rightarrow> bool" where
  "gate s =
     (s_greeted s \<or>
      s_tasks s = [] \<and> s_unary s = [] \<and> s_streams s = [] \<and> (\<forall>i h. s_pc s \<noteq> Inserting i h) \<and>
      list_all harmless (s_outbox s))"

lemma harmless_iff: "harmless (i, b) \<longleftrightarrow> b = R_Cancel False \<or> (\<exists>e. b = R_Error e)"
  by (cases b) (simp_all add: harmless_def)

lemma gate_reply_error: "gate s \<Longrightarrow> gate (reply_error i e s)"
  by (auto simp: gate_def reply_error_def reply_def harmless_def)

lemma gate_serve_body:
  fixes greet :: "daemon \<Rightarrow> hello_request \<Rightarrow> hello_response"
  shows "gate s \<Longrightarrow> gate (serve_body greet i b s)"
proof (cases "s_greeted s")
  case True
  then have "s_greeted (serve_body greet i b s)"
    by (cases b) (auto simp: serve_body_def spawn_unary_def spawn_stream_def split: prod.splits
        dest!: cancel_streamD)
  then show ?thesis by (simp add: gate_def)
next
  case False
  assume g: "gate s"
  then have s: "s_streams s = []" using False by (simp add: gate_def)
  show ?thesis
  proof (cases "\<exists>h. b = B_Hello h")
    case True
    then show ?thesis by (auto simp: serve_body_def gate_def)
  next
    case nohello: False
    show ?thesis
    proof (cases "\<exists>target. b = B_Cancel target")
      case True
      then have "serve_body greet i b s = reply i (R_Cancel False) (s\<lparr>s_streams := []\<rparr>)"
        using s by (auto simp: serve_body_def cancel_stream_def registry_cancel_def)
      then show ?thesis using g by (auto simp: gate_def reply_def harmless_def)
    next
      case c: False
      with nohello False have "serve_body greet i b s = reply_error i (error_invalid hello_first) s"
        by (cases b) (simp_all add: serve_body_def)
      then show ?thesis using g by (simp add: gate_reply_error)
    qed
  qed
qed

lemma gate_close: "gate s \<Longrightarrow> gate (close_session s)"
  by (auto simp: gate_def close_session_def registry_abort_all_def)

lemma gate_step:
  assumes g: "gate s" and "session_step accept show_codec greet s t"
  shows "gate t"
  using assms(2)
proof cases
  case (step_frame frame)
  have u: "gate (s\<lparr>s_handled := n\<rparr>)" for n using g by (simp add: gate_def)
  show ?thesis using step_frame g u gate_serve_body [OF u]
    by (auto simp: serve_read_def serve_frame_def gate_reply_error split: option.splits)
next
  case (step_insert i h)
  then have "s_greeted t"
    using g by (auto simp: gate_def finish_insert_def registry_insert_def Let_def split: option.splits)
  then show ?thesis by (simp add: gate_def)
next
  case (step_unary i r)
  then have "s_greeted s" using g by (auto simp: gate_def)
  then show ?thesis using step_unary
    by (auto simp: gate_def unary_complete_def Let_def split: sum.splits)
next
  case (step_remove h)
  then show ?thesis using g by (auto simp: gate_def stream_remove_def Let_def)
next
  case (step_capture h opened)
  then show ?thesis using g by (auto simp: gate_def capture_open_def allocate_capture_id_def)
next
  case (step_return h opened)
  then show ?thesis using g by (auto simp: gate_def stream_return_def Let_def split: option.splits)
next
  case (step_item h item)
  then show ?thesis using g by (auto simp: gate_def stream_item_def)
qed (use g in \<open>auto simp: serve_read_def gate_close gate_reply_error\<close>, auto simp: gate_def)

interpretation gate_machine:
  invariant_machine "session_start d" "session_step accept show_codec greet" gate
  for d accept show_codec greet
proof
  show "gate (session_start d)" by (simp add: gate_def session_start_def)
qed (fact gate_step)

section \<open>A concrete session\<close>

text \<open>Hello, a watch subscription that is registered, and, further on, its end.\<close>

definition demo_greet :: "daemon \<Rightarrow> hello_request \<Rightarrow> hello_response" where
  "demo_greet = hello (\<lambda>_. None) 0 1"

definition demo_hello :: "nat client_frame" where
  "demo_hello = \<lparr>cf_id = 1, cf_body = Some (B_Hello
     \<lparr>hr_protocol_version = 1, hr_client_name = ''ui'', hr_client_version = ''1''\<rparr>)\<rparr>"

definition demo_watch :: "nat client_frame" where
  "demo_watch = \<lparr>cf_id = 2, cf_body = Some (B_WatchNetwork 0)\<rparr>"

definition demo_start :: "'r session" where "demo_start = session_start fresh_daemon"

definition demo_spawned :: "'r session" where
  "demo_spawned = serve_frame demo_greet demo_watch (serve_frame demo_greet demo_hello demo_start)"

definition demo_running :: "'r session" where "demo_running = finish_insert 2 0 demo_spawned"

definition demo_ended :: "'r session" where
  "demo_ended = stream_return 0 (outcome_done ''client disconnected'' 3) demo_running"

lemmas demo_defs = demo_greet_def demo_hello_def demo_watch_def demo_start_def demo_spawned_def
  demo_running_def demo_ended_def session_start_def

lemma demo_spawned_fields [simp]:
  "s_pc (demo_spawned :: 'r session) = Inserting 2 0" "s_streams (demo_spawned :: 'r session) = []"
  "s_tasks (demo_spawned :: 'r session) = [\<lparr>st_id = 2, st_phase = Running, st_capture = None\<rparr>]"
  "s_writer (demo_spawned :: 'r session)" "ends 2 (demo_spawned :: 'r session) = 0"
  by (simp_all add: demo_defs serve_frame_def serve_body_def spawn_stream_def reply_def ends_def)

lemma demo_running_fields [simp]:
  "s_pc (demo_running :: 'r session) = Reading" "s_streams (demo_running :: 'r session) = [(2, 0)]"
  "s_tasks (demo_running :: 'r session) = [\<lparr>st_id = 2, st_phase = Running, st_capture = None\<rparr>]"
  "s_writer (demo_running :: 'r session)" "ends 2 (demo_running :: 'r session) = 0"
  by (simp_all add: demo_running_def finish_insert_def registry_insert_def MAX_STREAMS_def Let_def hm_insert_def)

lemma reach_demo:
  fixes accept :: "'r session \<Rightarrow> nat client_frame \<Rightarrow> bool"
  assumes "\<And>s f. within_limit s f \<Longrightarrow> accept s f"
  shows "reach (session_step accept show_codec demo_greet) (session_start fresh_daemon) demo_running"
    and "reach (session_step accept show_codec demo_greet) (session_start fresh_daemon) demo_ended"
proof -
  let ?step = "session_step accept show_codec demo_greet"
  let ?s1 = "serve_frame demo_greet demo_hello demo_start"
  have "reach ?step (session_start fresh_daemon) demo_start" by (simp add: demo_start_def reach_init)
  moreover have "?step demo_start (serve_read show_codec demo_greet (Inr (Some demo_hello)) demo_start)"
    by (rule session_step.step_frame, simp add: demo_defs, rule assms)
      (simp add: demo_defs within_limit_def no_cancel_def fresh_stream_id_def)
  ultimately have r1: "reach ?step (session_start fresh_daemon) ?s1"
    using reach_step by (fastforce simp: serve_read_def)
  have "?step ?s1 (serve_read show_codec demo_greet (Inr (Some demo_watch)) ?s1)"
    by (rule session_step.step_frame, simp add: demo_defs serve_frame_def serve_body_def, rule assms)
      (simp add: demo_defs within_limit_def no_cancel_def fresh_stream_id_def serve_frame_def serve_body_def ids_def reply_def MAX_STREAMS_def)
  then have "reach ?step (session_start fresh_daemon) demo_spawned"
    using reach_step [OF r1] by (simp add: serve_read_def demo_spawned_def)
  moreover have "?step demo_spawned demo_running"
    unfolding demo_running_def by (rule session_step.step_insert) simp
  ultimately show r: "reach ?step (session_start fresh_daemon) demo_running" by (rule reach_step)
  have "?step demo_running demo_ended"
    unfolding demo_ended_def by (rule session_step.step_return) simp_all
  with r show "reach ?step (session_start fresh_daemon) demo_ended" by (rule reach_step)
qed

lemma within_limit_fresh: "within_limit s f \<Longrightarrow> fresh_stream_id s f"
  by (simp add: within_limit_def no_cancel_def)

section \<open>Properties\<close>

text \<open>
  C3: whatever the client sends and however the tasks interleave, the registry never holds more
  than \<open>MAX_STREAMS\<close> streams, has one entry per request id, and every entry refers to a task that
  was spawned for exactly that request id.
\<close>

theorem registry_bounded:
  assumes "reach (session_step accept show_codec greet) (session_start d) s"
  shows "length (s_streams s) \<le> MAX_STREAMS \<and> distinct (map fst (s_streams s)) \<and>
         (\<forall>(i, h)\<in>set (s_streams s). h < length (s_tasks s) \<and> st_id (s_tasks s ! h) = i)"
proof -
  have "session_wf s" by (rule session_machine.reach_inv [OF assms])
  then show ?thesis by (auto simp: session_wf_def hm_wf_def ids_def)
qed

theorem registry_bounded_witness:
  "length (s_streams (demo_running :: nat session)) \<le> MAX_STREAMS \<and>
   distinct (map fst (s_streams (demo_running :: nat session))) \<and>
   list_all (\<lambda>(i, h). h < length (s_tasks (demo_running :: nat session)) \<and>
     st_id (s_tasks (demo_running :: nat session) ! h) = i) (s_streams (demo_running :: nat session))"
  unfolding list_all_iff
  by (rule registry_bounded [OF reach_demo(1) [of "\<lambda>_ _. True" "\<lambda>_. []"]]) simp

text \<open>
  C4: before the client has said Hello no request is dispatched: no task and no stream exists,
  and the only frames sent are errors and negative answers to Cancel.
\<close>

theorem hello_required:
  assumes "reach (session_step accept show_codec greet) (session_start d) s" and "\<not> s_greeted s"
  shows "s_tasks s = [] \<and> s_unary s = [] \<and> s_streams s = [] \<and>
         (\<forall>(i, b)\<in>set (s_outbox s). b = R_Cancel False \<or> (\<exists>e. b = R_Error e))"
proof -
  have "gate s" by (rule gate_machine.reach_inv [OF assms(1)])
  with assms(2) show ?thesis by (auto simp: gate_def list_all_iff harmless_iff)
qed

theorem hello_required_witness:
  "s_tasks (demo_start :: nat session) = [] \<and> s_unary (demo_start :: nat session) = [] \<and>
   s_streams (demo_start :: nat session) = []"
proof -
  have "reach (session_step (\<lambda>_ (_ :: nat client_frame). True) (\<lambda>_. []) demo_greet)
      (session_start fresh_daemon) (demo_start :: nat session)"
    by (simp add: demo_start_def reach_init)
  from hello_required [OF this] show ?thesis by (simp add: demo_start_def session_start_def)
qed

text \<open>
  Closing the connection leaves no stream behind. For a client that does not reuse the id
  of a stream, once the read loop has ended, by a clean end or by a malformed frame, no stream
  task is running any more.
\<close>

lemma close_leaves_no_stream:
  fixes r :: "codec_error + 'q client_frame option" and s :: "'r session"
  assumes "reach (session_step (fresh_stream_id :: 'r session \<Rightarrow> 'q client_frame \<Rightarrow> bool) show_codec greet)
             (session_start d) s"
    and "s_pc s = Reading" and "r = Inr None \<or> r = Inl e"
  shows "\<forall>t\<in>set (s_tasks (serve_read show_codec greet r s)). st_phase t = Done \<or> st_phase t = Aborted"
proof -
  let ?t = "serve_read show_codec greet r s"
  have "session_step (fresh_stream_id :: 'r session \<Rightarrow> 'q client_frame \<Rightarrow> bool) show_codec greet s ?t"
    using assms(2,3) session_step.step_end session_step.step_bad by blast
  then have "tracked ?t" by (rule tracked_machine.reach_inv [OF reach_step [OF assms(1)]])
  moreover have "s_pc ?t = Closed" "s_streams ?t = []"
    using assms(3) by (auto simp: serve_read_def close_session_def registry_abort_all_def)
  ultimately have "\<not> live (s_tasks ?t ! h)" if "h < length (s_tasks ?t)" for h
    using that by (auto simp: tracked_def held_def)
  then have "\<forall>t\<in>set (s_tasks ?t). \<not> live t" by (metis in_set_conv_nth)
  then show ?thesis by (auto simp: live_def intro: phase.exhaust)
qed

text \<open>
  Even when streams are refused for want of room, none gets a second \<open>StreamEnd\<close> as long as nothing
  is cancelled. A refused stream gets an error and no \<open>StreamEnd\<close> at all (\<open>refused_without_end\<close>).
\<close>

lemma at_most_one_stream_end:
  assumes "reach (session_step no_cancel show_codec greet) (session_start d) s"
    and "t \<in> set (s_tasks s)"
  shows "ends (st_id t) s \<le> 1"
proof -
  have "ends_wf s" by (rule ends_machine.reach_inv [OF assms(1)])
  moreover obtain h where "h < length (s_tasks s)" "t = s_tasks s ! h"
    using assms(2) by (auto simp: in_set_conv_nth)
  ultimately show ?thesis by (auto simp: ends_wf_def ids_def)
qed

lemma refused_without_end:
  assumes "MAX_STREAMS \<le> length (s_streams s)" and "s_pc s = Inserting i h"
  shows "\<exists>e. finish_insert i h s = reply_error i e (abort h (s\<lparr>s_pc := Reading\<rparr>)) \<and>
    ends j (finish_insert i h s) = ends j s \<and> s_streams (finish_insert i h s) = s_streams s"
  using assms
  by (intro exI [of _ "error_new Err_ResourceExhausted (''too many concurrent streams (limit '' @ dec MAX_STREAMS @ '')'')"])
    (simp add: finish_insert_def registry_insert_def Let_def)

text \<open>
  C2: every stream of a client that stays within the limit ends with exactly one \<open>StreamEnd\<close>. The client
  neither cancels nor reuses a stream id, and opens a stream only while fewer than \<open>MAX_STREAMS\<close> are
  registered. Then, while the connection is open and its writer lives, no stream is aborted, a running
  stream has sent no \<open>StreamEnd\<close>, and a stream whose body has returned, with success or an error, has
  sent exactly one.
\<close>

theorem one_stream_end:
  assumes "reach (session_step within_limit show_codec greet) (session_start d) s"
    and "t \<in> set (s_tasks s)" and "s_writer s" and "s_pc s \<noteq> Closed"
  shows "st_phase t \<noteq> Aborted \<and> ends (st_id t) s = (if st_phase t = Running then 0 else 1)"
proof -
  have "ends_wf s" and u: "unrefused s" using unrefused_machine.reach_inv [OF assms(1)] by simp_all
  moreover obtain h where "h < length (s_tasks s)" "t = s_tasks s ! h"
    using assms(2) by (auto simp: in_set_conv_nth)
  ultimately show ?thesis using assms(2-4) by (cases "st_phase t") (auto simp: ends_wf_def ids_def unrefused_def)
qed

theorem one_stream_end_witness:
  "ends 2 (demo_ended :: nat session) = 1"
proof -
  let ?t = "\<lparr>st_id = 2, st_phase = Ending, st_capture = None\<rparr>"
  have "?t \<in> set (s_tasks (demo_ended :: nat session))" by (simp add: demo_ended_def tasks_stream_return)
  moreover have "s_writer (demo_ended :: nat session)" "s_pc (demo_ended :: nat session) \<noteq> Closed"
    by (simp_all add: demo_ended_def stream_return_def Let_def)
  ultimately show ?thesis
    using one_stream_end [OF reach_demo(2) [of within_limit "\<lambda>_. []", OF _], of ?t] by auto
qed

section \<open>Cancelling a stream that is ending\<close>

text \<open>
  The registry entry of a stream outlives its \<open>StreamEnd\<close>: a Cancel that arrives in between
  finds the entry and sends a second \<open>StreamEnd\<close> for the same request.
\<close>

definition demo_cancel :: "nat client_frame" where
  "demo_cancel = \<lparr>cf_id = 3, cf_body = Some (B_Cancel 2)\<rparr>"

lemma second_stream_end:
  "\<exists>s :: nat session.
     reach (session_step (fresh_stream_id :: nat session \<Rightarrow> nat client_frame \<Rightarrow> bool) (\<lambda>_. []) demo_greet) (session_start fresh_daemon) s \<and> ends 2 s = 2"
proof -
  let ?t = "serve_read (\<lambda>_. []) demo_greet (Inr (Some demo_cancel)) (demo_ended :: nat session)"
  have f: "s_pc (demo_ended :: nat session) = Reading" "s_streams (demo_ended :: nat session) = [(2, 0)]"
    "s_writer (demo_ended :: nat session)" "ends 2 (demo_ended :: nat session) = 1"
    by (simp_all add: demo_ended_def stream_return_def Let_def)
  have "reach (session_step (fresh_stream_id :: nat session \<Rightarrow> nat client_frame \<Rightarrow> bool) (\<lambda>_. []) demo_greet) (session_start fresh_daemon) (demo_ended :: nat session)"
    by (rule reach_demo(2)) (rule within_limit_fresh)
  moreover have "session_step (fresh_stream_id :: nat session \<Rightarrow> nat client_frame \<Rightarrow> bool)
      (\<lambda>_. []) demo_greet demo_ended ?t"
    by (rule session_step.step_frame) (simp_all add: f fresh_stream_id_def demo_cancel_def)
  moreover have "ends 2 ?t = 2"
    using f by (simp add: serve_read_def serve_frame_def serve_body_def demo_cancel_def
        cancel_stream_def registry_cancel_def)
  ultimately show ?thesis by (metis reach_step)
qed

text \<open>
  \<open>StopCapture\<close> looks its capture id up among the request ids of the registry: a stream whose
  request id happens to equal a capture id is cancelled in place of the capture.
\<close>

lemma stop_capture_hits_stream:
  assumes "map_of (s_streams s) cid = Some h" and "h < length (s_tasks s)"
  shows "\<not> live (s_tasks (dispatch_stop_capture i cid s) ! h) \<and>
         d_captures (s_daemon (dispatch_stop_capture i cid s)) = d_captures (s_daemon s)"
  using assms by (auto simp: dispatch_stop_capture_def cancel_stream_def registry_cancel_def Let_def)

end
