(* ===== verification/Streams.thy ===== *)
theory Streams
  imports Rpc Session
begin

text \<open>
  The streaming calls of the daemon (\<^verbatim>\<open>daemon/src/daemon.rs\<close>): the diagnosis, the two event
  subscriptions and the socket watch. A stream yields the frames its client received and, when it
  is over, its outcome; \<open>None\<close> is a stream still waiting for input. Whether the client still takes
  the n-th frame of the stream is the argument \<open>accepts\<close>.
\<close>

section \<open>Diagnosis\<close>

datatype diagnose_frame = DF_Check check | DF_Response diagnose_response

text \<open>The forwarding task: it stops at the first check the client does not take.\<close>

fun forward_checks :: "(nat \<Rightarrow> bool) \<Rightarrow> check list \<Rightarrow> nat \<Rightarrow> diagnose_frame list \<times> nat" where
  "forward_checks accepts [] sent = ([], sent)"
| "forward_checks accepts (c # cs) sent =
     (if \<not> accepts sent then ([], sent)
      else let (frames, n) = forward_checks accepts cs (sent + 1) in (DF_Check c # frames, n))"

definition diagnose_stream ::
  "diagnose_env \<Rightarrow> diagnose_request \<Rightarrow> (nat \<Rightarrow> bool) \<Rightarrow> diagnose_frame list \<times> stream_outcome option" where
  "diagnose_stream env request accepts =
     (case run env request True of
        None \<Rightarrow> ([], None)
      | Some (response, emitted) \<Rightarrow>
          let (frames, checks_sent) = forward_checks accepts emitted 0
          in (frames @ (if accepts checks_sent then [DF_Response response] else []),
              Some (outcome_done ''diagnosis complete'' (checks_sent + 1))))"

section \<open>Event subscriptions\<close>

datatype bus_recv = BR_Event network_event | BR_Lagged nat | BR_Closed

definition lag_notice :: "int \<Rightarrow> nat \<Rightarrow> nat \<Rightarrow> network_event" where
  "lag_notice u m missed =
     default_event\<lparr>ne_source := ES_Daemon, ne_severity := severity_i32 EV_Warning,
       ne_summary := dec missed @ '' event(s) were dropped because this subscription could not keep up'',
       ne_unix_ms := u, ne_monotonic_ns := m\<rparr>"

definition disconnected :: "nat \<Rightarrow> stream_outcome" where
  "disconnected sent = outcome_done ''client disconnected'' sent"

definition bus_closed :: "nat \<Rightarrow> stream_outcome" where
  "bus_closed sent = outcome_done ''the event bus closed'' sent"

text \<open>The counters: frames the client has taken, and the items the outcome will report.\<close>

fun watch_network_loop ::
  "event_filter \<Rightarrow> (nat \<Rightarrow> bool) \<Rightarrow> (int \<times> nat \<times> bus_recv) list \<Rightarrow> nat \<Rightarrow> nat
   \<Rightarrow> network_event list \<times> stream_outcome option" where
  "watch_network_loop f accepts [] k sent = ([], None)"
| "watch_network_loop f accepts ((u, m, BR_Event event) # rs) k sent =
     (if \<not> matches_filter event f then watch_network_loop f accepts rs k sent
      else if \<not> accepts k then ([], Some (disconnected sent))
      else apfst ((#) event) (watch_network_loop f accepts rs (k + 1) (sent + 1)))"
| "watch_network_loop f accepts ((u, m, BR_Lagged missed) # rs) k sent =
     (if \<not> accepts k then ([], Some (disconnected sent))
      else apfst ((#) (lag_notice u m missed)) (watch_network_loop f accepts rs (k + 1) sent))"
| "watch_network_loop f accepts ((u, m, BR_Closed) # rs) k sent = ([], Some (bus_closed sent))"

definition replay_event :: "int \<times> nat \<Rightarrow> interface \<Rightarrow> network_event" where
  "replay_event clk interface =
     (let up = (case if_flags interface of Some fl \<Rightarrow> fl_up fl | None \<Rightarrow> False)
      in default_event\<lparr>ne_source := ES_Daemon, ne_severity := severity_i32 EV_Info,
           ne_summary := if_name interface @ '' is '' @ (if up then ''up'' else ''down'') @ '' (initial state)'',
           ne_unix_ms := fst clk, ne_monotonic_ns := snd clk,
           ne_payload := Some (PL_Link
             \<lparr>le_added = True, le_interface = Some interface, le_went_up = up, le_went_down = False,
              le_mtu_changed = False, le_previous_mtu = 0\<rparr>)\<rparr>)"

fun replay_loop ::
  "event_filter \<Rightarrow> (nat \<Rightarrow> bool) \<Rightarrow> ((int \<times> nat) \<times> interface) list \<Rightarrow> nat
   \<Rightarrow> network_event list \<times> (stream_outcome + nat)" where
  "replay_loop f accepts [] sent = ([], Inr sent)"
| "replay_loop f accepts ((clk, interface) # is) sent =
     (let event = replay_event clk interface
      in if \<not> matches_filter event f then replay_loop f accepts is sent
         else if \<not> accepts sent then ([], Inl (disconnected sent))
         else apfst ((#) event) (replay_loop f accepts is (sent + 1)))"

text \<open>The clocks are read once per interface; the argument gives the readings in order.\<close>

definition replay_state ::
  "device_env \<Rightarrow> (string \<Rightarrow> string) \<Rightarrow> (nat \<Rightarrow> int \<times> nat) \<Rightarrow> event_filter \<Rightarrow> (nat \<Rightarrow> bool) \<Rightarrow> nat
   \<Rightarrow> network_event list \<times> (stream_outcome + nat)" where
  "replay_state dv dbg clk f accepts sent =
     (case get_interfaces (dv_links dv) (dv_addrs dv) (dv_fs dv) False False of
        Inl e \<Rightarrow> ([], Inl (outcome_failed (error_from dbg e) sent))
      | Inr is \<Rightarrow> replay_loop f accepts (zip (map clk [0..<length is]) is) sent)"

record watch_network_request =
  wn_filter :: "event_filter option"
  wn_replay_initial_state :: bool

definition watch_network ::
  "device_env \<Rightarrow> (string \<Rightarrow> string) \<Rightarrow> (nat \<Rightarrow> int \<times> nat) \<Rightarrow> watch_network_request \<Rightarrow> (nat \<Rightarrow> bool)
   \<Rightarrow> (int \<times> nat \<times> bus_recv) list \<Rightarrow> network_event list \<times> stream_outcome option" where
  "watch_network dv dbg clk request accepts rs =
     (let f = (case wn_filter request of Some f \<Rightarrow> f | None \<Rightarrow> default_filter)
      in if wn_replay_initial_state request then
           (case replay_state dv dbg clk f accepts 0 of
              (frames, Inl outcome) \<Rightarrow> (frames, Some outcome)
            | (frames, Inr sent) \<Rightarrow> apfst ((@) frames) (watch_network_loop f accepts rs sent sent))
         else watch_network_loop f accepts rs 0 0)"

definition route_event_matches :: "network_event \<Rightarrow> ip_family \<Rightarrow> nat \<Rightarrow> bool" where
  "route_event_matches event family table =
     (case ne_payload event of
        Some (PL_Route e) \<Rightarrow>
          (case re_route e of
             None \<Rightarrow> True
           | Some route \<Rightarrow>
               if family \<noteq> Family_Unspecified \<and> rt_family route \<noteq> family then False
               else table = 0 \<or> rt_table route = table)
      | Some (PL_Rule e) \<Rightarrow>
          (case ue_rule e of
             None \<Rightarrow> True
           | Some rule \<Rightarrow>
               if family \<noteq> Family_Unspecified \<and> rl_family rule \<noteq> family then False
               else table = 0 \<or> rl_table rule = table)
      | _ \<Rightarrow> True)"

fun watch_routes_loop ::
  "event_filter \<Rightarrow> ip_family \<Rightarrow> nat \<Rightarrow> (nat \<Rightarrow> bool) \<Rightarrow> (int \<times> nat \<times> bus_recv) list \<Rightarrow> nat
   \<Rightarrow> network_event list \<times> stream_outcome option" where
  "watch_routes_loop f family table accepts [] sent = ([], None)"
| "watch_routes_loop f family table accepts ((u, m, BR_Event event) # rs) sent =
     (if \<not> matches_filter event f then watch_routes_loop f family table accepts rs sent
      else if \<not> route_event_matches event family table then watch_routes_loop f family table accepts rs sent
      else if \<not> accepts sent then ([], Some (disconnected sent))
      else apfst ((#) event) (watch_routes_loop f family table accepts rs (sent + 1)))"
| "watch_routes_loop f family table accepts ((u, m, BR_Lagged missed) # rs) sent =
     watch_routes_loop f family table accepts rs sent"
| "watch_routes_loop f family table accepts ((u, m, BR_Closed) # rs) sent = ([], Some (bus_closed sent))"

record watch_routes_request =
  wr_family :: int
  wr_table :: nat
  wr_include_rules :: bool

definition watch_routes ::
  "watch_routes_request \<Rightarrow> (nat \<Rightarrow> bool) \<Rightarrow> (int \<times> nat \<times> bus_recv) list
   \<Rightarrow> network_event list \<times> stream_outcome option" where
  "watch_routes request accepts rs =
     (let f = default_filter\<lparr>ef_routes := True, ef_rules := wr_include_rules request\<rparr>;
          family = (case ip_family_try_from (wr_family request) of Some fam \<Rightarrow> fam | None \<Rightarrow> Family_Unspecified)
      in watch_routes_loop f family (wr_table request) accepts rs 0)"

section \<open>The socket watch\<close>

definition DEFAULT_SOCKET_POLL_MS :: nat where "DEFAULT_SOCKET_POLL_MS = 2000"
definition MIN_SOCKET_POLL_MS :: nat where "MIN_SOCKET_POLL_MS = 250"
definition MAX_SOCKET_POLL_MS :: nat where "MAX_SOCKET_POLL_MS = 60000"

definition socket_poll_ms :: "nat \<Rightarrow> nat" where
  "socket_poll_ms requested =
     (if requested = 0 then DEFAULT_SOCKET_POLL_MS
      else max MIN_SOCKET_POLL_MS (min requested MAX_SOCKET_POLL_MS))"

fun show_tcp_state :: "tcp_state \<Rightarrow> string" where
  "show_tcp_state TS_Unspecified = ''Unspecified''"
| "show_tcp_state TS_Established = ''Established''"
| "show_tcp_state TS_SynSent = ''SynSent''"
| "show_tcp_state TS_SynRecv = ''SynRecv''"
| "show_tcp_state TS_FinWait1 = ''FinWait1''"
| "show_tcp_state TS_FinWait2 = ''FinWait2''"
| "show_tcp_state TS_TimeWait = ''TimeWait''"
| "show_tcp_state TS_Close = ''Close''"
| "show_tcp_state TS_CloseWait = ''CloseWait''"
| "show_tcp_state TS_LastAck = ''LastAck''"
| "show_tcp_state TS_Listen = ''Listen''"
| "show_tcp_state TS_Closing = ''Closing''"
| "show_tcp_state TS_NewSynRecv = ''NewSynRecv''"

definition socket_line :: "socket \<Rightarrow> string" where
  "socket_line s =
     (let shown = (\<lambda>a. case a of Some x \<Rightarrow> display x | None \<Rightarrow> []);
          mark = (if so_has_mark s then '' mark '' @ describe_mark (so_mark s) else [])
      in '': '' @ shown (so_local_address s) @ '':'' @ dec (so_local_port s) @ '' -> ''
         @ shown (so_remote_address s) @ '':'' @ dec (so_remote_port s) @ '' (uid '' @ dec (so_uid s) @ '')'' @ mark)"

definition socket_event_of ::
  "int \<times> nat \<Rightarrow> socket \<Rightarrow> tcp_state option \<Rightarrow> bool \<Rightarrow> bool \<Rightarrow> network_event" where
  "socket_event_of clk s previous_state appeared disappeared =
     (let state = so_state s;
          before = (case previous_state of Some st \<Rightarrow> st | None \<Rightarrow> TS_Unspecified);
          summary =
            (if disappeared then ''socket closed'' @ socket_line s
             else if appeared then ''socket '' @ show_tcp_state state @ socket_line s
             else ''socket '' @ show_tcp_state before @ '' -> '' @ show_tcp_state state @ socket_line s)
      in default_event\<lparr>ne_source := ES_Kernel,
           ne_severity := severity_i32 (if state = TS_SynSent then EV_Notice else EV_Debug),
           ne_summary := summary, ne_unix_ms := fst clk, ne_monotonic_ns := snd clk,
           ne_payload := Some (PL_Socket
             \<lparr>ke_socket = Some s, ke_previous_state = before, ke_appeared = appeared, ke_disappeared = disappeared\<rparr>)\<rparr>)"

text \<open>The identity of a socket: the kernel's cookie, or the inode when it has none.\<close>

definition socket_key :: "socket \<Rightarrow> nat" where
  "socket_key s = (if so_socket_cookie s \<noteq> 0 then so_socket_cookie s else so_inode s)"

type_synonym socket_map = "(nat \<times> socket) list"

definition current_sockets :: "socket list \<Rightarrow> socket_map" where
  "current_sockets ss = fold (\<lambda>s m. hm_insert (socket_key s) s m) ss []"

text \<open>
  Reporting over an iteration of the map: what the client received, and either the outcome that
  ends the stream or the new count of items. \<open>k\<close> counts the frames the client has taken.
\<close>

fun report_current ::
  "(nat \<Rightarrow> int \<times> nat) \<Rightarrow> (nat \<Rightarrow> bool) \<Rightarrow> socket_map \<Rightarrow> socket_map \<Rightarrow> nat \<Rightarrow> nat
   \<Rightarrow> network_event list \<times> (stream_outcome + nat)" where
  "report_current clk accepts previous [] k sent = ([], Inr sent)"
| "report_current clk accepts previous ((key, s) # es) k sent =
     (case map_of previous key of
        None \<Rightarrow>
          if \<not> accepts k then ([], Inl (disconnected sent))
          else apfst ((#) (socket_event_of (clk k) s None True False))
                 (report_current clk accepts previous es (k + 1) (sent + 1))
      | Some old \<Rightarrow>
          if so_state old \<noteq> so_state s then
            if \<not> accepts k then ([], Inl (disconnected sent))
            else apfst ((#) (socket_event_of (clk k) s (Some (so_state old)) False False))
                   (report_current clk accepts previous es (k + 1) (sent + 1))
          else report_current clk accepts previous es k sent)"

fun report_closed ::
  "(nat \<Rightarrow> int \<times> nat) \<Rightarrow> (nat \<Rightarrow> bool) \<Rightarrow> socket_map \<Rightarrow> socket_map \<Rightarrow> nat \<Rightarrow> nat
   \<Rightarrow> network_event list \<times> (stream_outcome + nat)" where
  "report_closed clk accepts current [] k sent = ([], Inr sent)"
| "report_closed clk accepts current ((key, s) # es) k sent =
     (if map_of current key = None then
        if \<not> accepts k then ([], Inl (disconnected sent))
        else apfst ((#) (socket_event_of (clk k) s None False True))
               (report_closed clk accepts current es (k + 1) sent)
      else report_closed clk accepts current es k sent)"

text \<open>
  One round of the loop: what the device answers, the order in which the two maps iterate (a
  hash map's order is not specified) and the clock readings by frame number.
\<close>

record socket_poll =
  po_device :: device_env
  po_current_order :: "socket_map \<Rightarrow> socket_map"
  po_previous_order :: "socket_map \<Rightarrow> socket_map"
  po_clock :: "nat \<Rightarrow> int \<times> nat"

definition report_pass ::
  "socket_poll \<Rightarrow> (nat \<Rightarrow> bool) \<Rightarrow> socket_map \<Rightarrow> socket_map \<Rightarrow> nat \<Rightarrow> nat
   \<Rightarrow> network_event list \<times> (stream_outcome + nat)" where
  "report_pass p accepts previous current k sent =
     (case report_current (po_clock p) accepts previous (po_current_order p current) k sent of
        (frames, Inl outcome) \<Rightarrow> (frames, Inl outcome)
      | (frames, Inr sent') \<Rightarrow>
          apfst ((@) frames)
            (report_closed (po_clock p) accepts current (po_previous_order p previous) (k + length frames) sent'))"

fun watch_sockets_loop ::
  "(string \<Rightarrow> string) \<Rightarrow> socket_filter \<Rightarrow> (nat \<Rightarrow> bool) \<Rightarrow> socket_poll list \<Rightarrow> socket_map \<Rightarrow> bool \<Rightarrow> nat \<Rightarrow> nat
   \<Rightarrow> network_event list \<times> stream_outcome option" where
  "watch_sockets_loop dbg f accepts [] previous first_pass k sent = ([], None)"
| "watch_sockets_loop dbg f accepts (p # ps) previous first_pass k sent =
     (case daemon_if_names (po_device p) dbg of
        Inl e \<Rightarrow> ([], Some (outcome_failed e sent))
      | Inr names \<Rightarrow>
     (case get_sockets (ke_diag (dv_kernel (po_device p))) f names of
        None \<Rightarrow> ([], None)
      | Some (Inl e) \<Rightarrow> ([], Some (outcome_failed (error_from dbg e) sent))
      | Some (Inr dump) \<Rightarrow>
          (let current = current_sockets (sd_sockets dump) in
           if first_pass then watch_sockets_loop dbg f accepts ps current False k sent
           else case report_pass p accepts previous current k sent of
                  (frames, Inl outcome) \<Rightarrow> (frames, Some outcome)
                | (frames, Inr sent') \<Rightarrow>
                    apfst ((@) frames)
                      (watch_sockets_loop dbg f accepts ps current False (k + length frames) sent'))))"

record watch_sockets_request =
  ws_filter :: "socket_filter option"
  ws_poll_ms :: nat

text \<open>The interval between two rounds, and the stream over the rounds.\<close>

definition watch_sockets ::
  "(string \<Rightarrow> string) \<Rightarrow> watch_sockets_request \<Rightarrow> (nat \<Rightarrow> bool) \<Rightarrow> socket_poll list
   \<Rightarrow> nat \<times> network_event list \<times> stream_outcome option" where
  "watch_sockets dbg request accepts polls =
     (socket_poll_ms (ws_poll_ms request),
      watch_sockets_loop dbg (case ws_filter request of Some f \<Rightarrow> f | None \<Rightarrow> any_socket) accepts polls [] True 0 0)"

section \<open>Delivery until the client leaves\<close>

text \<open>How many of the next \<open>n\<close> frames the client takes, from frame \<open>k\<close> on.\<close>

definition taken_of :: "(nat \<Rightarrow> bool) \<Rightarrow> nat \<Rightarrow> nat \<Rightarrow> nat" where
  "taken_of accepts k n = length (takeWhile accepts [k..<k + n])"

lemma taken_of_0 [simp]: "taken_of accepts k 0 = 0"
  by (simp add: taken_of_def)

lemma taken_of_Suc [simp]:
  "taken_of accepts k (Suc n) = (if accepts k then Suc (taken_of accepts (Suc k) n) else 0)"
proof -
  have "[k..<k + Suc n] = k # [Suc k..<Suc k + n]" by (simp add: upt_conv_Cons del: upt_Suc)
  then show ?thesis by (simp add: taken_of_def del: upt_Suc)
qed

lemma taken_of_le: "taken_of accepts k n \<le> n"
  using length_takeWhile_le [of accepts "[k..<k + n]"] by (simp add: taken_of_def)

lemma taken_of_all: "(\<And>i. accepts i) \<Longrightarrow> taken_of accepts k n = n"
  by (induction n arbitrary: k) simp_all

lemma taken_of_add:
  "taken_of accepts k (a + b) =
     (if taken_of accepts k a = a then a + taken_of accepts (k + a) b else taken_of accepts k a)"
  by (induction a arbitrary: k) (auto simp: less_Suc_eq_0_disj)

text \<open>The frames an input calls for, up to the end of the bus.\<close>

definition due_frames :: "('i \<Rightarrow> 'f option) \<Rightarrow> ('i \<Rightarrow> bool) \<Rightarrow> 'i list \<Rightarrow> 'f list" where
  "due_frames frame_of closes is = List.map_filter frame_of (takeWhile (\<lambda>i. \<not> closes i) is)"

locale delivery_loop =
  fixes loop :: "(nat \<Rightarrow> bool) \<Rightarrow> 'i list \<Rightarrow> 's \<Rightarrow> 'f list \<times> stream_outcome option"
    and frame_of :: "'i \<Rightarrow> 'f option"
    and closes :: "'i \<Rightarrow> bool"
    and taken :: "'s \<Rightarrow> nat"
    and items :: "'s \<Rightarrow> nat"
    and advance :: "'i \<Rightarrow> 's \<Rightarrow> 's"
  assumes waits: "loop accepts [] s = ([], None)"
    and closed: "closes i \<Longrightarrow> loop accepts (i # is) s = ([], Some (bus_closed (items s)))"
    and skipped: "\<not> closes i \<Longrightarrow> frame_of i = None \<Longrightarrow> loop accepts (i # is) s = loop accepts is s"
    and refused: "\<not> closes i \<Longrightarrow> frame_of i = Some f \<Longrightarrow> \<not> accepts (taken s) \<Longrightarrow>
      loop accepts (i # is) s = ([], Some (disconnected (items s)))"
    and delivered: "\<not> closes i \<Longrightarrow> frame_of i = Some f \<Longrightarrow> accepts (taken s) \<Longrightarrow>
      loop accepts (i # is) s = apfst ((#) f) (loop accepts is (advance i s))"
    and advances: "taken (advance i s) = Suc (taken s)"
begin

abbreviation due :: "'i list \<Rightarrow> 'f list" where
  "due \<equiv> due_frames frame_of closes"

lemma due_simps:
  "due [] = []" "closes i \<Longrightarrow> due (i # is) = []"
  "\<not> closes i \<Longrightarrow> frame_of i = None \<Longrightarrow> due (i # is) = due is"
  "\<not> closes i \<Longrightarrow> frame_of i = Some f \<Longrightarrow> due (i # is) = f # due is"
  by (simp_all add: due_frames_def List.map_filter_simps)

lemma frames: "fst (loop accepts is s) = take (taken_of accepts (taken s) (length (due is))) (due is)"
proof (induction "is" arbitrary: s)
  case Nil
  then show ?case by (simp add: waits due_simps)
next
  case (Cons i "is")
  show ?case
  proof (cases "closes i")
    case True
    then show ?thesis by (simp add: closed due_simps)
  next
    case open_bus: False
    show ?thesis
    proof (cases "frame_of i")
      case None
      with open_bus show ?thesis by (simp add: skipped due_simps Cons.IH)
    next
      case (Some f)
      with open_bus show ?thesis
        by (cases "accepts (taken s)") (simp_all add: refused delivered due_simps Cons.IH advances)
    qed
  qed
qed

lemma still_waiting:
  "snd (loop accepts is s) = None \<longleftrightarrow>
     \<not> list_ex closes is \<and> taken_of accepts (taken s) (length (due is)) = length (due is)"
proof (induction "is" arbitrary: s)
  case Nil
  then show ?case by (simp add: waits due_simps)
next
  case (Cons i "is")
  show ?case
  proof (cases "closes i")
    case True
    then show ?thesis by (simp add: closed)
  next
    case open_bus: False
    show ?thesis
    proof (cases "frame_of i")
      case None
      with open_bus show ?thesis by (simp add: skipped due_simps Cons.IH)
    next
      case (Some f)
      with open_bus show ?thesis
        by (cases "accepts (taken s)") (simp_all add: refused delivered due_simps Cons.IH advances)
    qed
  qed
qed

end

text \<open>What each received item puts on the wire.\<close>

fun network_frame :: "event_filter \<Rightarrow> int \<times> nat \<times> bus_recv \<Rightarrow> network_event option" where
  "network_frame f (u, m, BR_Event event) = (if matches_filter event f then Some event else None)"
| "network_frame f (u, m, BR_Lagged missed) = Some (lag_notice u m missed)"
| "network_frame f (u, m, BR_Closed) = None"

fun routes_frame :: "event_filter \<Rightarrow> ip_family \<Rightarrow> nat \<Rightarrow> int \<times> nat \<times> bus_recv \<Rightarrow> network_event option" where
  "routes_frame f family table (u, m, BR_Event event) =
     (if matches_filter event f \<and> route_event_matches event family table then Some event else None)"
| "routes_frame f family table (u, m, _) = None"

fun is_closed :: "int \<times> nat \<times> bus_recv \<Rightarrow> bool" where
  "is_closed (u, m, BR_Closed) = True"
| "is_closed (u, m, _) = False"

fun is_lag :: "int \<times> nat \<times> bus_recv \<Rightarrow> bool" where
  "is_lag (u, m, BR_Lagged missed) = True"
| "is_lag (u, m, _) = False"

lemma recv_cases:
  obtains u m event where "r = (u, m, BR_Event event)" | u m missed where "r = (u, m, BR_Lagged missed)"
  | u m where "r = (u, m, BR_Closed)"
  by (metis bus_recv.exhaust prod_cases3)

interpretation network_loop: delivery_loop
  "\<lambda>accepts rs (k, sent). watch_network_loop f accepts rs k sent" "network_frame f" is_closed fst snd
  "\<lambda>r (k, sent). (Suc k, if is_lag r then sent else Suc sent)"
proof
  fix r :: "int \<times> nat \<times> bus_recv" and rs accepts and s :: "nat \<times> nat" and fr
  obtain k sent where s: "s = (k, sent)" by (cases s)
  show "(case s of (k, sent) \<Rightarrow> watch_network_loop f accepts [] k sent) = ([], None)" by (simp add: s)
  show "is_closed r \<Longrightarrow> (case s of (k, sent) \<Rightarrow> watch_network_loop f accepts (r # rs) k sent) =
      ([], Some (bus_closed (snd s)))"
    by (cases r rule: recv_cases) (simp_all add: s)
  show "\<not> is_closed r \<Longrightarrow> network_frame f r = None \<Longrightarrow>
      (case s of (k, sent) \<Rightarrow> watch_network_loop f accepts (r # rs) k sent) =
      (case s of (k, sent) \<Rightarrow> watch_network_loop f accepts rs k sent)"
    by (cases r rule: recv_cases) (auto simp: s split: if_splits)
  show "\<not> is_closed r \<Longrightarrow> network_frame f r = Some fr \<Longrightarrow> \<not> accepts (fst s) \<Longrightarrow>
      (case s of (k, sent) \<Rightarrow> watch_network_loop f accepts (r # rs) k sent) = ([], Some (disconnected (snd s)))"
    by (cases r rule: recv_cases) (auto simp: s split: if_splits)
  show "\<not> is_closed r \<Longrightarrow> network_frame f r = Some fr \<Longrightarrow> accepts (fst s) \<Longrightarrow>
      (case s of (k, sent) \<Rightarrow> watch_network_loop f accepts (r # rs) k sent) =
      apfst ((#) fr) (case (case s of (k, sent) \<Rightarrow> (Suc k, if is_lag r then sent else Suc sent)) of
        (k, sent) \<Rightarrow> watch_network_loop f accepts rs k sent)"
    by (cases r rule: recv_cases) (auto simp: s split: if_splits)
  show "fst (case s of (k, sent) \<Rightarrow> (Suc k, if is_lag r then sent else Suc sent)) = Suc (fst s)"
    by (simp add: s)
qed

interpretation routes_loop: delivery_loop
  "watch_routes_loop f family table" "routes_frame f family table" is_closed id id "\<lambda>r sent. Suc sent"
proof
  fix r :: "int \<times> nat \<times> bus_recv" and rs accepts and sent :: nat and fr
  show "watch_routes_loop f family table accepts [] sent = ([], None)" by simp
  show "is_closed r \<Longrightarrow> watch_routes_loop f family table accepts (r # rs) sent = ([], Some (bus_closed (id sent)))"
    by (cases r rule: recv_cases) simp_all
  show "\<not> is_closed r \<Longrightarrow> routes_frame f family table r = None \<Longrightarrow>
      watch_routes_loop f family table accepts (r # rs) sent = watch_routes_loop f family table accepts rs sent"
    by (cases r rule: recv_cases) (auto split: if_splits)
  show "\<not> is_closed r \<Longrightarrow> routes_frame f family table r = Some fr \<Longrightarrow> \<not> accepts (id sent) \<Longrightarrow>
      watch_routes_loop f family table accepts (r # rs) sent = ([], Some (disconnected (id sent)))"
    by (cases r rule: recv_cases) (auto split: if_splits)
  show "\<not> is_closed r \<Longrightarrow> routes_frame f family table r = Some fr \<Longrightarrow> accepts (id sent) \<Longrightarrow>
      watch_routes_loop f family table accepts (r # rs) sent =
      apfst ((#) fr) (watch_routes_loop f family table accepts rs (Suc sent))"
    by (cases r rule: recv_cases) (auto split: if_splits)
  show "id (Suc sent) = Suc (id sent)" by simp
qed

definition replay_events :: "event_filter \<Rightarrow> ((int \<times> nat) \<times> interface) list \<Rightarrow> network_event list" where
  "replay_events f cs = filter (\<lambda>e. matches_filter e f) (map (\<lambda>(clk, i). replay_event clk i) cs)"

lemma replay_loop_frames:
  "replay_loop f accepts cs sent =
    (let n = taken_of accepts sent (length (replay_events f cs))
     in (take n (replay_events f cs),
         if n = length (replay_events f cs) then Inr (sent + n) else Inl (disconnected (sent + n))))"
  by (induction f accepts cs sent rule: replay_loop.induct) (auto simp: Let_def replay_events_def)

text \<open>The timeline a subscription owes its client: the initial state, then what the bus carries.\<close>

definition replay_due :: "device_env \<Rightarrow> (nat \<Rightarrow> int \<times> nat) \<Rightarrow> event_filter \<Rightarrow> network_event list" where
  "replay_due dv clk f =
     (case get_interfaces (dv_links dv) (dv_addrs dv) (dv_fs dv) False False of
        Inl _ \<Rightarrow> []
      | Inr is \<Rightarrow> replay_events f (zip (map clk [0..<length is]) is))"

definition network_timeline ::
  "device_env \<Rightarrow> (nat \<Rightarrow> int \<times> nat) \<Rightarrow> watch_network_request \<Rightarrow> (int \<times> nat \<times> bus_recv) list \<Rightarrow> network_event list" where
  "network_timeline dv clk request rs =
     (let f = (case wn_filter request of Some f \<Rightarrow> f | None \<Rightarrow> default_filter)
      in (if wn_replay_initial_state request then replay_due dv clk f else [])
         @ due_frames (network_frame f) is_closed rs)"

lemma watch_network_frames:
  assumes "links_readable dv"
  shows "fst (watch_network dv dbg clk request accepts rs) =
         take (taken_of accepts 0 (length (network_timeline dv clk request rs))) (network_timeline dv clk request rs)"
proof -
  define f where "f = (case wn_filter request of Some f \<Rightarrow> f | None \<Rightarrow> default_filter)"
  have loop: "fst (watch_network_loop f accepts rs k sent) =
      take (taken_of accepts k (length (due_frames (network_frame f) is_closed rs)))
        (due_frames (network_frame f) is_closed rs)" for k sent
    using network_loop.frames [of f accepts rs "(k, sent)"] by simp
  obtain ifs where ifs: "get_interfaces (dv_links dv) (dv_addrs dv) (dv_fs dv) False False = Inr ifs"
    using assms by (auto simp: links_readable_def)
  show ?thesis
  proof (cases "wn_replay_initial_state request")
    case False
    then show ?thesis
      by (simp add: watch_network_def network_timeline_def loop flip: f_def)
  next
    case True
    let ?rep = "replay_due dv clk f"
    have rep: "replay_state dv dbg clk f accepts 0 =
        (let n = taken_of accepts 0 (length ?rep)
         in (take n ?rep, if n = length ?rep then Inr n else Inl (disconnected n)))"
      by (simp add: replay_state_def replay_due_def ifs replay_loop_frames Let_def)
    show ?thesis
      using True taken_of_le [of accepts 0 "length ?rep"]
      by (auto simp: watch_network_def network_timeline_def rep Let_def loop taken_of_add take_add simp flip: f_def)
  qed
qed

lemma routes_frame_filter:
  "list_all (\<lambda>r. \<not> is_lag r) rs \<Longrightarrow>
     due_frames (routes_frame f family table) is_closed rs =
     filter (\<lambda>e. route_event_matches e family table) (due_frames (network_frame f) is_closed rs)"
proof (induction rs)
  case (Cons r rs)
  then show ?case
    by (cases r rule: recv_cases) (auto simp: due_frames_def List.map_filter_simps)
qed (simp add: due_frames_def List.map_filter_simps)

section \<open>Replaying socket events\<close>

text \<open>What a client that follows the events believes: the state of each socket, by its key.\<close>

type_synonym socket_view = "nat \<rightharpoonup> tcp_state"

definition view_of :: "socket_map \<Rightarrow> socket_view" where
  "view_of m = map_option so_state \<circ> map_of m"

definition apply_socket_event :: "network_event \<Rightarrow> socket_view \<Rightarrow> socket_view" where
  "apply_socket_event event v =
     (case ne_payload event of
        Some (PL_Socket e) \<Rightarrow>
          (case ke_socket e of
             Some s \<Rightarrow> v(socket_key s := (if ke_disappeared e then None else Some (so_state s)))
           | None \<Rightarrow> v)
      | _ \<Rightarrow> v)"

lemma apply_socket_event_of [simp]:
  "apply_socket_event (socket_event_of clk s p a d) v = v(socket_key s := (if d then None else Some (so_state s)))"
  by (simp add: apply_socket_event_def socket_event_of_def Let_def)

definition keyed :: "socket_map \<Rightarrow> bool" where
  "keyed m = (hm_wf m \<and> list_all (\<lambda>(k, s). socket_key s = k) m)"

lemma keyed_insert: "keyed m \<Longrightarrow> keyed (hm_insert (socket_key s) s m)"
  using hm.wf_insert [of m "socket_key s" s] by (auto simp: keyed_def hm_insert_def list_all_iff)

lemma keyed_current: "keyed (current_sockets ss)"
proof -
  have "keyed m \<Longrightarrow> keyed (fold (\<lambda>s m. hm_insert (socket_key s) s m) ss m)" for m
    by (induction ss arbitrary: m) (simp_all add: keyed_insert)
  then show ?thesis by (simp add: current_sockets_def keyed_def hm_wf_def)
qed

text \<open>Any order of iteration visits each entry once.\<close>

definition iterates :: "(socket_map \<Rightarrow> socket_map) \<Rightarrow> bool" where
  "iterates order = (\<forall>m. mset (order m) = mset m)"

lemma iterates_keyed:
  assumes "iterates order" and "keyed m"
  shows "keyed (order m)" and "map_of (order m) = map_of m"
proof -
  have ms: "mset (order m) = mset m" using assms(1) by (simp add: iterates_def)
  then have s: "set (order m) = set m" by (rule mset_eq_setD)
  have "mset (map fst (order m)) = mset (map fst m)" using ms by simp
  from mset_eq_imp_distinct_iff [OF this] assms(2)
  have d: "distinct (map fst (order m))" "distinct (map fst m)" by (simp_all add: keyed_def hm_wf_def)
  with s assms(2) show "keyed (order m)" by (simp add: keyed_def hm_wf_def list_all_iff)
  show "map_of (order m) = map_of m" using d s by (simp add: map_of_inject_set)
qed

lemma report_current_replay:
  assumes "keyed es" and "\<And>x. x \<in> fst ` set es \<Longrightarrow> v x = view_of previous x"
  shows "\<exists>frames. report_current clk (\<lambda>_. True) previous es k sent = (frames, Inr (sent + length frames)) \<and>
           fold apply_socket_event frames v = v ++ view_of es"
  using assms
proof (induction es arbitrary: k sent v)
  case Nil
  then show ?case by (simp add: view_of_def map_add_def comp_def)
next
  case (Cons e es)
  obtain key s where e: "e = (key, s)" by (cases e)
  have key: "socket_key s = key" and es: "keyed es" and fresh: "key \<notin> fst ` set es"
    using Cons.prems(1) by (auto simp: e keyed_def hm_wf_def)
  have same: "v x = view_of previous x" if "x = key \<or> x \<in> fst ` set es" for x
    using Cons.prems(2) that by (auto simp: e)
  have view: "(v(key \<mapsto> so_state s)) ++ view_of es = v ++ view_of (e # es)"
  proof -
    have "map_of es key = None" using fresh by (simp add: map_of_eq_None_iff)
    then show ?thesis by (auto simp: fun_eq_iff map_add_def view_of_def e split: option.split)
  qed
  show ?case
  proof (cases "view_of previous key = Some (so_state s)")
    case True
    then obtain old where old: "map_of previous key = Some old" "so_state old = so_state s"
      by (auto simp: view_of_def)
    have "v(key \<mapsto> so_state s) = v" using same [of key] True by auto
    with Cons.IH [OF es, of v k sent] same old view show ?thesis by (auto simp: e)
  next
    case False
    then have "report_current clk (\<lambda>_. True) previous (e # es) k sent =
        apfst ((#) (socket_event_of (clk k) s (map_option so_state (map_of previous key))
            (map_of previous key = None) False))
          (report_current clk (\<lambda>_. True) previous es (Suc k) (Suc sent))"
      by (auto simp: e view_of_def split: option.splits)
    moreover obtain frames where "report_current clk (\<lambda>_. True) previous es (Suc k) (Suc sent) =
        (frames, Inr (Suc sent + length frames))"
        "fold apply_socket_event frames (v(key \<mapsto> so_state s)) = v(key \<mapsto> so_state s) ++ view_of es"
    proof -
      have "(v(key \<mapsto> so_state s)) x = view_of previous x" if "x \<in> fst ` set es" for x
        using same that fresh by auto
      from Cons.IH [OF es this, of "Suc k" "Suc sent"] show thesis using that by blast
    qed
    ultimately show ?thesis by (simp add: key view)
  qed
qed

lemma report_closed_replay:
  assumes "keyed es"
  shows "\<exists>frames. report_closed clk (\<lambda>_. True) current es k sent = (frames, Inr sent) \<and>
           fold apply_socket_event frames v =
             (\<lambda>x. if x \<in> fst ` set es \<and> map_of current x = None then None else v x)"
  using assms
proof (induction es arbitrary: k v)
  case (Cons e es)
  obtain key s where e: "e = (key, s)" by (cases e)
  have key: "socket_key s = key" and es: "keyed es" using Cons.prems by (auto simp: e keyed_def hm_wf_def)
  show ?case
  proof (cases "map_of current key")
    case None
    obtain frames where "report_closed clk (\<lambda>_. True) current es (Suc k) sent = (frames, Inr sent)"
        "fold apply_socket_event frames (v(key := None)) =
           (\<lambda>x. if x \<in> fst ` set es \<and> map_of current x = None then None else (v(key := None)) x)"
      using Cons.IH [OF es, of "Suc k" "v(key := None)"] by blast
    with None show ?thesis by (auto simp: e key fun_eq_iff)
  next
    case (Some s')
    with Cons.IH [OF es, of k v] show ?thesis by (auto simp: e fun_eq_iff)
  qed
qed simp

lemma report_pass_replay:
  assumes "iterates (po_current_order p)" and "iterates (po_previous_order p)"
    and "keyed previous" and "keyed current"
  shows "\<exists>frames sent'. report_pass p (\<lambda>_. True) previous current k sent = (frames, Inr sent') \<and>
           fold apply_socket_event frames (view_of previous) = view_of current"
proof -
  let ?es = "po_current_order p current" and ?ps = "po_previous_order p previous"
  note cur = iterates_keyed [OF assms(1,4)] and prev = iterates_keyed [OF assms(2,3)]
  obtain fs1 where r1: "report_current (po_clock p) (\<lambda>_. True) previous ?es k sent = (fs1, Inr (sent + length fs1))"
    and v1: "fold apply_socket_event fs1 (view_of previous) = view_of previous ++ view_of ?es"
    using report_current_replay [OF cur(1), of "view_of previous" previous] by blast
  obtain fs2 where r2: "report_closed (po_clock p) (\<lambda>_. True) current ?ps (k + length fs1) (sent + length fs1) =
      (fs2, Inr (sent + length fs1))"
    and v2: "fold apply_socket_event fs2 (view_of previous ++ view_of ?es) =
      (\<lambda>x. if x \<in> fst ` set ?ps \<and> map_of current x = None then None else (view_of previous ++ view_of ?es) x)"
    using report_closed_replay [OF prev(1)] by blast
  have mem: "x \<in> fst ` set ?ps \<longleftrightarrow> map_of previous x \<noteq> None" for x
    by (metis prev(2) map_of_eq_None_iff)
  have "fold apply_socket_event (fs1 @ fs2) (view_of previous) = view_of current"
    unfolding fold_append comp_apply v1 v2
    by (auto simp: mem fun_eq_iff view_of_def map_add_def cur(2) split: option.splits)
  moreover have "report_pass p (\<lambda>_. True) previous current k sent = (fs1 @ fs2, Inr (sent + length fs1))"
    by (simp add: report_pass_def r1 r2)
  ultimately show ?thesis by blast
qed

text \<open>A round in which the device answers, and the sockets it answers with.\<close>

definition poll_sockets :: "(string \<Rightarrow> string) \<Rightarrow> socket_filter \<Rightarrow> socket_poll \<Rightarrow> socket list option" where
  "poll_sockets dbg f p =
     (case daemon_if_names (po_device p) dbg of
        Inl e \<Rightarrow> None
      | Inr names \<Rightarrow>
          (case get_sockets (ke_diag (dv_kernel (po_device p))) f names of
             Some (Inr dump) \<Rightarrow> Some (sd_sockets dump)
           | _ \<Rightarrow> None))"

definition poll_ok :: "(string \<Rightarrow> string) \<Rightarrow> socket_filter \<Rightarrow> socket_poll \<Rightarrow> bool" where
  "poll_ok dbg f p =
     (poll_sockets dbg f p \<noteq> None \<and> iterates (po_current_order p) \<and> iterates (po_previous_order p))"

definition poll_view :: "(string \<Rightarrow> string) \<Rightarrow> socket_filter \<Rightarrow> socket_poll \<Rightarrow> socket_view" where
  "poll_view dbg f p = view_of (current_sockets (case poll_sockets dbg f p of Some ss \<Rightarrow> ss | None \<Rightarrow> []))"

lemma watch_sockets_step:
  assumes "poll_sockets dbg f p = Some ss"
  shows "watch_sockets_loop dbg f accepts (p # ps) previous first_pass k sent =
     (let current = current_sockets ss in
      if first_pass then watch_sockets_loop dbg f accepts ps current False k sent
      else case report_pass p accepts previous current k sent of
             (frames, Inl outcome) \<Rightarrow> (frames, Some outcome)
           | (frames, Inr sent') \<Rightarrow>
               apfst ((@) frames) (watch_sockets_loop dbg f accepts ps current False (k + length frames) sent'))"
  using assms by (auto simp: poll_sockets_def split: sum.splits option.splits)

lemma watch_sockets_replay:
  assumes "list_all (poll_ok dbg f) ps" and "keyed previous"
  shows "\<exists>frames. watch_sockets_loop dbg f (\<lambda>_. True) ps previous False k sent = (frames, None) \<and>
           fold apply_socket_event frames (view_of previous) =
             (if ps = [] then view_of previous else poll_view dbg f (last ps))"
  using assms
proof (induction ps arbitrary: previous k sent)
  case (Cons p ps)
  then obtain ss where ss: "poll_sockets dbg f p = Some ss"
    and it: "iterates (po_current_order p)" "iterates (po_previous_order p)"
    unfolding list.pred_inject poll_ok_def by blast
  have ok: "list_all (poll_ok dbg f) ps" using Cons.prems(1) by simp
  obtain fs1 sent' where p1: "report_pass p (\<lambda>_. True) previous (current_sockets ss) k sent = (fs1, Inr sent')"
    "fold apply_socket_event fs1 (view_of previous) = view_of (current_sockets ss)"
    using report_pass_replay [OF it Cons.prems(2) keyed_current] by blast
  obtain fs2 where p2: "watch_sockets_loop dbg f (\<lambda>_. True) ps (current_sockets ss) False (k + length fs1) sent' = (fs2, None)"
    "fold apply_socket_event fs2 (view_of (current_sockets ss)) =
       (if ps = [] then view_of (current_sockets ss) else poll_view dbg f (last ps))"
    using Cons.IH [OF ok keyed_current] by blast
  have "watch_sockets_loop dbg f (\<lambda>_. True) (p # ps) previous False k sent = (fs1 @ fs2, None)"
    by (simp add: watch_sockets_step [OF ss] p1 p2 Let_def del: watch_sockets_loop.simps)
  with p1(2) p2(2) show ?case by (simp add: poll_view_def ss)
qed simp

section \<open>Forwarded checks\<close>

text \<open>The depth of the channel between the diagnosis and the forwarding task.\<close>

definition PROGRESS_DEPTH :: nat where "PROGRESS_DEPTH = 64"

lemma forward_all: "forward_checks (\<lambda>_. True) cs n = (map DF_Check cs, n + length cs)"
  by (induction cs arbitrary: n) simp_all

lemma run_emits:
  assumes "gather env request \<noteq> None"
  shows "\<exists>resp. run env request True = Some (resp, rp_checks resp) \<and> length (rp_checks resp) \<le> length CHECK_ORDER"
proof -
  obtain g where g: "gather env request = Some g" using assms by auto
  show ?thesis
  proof (cases g)
    case (Inl e)
    with g show ?thesis by (simp add: run_cases Let_def finish_def CHECK_ORDER_def)
  next
    case (Inr state)
    obtain cs where cs: "run_steps request (all_steps env state request) [] = Some cs"
      "map ck_id cs = filter (wanted request) CHECK_ORDER"
      by (rule run_checks)
    have "length cs = length (filter (wanted request) CHECK_ORDER)" using arg_cong [OF cs(2), of length] by simp
    also have "\<dots> \<le> length CHECK_ORDER" by (rule length_filter_le)
    finally show ?thesis using g Inr cs(1) by (simp add: run_cases Let_def finish_def)
  qed
qed

section \<open>Properties\<close>

text \<open>
  A diagnosis is streamed whole. When the kernel state can be gathered and the client stays,
  it receives every check of the report as a frame of its own, in the order of the report, and
  then the report; the outcome counts exactly these frames; and the checks never overrun the
  channel they pass through.
\<close>

lemma diagnosis_streamed:
  assumes "gather env request \<noteq> None"
  shows "\<exists>resp. run env request False = Some (resp, []) \<and>
           diagnose_stream env request (\<lambda>_. True) =
             (map DF_Check (rp_checks resp) @ [DF_Response resp],
              Some (outcome_done ''diagnosis complete'' (length (rp_checks resp) + 1))) \<and>
           length (rp_checks resp) \<le> PROGRESS_DEPTH"
proof -
  obtain resp where r: "run env request True = Some (resp, rp_checks resp)"
    "length (rp_checks resp) \<le> length CHECK_ORDER" using run_emits [OF assms] by blast
  have "run env request False = Some (resp, [])"
    using r(1) by (auto simp: run_cases Let_def split: option.splits sum.splits)
  moreover have "length CHECK_ORDER \<le> PROGRESS_DEPTH"
    by (simp add: CHECK_ORDER_def PROBE_IDS_def PROGRESS_DEPTH_def)
  ultimately show ?thesis using r by (auto simp: diagnose_stream_def forward_all)
qed

text \<open>
  With gaps in the bus, where the code sends a notice and goes on: what the client receives is a prefix of the
  timeline with a notice for each gap, cut where the client stops taking frames.
\<close>

lemma watch_timeline_with_gaps:
  assumes "links_readable dv"
  shows "fst (watch_network dv dbg clk request accepts rs) =
         take (taken_of accepts 0 (length (network_timeline dv clk request rs))) (network_timeline dv clk request rs)"
  by (rule watch_network_frames [OF assms])

definition bus_of :: "(int \<times> nat \<times> network_event) list \<Rightarrow> bool \<Rightarrow> (int \<times> nat \<times> bus_recv) list" where
  "bus_of es closed = map (\<lambda>(u, m, e). (u, m, BR_Event e)) es @ (if closed then [(0, 0, BR_Closed)] else [])"

lemma taken_of_first: "taken_of (\<lambda>n. n < N) k n = min n (N - k)"
  by (induction n arbitrary: k) (auto simp: min_def)

lemma watch_network_loop_events:
  "k \<le> N \<Longrightarrow> watch_network_loop f (\<lambda>n. n < N) (bus_of es closed) k k =
     (let due = filter (\<lambda>e. matches_filter e f) (map (\<lambda>(_, _, e). e) es)
      in (take (N - k) due,
          if N < k + length due then Some (disconnected N)
          else if closed then Some (bus_closed (k + length due)) else None))"
proof (induction es arbitrary: k)
  case Nil
  then show ?case by (simp add: bus_of_def)
next
  case (Cons r es)
  obtain u m e where r: "r = (u, m, e)" by (cases r)
  have b: "bus_of (r # es) closed = (u, m, BR_Event e) # bus_of es closed" by (simp add: bus_of_def r)
  show ?case
  proof (cases "matches_filter e f \<and> k < N")
    case True
    then have "Suc k \<le> N" by simp
    from Cons.IH [OF this] True show ?thesis unfolding b by (simp add: r Let_def take_Cons' Suc_diff_Suc)
  next
    case False
    with Cons.IH [OF Cons.prems] Cons.prems show ?thesis unfolding b by (auto simp: r Let_def)
  qed
qed

text \<open>
  C21: what an event subscription delivers while it keeps up with the bus. The timeline owed to it is the
  initial state of every interface when asked for and then the events of the bus, of all of which only those that
  match the filter. A client that takes \<open>N\<close> frames receives the first \<open>N\<close> of the timeline, so nothing is
  skipped, repeated or reordered; when more were owed the outcome says that the client disconnected after \<open>N\<close>,
  otherwise the stream ends with the bus, counting the whole timeline, or goes on waiting.
\<close>

theorem watch_timeline:
  fixes request :: watch_network_request and clk :: "nat \<Rightarrow> int \<times> nat" and es :: "(int \<times> nat \<times> network_event) list"
  assumes "get_interfaces (dv_links dv) (dv_addrs dv) (dv_fs dv) False False = Inr is"
  defines "f \<equiv> case wn_filter request of Some f \<Rightarrow> f | None \<Rightarrow> default_filter"
    and "initial \<equiv> if wn_replay_initial_state request
      then map (\<lambda>(now, i). replay_event now i) (zip (map clk [0..<length is]) is) else []"
  defines "timeline \<equiv> filter (\<lambda>e. matches_filter e f) (initial @ map (\<lambda>(_, _, e). e) es)"
  shows "watch_network dv dbg clk request (\<lambda>n. n < N) (bus_of es closed) =
    (take N timeline,
     if N < length timeline then Some (disconnected N)
     else if closed then Some (bus_closed (length timeline)) else None)"
proof -
  let ?due = "filter (\<lambda>e. matches_filter e f) (map (\<lambda>(_, _, e). e) es)"
  let ?init = "filter (\<lambda>e. matches_filter e f) initial"
  have t: "timeline = ?init @ ?due" by (simp add: timeline_def)
  show ?thesis
  proof (cases "wn_replay_initial_state request")
    case False
    then have "?init = []" by (simp add: initial_def)
    with False watch_network_loop_events [of 0 N f es closed] show ?thesis
      by (simp add: watch_network_def t Let_def flip: f_def)
  next
    case True
    have i: "replay_events f (zip (map clk [0..<length is]) is) = ?init"
      by (simp add: replay_events_def initial_def True)
    have r: "replay_state dv dbg clk f (\<lambda>n. n < N) 0 =
        (take N ?init, if length ?init \<le> N then Inr (length ?init) else Inl (disconnected N))"
      by (simp add: replay_state_def assms(1) replay_loop_frames i taken_of_first Let_def min_def)
    show ?thesis
    proof (cases "length ?init \<le> N")
      case fits: True
      then show ?thesis using True watch_network_loop_events [OF fits, of f es closed]
        by (simp add: watch_network_def r t Let_def flip: f_def)
    next
      case False
      then show ?thesis using True by (simp add: watch_network_def r t Let_def flip: f_def)
    qed
  qed
qed

theorem watch_timeline_witness:
  "watch_network bare_device (\<lambda>e. e) (\<lambda>_. (0, 0)) \<lparr>wn_filter = None, wn_replay_initial_state = True\<rparr>
       (\<lambda>n. n < 1) (bus_of [(0, 0, default_event), (0, 0, default_event)] True)
   = ([default_event], Some (disconnected 1))"
proof -
  have m: "matches_filter default_event default_filter"
    by (simp add: matches_filter_def default_event_def default_filter_def)
  show ?thesis
    using watch_timeline [OF bare_interfaces, of "\<lambda>e. e" "\<lambda>_. (0, 0)" "\<lparr>wn_filter = None, wn_replay_initial_state = True\<rparr>"
        1 "[(0, 0, default_event), (0, 0, default_event)]" True] m by simp
qed

text \<open>
  Watching routes is watching the network with a preset filter. As long as the subscription
  keeps up, a client of \<open>WatchRoutes\<close> receives exactly the events a client of \<open>WatchNetwork\<close> with
  routes (and rules, if included) selected receives, narrowed to the family and the table of the
  request.
\<close>

lemma watch_routes_filtered:
  assumes "list_all (\<lambda>r. \<not> is_lag r) rs"
  shows "fst (watch_routes request (\<lambda>_. True) rs) =
    filter (\<lambda>e. route_event_matches e
        (case ip_family_try_from (wr_family request) of Some fam \<Rightarrow> fam | None \<Rightarrow> Family_Unspecified) (wr_table request))
      (fst (watch_network dv dbg clk
        \<lparr>wn_filter = Some (default_filter\<lparr>ef_routes := True, ef_rules := wr_include_rules request\<rparr>),
         wn_replay_initial_state = False\<rparr> (\<lambda>_. True) rs))"
  using routes_loop.frames [of _ _ _ "\<lambda>_. True" rs 0] network_loop.frames [of _ "\<lambda>_. True" rs "(0, 0)"]
  by (simp add: watch_routes_def watch_network_def Let_def taken_of_all routes_frame_filter [OF assms])

text \<open>
  C6: following the socket events tells the truth about the sockets. Over any number of rounds in
  which the device answers, whatever order the hash maps iterate in, a client that starts from
  the sockets of the first round and applies each event it receives (an appearance or a change
  sets the state under the socket's key, a disappearance removes it) ends with exactly the sockets
  and states of the last round; the stream goes on; and the rounds are between a quarter of a
  second and a minute apart.
\<close>

theorem socket_events_replay:
  assumes "list_all (poll_ok dbg f) (p # ps)"
  shows "\<exists>ms frames. watch_sockets dbg \<lparr>ws_filter = Some f, ws_poll_ms = poll\<rparr> (\<lambda>_. True) (p # ps) = (ms, frames, None) \<and>
           250 \<le> ms \<and> ms \<le> 60000 \<and>
           fold apply_socket_event frames (poll_view dbg f p) = poll_view dbg f (last (p # ps))"
proof -
  obtain ss where ss: "poll_sockets dbg f p = Some ss"
    using assms unfolding list.pred_inject poll_ok_def by blast
  have "list_all (poll_ok dbg f) ps" using assms by simp
  from watch_sockets_replay [OF this keyed_current, of ss 0 0]
  obtain frames where "watch_sockets_loop dbg f (\<lambda>_. True) ps (current_sockets ss) False 0 0 = (frames, None)"
    "fold apply_socket_event frames (view_of (current_sockets ss)) =
       (if ps = [] then view_of (current_sockets ss) else poll_view dbg f (last ps))" by blast
  moreover have "250 \<le> socket_poll_ms poll \<and> socket_poll_ms poll \<le> 60000"
    by (simp add: socket_poll_ms_def DEFAULT_SOCKET_POLL_MS_def MIN_SOCKET_POLL_MS_def MAX_SOCKET_POLL_MS_def)
  ultimately show ?thesis
    by (simp add: watch_sockets_def watch_sockets_step [OF ss] Let_def poll_view_def ss del: watch_sockets_loop.simps)
qed

definition demo_poll :: "bytes \<Rightarrow> socket_poll" where
  "demo_poll rows = \<lparr>po_device = bare_device\<lparr>dv_kernel := demo_kernel rows\<rparr>, po_current_order = rev,
     po_previous_order = (\<lambda>m. m), po_clock = (\<lambda>_. (0, 0))\<rparr>"

lemma demo_poll_states:
  assumes rows: "(rows, states) \<in> {([], []), ([1], [TS_SynSent])}"
  shows "map_option (map so_state) (poll_sockets (\<lambda>e. e) any_socket (demo_poll rows)) = Some states"
proof -
  let ?env = "ke_diag (demo_kernel rows)"
  have dump: "diag_dump ?env fam proto any_socket =
      Some (Inr (if proto = IPPROTO_TCP \<and> fam = AF_INET then map (\<lambda>_. demo_syn) states else []))" for fam proto
  proof -
    consider "rows = []" "states = []" | "rows = [1]" "states = [TS_SynSent]" using rows by blast
    then show ?thesis
      by cases (simp_all add: diag_dump_def demo_kernel_def dump_request_def parse_datagram.simps)
  qed
  have order: "dump_order any_socket =
      [(IPPROTO_TCP, AF_INET), (IPPROTO_TCP, AF_INET6), (IPPROTO_UDP, AF_INET), (IPPROTO_UDP, AF_INET6)]"
    by (simp add: dump_order_def wanted_protocols_def wanted_families_def any_socket_def)
  obtain s where s: "response_to_proto demo_syn IPPROTO_TCP Map.empty = Some s" "so_state s = TS_SynSent"
    by (auto simp: response_to_proto_def demo_syn_def demo_row_def tcp_state_to_proto_def)
  have pass: "passes_filter x any_socket" for x by (simp add: passes_filter_def any_socket_def)
  have neq: "IPPROTO_UDP \<noteq> IPPROTO_TCP" "AF_INET6 \<noteq> AF_INET"
    by (simp_all add: IPPROTO_UDP_def IPPROTO_TCP_def AF_INET6_def AF_INET_def)
  have lim: "socket_limit any_socket = 4096" by (simp add: socket_limit_def any_socket_def DEFAULT_SOCKET_LIMIT_def)
  have names: "daemon_if_names (po_device (demo_poll rows)) (\<lambda>e. e) = Inr Map.empty"
    by (simp add: daemon_if_names_def interfaces_of_def demo_poll_def bare_device_def get_interfaces_def
        interface_names_def map_err_def)
  have col: "collect_dumps ?env 4096 any_socket Map.empty (dump_order any_socket) [] = Some (Inr (map (\<lambda>_. s) states, False))"
  proof -
    have "states = [] \<or> states = [TS_SynSent]" using rows by blast
    then show ?thesis unfolding order by (elim disjE) (simp_all add: dump s(1) pass neq)
  qed
  have kern: "ke_diag (dv_kernel (po_device (demo_poll rows))) = ?env" by (simp add: demo_poll_def)
  have opened: "de_open ?env = None" "diag_env.de_bind ?env = None" by (simp_all add: demo_kernel_def)
  have "poll_sockets (\<lambda>e. e) any_socket (demo_poll rows) = Some (map (\<lambda>_. s) states)"
    by (simp add: poll_sockets_def names kern get_sockets_def opened lim col)
  then show ?thesis using rows s(2) by auto
qed

theorem socket_events_replay_witness:
  "\<exists>ms frames. watch_sockets (\<lambda>e. e) \<lparr>ws_filter = Some any_socket, ws_poll_ms = 1\<rparr> (\<lambda>_. True) [demo_poll [], demo_poll [1]]
       = (ms, frames, None) \<and>
     fold apply_socket_event frames Map.empty \<noteq> Map.empty"
proof -
  have it: "iterates rev" "iterates (\<lambda>m. m)" by (simp_all add: iterates_def)
  have "list_all (poll_ok (\<lambda>e. e) any_socket) [demo_poll [], demo_poll [1]]"
    using demo_poll_states [of "[]" "[]"] demo_poll_states [of "[1]" "[TS_SynSent]"] it by (auto simp: poll_ok_def) (simp_all add: demo_poll_def)
  from socket_events_replay [OF this, of 1] obtain ms frames where
    "watch_sockets (\<lambda>e. e) \<lparr>ws_filter = Some any_socket, ws_poll_ms = 1\<rparr> (\<lambda>_. True) [demo_poll [], demo_poll [1]]
       = (ms, frames, None)"
    "fold apply_socket_event frames (poll_view (\<lambda>e. e) any_socket (demo_poll [])) =
       poll_view (\<lambda>e. e) any_socket (demo_poll [1])" by auto
  moreover have "poll_view (\<lambda>e. e) any_socket (demo_poll []) = Map.empty"
    using demo_poll_states [of "[]" "[]"] by (auto simp: poll_view_def current_sockets_def view_of_def)
  moreover have "poll_view (\<lambda>e. e) any_socket (demo_poll [1]) \<noteq> Map.empty"
    using demo_poll_states [of "[1]" "[TS_SynSent]"]
    by (auto simp: poll_view_def current_sockets_def view_of_def hm_insert_def fun_eq_iff map_eq_Cons_conv)
  ultimately show ?thesis by auto
qed

end
