(* ===== verification/Auth.thy ===== *)
theory Auth
  imports Rust_Text
begin

text \<open>
  Peer authorization (\<^verbatim>\<open>daemon/src/ipc/auth.rs\<close>). The kernel's answer to \<open>SO_PEERCRED\<close> and the
  contents of \<^verbatim>\<open>/proc/<pid>/cmdline\<close> are arguments.
\<close>

record peer_cred =
  cred_uid :: nat
  cred_gid :: nat
  cred_pid :: "int option"

record peer_identity =
  peer_uid :: nat
  peer_gid :: nat
  peer_pid :: "int option"
  peer_cmdline :: "string option"

definition show_identity :: "peer_identity \<Rightarrow> string" where
  "show_identity p =
     ''uid='' @ dec (peer_uid p) @ '' gid='' @ dec (peer_gid p)
     @ (case peer_pid p of Some pid \<Rightarrow> '' pid='' @ dec_int pid | None \<Rightarrow> [])
     @ (case peer_cmdline p of Some cmd \<Rightarrow> '' cmdline='' @ cmd | None \<Rightarrow> [])"

record auth_policy =
  allowed_uids :: "nat list"
  expect_package :: "string option"

definition describe_policy :: "auth_policy \<Rightarrow> string" where
  "describe_policy policy =
     (let uids = map dec (allowed_uids policy);
          uids = (if uids = [] then [''0''] else uids)
      in ''uids=['' @ join '','' uids @ '']''
         @ (case expect_package policy of Some pkg \<Rightarrow> '' package='' @ pkg | None \<Rightarrow> []))"

definition uid_allowed :: "auth_policy \<Rightarrow> nat \<Rightarrow> bool" where
  "uid_allowed policy uid = (if uid = 0 then True else uid \<in> set (allowed_uids policy))"

text \<open>
  \<open>String::from_utf8_lossy\<close>: the length of the well-formed sequence at the head of the input, or
  the length of its maximal ill-formed prefix, which becomes one replacement character.
\<close>

definition in_range :: "nat \<Rightarrow> nat \<Rightarrow> nat list \<Rightarrow> nat \<Rightarrow> bool" where
  "in_range lo hi bs i = (i < length bs \<and> lo \<le> bs ! i \<and> bs ! i \<le> hi)"

definition utf8_chunk :: "nat list \<Rightarrow> bool \<times> nat" where
  "utf8_chunk bs =
     (let b = bs ! 0;
          two = (\<lambda>lo hi. if in_range lo hi bs 1 then (True, 2) else (False, 1));
          three = (\<lambda>lo hi. if \<not> in_range lo hi bs 1 then (False, 1)
                          else if in_range 0x80 0xBF bs 2 then (True, 3) else (False, 2));
          four = (\<lambda>lo hi. if \<not> in_range lo hi bs 1 then (False, 1)
                         else if \<not> in_range 0x80 0xBF bs 2 then (False, 2)
                         else if in_range 0x80 0xBF bs 3 then (True, 4) else (False, 3))
      in if b < 0x80 then (True, 1)
         else if 0xC2 \<le> b \<and> b \<le> 0xDF then two 0x80 0xBF
         else if b = 0xE0 then three 0xA0 0xBF
         else if b = 0xED then three 0x80 0x9F
         else if 0xE1 \<le> b \<and> b \<le> 0xEF then three 0x80 0xBF
         else if b = 0xF0 then four 0x90 0xBF
         else if 0xF1 \<le> b \<and> b \<le> 0xF3 then four 0x80 0xBF
         else if b = 0xF4 then four 0x80 0x8F
         else (False, 1))"

fun utf8_lossy_loop :: "nat \<Rightarrow> nat list \<Rightarrow> nat list" where
  "utf8_lossy_loop 0 bs = []"
| "utf8_lossy_loop (Suc k) bs =
     (if bs = [] then []
      else case utf8_chunk bs of (ok, n) \<Rightarrow>
        (if ok then take n bs else [0xEF, 0xBF, 0xBD]) @ utf8_lossy_loop k (drop n bs))"

definition from_utf8_lossy :: "bytes \<Rightarrow> string" where
  "from_utf8_lossy bs = map char_of (utf8_lossy_loop (length bs) (map unat bs))"

definition read_cmdline :: "(string \<Rightarrow> bytes option) \<Rightarrow> int \<Rightarrow> string option" where
  "read_cmdline read pid =
     (case read (''/proc/'' @ dec_int pid @ ''/cmdline'') of
        None \<Rightarrow> None
      | Some raw \<Rightarrow>
          let first = takeWhile (\<lambda>b. b \<noteq> 0) raw
          in if first = [] then None else Some (trim (from_utf8_lossy first)))"

datatype auth_error =
  NoPeerCred
| UidRefused string string
| PackageMismatch string string string

definition authorize ::
  "(string \<Rightarrow> bytes option) \<Rightarrow> peer_cred option \<Rightarrow> auth_policy \<Rightarrow> auth_error + peer_identity" where
  "authorize read cred policy =
     (case cred of
        None \<Rightarrow> Inl NoPeerCred
      | Some c \<Rightarrow>
          let pid = cred_pid c;
              identity = \<lparr>peer_uid = cred_uid c, peer_gid = cred_gid c, peer_pid = pid,
                          peer_cmdline = Option.bind pid (read_cmdline read)\<rparr>
          in if \<not> uid_allowed policy (peer_uid identity)
             then Inl (UidRefused (show_identity identity) (describe_policy policy))
             else (case expect_package policy of
                     None \<Rightarrow> Inr identity
                   | Some expected \<Rightarrow>
                       (case peer_cmdline identity of
                          Some actual \<Rightarrow>
                            if actual = expected then Inr identity
                            else Inl (PackageMismatch (show_identity identity) actual expected)
                        | None \<Rightarrow> Inr identity)))"

section \<open>Facts\<close>

lemma utf8_lossy_ascii:
  "\<forall>b\<in>set bs. b < 128 \<Longrightarrow> length bs \<le> k \<Longrightarrow> utf8_lossy_loop k bs = bs"
proof (induction k arbitrary: bs)
  case 0
  then show ?case by simp
next
  case (Suc k)
  show ?case
  proof (cases bs)
    case Nil
    then show ?thesis by simp
  next
    case (Cons b bs')
    with Suc.prems have "utf8_chunk bs = (True, 1)" by (simp add: utf8_chunk_def Let_def)
    with Suc Cons show ?thesis by simp
  qed
qed

text \<open>
  Access is decided by the kernel-supplied uid. A connection is accepted exactly when the
  credentials could be read, the uid is root or listed, and, where a package is expected and the
  command line of the peer can be read, it is that package; the accepted identity carries the
  credentials unchanged. Nothing the client sends takes part in the decision.
\<close>

lemma authorize_iff:
  "authorize read cred policy = Inr p \<longleftrightarrow>
   (\<exists>c. cred = Some c \<and>
      p = \<lparr>peer_uid = cred_uid c, peer_gid = cred_gid c, peer_pid = cred_pid c,
           peer_cmdline = Option.bind (cred_pid c) (read_cmdline read)\<rparr> \<and>
      (cred_uid c = 0 \<or> cred_uid c \<in> set (allowed_uids policy)) \<and>
      (expect_package policy = None \<or> peer_cmdline p = None \<or> peer_cmdline p = expect_package policy))"
  by (auto simp: authorize_def uid_allowed_def Let_def split: option.splits if_splits)

text \<open>
  A peer that is neither root nor listed is refused whatever its command line says, and with
  an empty list only root is accepted.
\<close>

lemma authorize_refuses_unlisted:
  assumes "cred_uid c \<noteq> 0" and "cred_uid c \<notin> set (allowed_uids policy)"
  shows "\<exists>who. authorize read (Some c) policy = Inl (UidRefused who (describe_policy policy))"
  using assms by (simp add: authorize_def uid_allowed_def Let_def)

end
