(* ===== verification/Server.thy ===== *)
theory Server
  imports Streams Auth
begin

text \<open>
  The daemon process (\<^verbatim>\<open>daemon/src/main.rs\<close>, \<^verbatim>\<open>daemon/src/ipc/listener.rs\<close>): its arguments, the
  listening socket, the accept loop with its idle timer, and the self test. System calls are
  arguments; the accept loop and the tasks that serve connections are a step relation.
\<close>

section \<open>The listening socket\<close>

datatype socket_address = SA_Abstract string | SA_Path string

definition parse_address :: "string \<Rightarrow> socket_address" where
  "parse_address spec =
     (case strip_prefix spec ''@'' of Some name \<Rightarrow> SA_Abstract name | None \<Rightarrow> SA_Path spec)"

fun describe_address :: "socket_address \<Rightarrow> string" where
  "describe_address (SA_Abstract name) = ''@'' @ name @ '' (abstract namespace)''"
| "describe_address (SA_Path path) = path"

text \<open>
  \<open>Path::parent\<close>: the path without its last component, \<open>None\<close> for the root and the empty path.
  Empty components and \<^verbatim>\<open>.\<close> after the first do not count; the text is the normalised one, which names
  the same directory.
\<close>

definition components :: "string \<Rightarrow> string list" where
  "components path =
     (case split_on CHR ''/'' path of
        c # cs \<Rightarrow> (if c = [] then [] else [c]) @ filter (\<lambda>x. x \<noteq> [] \<and> x \<noteq> ''.'') cs
      | [] \<Rightarrow> [])"

definition parent_of :: "string \<Rightarrow> string option" where
  "parent_of path =
     (if components path = [] then None
      else Some ((if starts_with path ''/'' then ''/'' else []) @ join ''/'' (butlast (components path))))"

record listener_env =
  lv_abstract_ok :: "string \<Rightarrow> bool"
  lv_exists :: "string \<Rightarrow> bool"
  lv_listening :: "string \<Rightarrow> bool"
  lv_remove :: "string \<Rightarrow> string option"
  lv_create_dir :: "string \<Rightarrow> string option"
  lv_bind :: "socket_address \<Rightarrow> string option"
  lv_nonblocking :: "string option"
  lv_chmod :: "string \<Rightarrow> nat \<Rightarrow> string option"
  lv_has_nul :: "string \<Rightarrow> bool"
  lv_chown :: "string \<Rightarrow> nat \<Rightarrow> string option"
  lv_register :: "string option"

text \<open>What \<open>bind\<close> does to the file system, in order.\<close>

datatype listener_action = LA_Remove string | LA_CreateDir string | LA_Bind socket_address | LA_Chmod string nat | LA_Chown string nat

definition remove_stale_socket :: "listener_env \<Rightarrow> string \<Rightarrow> listener_action list \<times> (string + unit)" where
  "remove_stale_socket env path =
     (if \<not> lv_exists env path then ([], Inr ())
      else if lv_listening env path then ([], Inl (path @ '' is already in use by a running daemon''))
      else ([LA_Remove path],
            case lv_remove env path of Some _ \<Rightarrow> Inl (''could not remove '' @ path) | None \<Rightarrow> Inr ()))"

definition apply_permissions :: "listener_env \<Rightarrow> string \<Rightarrow> nat option \<Rightarrow> listener_action list \<times> (string + unit)" where
  "apply_permissions env path owner =
     (case lv_chmod env path 0x180 of
        Some _ \<Rightarrow> ([LA_Chmod path 0x180], Inl (''could not chmod '' @ path))
      | None \<Rightarrow>
     (case owner of
        None \<Rightarrow> ([LA_Chmod path 0x180], Inr ())
      | Some uid \<Rightarrow>
          if lv_has_nul env path then ([LA_Chmod path 0x180], Inl ''nul byte found in provided data'')
          else ([LA_Chmod path 0x180, LA_Chown path uid],
                case lv_chown env path uid of
                  Some _ \<Rightarrow> Inl (''could not chown '' @ path @ '' to uid '' @ dec uid)
                | None \<Rightarrow> Inr ())))"

definition create_parent :: "listener_env \<Rightarrow> string \<Rightarrow> listener_action list \<times> (string + unit)" where
  "create_parent env path =
     (case parent_of path of
        Some parent \<Rightarrow>
          if lv_exists env parent then ([], Inr ())
          else ([LA_CreateDir parent],
                case lv_create_dir env parent of
                  Some _ \<Rightarrow> Inl (''could not create '' @ parent @ '' for the socket'')
                | None \<Rightarrow> Inr ())
      | None \<Rightarrow> ([], Inr ()))"

text \<open>One step after the other, until the first error.\<close>

fun in_order :: "(listener_action list \<times> (string + unit)) list \<Rightarrow> listener_action list \<times> (string + unit)" where
  "in_order [] = ([], Inr ())"
| "in_order ((acts, Inl e) # steps) = (acts, Inl e)"
| "in_order ((acts, Inr _) # steps) = apfst ((@) acts) (in_order steps)"

definition raw_step :: "string option \<Rightarrow> listener_action list \<times> (string + unit)" where
  "raw_step r = ([], case r of Some e \<Rightarrow> Inl e | None \<Rightarrow> Inr ())"

definition bind_step :: "listener_env \<Rightarrow> socket_address \<Rightarrow> string \<Rightarrow> listener_action list \<times> (string + unit)" where
  "bind_step env a what =
     ([LA_Bind a], case lv_bind env a of Some _ \<Rightarrow> Inl (''could not bind '' @ what) | None \<Rightarrow> Inr ())"

fun bind_listener :: "listener_env \<Rightarrow> socket_address \<Rightarrow> nat option \<Rightarrow> listener_action list \<times> (string + unit)" where
  "bind_listener env (SA_Abstract name) owner =
     (if \<not> lv_abstract_ok env name then ([], Inl (''invalid abstract socket name @'' @ name))
      else in_order [bind_step env (SA_Abstract name) (''@'' @ name), raw_step (lv_nonblocking env), raw_step (lv_register env)])"
| "bind_listener env (SA_Path path) owner =
     in_order [remove_stale_socket env path, create_parent env path, bind_step env (SA_Path path) path,
       raw_step (lv_nonblocking env), apply_permissions env path owner, raw_step (lv_register env)]"

fun cleanup :: "listener_env \<Rightarrow> socket_address \<Rightarrow> listener_action list" where
  "cleanup env (SA_Path path) = (if lv_exists env path then [LA_Remove path] else [])"
| "cleanup env (SA_Abstract _) = []"

definition describe_listener :: "int \<Rightarrow> string" where
  "describe_listener fd = ''fd '' @ dec_int fd"

section \<open>Arguments\<close>

definition DEFAULT_SOCKET :: string where "DEFAULT_SOCKET = ''@netdiag''"

record args =
  ar_socket :: socket_address
  ar_policy :: auth_policy
  ar_socket_owner :: "nat option"
  ar_log_filter :: string
  ar_self_test :: bool
  ar_exit_when_idle :: "nat option"

definition usage :: string where
  "usage = concat (map (\<lambda>l. l @ nl)
     [''netdiagd '' @ em_dash @ '' privileged network diagnostics daemon'',
      [],
      ''USAGE:'',
      ''    netdiagd [OPTIONS]'',
      [],
      ''OPTIONS:'',
      ''    --socket <ADDR>       Listening address. '@name' uses the abstract'',
      ''                          namespace (default: @netdiag); anything else is'',
      ''                          treated as a filesystem path.'',
      ''    --allow-uid <UID>     Allow this uid to connect. May be repeated. Root is'',
      ''                          always allowed. With no --allow-uid, only root may'',
      ''                          connect.'',
      ''    --expect-package <PKG>'',
      ''                          Additionally require the peer process to be named'',
      ''                          PKG (its /proc/<pid>/cmdline). Advisory: the uid'',
      ''                          check is what actually grants access.'',
      ''    --log <FILTER>        Tracing filter (default: info).'',
      ''    --exit-when-idle <S>  Exit after S seconds with no client connected, and'',
      ''                          also if no client ever connects. 0 disables it.'',
      ''                          Off by default: a daemon started by hand should stay.'',
      ''    --self-test           Collect a snapshot, print a summary, and exit.'',
      ''    --version             Print the version and exit.'',
      ''    -h, --help            Print this help and exit.'',
      [],
      ''SECURITY:'',
      ''    The daemon runs as root. Any process that can reach its socket can read'',
      ''    every socket on the device, so connections are authorized from SO_PEERCRED'',
      ''    and never from anything the client sends in a message. Abstract sockets'',
      ''    have no filesystem permissions at all, which makes that check the only'',
      ''    barrier; pass --allow-uid with the app's uid.''])"

definition default_args :: args where
  "default_args =
     \<lparr>ar_socket = parse_address DEFAULT_SOCKET,
      ar_policy = \<lparr>allowed_uids = [], expect_package = None\<rparr>, ar_socket_owner = None,
      ar_log_filter = ''info'', ar_self_test = False, ar_exit_when_idle = None\<rparr>"

definition allow_uid :: "nat \<Rightarrow> args \<Rightarrow> args" where
  "allow_uid uid a =
     a\<lparr>ar_policy := (ar_policy a)\<lparr>allowed_uids := allowed_uids (ar_policy a) @ [uid]\<rparr>,
       ar_socket_owner := (case ar_socket_owner a of Some u \<Rightarrow> Some u | None \<Rightarrow> Some uid)\<rparr>"

definition quoted :: "string \<Rightarrow> string" where
  "quoted s = [CHR 0x27] @ s @ [CHR 0x27]"

text \<open>Text to print before exiting, or the arguments to run with.\<close>

datatype parsed_args = PA_Print string | PA_Run args

text \<open>The version is the crate's, fixed when the daemon is built.\<close>

fun parse_loop :: "string \<Rightarrow> string list \<Rightarrow> args \<Rightarrow> string + parsed_args" where
  "parse_loop version [] a = Inr (PA_Run a)"
| "parse_loop version (arg # rest) a =
     (if arg = ''-h'' \<or> arg = ''--help'' then Inr (PA_Print usage)
      else if arg = ''--version'' then Inr (PA_Print (''netdiagd '' @ version @ nl))
      else if arg = ''--socket'' then
        (case rest of
           [] \<Rightarrow> Inl ''--socket needs a value''
         | v # rest' \<Rightarrow> parse_loop version rest' (a\<lparr>ar_socket := parse_address v\<rparr>))
      else if arg = ''--allow-uid'' then
        (case rest of
           [] \<Rightarrow> Inl ''--allow-uid needs a value''
         | v # rest' \<Rightarrow>
             (case parse_uint 32 v of
                None \<Rightarrow> Inl (''--allow-uid: '' @ quoted v @ '' is not a uid'')
              | Some uid \<Rightarrow> parse_loop version rest' (allow_uid uid a)))
      else if arg = ''--expect-package'' then
        (case rest of
           [] \<Rightarrow> Inl ''--expect-package needs a value''
         | v # rest' \<Rightarrow> parse_loop version rest' (a\<lparr>ar_policy := (ar_policy a)\<lparr>expect_package := Some v\<rparr>\<rparr>))
      else if arg = ''--log'' then
        (case rest of
           [] \<Rightarrow> Inl ''--log needs a value''
         | v # rest' \<Rightarrow> parse_loop version rest' (a\<lparr>ar_log_filter := v\<rparr>))
      else if arg = ''--exit-when-idle'' then
        (case rest of
           [] \<Rightarrow> Inl ''--exit-when-idle needs a value''
         | v # rest' \<Rightarrow>
             (case parse_uint 64 v of
                None \<Rightarrow> Inl (''--exit-when-idle: '' @ quoted v @ '' is not a number'')
              | Some seconds \<Rightarrow>
                  parse_loop version rest' (a\<lparr>ar_exit_when_idle := (if seconds > 0 then Some seconds else None)\<rparr>)))
      else if arg = ''--self-test'' then parse_loop version rest (a\<lparr>ar_self_test := True\<rparr>)
      else Inl (''unknown argument '' @ quoted arg @ ''; try --help''))"

definition parse_args :: "string \<Rightarrow> string list \<Rightarrow> string + parsed_args" where
  "parse_args version arguments = parse_loop version arguments default_args"

section \<open>The accept loop\<close>

text \<open>
  \<open>sv_armed\<close> is the \<open>idle_timeout\<close> of the current pass of the loop; \<open>sv_permit\<close> the stored permit
  of the notification; a task that serves a connection first counts itself out and then notifies.
\<close>

datatype server_exit = EX_Idle | EX_Signal

record server =
  sv_timeout :: "nat option"
  sv_policy :: auth_policy
  sv_live :: nat
  sv_serving :: "peer_identity list"
  sv_ending :: nat
  sv_permit :: bool
  sv_armed :: bool
  sv_exit :: "server_exit option"

definition loop_top :: "server \<Rightarrow> server" where
  "loop_top sv = sv\<lparr>sv_armed := (sv_timeout sv \<noteq> None \<and> sv_live sv = 0)\<rparr>"

definition server_start :: "args \<Rightarrow> server" where
  "server_start a =
     loop_top \<lparr>sv_timeout = ar_exit_when_idle a, sv_policy = ar_policy a, sv_live = 0, sv_serving = [],
       sv_ending = 0, sv_permit = False, sv_armed = False, sv_exit = None\<rparr>"

text \<open>A connection was accepted, or accepting failed.\<close>

definition server_accept ::
  "(string \<Rightarrow> bytes option) \<Rightarrow> (peer_cred option) option \<Rightarrow> server \<Rightarrow> server" where
  "server_accept read accepted sv =
     (case accepted of
        None \<Rightarrow> loop_top sv
      | Some cred \<Rightarrow>
          (case authorize read cred (sv_policy sv) of
             Inl _ \<Rightarrow> loop_top sv
           | Inr peer \<Rightarrow> loop_top (sv\<lparr>sv_live := sv_live sv + 1, sv_serving := sv_serving sv @ [peer]\<rparr>)))"

inductive server_step :: "server \<Rightarrow> server \<Rightarrow> bool" where
  server_idle: "sv_exit sv = None \<Longrightarrow> sv_armed sv \<Longrightarrow> server_step sv (sv\<lparr>sv_exit := Some EX_Idle\<rparr>)"
| server_notified: "sv_exit sv = None \<Longrightarrow> sv_permit sv \<Longrightarrow> server_step sv (loop_top (sv\<lparr>sv_permit := False\<rparr>))"
| server_accepts: "sv_exit sv = None \<Longrightarrow> server_step sv (server_accept read accepted sv)"
| server_signal: "sv_exit sv = None \<Longrightarrow> server_step sv (sv\<lparr>sv_exit := Some EX_Signal\<rparr>)"
| session_over: "sv_exit sv = None \<Longrightarrow> peer \<in> set (sv_serving sv) \<Longrightarrow>
    server_step sv (sv\<lparr>sv_live := sv_live sv - 1, sv_serving := remove1 peer (sv_serving sv), sv_ending := sv_ending sv + 1\<rparr>)"
| session_notifies: "sv_exit sv = None \<Longrightarrow> 0 < sv_ending sv \<Longrightarrow>
    server_step sv (sv\<lparr>sv_ending := sv_ending sv - 1, sv_permit := True\<rparr>)"

section \<open>The process\<close>

datatype process_result =
  PR_Failed string | PR_Printed string | PR_SelfTest args daemon | PR_Serving server daemon

text \<open>
  From the arguments to the accept loop. The runtime and the netlink connection may fail to start; the
  log filter and the event monitor do not decide anything here.
\<close>

definition process_start ::
  "string \<Rightarrow> string list \<Rightarrow> string option \<Rightarrow> string option \<Rightarrow> startup_env \<Rightarrow> int \<Rightarrow> listener_env \<Rightarrow> process_result" where
  "process_start version arguments runtime netlink su now lenv =
     (case parse_args version arguments of
        Inl e \<Rightarrow> PR_Failed e
      | Inr (PA_Print text) \<Rightarrow> PR_Printed text
      | Inr (PA_Run a) \<Rightarrow>
     (case runtime of
        Some _ \<Rightarrow> PR_Failed ''could not start the async runtime''
      | None \<Rightarrow>
     (case netlink of
        Some _ \<Rightarrow> PR_Failed ''could not open a NETLINK_ROUTE socket''
      | None \<Rightarrow>
          (let d = daemon_new su version now
           in if ar_self_test a then PR_SelfTest a d
              else case snd (bind_listener lenv (ar_socket a) (ar_socket_owner a)) of
                     Inl e \<Rightarrow> PR_Failed e
                   | Inr _ \<Rightarrow> PR_Serving (server_start a) d))))"

section \<open>The self test\<close>

text \<open>\<open>{:<n}\<close> pads with spaces on the right.\<close>

definition pad :: "nat \<Rightarrow> string \<Rightarrow> string" where
  "pad n s = s @ replicate (n - length s) CHR '' ''"

definition interface_line :: "interface \<Rightarrow> string" where
  "interface_line i =
     (let addresses = List.map_filter (\<lambda>a. map_option prefix_display (la_prefix a)) (if_addresses i);
          up = (case if_flags i of Some fl \<Rightarrow> fl_up fl | None \<Rightarrow> False)
      in ''    '' @ pad 16 (if_name i) @ '' idx '' @ pad 3 (dec (if_index i)) @ '' mtu '' @ pad 5 (dec (if_mtu i))
         @ '' '' @ pad 10 (if up then ''UP'' else ''DOWN'') @ '' '' @ join '' '' addresses)"

definition default_route_line :: "route \<Rightarrow> string" where
  "default_route_line r =
     (let (gateway, dev) = (case rt_next_hops r of h # _ \<Rightarrow> (nh_gateway h, nh_out_interface_name h) | [] \<Rightarrow> (None, []))
      in ''    default via '' @ pad 24 (case gateway of Some g \<Rightarrow> display g | None \<Rightarrow> ''on-link'')
         @ '' dev '' @ pad 14 dev @ '' table '' @ dec (rt_table r))"

definition snapshot_lines :: "snapshot \<Rightarrow> string list" where
  "snapshot_lines sn =
     [''netdiagd self-test'', ''  kernel:            '' @ sn_kernel_release sn,
      ''  collection took:   '' @ dec (sn_collection_duration_ms sn) @ '' ms'',
      ''  interfaces:        '' @ dec (length (sn_interfaces sn))]
     @ map interface_line (sn_interfaces sn)
     @ [''  routes:            '' @ dec (length (sn_routes sn))]
     @ map default_route_line (filter rt_is_default (sn_routes sn))
     @ [''  rules:             '' @ dec (length (sn_rules sn)),
        ''  neighbours:        '' @ dec (length (sn_neighbors sn)),
        ''  sockets:           '' @ dec (length (sn_sockets sn))]
     @ (case sn_socket_summary sn of
          Some m \<Rightarrow> [''    established '' @ dec (ss_established m) @ ''  syn-sent '' @ dec (ss_syn_sent m)
                      @ ''  listen '' @ dec (ss_listen m) @ ''  time-wait '' @ dec (ss_time_wait m)]
        | None \<Rightarrow> [])
     @ (case sn_firewall sn of Some fw \<Rightarrow> [''  firewall:          '' @ fs_collection_note fw] | None \<Rightarrow> [])
     @ (case sn_clat sn of
          Some cl \<Rightarrow> [''  464xlat:           '' @ (if cl_active cl then ''active on '' @ cl_interface cl else ''not active'')]
        | None \<Rightarrow> [])
     @ map (\<lambda>w. ''  warning:           '' @ w) (sn_collection_warnings sn)"

fun status_mark :: "check_status \<Rightarrow> string" where
  "status_mark ST_Pass = ''PASS''"
| "status_mark ST_Fail = ''FAIL''"
| "status_mark ST_Warn = ''WARN''"
| "status_mark ST_Skip = ''SKIP''"
| "status_mark ST_Info = ''INFO''"
| "status_mark _ = ''....''"

definition check_line :: "check \<Rightarrow> string" where
  "check_line c = ''  ['' @ status_mark (ck_status c) @ ''] '' @ pad 22 (ck_key c) @ '' '' @ ck_detail c"

definition finding_lines :: "finding \<Rightarrow> string list" where
  "finding_lines f =
     [nl @ ''  '' @ fi_title f @ '' (confidence '' @ dec (fi_confidence f) @ ''%)'' @ nl
        @ join nl (map (\<lambda>l. ''    '' @ l) (lines (fi_interpretation f)))]
     @ map (\<lambda>a. ''    -> '' @ a) (fi_suggested_actions f)"

definition report_lines :: "diagnose_response \<Rightarrow> string list" where
  "report_lines r =
     [''  '' @ dec (rp_passed r) @ '' passed, '' @ dec (rp_failed r) @ '' failed, '' @ dec (rp_warned r) @ '' warned, ''
        @ dec (rp_skipped r) @ '' skipped in '' @ dec (rp_total_duration_ms r) @ '' ms'']
     @ map check_line (rp_checks r) @ [nl @ ''  '' @ rp_summary r] @ concat (map finding_lines (rp_findings r))"

definition self_test_request :: snapshot_request where
  "self_test_request =
     \<lparr>sq_include_sockets = True, sq_include_socket_tcp_info = True, sq_include_neighbors = True,
      sq_include_firewall = True, sq_include_qdiscs = True, sq_include_counters = True,
      sq_include_sysctls = True, sq_android_state = None\<rparr>"

definition self_test_diagnosis :: diagnose_request where
  "self_test_diagnosis = \<lparr>dr_target = None, dr_android_state = None, dr_passive_only = False, dr_only = [], dr_skip = []\<rparr>"

definition empty_snapshot :: snapshot where
  "empty_snapshot =
     \<lparr>sn_captured_at_unix_ms = 0, sn_kernel_release = [], sn_interfaces = [], sn_routes = [],
      sn_table_names = Map.empty, sn_rules = [], sn_neighbors = [], sn_sockets = [], sn_socket_summary = None,
      sn_sysctls = None, sn_counters = None, sn_firewall = None, sn_qdiscs = [], sn_namespaces = [],
      sn_resolver = None, sn_clat = None, sn_android_state = None, sn_collection_duration_ms = 0,
      sn_collection_warnings = []\<rparr>"

text \<open>The error, or the lines printed; \<open>None\<close> when a socket dump never ends.\<close>

definition self_test :: "device_env \<Rightarrow> (string \<Rightarrow> string) \<Rightarrow> diagnose_env \<Rightarrow> (string + string list) option" where
  "self_test dv dbg env =
     (case rpc_get_snapshot dv dbg self_test_request of
        None \<Rightarrow> None
      | Some (Inl e) \<Rightarrow> Some (Inl (''snapshot failed: '' @ err_message e @ '' '' @ err_detail e))
      | Some (Inr found) \<Rightarrow>
          let sn = (case found of Some sn \<Rightarrow> sn | None \<Rightarrow> empty_snapshot) in
          (case run env self_test_diagnosis False of
             None \<Rightarrow> None
           | Some (report, _) \<Rightarrow>
               Some (Inr (snapshot_lines sn @ [nl @ ''running a passive diagnosis...''] @ report_lines report))))"

section \<open>Facts about the arguments\<close>

fun show_address :: "socket_address \<Rightarrow> string" where
  "show_address (SA_Abstract name) = ''@'' @ name"
| "show_address (SA_Path path) = path"

definition render_args :: "args \<Rightarrow> string list" where
  "render_args a =
     [''--socket'', show_address (ar_socket a)]
     @ concat (map (\<lambda>u. [''--allow-uid'', dec u]) (allowed_uids (ar_policy a)))
     @ (case expect_package (ar_policy a) of Some p \<Rightarrow> [''--expect-package'', p] | None \<Rightarrow> [])
     @ [''--log'', ar_log_filter a]
     @ (case ar_exit_when_idle a of Some s \<Rightarrow> [''--exit-when-idle'', dec s] | None \<Rightarrow> [])
     @ (if ar_self_test a then [''--self-test''] else [])"

definition args_wf :: "args \<Rightarrow> bool" where
  "args_wf a =
     ((case ar_socket a of SA_Path p \<Rightarrow> \<not> starts_with p ''@'' | SA_Abstract _ \<Rightarrow> True) \<and>
      list_all (\<lambda>u. u < 2 ^ 32) (allowed_uids (ar_policy a)) \<and>
      ar_socket_owner a = (case allowed_uids (ar_policy a) of u # _ \<Rightarrow> Some u | [] \<Rightarrow> None) \<and>
      (case ar_exit_when_idle a of Some s \<Rightarrow> 0 < s \<and> s < 2 ^ 64 | None \<Rightarrow> True))"

lemma parse_show_address:
  "(case a of SA_Path p \<Rightarrow> \<not> starts_with p ''@'' | SA_Abstract _ \<Rightarrow> True) \<Longrightarrow> parse_address (show_address a) = a"
proof (cases a)
  case (SA_Path p)
  moreover assume "case a of SA_Path p \<Rightarrow> \<not> starts_with p ''@'' | SA_Abstract _ \<Rightarrow> True"
  ultimately show ?thesis by (cases p) (auto simp: parse_address_def)
qed (simp add: parse_address_def)

lemma parse_uids:
  "list_all (\<lambda>u. u < 2 ^ 32) us \<Longrightarrow>
     parse_loop version (concat (map (\<lambda>u. [''--allow-uid'', dec u]) us) @ rest) a =
     parse_loop version rest (fold allow_uid us a)"
  by (induction us arbitrary: a) (simp_all del: power_numeral)

lemma fold_allow_uid:
  "fold allow_uid us a =
     a\<lparr>ar_policy := (ar_policy a)\<lparr>allowed_uids := allowed_uids (ar_policy a) @ us\<rparr>,
       ar_socket_owner := (case ar_socket_owner a of Some u \<Rightarrow> Some u
         | None \<Rightarrow> (case us of u # _ \<Rightarrow> Some u | [] \<Rightarrow> None))\<rparr>"
  by (induction us arbitrary: a) (auto simp: allow_uid_def split: option.split list.split)

section \<open>Facts about the loop\<close>

definition server_wf :: "auth_policy \<Rightarrow> nat option \<Rightarrow> server \<Rightarrow> bool" where
  "server_wf policy timeout sv =
     (sv_policy sv = policy \<and> sv_timeout sv = timeout \<and> sv_live sv = length (sv_serving sv) \<and>
      (sv_armed sv \<longrightarrow> timeout \<noteq> None \<and> sv_serving sv = []) \<and>
      (sv_exit sv = Some EX_Idle \<longrightarrow> sv_armed sv) \<and>
      (timeout \<noteq> None \<and> sv_serving sv = [] \<longrightarrow> sv_armed sv \<or> sv_permit sv \<or> 0 < sv_ending sv) \<and>
      list_all (\<lambda>p. peer_uid p = 0 \<or> peer_uid p \<in> set (allowed_uids policy)) (sv_serving sv))"

lemma authorize_uid:
  "authorize read cred policy = Inr peer \<Longrightarrow> peer_uid peer = 0 \<or> peer_uid peer \<in> set (allowed_uids policy)"
  by (auto simp: authorize_def uid_allowed_def Let_def split: option.splits if_splits)

lemma server_wf_accept: "server_wf policy timeout sv \<Longrightarrow> sv_exit sv = None \<Longrightarrow> server_wf policy timeout (server_accept read accepted sv)"
  by (auto simp: server_wf_def server_accept_def loop_top_def split: option.split sum.split dest: authorize_uid)

lemma server_wf_step:
  assumes wf: "server_wf policy timeout sv" and "server_step sv sv'"
  shows "server_wf policy timeout sv'"
  using assms(2)
proof cases
  case (server_accepts read accepted)
  with wf show ?thesis by (simp add: server_wf_accept)
next
  case (session_over peer)
  have "0 < length (sv_serving sv)" using session_over(3) by (cases "sv_serving sv") auto
  with wf session_over show ?thesis
    by (auto simp: server_wf_def length_remove1 list_all_iff dest: notin_set_remove1 in_set_remove1)
qed (use wf in \<open>auto simp: server_wf_def loop_top_def\<close>)

interpretation server_machine:
  invariant_machine "server_start a" server_step "server_wf (ar_policy a) (ar_exit_when_idle a)"
  for a
  by unfold_locales (simp add: server_wf_def server_start_def loop_top_def, rule server_wf_step)

section \<open>Facts about binding\<close>

lemma in_order_ok: "in_order steps = (acts, Inr u) \<Longrightarrow> acts = concat (map fst steps) \<and> list_all (\<lambda>s. snd s = Inr ()) steps"
proof (induction steps arbitrary: acts rule: in_order.induct)
  case (3 acts0 v steps)
  then show ?case by (cases "in_order steps") auto
qed simp_all

lemma in_order_acts: "set (fst (in_order steps)) \<subseteq> set (concat (map fst steps))"
  by (induction steps rule: in_order.induct) auto

lemma step_acts:
  "LA_Remove p \<notin> set (fst (create_parent env path))" "fst (bind_step env a w) = [LA_Bind a]" "fst (raw_step r) = []"
  "LA_Remove p \<notin> set (fst (apply_permissions env path owner))"
  "LA_Remove p \<in> set (fst (remove_stale_socket env path)) \<Longrightarrow> \<not> lv_listening env path"
  "snd (apply_permissions env path owner) = Inr () \<Longrightarrow>
     fst (apply_permissions env path owner) = LA_Chmod path 0x180 # (case owner of Some uid \<Rightarrow> [LA_Chown path uid] | None \<Rightarrow> [])"
  by (auto simp: create_parent_def bind_step_def raw_step_def apply_permissions_def remove_stale_socket_def
      split: option.splits if_splits)

section \<open>Properties\<close>

text \<open>
  C35: the arguments survive the command line. Every configuration whose uids and timeout fit their
  types, whose path does not look like an abstract name and whose socket owner is the first allowed
  uid is read back, unchanged, from the arguments that spell it.
\<close>

theorem args_roundtrip:
  assumes "args_wf a"
  shows "parse_args version (render_args a) = Inr (PA_Run a)"
proof -
  obtain sock policy owner filt test idle where a: "a = \<lparr>ar_socket = sock, ar_policy = policy, ar_socket_owner = owner,
      ar_log_filter = filt, ar_self_test = test, ar_exit_when_idle = idle\<rparr>" by (cases a)
  obtain uids pkg where p: "policy = \<lparr>allowed_uids = uids, expect_package = pkg\<rparr>" by (cases policy)
  have sock: "parse_address (show_address sock) = sock" using assms by (simp add: args_wf_def a parse_show_address)
  have "list_all (\<lambda>u. u < 2 ^ 32) uids" using assms by (simp add: args_wf_def a p)
  note uids = parse_uids [OF this]
  have owner: "owner = (case uids of u # _ \<Rightarrow> Some u | [] \<Rightarrow> None)" using assms by (simp add: args_wf_def a p)
  show ?thesis
    using assms
    by (cases pkg; cases idle)
      (simp_all add: parse_args_def render_args_def a p sock uids fold_allow_uid default_args_def owner args_wf_def)
qed

theorem args_roundtrip_witness:
  "parse_args ''0.1.0'' [''--socket'', ''@netdiag'', ''--allow-uid'', ''10234'', ''--log'', ''info'', ''--exit-when-idle'', ''60'']
   = Inr (PA_Run \<lparr>ar_socket = SA_Abstract ''netdiag'', ar_policy = \<lparr>allowed_uids = [10234], expect_package = None\<rparr>,
       ar_socket_owner = Some 10234, ar_log_filter = ''info'', ar_self_test = False, ar_exit_when_idle = Some 60\<rparr>)"
proof -
  let ?a = "\<lparr>ar_socket = SA_Abstract ''netdiag'', ar_policy = \<lparr>allowed_uids = [10234], expect_package = None\<rparr>,
       ar_socket_owner = Some 10234, ar_log_filter = ''info'', ar_self_test = False, ar_exit_when_idle = Some 60\<rparr>"
  have "args_wf ?a" by (simp add: args_wf_def)
  moreover have "dec 10234 = ''10234''" "dec 60 = ''60''" by (simp_all add: dec_step digit_char_def char_of_def bit_0)
  ultimately show ?thesis using args_roundtrip [of ?a "''0.1.0''"] by (simp add: render_args_def)
qed

text \<open>
  C16: the life of the daemon process. It only ever serves peers whose uid the policy allows; the
  idle timer ends it only when a timeout was configured and no connection is being served; and the
  timer cannot be missed: whenever a timeout is configured and no connection is served, the timer is
  armed, or the notification that re-arms it is pending or about to be sent.
\<close>

theorem server_lifetime:
  assumes "reach server_step (server_start a) sv"
  shows "list_all (\<lambda>p. peer_uid p = 0 \<or> peer_uid p \<in> set (allowed_uids (ar_policy a))) (sv_serving sv) \<and>
         (sv_exit sv = Some EX_Idle \<longrightarrow> ar_exit_when_idle a \<noteq> None \<and> sv_serving sv = []) \<and>
         (ar_exit_when_idle a \<noteq> None \<and> sv_serving sv = [] \<longrightarrow> sv_armed sv \<or> sv_permit sv \<or> 0 < sv_ending sv)"
proof -
  have "server_wf (ar_policy a) (ar_exit_when_idle a) sv" by (rule server_machine.reach_inv [OF assms])
  then show ?thesis by (auto simp: server_wf_def)
qed

theorem server_lifetime_witness:
  "\<exists>sv. reach server_step (server_start (default_args\<lparr>ar_exit_when_idle := Some 60\<rparr>)) sv \<and>
     sv_exit sv = Some EX_Idle \<and> sv_serving sv = []"
proof -
  let ?s = "server_start (default_args\<lparr>ar_exit_when_idle := Some 60\<rparr>)"
  have "server_step ?s (?s\<lparr>sv_exit := Some EX_Idle\<rparr>)"
    by (rule server_idle) (simp_all add: server_start_def loop_top_def)
  then have "reach server_step ?s (?s\<lparr>sv_exit := Some EX_Idle\<rparr>)" by (rule reach_step [OF reach_init])
  with server_lifetime [OF this] show ?thesis by fastforce
qed

text \<open>
  C36: binding a socket file. A file with a daemon listening behind it is never removed and the call
  fails; when binding succeeds, the socket was made accessible to its owner only, after it was
  bound, and handed to the configured uid.
\<close>

theorem bind_path_safe:
  assumes "bind_listener env (SA_Path path) owner = (acts, r)"
  shows "(lv_exists env path \<and> lv_listening env path \<longrightarrow>
            acts = [] \<and> r = Inl (path @ '' is already in use by a running daemon'')) \<and>
         (LA_Remove path \<in> set acts \<longrightarrow> \<not> lv_listening env path) \<and>
         (r = Inr () \<longrightarrow>
            (\<exists>before. acts = before @ [LA_Bind (SA_Path path), LA_Chmod path 0x180]
               @ (case owner of Some uid \<Rightarrow> [LA_Chown path uid] | None \<Rightarrow> [])))"
proof -
  let ?steps = "[remove_stale_socket env path, create_parent env path, bind_step env (SA_Path path) path,
       raw_step (lv_nonblocking env), apply_permissions env path owner, raw_step (lv_register env)]"
  have r: "in_order ?steps = (acts, r)" using assms by (simp only: bind_listener.simps)
  have "acts = [] \<and> r = Inl (path @ '' is already in use by a running daemon'')"
    if "lv_exists env path \<and> lv_listening env path"
    using r that by (simp add: remove_stale_socket_def)
  moreover have "\<not> lv_listening env path" if "LA_Remove path \<in> set acts"
    using in_order_acts [of ?steps] that r step_acts(1-5) by auto
  moreover have "\<exists>before. acts = before @ [LA_Bind (SA_Path path), LA_Chmod path 0x180]
      @ (case owner of Some uid \<Rightarrow> [LA_Chown path uid] | None \<Rightarrow> [])" if "r = Inr ()"
    using in_order_ok [of ?steps acts "()"] r that
    by (auto simp: step_acts(2,3,6))
  ultimately show ?thesis by blast
qed

theorem bind_path_safe_witness:
  "fst (bind_listener \<lparr>lv_abstract_ok = (\<lambda>_. True), lv_exists = (\<lambda>_. True), lv_listening = (\<lambda>_. True),
      lv_remove = (\<lambda>_. None), lv_create_dir = (\<lambda>_. None), lv_bind = (\<lambda>_. None), lv_nonblocking = None,
      lv_chmod = (\<lambda>_ _. None), lv_has_nul = (\<lambda>_. False), lv_chown = (\<lambda>_ _. None), lv_register = None\<rparr>
      (SA_Path ''/data/netdiag.sock'') (Some 10234)) = []"
  by (rule bind_path_safe [OF prod.collapse [symmetric], THEN conjunct1, THEN mp, THEN conjunct1]) simp

end
