(* ===== verification/Client.thy ===== *)
theory Client
  imports Session
begin

text \<open>
  The client of the daemon (\<^verbatim>\<open>crates/netdiag-ipc/src/client.rs\<close>): one connection that carries
  every call. A call takes the next id, registers a reply channel under it and sends its frame; the
  read loop hands each frame that arrives to the channel of its id. The tasks interleave, so the
  client is a step relation. The caller decides when to call, when to take a frame of a stream and
  when to drop its receiver; the socket decides whether a write succeeds.
\<close>

section \<open>Addresses\<close>

definition DEFAULT_SOCKET_NAME :: string where "DEFAULT_SOCKET_NAME = ''netdiag''"

definition AF_UNIX :: u16 where "AF_UNIX = 1"

record sockaddr_un =
  sun_family :: u16
  sun_path :: bytes

text \<open>The zeroed \<open>sockaddr_un\<close> with the name behind a leading NUL, and the length passed to \<open>connect\<close>.\<close>

fun write_path :: "nat \<Rightarrow> bytes \<Rightarrow> bytes \<Rightarrow> bytes" where
  "write_path i [] path = path"
| "write_path i (b # bs) path = write_path (Suc i) bs (path[i + 1 := b])"

definition abstract_address :: "bytes \<Rightarrow> string + sockaddr_un \<times> nat" where
  "abstract_address name =
     (if length name \<ge> 107 then Inl ''abstract socket name is too long''
      else Inr (\<lparr>sun_family = AF_UNIX, sun_path = write_path 0 name (replicate 108 0)\<rparr>, 2 + 1 + length name))"

text \<open>\<open>socket(2)\<close> and \<open>connect(2)\<close> may fail, as may making the descriptor non-blocking and registering it.\<close>

record connect_env =
  ce_socket :: "string option"
  ce_connect :: "sockaddr_un \<Rightarrow> nat \<Rightarrow> string option"
  ce_nonblocking :: "string option"
  ce_register :: "string option"

definition connect_abstract :: "connect_env \<Rightarrow> bytes \<Rightarrow> string + unit" where
  "connect_abstract env name =
     (case abstract_address name of
        Inl e \<Rightarrow> Inl e
      | Inr (a, len) \<Rightarrow>
     (case ce_socket env of
        Some _ \<Rightarrow> Inl ''socket(AF_UNIX) failed''
      | None \<Rightarrow>
     (case ce_connect env a len of
        Some _ \<Rightarrow> Inl ''connect to the daemon socket failed''
      | None \<Rightarrow>
     (case ce_nonblocking env of
        Some e \<Rightarrow> Inl e
      | None \<Rightarrow>
     (case ce_register env of
        Some _ \<Rightarrow> Inl ''could not register the socket with tokio''
      | None \<Rightarrow> Inr ())))))"

definition client_probe :: "connect_env \<Rightarrow> bytes \<Rightarrow> bool" where
  "client_probe env name = (case connect_abstract env name of Inr _ \<Rightarrow> True | Inl _ \<Rightarrow> False)"

section \<open>Calls\<close>

definition REPLY_QUEUE_DEPTH :: nat where "REPLY_QUEUE_DEPTH = 256"

type_synonym 'r server_frame = "nat \<times> 'r server_body"

datatype call_kind = Unary | Stream

datatype 'r call_result = CR_Reply "'r server_frame" | CR_Failed string | CR_Ended

datatype 'r call_state = CS_Sending | CS_Waiting | CS_Finished "'r call_result"

text \<open>
  A call: its kind and frame, the frames that had arrived when it was registered, the reply channel,
  the frames taken from it, and for a stream the caller's channel, what the caller took from it, and
  whether the caller dropped it.
\<close>

record ('q, 'r) call =
  ca_kind :: call_kind
  ca_frame :: "'q client_frame"
  ca_from :: nat
  ca_state :: "'r call_state"
  ca_queue :: "'r server_frame list"
  ca_taken :: "'r server_frame list"
  ca_out :: "'r server_frame list"
  ca_got :: "'r server_frame list"
  ca_dropped :: bool

record ('q, 'r) client =
  cl_next_id :: nat
  cl_pending :: "nat list"
  cl_calls :: "(nat \<times> ('q, 'r) call) list"
  cl_sent :: "'q client_frame list"
  cl_inbox :: "'r server_frame list"
  cl_open :: bool

definition client_new :: "('q, 'r) client" where
  "client_new = \<lparr>cl_next_id = 1, cl_pending = [], cl_calls = [], cl_sent = [], cl_inbox = [], cl_open = True\<rparr>"

definition finished :: "('q, 'r) call \<Rightarrow> bool" where
  "finished ca = (case ca_state ca of CS_Finished _ \<Rightarrow> True | _ \<Rightarrow> False)"

definition put_call :: "nat \<Rightarrow> ('q, 'r) call \<Rightarrow> ('q, 'r) client \<Rightarrow> ('q, 'r) client" where
  "put_call i ca c = c\<lparr>cl_calls := hm_insert i ca (cl_calls c)\<rparr>"

definition forget :: "nat \<Rightarrow> ('q, 'r) client \<Rightarrow> ('q, 'r) client" where
  "forget i c = c\<lparr>cl_pending := removeAll i (cl_pending c)\<rparr>"

text \<open>The start of \<open>unary\<close> and \<open>stream\<close>: the next id, a channel, the registration.\<close>

definition begin_call :: "call_kind \<Rightarrow> 'q client_body \<Rightarrow> ('q, 'r) client \<Rightarrow> ('q, 'r) client" where
  "begin_call kind body c =
     (let i = cl_next_id c
      in c\<lparr>cl_next_id := i + 1, cl_pending := i # removeAll i (cl_pending c),
           cl_calls := hm_insert i
             \<lparr>ca_kind = kind, ca_frame = \<lparr>cf_id = i, cf_body = Some body\<rparr>, ca_from = length (cl_inbox c),
              ca_state = CS_Sending, ca_queue = [], ca_taken = [], ca_out = [], ca_got = [], ca_dropped = False\<rparr>
             (cl_calls c)\<rparr>)"

definition send_ok :: "nat \<Rightarrow> ('q, 'r) call \<Rightarrow> ('q, 'r) client \<Rightarrow> ('q, 'r) client" where
  "send_ok i ca c = (put_call i (ca\<lparr>ca_state := CS_Waiting\<rparr>) c)\<lparr>cl_sent := cl_sent c @ [ca_frame ca]\<rparr>"

text \<open>A failed write ends the call; only \<open>unary\<close> removes its registration on that path.\<close>

definition send_failed :: "nat \<Rightarrow> ('q, 'r) call \<Rightarrow> string \<Rightarrow> ('q, 'r) client \<Rightarrow> ('q, 'r) client" where
  "send_failed i ca e c =
     (let c = put_call i (ca\<lparr>ca_state := CS_Finished (CR_Failed e)\<rparr>) c
      in case ca_kind ca of Unary \<Rightarrow> forget i c | Stream \<Rightarrow> c)"

fun show_error_code :: "error_code \<Rightarrow> string" where
  "show_error_code Err_Unspecified = ''Unspecified''"
| "show_error_code Err_InvalidArgument = ''InvalidArgument''"
| "show_error_code Err_Unimplemented = ''Unimplemented''"
| "show_error_code Err_Kernel = ''Kernel''"
| "show_error_code Err_PermissionDenied = ''PermissionDenied''"
| "show_error_code Err_NotFound = ''NotFound''"
| "show_error_code Err_ResourceExhausted = ''ResourceExhausted''"
| "show_error_code Err_Internal = ''Internal''"

definition check_error :: "'r server_frame \<Rightarrow> string option" where
  "check_error f = (case snd f of
     R_Error e \<Rightarrow> Some (err_message e @ '' ('' @ show_error_code (err_code e) @ '')'') | _ \<Rightarrow> None)"

definition unary_result :: "'r server_frame \<Rightarrow> 'r call_result" where
  "unary_result f = (case check_error f of Some e \<Rightarrow> CR_Failed e | None \<Rightarrow> CR_Reply f)"

definition unary_take :: "nat \<Rightarrow> ('q, 'r) call \<Rightarrow> ('q, 'r) client \<Rightarrow> ('q, 'r) client" where
  "unary_take i ca c =
     forget i (put_call i (ca\<lparr>ca_state := CS_Finished (unary_result (hd (ca_queue ca))),
       ca_queue := tl (ca_queue ca), ca_taken := ca_taken ca @ [hd (ca_queue ca)]\<rparr>) c)"

definition unary_closed :: "nat \<Rightarrow> ('q, 'r) call \<Rightarrow> ('q, 'r) client \<Rightarrow> ('q, 'r) client" where
  "unary_closed i ca c =
     forget i (put_call i (ca\<lparr>ca_state :=
       CS_Finished (CR_Failed ''the connection closed before a reply arrived'')\<rparr>) c)"

text \<open>
  The task behind a stream: it ends at \<open>StreamEnd\<close> or when the caller has dropped its receiver, and
  otherwise passes the frame on. A frame the task holds while the caller's channel is full counts as
  still queued.
\<close>

definition stream_take :: "nat \<Rightarrow> ('q, 'r) call \<Rightarrow> ('q, 'r) client \<Rightarrow> ('q, 'r) client" where
  "stream_take i ca c =
     (let f = hd (ca_queue ca);
          ca = ca\<lparr>ca_queue := tl (ca_queue ca), ca_taken := ca_taken ca @ [f]\<rparr>
      in if is_end (snd f) \<or> ca_dropped ca
         then forget i (put_call i (ca\<lparr>ca_state := CS_Finished CR_Ended\<rparr>) c)
         else put_call i (ca\<lparr>ca_out := ca_out ca @ [f]\<rparr>) c)"

definition stream_closed :: "nat \<Rightarrow> ('q, 'r) call \<Rightarrow> ('q, 'r) client \<Rightarrow> ('q, 'r) client" where
  "stream_closed i ca c = forget i (put_call i (ca\<lparr>ca_state := CS_Finished CR_Ended\<rparr>) c)"

definition caller_take :: "nat \<Rightarrow> ('q, 'r) call \<Rightarrow> ('q, 'r) client \<Rightarrow> ('q, 'r) client" where
  "caller_take i ca c =
     put_call i (ca\<lparr>ca_out := tl (ca_out ca), ca_got := ca_got ca @ [hd (ca_out ca)]\<rparr>) c"

definition caller_drop :: "nat \<Rightarrow> ('q, 'r) call \<Rightarrow> ('q, 'r) client \<Rightarrow> ('q, 'r) client" where
  "caller_drop i ca c = put_call i (ca\<lparr>ca_dropped := True\<rparr>) c"

section \<open>The read loop\<close>

text \<open>The channel that would take a frame, if its call is registered and has not finished.\<close>

definition receiver_of :: "'r server_frame \<Rightarrow> ('q, 'r) client \<Rightarrow> ('q, 'r) call option" where
  "receiver_of f c =
     (if fst f \<in> set (cl_pending c) then
        (case map_of (cl_calls c) (fst f) of
           Some ca \<Rightarrow> if finished ca then None else Some ca
         | None \<Rightarrow> None)
      else None)"

definition read_frame_step :: "'r server_frame \<Rightarrow> ('q, 'r) client \<Rightarrow> ('q, 'r) client" where
  "read_frame_step f c =
     (let c' = c\<lparr>cl_inbox := cl_inbox c @ [f]\<rparr>
      in case receiver_of f c of
           None \<Rightarrow> c'
         | Some ca \<Rightarrow> put_call (fst f) (ca\<lparr>ca_queue := ca_queue ca @ [f]\<rparr>) c')"

text \<open>Sending into a full channel waits, and the read loop waits with it.\<close>

definition can_read :: "'r server_frame \<Rightarrow> ('q, 'r) client \<Rightarrow> bool" where
  "can_read f c =
     (cl_open c \<and> (case receiver_of f c of None \<Rightarrow> True | Some ca \<Rightarrow> length (ca_queue ca) < REPLY_QUEUE_DEPTH))"

definition read_end :: "('q, 'r) client \<Rightarrow> ('q, 'r) client" where
  "read_end c = c\<lparr>cl_open := False, cl_pending := []\<rparr>"

inductive client_step :: "('q, 'r) client \<Rightarrow> ('q, 'r) client \<Rightarrow> bool" where
  step_begin: "client_step c (begin_call kind body c)"
| step_sent: "map_of (cl_calls c) i = Some ca \<Longrightarrow> ca_state ca = CS_Sending \<Longrightarrow> client_step c (send_ok i ca c)"
| step_send_failed: "map_of (cl_calls c) i = Some ca \<Longrightarrow> ca_state ca = CS_Sending \<Longrightarrow>
    client_step c (send_failed i ca e c)"
| step_unary_take: "map_of (cl_calls c) i = Some ca \<Longrightarrow> ca_state ca = CS_Waiting \<Longrightarrow> ca_kind ca = Unary \<Longrightarrow>
    ca_queue ca \<noteq> [] \<Longrightarrow> client_step c (unary_take i ca c)"
| step_unary_closed: "map_of (cl_calls c) i = Some ca \<Longrightarrow> ca_state ca = CS_Waiting \<Longrightarrow> ca_kind ca = Unary \<Longrightarrow>
    ca_queue ca = [] \<Longrightarrow> i \<notin> set (cl_pending c) \<Longrightarrow> client_step c (unary_closed i ca c)"
| step_stream_take: "map_of (cl_calls c) i = Some ca \<Longrightarrow> ca_state ca = CS_Waiting \<Longrightarrow> ca_kind ca = Stream \<Longrightarrow>
    ca_queue ca \<noteq> [] \<Longrightarrow> is_end (snd (hd (ca_queue ca))) \<or> ca_dropped ca \<or> length (ca_out ca) < REPLY_QUEUE_DEPTH \<Longrightarrow>
    client_step c (stream_take i ca c)"
| step_stream_closed: "map_of (cl_calls c) i = Some ca \<Longrightarrow> ca_state ca = CS_Waiting \<Longrightarrow> ca_kind ca = Stream \<Longrightarrow>
    ca_queue ca = [] \<Longrightarrow> i \<notin> set (cl_pending c) \<Longrightarrow> client_step c (stream_closed i ca c)"
| step_caller_take: "map_of (cl_calls c) i = Some ca \<Longrightarrow> ca_out ca \<noteq> [] \<Longrightarrow> \<not> ca_dropped ca \<Longrightarrow>
    client_step c (caller_take i ca c)"
| step_caller_drop: "map_of (cl_calls c) i = Some ca \<Longrightarrow> client_step c (caller_drop i ca c)"

inductive client_run :: "('q, 'r) client \<Rightarrow> ('q, 'r) client \<Rightarrow> bool" where
  run_step: "client_step c c' \<Longrightarrow> client_run c c'"
| run_read: "can_read f c \<Longrightarrow> client_run c (read_frame_step f c)"
| run_end: "cl_open c \<Longrightarrow> client_run c (read_end c)"

section \<open>Connecting and cancelling\<close>

definition connect_hello :: "string \<Rightarrow> 'q client_body" where
  "connect_hello client_version =
     B_Hello \<lparr>hr_protocol_version = PROTOCOL_VERSION, hr_client_name = ''netdiag-slint'', hr_client_version = client_version\<rparr>"

text \<open>
  The handshake is the first call on the connection; \<open>connect\<close> returns the client only with the
  daemon's greeting. \<open>show_body\<close> is the debug rendering of a reply.
\<close>

definition client_connecting :: "string \<Rightarrow> ('q, 'r) client" where
  "client_connecting client_version = begin_call Unary (connect_hello client_version) client_new"

definition connect_result :: "('r server_body \<Rightarrow> string) \<Rightarrow> 'r call_result \<Rightarrow> string + hello_response" where
  "connect_result show_body r =
     (case r of
        CR_Reply f \<Rightarrow>
          (case snd f of
             R_Hello h \<Rightarrow> Inr h
           | other \<Rightarrow> Inl (''expected a Hello response, got '' @ show_body other))
      | CR_Failed e \<Rightarrow> Inl e
      | CR_Ended \<Rightarrow> Inl [])"

definition cancel_call :: "nat \<Rightarrow> ('q, 'r) client \<Rightarrow> ('q, 'r) client" where
  "cancel_call target c = begin_call Unary (B_Cancel target) c"

section \<open>Every frame reaches the call it answers\<close>

definition frames_for :: "nat \<Rightarrow> 'r server_frame list \<Rightarrow> 'r server_frame list" where
  "frames_for i fs = filter (\<lambda>f. fst f = i) fs"

definition call_ok :: "'r server_frame list \<Rightarrow> bool \<Rightarrow> nat \<Rightarrow> ('q, 'r) call \<Rightarrow> bool" where
  "call_ok inbox registered i ca =
     (ca_from ca \<le> length inbox \<and> cf_id (ca_frame ca) = i \<and> length (ca_queue ca) \<le> REPLY_QUEUE_DEPTH \<and>
      (\<exists>rest. frames_for i (drop (ca_from ca) inbox) = ca_taken ca @ ca_queue ca @ rest \<and>
         (registered \<and> \<not> finished ca \<longrightarrow> rest = [])) \<and>
      (\<exists>lost. ca_taken ca = ca_got ca @ ca_out ca @ lost \<and> (\<not> finished ca \<longrightarrow> lost = [])) \<and>
      (ca_kind ca = Unary \<and> \<not> finished ca \<longrightarrow> ca_taken ca = []) \<and>
      (\<forall>f. ca_state ca = CS_Finished (CR_Reply f) \<longrightarrow> ca_taken ca = [f]))"

definition client_wf :: "('q, 'r) client \<Rightarrow> bool" where
  "client_wf c =
     (0 < cl_next_id c \<and>
      (\<forall>i ca. map_of (cl_calls c) i = Some ca \<longrightarrow>
         0 < i \<and> i < cl_next_id c \<and> call_ok (cl_inbox c) (i \<in> set (cl_pending c)) i ca) \<and>
      distinct (map cf_id (cl_sent c)) \<and>
      (\<forall>fr. fr \<in> set (cl_sent c) \<longrightarrow>
         (\<exists>ca. map_of (cl_calls c) (cf_id fr) = Some ca \<and> ca_state ca \<noteq> CS_Sending)))"

lemma call_ok_weaken: "call_ok inbox r i ca \<Longrightarrow> (r' \<longrightarrow> r) \<Longrightarrow> call_ok inbox r' i ca"
  by (auto simp: call_ok_def)

lemma client_wf_call:
  "client_wf c \<Longrightarrow> map_of (cl_calls c) i = Some ca \<Longrightarrow> call_ok (cl_inbox c) (i \<in> set (cl_pending c)) i ca"
  by (simp add: client_wf_def)

text \<open>Changing one call, and forgetting registrations, keeps the rest.\<close>

lemma client_wf_put:
  assumes "client_wf c" and "map_of (cl_calls c) i = Some ca"
    and "call_ok (cl_inbox c) (i \<in> set (cl_pending c)) i ca'"
    and "cl_calls c' = hm_insert i ca' (cl_calls c)" and "cl_next_id c' = cl_next_id c"
    and "cl_inbox c' = cl_inbox c" and "set (cl_pending c') \<subseteq> set (cl_pending c)"
    and "cl_sent c' = cl_sent c"
    and "ca_state ca' = CS_Sending \<Longrightarrow> ca_state ca = CS_Sending"
  shows "client_wf c'"
proof -
  have calls: "0 < j \<and> j < cl_next_id c' \<and> call_ok (cl_inbox c') (j \<in> set (cl_pending c')) j cb"
    if "map_of (cl_calls c') j = Some cb" for j cb
  proof -
    have "call_ok (cl_inbox c) (j \<in> set (cl_pending c)) j cb \<and> 0 < j \<and> j < cl_next_id c"
      using that assms(1,2,3,4) by (auto simp: client_wf_def hm.lookup_insert split: if_splits)
    then show ?thesis using assms(5,6,7) call_ok_weaken by (metis subsetD)
  qed
  have "\<exists>cb. map_of (cl_calls c') (cf_id fr) = Some cb \<and> ca_state cb \<noteq> CS_Sending"
    if fr: "fr \<in> set (cl_sent c')" for fr
  proof -
    obtain cb where "map_of (cl_calls c) (cf_id fr) = Some cb" "ca_state cb \<noteq> CS_Sending"
      using fr assms(1,8) by (auto simp: client_wf_def)
    with assms(2,4,9) show ?thesis by (cases "cf_id fr = i") (auto simp: hm.lookup_insert)
  qed
  with calls assms(1,5,8) show ?thesis by (simp add: client_wf_def)
qed

lemma call_ok_take:
  assumes "call_ok inbox r i ca" and "ca_queue ca = f # fs" and "\<not> finished ca"
  shows "ca_kind ca = Unary \<Longrightarrow>
      call_ok inbox r i (ca\<lparr>ca_state := CS_Finished (unary_result f), ca_queue := fs, ca_taken := ca_taken ca @ [f]\<rparr>)"
    and "call_ok inbox r i (ca\<lparr>ca_queue := fs, ca_taken := ca_taken ca @ [f], ca_state := CS_Finished CR_Ended\<rparr>)"
    and "ca_kind ca = Stream \<Longrightarrow>
      call_ok inbox r i (ca\<lparr>ca_queue := fs, ca_taken := ca_taken ca @ [f], ca_out := ca_out ca @ [f]\<rparr>)"
  using assms by (auto simp: call_ok_def finished_def unary_result_def split: call_state.splits option.splits)

lemma call_ok_finish:
  assumes "call_ok inbox r i ca" and "\<not> finished ca"
  shows "call_ok inbox r i (ca\<lparr>ca_state := CS_Finished (CR_Failed e)\<rparr>)"
    and "call_ok inbox r i (ca\<lparr>ca_state := CS_Finished CR_Ended\<rparr>)"
    and "call_ok inbox r i (ca\<lparr>ca_state := CS_Waiting\<rparr>)"
  using assms by (auto simp: call_ok_def finished_def split: call_state.splits)

lemma call_ok_caller:
  assumes "call_ok inbox r i ca"
  shows "ca_out ca = f # fs \<Longrightarrow> call_ok inbox r i (ca\<lparr>ca_out := fs, ca_got := ca_got ca @ [f]\<rparr>)"
    and "call_ok inbox r i (ca\<lparr>ca_dropped := True\<rparr>)"
  using assms by (auto simp: call_ok_def finished_def split: call_state.splits)

lemma call_ok_receive:
  assumes "call_ok inbox r i ca"
  shows "fst f \<noteq> i \<or> \<not> r \<or> finished ca \<Longrightarrow> call_ok (inbox @ [f]) r i ca"
    and "fst f = i \<Longrightarrow> r \<Longrightarrow> \<not> finished ca \<Longrightarrow> length (ca_queue ca) < REPLY_QUEUE_DEPTH \<Longrightarrow>
      call_ok (inbox @ [f]) r i (ca\<lparr>ca_queue := ca_queue ca @ [f]\<rparr>)"
  using assms by (auto simp: call_ok_def frames_for_def finished_def split: call_state.splits)

lemmas client_op_defs = put_call_def forget_def send_failed_def unary_take_def unary_closed_def stream_take_def
  stream_closed_def caller_take_def caller_drop_def

lemma client_wf_begin:
  assumes "client_wf c"
  shows "client_wf (begin_call kind body c)"
proof -
  let ?i = "cl_next_id c"
  have none: "map_of (cl_calls c) ?i = None"
    using assms by (cases "map_of (cl_calls c) ?i") (auto simp: client_wf_def)
  have sent: "cf_id fr \<noteq> ?i" if "fr \<in> set (cl_sent c)" for fr
    using assms that none by (auto simp: client_wf_def)
  have "call_ok (cl_inbox c) r ?i \<lparr>ca_kind = kind, ca_frame = \<lparr>cf_id = ?i, cf_body = Some body\<rparr>,
      ca_from = length (cl_inbox c), ca_state = CS_Sending, ca_queue = [], ca_taken = [], ca_out = [],
      ca_got = [], ca_dropped = False\<rparr>" for r
    by (simp add: call_ok_def frames_for_def)
  with assms sent show ?thesis
    by (auto simp: client_wf_def begin_call_def Let_def hm.lookup_insert less_SucI)
qed

lemma client_wf_sent:
  assumes "client_wf c" and "map_of (cl_calls c) i = Some ca" and "ca_state ca = CS_Sending"
  shows "client_wf (send_ok i ca c)"
proof -
  have "\<not> finished ca" using assms(3) by (simp add: finished_def)
  with client_wf_call [OF assms(1,2)]
  have "call_ok (cl_inbox c) (i \<in> set (cl_pending c)) i (ca\<lparr>ca_state := CS_Waiting\<rparr>)"
    by (rule call_ok_finish(3))
  then have wf: "client_wf (put_call i (ca\<lparr>ca_state := CS_Waiting\<rparr>) c)"
    by (rule client_wf_put [OF assms(1,2)]) (simp_all add: put_call_def)
  have i: "cf_id (ca_frame ca) = i" using client_wf_call [OF assms(1,2)] by (simp add: call_ok_def)
  have "i \<notin> cf_id ` set (cl_sent c)" using assms by (auto simp: client_wf_def)
  with wf i show ?thesis by (auto simp: client_wf_def send_ok_def put_call_def hm.lookup_insert)
qed

lemma client_wf_step:
  assumes wf: "client_wf c" and "client_step c c'"
  shows "client_wf c'"
  using assms(2)
proof cases
  case (step_begin kind body)
  with wf show ?thesis by (simp add: client_wf_begin)
next
  case (step_sent i ca)
  with wf show ?thesis by (simp add: client_wf_sent)
next
  case (step_send_failed i ca e)
  note ok = client_wf_call [OF wf step_send_failed(2)]
  have nf: "\<not> finished ca" using step_send_failed by (simp add: finished_def)
  show ?thesis
    unfolding step_send_failed(1)
    by (rule client_wf_put [OF wf step_send_failed(2) call_ok_finish(1) [OF ok nf, of e]])
      (auto simp: client_op_defs Let_def split: call_kind.split)
next
  case (step_unary_take i ca)
  note ok = client_wf_call [OF wf step_unary_take(2)]
  obtain f fs where q: "ca_queue ca = f # fs" using step_unary_take by (cases "ca_queue ca") auto
  have nf: "\<not> finished ca" using step_unary_take by (simp add: finished_def)
  show ?thesis
    unfolding step_unary_take(1)
    by (rule client_wf_put [OF wf step_unary_take(2) call_ok_take(1) [OF ok q nf step_unary_take(4)]]) (auto simp: client_op_defs q)
next
  case (step_unary_closed i ca)
  note ok = client_wf_call [OF wf step_unary_closed(2)]
  have nf: "\<not> finished ca" using step_unary_closed by (simp add: finished_def)
  show ?thesis
    unfolding step_unary_closed(1)
    by (rule client_wf_put [OF wf step_unary_closed(2) call_ok_finish(1) [OF ok nf]]) (auto simp: client_op_defs)
next
  case (step_stream_take i ca)
  note ok = client_wf_call [OF wf step_stream_take(2)]
  obtain f fs where q: "ca_queue ca = f # fs" using step_stream_take by (cases "ca_queue ca") auto
  have nf: "\<not> finished ca" using step_stream_take by (simp add: finished_def)
  note take = call_ok_take(2) [OF ok q nf] call_ok_take(3) [OF ok q nf step_stream_take(4)]
  show ?thesis
  proof (cases "is_end (snd f) \<or> ca_dropped ca")
    case True
    then show ?thesis
      unfolding step_stream_take(1)
      by (intro client_wf_put [OF wf step_stream_take(2) take(1)]) (auto simp: client_op_defs Let_def q)
  next
    case False
    with step_stream_take(3) show ?thesis
      unfolding step_stream_take(1)
      by (intro client_wf_put [OF wf step_stream_take(2) take(2)]) (auto simp: client_op_defs Let_def q)
  qed
next
  case (step_stream_closed i ca)
  note ok = client_wf_call [OF wf step_stream_closed(2)]
  have nf: "\<not> finished ca" using step_stream_closed by (simp add: finished_def)
  show ?thesis
    unfolding step_stream_closed(1)
    by (rule client_wf_put [OF wf step_stream_closed(2) call_ok_finish(2) [OF ok nf]]) (auto simp: client_op_defs)
next
  case (step_caller_take i ca)
  note ok = client_wf_call [OF wf step_caller_take(2)]
  obtain f fs where q: "ca_out ca = f # fs" using step_caller_take by (cases "ca_out ca") auto
  show ?thesis
    unfolding step_caller_take(1)
    by (rule client_wf_put [OF wf step_caller_take(2) call_ok_caller(1) [OF ok q]]) (auto simp: client_op_defs q)
next
  case (step_caller_drop i ca)
  note ok = client_wf_call [OF wf step_caller_drop(2)]
  show ?thesis
    unfolding step_caller_drop(1)
    by (rule client_wf_put [OF wf step_caller_drop(2) call_ok_caller(2) [OF ok]]) (auto simp: client_op_defs)
qed

lemma client_wf_read:
  assumes wf: "client_wf c" and "can_read f c"
  shows "client_wf (read_frame_step f c)"
proof -
  let ?c = "read_frame_step f c"
  have fields: "cl_next_id ?c = cl_next_id c" "cl_pending ?c = cl_pending c" "cl_sent ?c = cl_sent c"
    "cl_inbox ?c = cl_inbox c @ [f]"
    by (auto simp: read_frame_step_def put_call_def Let_def split: option.split)
  have one: "\<exists>ca. map_of (cl_calls c) j = Some ca \<and> ca_state cb = ca_state ca \<and>
      call_ok (cl_inbox c @ [f]) (j \<in> set (cl_pending c)) j cb"
    if cb: "map_of (cl_calls ?c) j = Some cb" for j cb
  proof (cases "j = fst f \<and> receiver_of f c \<noteq> None")
    case True
    then obtain ca where ca: "receiver_of f c = Some ca" by auto
    then have r: "map_of (cl_calls c) (fst f) = Some ca" "fst f \<in> set (cl_pending c)" "\<not> finished ca"
      by (auto simp: receiver_of_def split: if_splits option.splits)
    have "length (ca_queue ca) < REPLY_QUEUE_DEPTH" using assms(2) ca by (simp add: can_read_def)
    from call_ok_receive(2) [OF client_wf_call [OF wf r(1)], of f] r this cb ca True show ?thesis
      by (auto simp: read_frame_step_def put_call_def hm.lookup_insert)
  next
    case False
    then have ca: "map_of (cl_calls c) j = Some cb"
      using cb by (auto simp: read_frame_step_def put_call_def hm.lookup_insert Let_def split: option.splits if_splits)
    have "fst f \<noteq> j \<or> j \<notin> set (cl_pending c) \<or> finished cb"
      using False ca by (auto simp: receiver_of_def split: if_splits)
    from call_ok_receive(1) [OF client_wf_call [OF wf ca] this] ca show ?thesis by simp
  qed
  have kept: "\<exists>cb. map_of (cl_calls ?c) j = Some cb \<and> ca_state cb = ca_state ca"
    if "map_of (cl_calls c) j = Some ca" for j ca
    using that by (auto simp: read_frame_step_def put_call_def hm.lookup_insert receiver_of_def Let_def
        split: option.split if_splits)
  have calls: "0 < j \<and> j < cl_next_id c \<and> call_ok (cl_inbox c @ [f]) (j \<in> set (cl_pending c)) j cb"
    if "map_of (cl_calls ?c) j = Some cb" for j cb
    using one [OF that] wf unfolding client_wf_def by blast
  have sent: "\<exists>ca. map_of (cl_calls ?c) (cf_id fr) = Some ca \<and> ca_state ca \<noteq> CS_Sending"
    if fr: "fr \<in> set (cl_sent c)" for fr
  proof -
    obtain ca where ca: "map_of (cl_calls c) (cf_id fr) = Some ca" "ca_state ca \<noteq> CS_Sending"
      using wf fr unfolding client_wf_def by blast
    from kept [OF ca(1)] ca(2) show ?thesis by auto
  qed
  show ?thesis
    unfolding client_wf_def fields using calls sent wf unfolding client_wf_def by blast
qed

lemma client_wf_end: "client_wf c \<Longrightarrow> client_wf (read_end c)"
  using call_ok_weaken [of "cl_inbox c" _ _ _ False] unfolding client_wf_def read_end_def by simp blast

lemma client_wf_run: "client_wf c \<Longrightarrow> client_run c c' \<Longrightarrow> client_wf c'"
  by (erule client_run.cases) (auto intro: client_wf_step client_wf_read client_wf_end)

interpretation client_machine: invariant_machine client_new client_run client_wf
  by unfold_locales (simp add: client_wf_def client_new_def, rule client_wf_run)

section \<open>Facts about addresses\<close>

lemma write_path_spec:
  "i + length bs < length path \<Longrightarrow>
     write_path i bs path = take (Suc i) path @ bs @ drop (Suc i + length bs) path"
proof (induction bs arbitrary: i path)
  case (Cons b bs)
  then have "take (Suc (Suc i)) (path[Suc i := b]) = take (Suc i) path @ [b]"
    by (simp add: take_Suc_conv_app_nth)
  with Cons show ?case by simp
qed simp

lemma abstract_address_layout:
  assumes "length name < 107"
  shows "\<exists>a. abstract_address name = Inr (a, 3 + length name) \<and> sun_family a = AF_UNIX \<and>
           sun_path a = 0 # name @ replicate (107 - length name) 0"
proof -
  have "write_path 0 name (replicate 108 0) = 0 # name @ replicate (107 - length name) 0"
  proof -
    have z: "replicate 108 (0 :: u8) = 0 # replicate 107 0"
      using replicate_Suc [of 107 "0 :: u8"] by simp
    show ?thesis using assms write_path_spec [of 0 name "0 # replicate 107 0"] by (simp add: z)
  qed
  with assms show ?thesis by (simp add: abstract_address_def)
qed

section \<open>Properties\<close>

text \<open>
  C5: replies reach the call they answer. However the calls, the tasks and the connection
  interleave, the frames a call has taken from its reply channel and those still queued there are,
  in order and without a gap, the first of the frames tagged with its id that arrived since it was
  registered, and all of them as long as the call is registered and has not finished; what the
  caller of a stream got or can still get is what its task took; a unary reply is the first such
  frame; the channel never exceeds its depth; and no two frames ever sent share an id.
\<close>

theorem replies_routed:
  assumes "reach client_run client_new c" and "map_of (cl_calls c) i = Some ca"
  shows "distinct (map cf_id (cl_sent c)) \<and> cf_id (ca_frame ca) = i \<and>
         length (ca_queue ca) \<le> REPLY_QUEUE_DEPTH \<and>
         (\<exists>rest. frames_for i (drop (ca_from ca) (cl_inbox c)) = ca_taken ca @ ca_queue ca @ rest \<and>
            (i \<in> set (cl_pending c) \<and> \<not> finished ca \<longrightarrow> rest = [])) \<and>
         (\<exists>lost. ca_taken ca = ca_got ca @ ca_out ca @ lost \<and> (\<not> finished ca \<longrightarrow> lost = [])) \<and>
         (\<forall>f. ca_state ca = CS_Finished (CR_Reply f) \<longrightarrow> ca_taken ca = [f])"
proof -
  have "client_wf c" by (rule client_machine.reach_inv [OF assms(1)])
  from client_wf_call [OF this assms(2)] this show ?thesis by (simp add: call_ok_def client_wf_def)
qed

section \<open>A stream nobody reads\<close>

text \<open>
  A client with one open stream: \<open>n\<close> frames wait in the caller's channel and \<open>m\<close> in the reply
  channel.
\<close>

definition waiting_call :: "'r server_frame \<Rightarrow> nat \<Rightarrow> nat \<Rightarrow> (nat, 'r) call" where
  "waiting_call f n m =
     \<lparr>ca_kind = Stream, ca_frame = \<lparr>cf_id = 1, cf_body = Some (B_WatchNetwork 0)\<rparr>, ca_from = 0,
      ca_state = CS_Waiting, ca_queue = replicate m f, ca_taken = replicate n f, ca_out = replicate n f,
      ca_got = [], ca_dropped = False\<rparr>"

definition waiting_client :: "'r server_frame \<Rightarrow> nat \<Rightarrow> nat \<Rightarrow> (nat, 'r) client" where
  "waiting_client f n m =
     \<lparr>cl_next_id = 2, cl_pending = [1], cl_calls = [(1, waiting_call f n m)],
      cl_sent = [\<lparr>cf_id = 1, cf_body = Some (B_WatchNetwork 0)\<rparr>], cl_inbox = replicate (n + m) f, cl_open = True\<rparr>"

lemma waiting_start: "reach client_run client_new (waiting_client f 0 0)"
proof -
  let ?c = "begin_call Stream (B_WatchNetwork 0) client_new"
  let ?ca = "(waiting_call f 0 0)\<lparr>ca_state := CS_Sending\<rparr>"
  have "client_run client_new ?c" by (intro client_run.run_step client_step.step_begin)
  moreover have "client_run ?c (send_ok 1 ?ca ?c)"
    by (intro client_run.run_step client_step.step_sent)
      (simp_all add: begin_call_def client_new_def waiting_call_def hm_insert_def)
  moreover have "send_ok 1 ?ca ?c = waiting_client f 0 0"
    by (simp add: send_ok_def put_call_def begin_call_def client_new_def waiting_client_def waiting_call_def hm_insert_def)
  ultimately show ?thesis by (metis reach_init reach_step)
qed

lemma waiting_read:
  assumes "fst f = 1" and "m < REPLY_QUEUE_DEPTH"
  shows "client_run (waiting_client f n m) (waiting_client f n (Suc m))"
proof -
  have r: "receiver_of f (waiting_client f n m) = Some (waiting_call f n m)"
    using assms(1) by (simp add: receiver_of_def waiting_client_def finished_def) (simp add: waiting_call_def)
  have "can_read f (waiting_client f n m)"
    using assms(2) by (simp add: can_read_def r) (simp add: waiting_client_def waiting_call_def)
  moreover have "read_frame_step f (waiting_client f n m) = waiting_client f n (Suc m)"
    using assms(1)
    by (simp add: read_frame_step_def r put_call_def)
      (simp add: waiting_client_def waiting_call_def hm_insert_def replicate_append_same)
  ultimately show ?thesis using client_run.run_read by metis
qed

lemma waiting_forward:
  assumes "\<not> is_end (snd f)" and "n < REPLY_QUEUE_DEPTH"
  shows "client_run (waiting_client f n (Suc m)) (waiting_client f (Suc n) m)"
proof -
  have "client_step (waiting_client f n (Suc m)) (stream_take 1 (waiting_call f n (Suc m)) (waiting_client f n (Suc m)))"
    by (rule client_step.step_stream_take)
      (use assms(2) in \<open>simp_all add: waiting_client_def waiting_call_def\<close>)
  moreover have "stream_take 1 (waiting_call f n (Suc m)) (waiting_client f n (Suc m)) = waiting_client f (Suc n) m"
    using assms(1) by (simp add: stream_take_def put_call_def waiting_client_def waiting_call_def hm_insert_def
        replicate_append_same)
  ultimately show ?thesis by (metis client_run.run_step)
qed

text \<open>
  The client promises that a slow call never blocks another one. A stream whose caller does not take
  its frames does: once both channels are full the read loop waits for this stream, whatever other
  calls wait for.
\<close>

lemma slow_stream_blocks:
  fixes f :: "'r server_frame"
  assumes "fst f = 1" and "\<not> is_end (snd f)"
  defines "c \<equiv> waiting_client f REPLY_QUEUE_DEPTH REPLY_QUEUE_DEPTH"
  shows "reach client_run client_new c \<and> \<not> can_read f c \<and> (\<forall>c'. client_step c c' \<longrightarrow> \<not> can_read f c')"
proof -
  have "n \<le> REPLY_QUEUE_DEPTH \<Longrightarrow> reach client_run client_new (waiting_client f n 0)" for n
  proof (induction n)
    case (Suc n)
    have "client_run (waiting_client f n 0) (waiting_client f n (Suc 0))"
      using assms(1) by (intro waiting_read) (simp_all add: REPLY_QUEUE_DEPTH_def)
    moreover have "client_run (waiting_client f n (Suc 0)) (waiting_client f (Suc n) 0)"
      using Suc.prems assms(2) by (intro waiting_forward) simp_all
    ultimately show ?case using Suc by (meson Suc_leD reach_step)
  qed (rule waiting_start)
  then have out: "reach client_run client_new (waiting_client f REPLY_QUEUE_DEPTH 0)" by simp
  have "m \<le> REPLY_QUEUE_DEPTH \<Longrightarrow> reach client_run client_new (waiting_client f REPLY_QUEUE_DEPTH m)" for m
  proof (induction m)
    case (Suc m)
    then have "client_run (waiting_client f REPLY_QUEUE_DEPTH m) (waiting_client f REPLY_QUEUE_DEPTH (Suc m))"
      using assms(1) by (intro waiting_read) simp_all
    with Suc show ?case by (meson Suc_leD reach_step)
  qed (rule out)
  then have "reach client_run client_new c" by (simp add: c_def)
  moreover have "\<not> can_read f c"
    using assms(1) by (simp add: c_def can_read_def receiver_of_def waiting_client_def finished_def)
      (simp add: waiting_call_def)
  moreover have "\<not> can_read f c'" if "client_step c c'" for c'
    using that assms
    by cases (auto simp: c_def waiting_client_def waiting_call_def can_read_def receiver_of_def finished_def
        begin_call_def client_op_defs hm_insert_def Let_def split: if_splits)
  ultimately show ?thesis by blast
qed

theorem replies_routed_witness:
  "frames_for 1 (cl_inbox (waiting_client (1, R_Message (0::nat)) 0 1)) = [(1, R_Message 0)]"
proof -
  have "reach client_run client_new (waiting_client (1, R_Message (0::nat)) 0 1)"
    using reach_step [OF waiting_start waiting_read [of "(1, R_Message 0)" 0 0]] by (simp add: REPLY_QUEUE_DEPTH_def)
  moreover have "map_of (cl_calls (waiting_client (1, R_Message (0::nat)) 0 1)) 1 = Some (waiting_call (1, R_Message 0) 0 1)"
    by (simp add: waiting_client_def)
  ultimately show ?thesis
    using replies_routed [of "waiting_client (1, R_Message (0::nat)) 0 1" 1 "waiting_call (1, R_Message 0) 0 1"]
    by (auto simp: waiting_call_def waiting_client_def finished_def)
qed

end
