(* ===== verification/Link.thy ===== *)
theory Link
  imports Client
begin

text \<open>
  The client and one session of the daemon joined by a connection: the daemon reads the client's
  frames in the order they were sent, the client reads the daemon's frames in the order they were
  queued (both are what the frame codec provides over a stream socket). The counters say how far
  each side has read. What the session demands of its client, the client of this repository
  provides.
\<close>

section \<open>The joint system\<close>

record ('q, 'r) link =
  ln_client :: "('q, 'r) client"
  ln_session :: "'r session"
  ln_read :: nat
  ln_recv :: nat

definition link_start :: "string \<Rightarrow> daemon \<Rightarrow> ('q, 'r) link" where
  "link_start client_version d =
     (let c = client_connecting client_version
      in \<lparr>ln_client = send_ok 1 (the (map_of (cl_calls c) 1)) c, ln_session = session_start d, ln_read = 0, ln_recv = 0\<rparr>)"

inductive link_step ::
  "(codec_error \<Rightarrow> string) \<Rightarrow> (daemon \<Rightarrow> hello_request \<Rightarrow> hello_response) \<Rightarrow> ('q, 'r) link \<Rightarrow> ('q, 'r) link \<Rightarrow> bool"
  for show_codec :: "codec_error \<Rightarrow> string" and greet :: "daemon \<Rightarrow> hello_request \<Rightarrow> hello_response" where
  link_client: "client_step (ln_client l) c \<Longrightarrow> link_step show_codec greet l (l\<lparr>ln_client := c\<rparr>)"
| link_request: "s_pc (ln_session l) = Reading \<Longrightarrow> ln_read l < length (cl_sent (ln_client l)) \<Longrightarrow>
    link_step show_codec greet l
      (l\<lparr>ln_session := serve_read show_codec greet (Inr (Some (cl_sent (ln_client l) ! ln_read l))) (ln_session l),
         ln_read := ln_read l + 1\<rparr>)"
| link_server: "session_step (\<lambda>_ (_ :: 'q client_frame). False) show_codec greet (ln_session l) s \<Longrightarrow>
    link_step show_codec greet l (l\<lparr>ln_session := s\<rparr>)"
| link_reply: "ln_recv l < length (s_outbox (ln_session l)) \<Longrightarrow>
    can_read (s_outbox (ln_session l) ! ln_recv l) (ln_client l) \<Longrightarrow>
    link_step show_codec greet l
      (l\<lparr>ln_client := read_frame_step (s_outbox (ln_session l) ! ln_recv l) (ln_client l), ln_recv := ln_recv l + 1\<rparr>)"
| link_lost: "cl_open (ln_client l) \<Longrightarrow> link_step show_codec greet l (l\<lparr>ln_client := read_end (ln_client l)\<rparr>)"

section \<open>What a session keeps\<close>

lemma greeted_serve_body: "s_greeted s \<Longrightarrow> s_greeted (serve_body greet i b s)"
  by (cases b) (auto simp: serve_body_def spawn_unary_def spawn_stream_def split: prod.splits dest!: cancel_streamD)

lemma greeted_serve_read: "s_greeted s \<Longrightarrow> s_greeted (serve_read show_codec greet r s)"
  by (auto simp: serve_read_def serve_frame_def close_session_def registry_abort_all_def greeted_serve_body
      split: sum.splits option.splits)

lemma greeted_step: "session_step accept show_codec greet s t \<Longrightarrow> s_greeted s \<Longrightarrow> s_greeted t"
  by (erule session_step.cases)
    (auto simp: greeted_serve_read finish_insert_def unary_complete_def stream_item_def stream_return_def stream_remove_def
      capture_open_def Let_def split: sum.splits option.splits prod.splits)

lemma ids_serve_body: "set (ids (serve_body greet i b s)) \<subseteq> insert i (set (ids s))"
proof -
  let ?t = "serve_body greet i b s"
  consider "s_tasks ?t = s_tasks s" | target where "s_tasks ?t = s_tasks (snd (cancel_stream target s))"
    | "?t = reply_error i (error_invalid hello_first) s" | "?t = spawn_stream i s"
    using serve_body_cases [of greet i b s] by blast
  then show ?thesis
  proof cases
    case (2 target)
    then have "ids ?t = ids (snd (cancel_stream target s))" by (simp add: ids_def)
    then show ?thesis by (auto simp: ids_cancel)
  next
    case 4
    show ?thesis unfolding 4 by (simp add: spawn_stream_def ids_def)
  qed (auto simp: ids_def)
qed

lemma ids_serve_read:
  "set (ids (serve_read show_codec greet (Inr (Some frame)) s)) \<subseteq> insert (cf_id frame) (set (ids s))"
  using ids_serve_body [of greet "cf_id frame" _ "s\<lparr>s_handled := s_handled s + 1\<rparr>"]
  by (auto simp: serve_read_def serve_frame_def split: option.split)

lemma ids_other_step: "session_step (\<lambda>_ _. False) show_codec greet s t \<Longrightarrow> ids t = ids s"
  by (erule session_step.cases)
    (auto simp: serve_read_def close_session_def registry_abort_all_def finish_insert_def stream_remove_def Let_def
      split: sum.splits option.splits)

definition closed_empty :: "'r session \<Rightarrow> bool" where
  "closed_empty s = (s_pc s = Closed \<longrightarrow> s_streams s = [])"

lemma serve_body_open: "s_pc s = Reading \<Longrightarrow> s_pc (serve_body greet i b s) \<noteq> Closed"
  using serve_body_cases [of greet i b s] by (auto simp: spawn_stream_def)

lemma closed_empty_step:
  fixes s t :: "'r session"
  assumes "closed_empty s" and "session_step accept show_codec greet s t"
  shows "closed_empty t"
  using assms(2)
proof cases
  case (step_frame frame)
  then show ?thesis by (auto simp: closed_empty_def serve_read_def serve_frame_def serve_body_open split: option.split)
next
  case (step_insert i h)
  then show ?thesis
    by (auto simp: closed_empty_def finish_insert_def Let_def split: sum.split option.split)
qed (use assms(1) in \<open>auto simp: closed_empty_def serve_read_def close_session_def registry_abort_all_def
    stream_remove_def registry_remove_def Let_def\<close>)

interpretation closed_machine:
  invariant_machine "session_start d" "session_step accept show_codec greet" closed_empty
  for d and accept :: "'r session \<Rightarrow> 'q client_frame \<Rightarrow> bool" and show_codec greet
  by unfold_locales (simp add: closed_empty_def session_start_def, rule closed_empty_step)

section \<open>What a client keeps\<close>

lemma client_step_sent: "client_step c c' \<Longrightarrow> \<exists>more. cl_sent c' = cl_sent c @ more"
  by (erule client_step.cases) (auto simp: begin_call_def send_ok_def client_op_defs Let_def split: call_kind.split)

lemma client_step_calls:
  "client_step c c' \<Longrightarrow> map_of (cl_calls c) i \<noteq> None \<Longrightarrow> map_of (cl_calls c') i \<noteq> None"
  by (erule client_step.cases)
    (auto simp: begin_call_def send_ok_def client_op_defs Let_def hm.lookup_insert split: call_kind.split)

lemma read_frame_step_sent [simp]: "cl_sent (read_frame_step f c) = cl_sent c"
  by (simp add: read_frame_step_def put_call_def Let_def split: option.split)

section \<open>The client keeps its side of the contract\<close>

definition link_wf ::
  "(codec_error \<Rightarrow> string) \<Rightarrow> (daemon \<Rightarrow> hello_request \<Rightarrow> hello_response) \<Rightarrow> string \<Rightarrow> daemon \<Rightarrow> ('q, 'r) link \<Rightarrow> bool" where
  "link_wf show_codec greet v d l =
     (client_wf (ln_client l) \<and> ln_read l \<le> length (cl_sent (ln_client l)) \<and>
      (\<exists>more. cl_sent (ln_client l) = \<lparr>cf_id = 1, cf_body = Some (connect_hello v)\<rparr> # more) \<and>
      set (ids (ln_session l)) \<subseteq> cf_id ` set (take (ln_read l) (cl_sent (ln_client l))) \<and>
      (0 < ln_read l \<longrightarrow> s_greeted (ln_session l)) \<and>
      reach (session_step (fresh_stream_id :: 'r session \<Rightarrow> 'q client_frame \<Rightarrow> bool) show_codec greet)
        (session_start d) (ln_session l))"

lemma link_wf_client:
  assumes "link_wf show_codec greet v d l" and "client_wf c" and "\<exists>more. cl_sent c = cl_sent (ln_client l) @ more"
  shows "link_wf show_codec greet v d (l\<lparr>ln_client := c\<rparr>)"
proof -
  obtain more where more: "cl_sent c = cl_sent (ln_client l) @ more" using assms(3) by blast
  have "take (ln_read l) (cl_sent c) = take (ln_read l) (cl_sent (ln_client l))"
    using assms(1) by (simp add: more link_wf_def)
  with assms(1,2) more show ?thesis by (auto simp: link_wf_def)
qed

lemma link_wf_request:
  fixes l :: "('q, 'r) link"
  assumes wf: "link_wf show_codec greet v d l" and pc: "s_pc (ln_session l) = Reading"
    and more: "ln_read l < length (cl_sent (ln_client l))"
  defines "frame \<equiv> cl_sent (ln_client l) ! ln_read l"
  shows "link_wf show_codec greet v d
    (l\<lparr>ln_session := serve_read show_codec greet (Inr (Some frame)) (ln_session l), ln_read := ln_read l + 1\<rparr>)"
proof -
  let ?s = "ln_session l" and ?sent = "cl_sent (ln_client l)"
  let ?t = "serve_read show_codec greet (Inr (Some frame)) ?s"
  have taken: "take (Suc (ln_read l)) ?sent = take (ln_read l) ?sent @ [frame]"
    using more by (simp add: frame_def take_Suc_conv_app_nth)
  have "distinct (map cf_id (take (Suc (ln_read l)) ?sent))"
    using wf by (simp add: link_wf_def client_wf_def distinct_take flip: take_map)
  then have "cf_id frame \<notin> cf_id ` set (take (ln_read l) ?sent)" by (auto simp: taken)
  then have "fresh_stream_id ?s frame"
    using wf by (auto simp: link_wf_def fresh_stream_id_def split: option.split)
  with pc have step: "session_step (fresh_stream_id :: 'r session \<Rightarrow> 'q client_frame \<Rightarrow> bool) show_codec greet ?s ?t"
    by (rule session_step.step_frame)
  have "s_greeted ?t"
  proof (cases "ln_read l = 0")
    case True
    with wf have "frame = \<lparr>cf_id = 1, cf_body = Some (connect_hello v)\<rparr>" by (auto simp: link_wf_def frame_def)
    then show ?thesis by (simp add: serve_read_def serve_frame_def serve_body_def connect_hello_def)
  next
    case False
    with wf show ?thesis by (simp add: link_wf_def greeted_serve_read)
  qed
  moreover have "set (ids ?t) \<subseteq> cf_id ` set (take (Suc (ln_read l)) ?sent)"
    using ids_serve_read [of show_codec greet frame ?s] wf by (auto simp: link_wf_def taken)
  moreover have "reach (session_step (fresh_stream_id :: 'r session \<Rightarrow> 'q client_frame \<Rightarrow> bool) show_codec greet)
      (session_start d) ?t"
    using wf step by (auto simp: link_wf_def intro: reach_step)
  ultimately show ?thesis using wf more by (simp add: link_wf_def)
qed

lemma link_wf_step:
  fixes l l' :: "('q, 'r) link"
  assumes wf: "link_wf show_codec greet v d l" and "link_step show_codec greet l l'"
  shows "link_wf show_codec greet v d l'"
  using assms(2)
proof cases
  case (link_client c)
  have "client_wf (ln_client l)" using wf by (simp add: link_wf_def)
  from link_wf_client [OF wf client_wf_step [OF this link_client(2)] client_step_sent [OF link_client(2)]]
  show ?thesis by (simp add: link_client(1))
next
  case link_request
  from link_wf_request [OF wf link_request(2,3)] show ?thesis by (simp add: link_request(1))
next
  case (link_server s)
  have "session_step (fresh_stream_id :: 'r session \<Rightarrow> 'q client_frame \<Rightarrow> bool) show_codec greet (ln_session l) s"
    by (rule session_step_mono [OF link_server(2)]) simp
  with wf greeted_step [OF link_server(2)] ids_other_step [OF link_server(2)] reach_step show ?thesis
    by (fastforce simp: link_server(1) link_wf_def)
next
  case link_reply
  have "client_wf (read_frame_step (s_outbox (ln_session l) ! ln_recv l) (ln_client l))"
    using wf link_reply(3) by (simp add: link_wf_def client_wf_read)
  with wf show ?thesis by (simp add: link_reply(1) link_wf_def)
next
  case link_lost
  have "client_wf (read_end (ln_client l))" using wf by (simp add: link_wf_def client_wf_end)
  from link_wf_client [OF wf this] show ?thesis by (simp add: link_lost(1) read_end_def)
qed

lemma connecting_call:
  "map_of (cl_calls (client_connecting v)) 1 =
     Some \<lparr>ca_kind = Unary, ca_frame = \<lparr>cf_id = 1, cf_body = Some (connect_hello v)\<rparr>, ca_from = 0,
       ca_state = CS_Sending, ca_queue = [], ca_taken = [], ca_out = [], ca_got = [], ca_dropped = False\<rparr>"
  "cl_sent (client_connecting v) = []"
  by (simp_all add: client_connecting_def begin_call_def client_new_def hm_insert_def)

lemma client_wf_connecting: "client_wf (client_connecting v)"
  unfolding client_connecting_def by (intro client_wf_begin) (simp add: client_wf_def client_new_def)

lemma link_wf_start: "link_wf show_codec greet v d (link_start v d :: ('q, 'r) link)"
proof -
  let ?l = "link_start v d :: ('q, 'r) link"
  have "client_wf (ln_client ?l)"
    using client_wf_sent [OF client_wf_connecting connecting_call(1)]
    unfolding link_start_def Let_def connecting_call(1) by simp
  moreover have "cl_sent (ln_client ?l) = [\<lparr>cf_id = 1, cf_body = Some (connect_hello v)\<rparr>]"
    unfolding link_start_def Let_def connecting_call(1) by (simp add: send_ok_def connecting_call(2))
  moreover have "ln_session ?l = session_start d" "ln_read ?l = 0" by (simp_all add: link_start_def Let_def)
  ultimately show ?thesis by (simp add: link_wf_def reach_init) (simp add: session_start_def ids_def)
qed

interpretation link_machine:
  invariant_machine "link_start v d" "link_step show_codec greet" "link_wf show_codec greet v d"
  for v d show_codec greet
  by unfold_locales (rule link_wf_start, rule link_wf_step)

section \<open>Properties\<close>

text \<open>
  C1: the client and the daemon fit together. In every state the two can reach over one connection,
  the daemon's session is one that a client with fresh stream ids can drive it to; as soon as it has
  read a frame it has been greeted; every stream task belongs to a call of the client, which sent
  its frame; and once the session has ended, for whatever reason, no stream task is running.
\<close>

theorem link_contract:
  fixes l :: "('q, 'r) link"
  assumes "reach (link_step show_codec greet) (link_start v d) l"
  shows "reach (session_step (fresh_stream_id :: 'r session \<Rightarrow> 'q client_frame \<Rightarrow> bool) show_codec greet)
           (session_start d) (ln_session l) \<and>
         (0 < ln_read l \<longrightarrow> s_greeted (ln_session l)) \<and>
         (\<forall>t\<in>set (s_tasks (ln_session l)).
            \<exists>ca. map_of (cl_calls (ln_client l)) (st_id t) = Some ca \<and> ca_state ca \<noteq> CS_Sending) \<and>
         (s_pc (ln_session l) = Closed \<longrightarrow>
            (\<forall>t\<in>set (s_tasks (ln_session l)). st_phase t = Done \<or> st_phase t = Aborted))"
proof -
  let ?s = "ln_session l" and ?c = "ln_client l"
  have wf: "link_wf show_codec greet v d l" by (rule link_machine.reach_inv [OF assms])
  then have r: "reach (session_step (fresh_stream_id :: 'r session \<Rightarrow> 'q client_frame \<Rightarrow> bool) show_codec greet)
      (session_start d) ?s" and g: "0 < ln_read l \<longrightarrow> s_greeted ?s" and c: "client_wf ?c"
    by (simp_all add: link_wf_def)
  have "\<exists>ca. map_of (cl_calls ?c) (st_id t) = Some ca \<and> ca_state ca \<noteq> CS_Sending"
    if "t \<in> set (s_tasks ?s)" for t
  proof -
    from that have "st_id t \<in> set (ids ?s)" by (simp add: ids_def)
    with wf have "st_id t \<in> cf_id ` set (take (ln_read l) (cl_sent ?c))" unfolding link_wf_def by blast
    then obtain fr where "fr \<in> set (cl_sent ?c)" "cf_id fr = st_id t" by (auto dest: in_set_takeD)
    with c show ?thesis unfolding client_wf_def by metis
  qed
  moreover have "st_phase t = Done \<or> st_phase t = Aborted" if closed: "s_pc ?s = Closed" and t: "t \<in> set (s_tasks ?s)" for t
  proof -
    have "tracked ?s" by (rule tracked_machine.reach_inv [OF r])
    moreover have "closed_empty ?s" by (rule closed_machine.reach_inv [OF r])
    moreover obtain h where "h < length (s_tasks ?s)" "t = s_tasks ?s ! h" using t by (auto simp: in_set_conv_nth)
    ultimately have "\<not> live t" using closed by (auto simp: tracked_def held_def closed_empty_def)
    then show ?thesis by (cases "st_phase t") (simp_all add: live_def)
  qed
  ultimately show ?thesis using r g by blast
qed

theorem link_contract_witness:
  "\<exists>l :: (nat, nat) link. reach (link_step (\<lambda>_. []) demo_greet) (link_start ''0.1.0'' fresh_daemon) l \<and>
     0 < ln_read l \<and> s_greeted (ln_session l)"
proof -
  let ?l = "link_start ''0.1.0'' fresh_daemon :: (nat, nat) link"
  let ?l1 = "?l\<lparr>ln_session := serve_read (\<lambda>_. []) demo_greet (Inr (Some (cl_sent (ln_client ?l) ! ln_read ?l))) (ln_session ?l),
      ln_read := ln_read ?l + 1\<rparr>"
  have "link_step (\<lambda>_. []) demo_greet ?l ?l1"
    by (rule link_step.link_request) (simp_all add: link_start_def Let_def send_ok_def session_start_def)
  then have r: "reach (link_step (\<lambda>_. []) demo_greet) ?l ?l1" by (rule reach_step [OF reach_init])
  from link_contract [OF this] have "0 < ln_read ?l1 \<longrightarrow> s_greeted (ln_session ?l1)" by blast
  moreover have "0 < ln_read ?l1" by simp
  ultimately show ?thesis using r by blast
qed

section \<open>Streams that never end for the client\<close>

text \<open>
  A stream the daemon refuses because the registry is full is answered with an error and no
  \<open>StreamEnd\<close>, and its task is aborted; the client's task passes the error on and goes on waiting,
  so the call stays registered and the caller's channel open.
\<close>

lemma refused_stream_never_ends:
  assumes "s_pc s = Inserting i h" and "h < length (s_tasks s)" and "MAX_STREAMS \<le> length (s_streams s)"
    and "map_of (cl_calls c) i = Some ca" and "ca_state ca = CS_Waiting" and "\<not> ca_dropped ca"
    and "ca_queue ca = [(i, R_Error e)]" and "i \<in> set (cl_pending c)"
  shows "ends i (finish_insert i h s) = ends i s \<and> \<not> live (s_tasks (finish_insert i h s) ! h) \<and>
         i \<in> set (cl_pending (stream_take i ca c)) \<and>
         (\<exists>ca'. map_of (cl_calls (stream_take i ca c)) i = Some ca' \<and> \<not> finished ca' \<and>
            ca_out ca' = ca_out ca @ [(i, R_Error e)])"
  using assms
  by (auto simp: finish_insert_def registry_insert_def Let_def abort_def stream_take_def put_call_def hm.lookup_insert
      finished_def)

text \<open>A stream whose request cannot be written leaves its registration behind.\<close>

lemma failed_stream_stays_registered:
  "ca_kind ca = Stream \<Longrightarrow> i \<in> set (cl_pending c) \<Longrightarrow> i \<in> set (cl_pending (send_failed i ca e c))"
  "ca_kind ca = Unary \<Longrightarrow> i \<notin> set (cl_pending (send_failed i ca e c))"
  by (simp_all add: send_failed_def put_call_def forget_def)

end
