(* ===== verification/Capture.thy ===== *)
theory Capture
  imports Probe "HOL-Library.Monad_Syntax"
begin

text \<open>
  Packet capture (\<^verbatim>\<open>daemon/src/capture.rs\<close>) and the loop that serves one capture
  (\<open>start_capture\<close> in \<^verbatim>\<open>daemon/src/daemon.rs\<close>): decoding of link, network and transport
  headers on arbitrary bytes, the one-line description, the userspace filter, the pcap file
  header, and the packet loop with its limits. As in the DNS decoder, \<open>None\<close> is a panic.
\<close>

section \<open>Link types and requests\<close>

datatype link_type = LinkUnspecified | Ethernet | RawIp | LinuxSll | LinuxSll2

fun link_type_u32 :: "link_type \<Rightarrow> u32" where
  "link_type_u32 LinkUnspecified = 0"
| "link_type_u32 Ethernet = 1"
| "link_type_u32 RawIp = 101"
| "link_type_u32 LinuxSll = 113"
| "link_type_u32 LinuxSll2 = 276"

definition link_type_for :: "string \<Rightarrow> link_type" where
  "link_type_for name =
     (if starts_with name ''rmnet'' \<or> starts_with name ''ccmni'' \<or> starts_with name ''pdp''
         \<or> starts_with name ''tun'' \<or> starts_with name ''v4-'' \<or> starts_with name ''ppp''
      then RawIp else Ethernet)"

record capture_filter =
  fl_hosts :: "ip_address list"
  fl_ports :: "nat list"
  fl_families :: "int list"
  fl_tcp :: bool
  fl_udp :: bool
  fl_icmp :: bool
  fl_arp :: bool
  fl_uid :: nat
  fl_has_uid :: bool
  fl_bpf_expression :: string

record capture_request =
  rq_interface_name :: string
  rq_filter :: "capture_filter option"
  rq_snaplen :: nat
  rq_max_packets :: nat
  rq_max_bytes :: nat
  rq_duration_ms :: nat
  rq_promiscuous :: bool
  rq_include_payload :: bool

definition no_filter :: capture_filter where
  "no_filter = \<lparr>fl_hosts = [], fl_ports = [], fl_families = [], fl_tcp = False, fl_udp = False,
     fl_icmp = False, fl_arp = False, fl_uid = 0, fl_has_uid = False, fl_bpf_expression = []\<rparr>"

section \<open>Decoding\<close>

record packet_summary =
  ps_family :: int
  ps_source :: "ip_address option"
  ps_destination :: "ip_address option"
  ps_source_port :: nat
  ps_destination_port :: nat
  ps_ip_protocol :: nat
  ps_protocol_name :: string
  ps_ttl :: nat
  ps_syn :: bool
  ps_ack :: bool
  ps_fin :: bool
  ps_rst :: bool
  ps_psh :: bool
  ps_tcp_seq :: nat
  ps_tcp_window :: nat
  ps_icmp_type :: nat
  ps_icmp_code :: nat
  ps_icmp_mtu :: nat
  ps_description :: string

definition empty_summary :: packet_summary where
  "empty_summary =
     \<lparr>ps_family = 0, ps_source = None, ps_destination = None, ps_source_port = 0,
      ps_destination_port = 0, ps_ip_protocol = 0, ps_protocol_name = [], ps_ttl = 0,
      ps_syn = False, ps_ack = False, ps_fin = False, ps_rst = False, ps_psh = False,
      ps_tcp_seq = 0, ps_tcp_window = 0, ps_icmp_type = 0, ps_icmp_code = 0, ps_icmp_mtu = 0,
      ps_description = []\<rparr>"

definition get_u32 :: "bytes \<Rightarrow> nat \<Rightarrow> u32 option" where
  "get_u32 buf i = do {
     a \<leftarrow> get buf i; b \<leftarrow> get buf (i + 1); c \<leftarrow> get buf (i + 2); d \<leftarrow> get buf (i + 3);
     Some (from_be32 a b c d) }"

definition decode_tcp :: "bytes \<Rightarrow> packet_summary \<Rightarrow> packet_summary option" where
  "decode_tcp payload s =
     (let s = s\<lparr>ps_protocol_name := ''TCP''\<rparr> in
      if length payload < 20 then Some s
      else do {
        sp \<leftarrow> get_u16 payload 0;
        dp \<leftarrow> get_u16 payload 2;
        seqn \<leftarrow> get_u32 payload 4;
        flags \<leftarrow> get payload 13;
        win \<leftarrow> get_u16 payload 14;
        Some (s\<lparr>ps_source_port := unat sp, ps_destination_port := unat dp, ps_tcp_seq := unat seqn,
                ps_fin := (flags AND 0x01 \<noteq> 0), ps_syn := (flags AND 0x02 \<noteq> 0),
                ps_rst := (flags AND 0x04 \<noteq> 0), ps_psh := (flags AND 0x08 \<noteq> 0),
                ps_ack := (flags AND 0x10 \<noteq> 0), ps_tcp_window := unat win\<rparr>) })"

definition decode_udp :: "bytes \<Rightarrow> packet_summary \<Rightarrow> packet_summary option" where
  "decode_udp payload s =
     (let s = s\<lparr>ps_protocol_name := ''UDP''\<rparr> in
      if length payload < 8 then Some s
      else do {
        sp \<leftarrow> get_u16 payload 0;
        dp \<leftarrow> get_u16 payload 2;
        Some (s\<lparr>ps_source_port := unat sp, ps_destination_port := unat dp\<rparr>) })"

definition decode_icmp :: "bytes \<Rightarrow> packet_summary \<Rightarrow> bool \<Rightarrow> packet_summary option" where
  "decode_icmp payload s v6 =
     (let s = s\<lparr>ps_protocol_name := (if v6 then ''ICMPv6'' else ''ICMP'')\<rparr> in
      if length payload < 8 then Some s
      else do {
        ty \<leftarrow> get payload 0;
        co \<leftarrow> get payload 1;
        mtu6 \<leftarrow> get_u32 payload 4;
        mtu4 \<leftarrow> get_u16 payload 6;
        let s = s\<lparr>ps_icmp_type := unat ty, ps_icmp_code := unat co\<rparr>;
        let carries_mtu = ((\<not> v6 \<and> ty = 3 \<and> co = 4) \<or> (v6 \<and> ty = 2));
        Some (if carries_mtu then s\<lparr>ps_icmp_mtu := (if v6 then unat mtu6 else unat mtu4)\<rparr> else s) })"

definition decode_l4 :: "bytes \<Rightarrow> u8 \<Rightarrow> packet_summary \<Rightarrow> bool \<Rightarrow> packet_summary option" where
  "decode_l4 payload protocol s v6 =
     (if protocol = 6 then decode_tcp payload s
      else if protocol = 17 then decode_udp payload s
      else if protocol = 1 \<or> protocol = 58 then decode_icmp payload s v6
      else Some (s\<lparr>ps_protocol_name := ''IP proto '' @ dec (unat protocol)\<rparr>))"

definition decode_v4 :: "bytes \<Rightarrow> packet_summary \<Rightarrow> packet_summary option" where
  "decode_v4 ip s =
     (if length ip < 20 then Some s
      else do {
        b0 \<leftarrow> get ip 0;
        let ihl = unat (b0 AND 0x0f) * 4;
        if length ip < ihl then Some s
        else do {
          ttl \<leftarrow> get ip 8;
          protocol \<leftarrow> get ip 9;
          src \<leftarrow> slice ip 12 16;
          dst \<leftarrow> slice ip 16 20;
          payload \<leftarrow> slice ip ihl (length ip);
          decode_l4 payload protocol
            (s\<lparr>ps_family := ip_family_i32 Family_V4, ps_ttl := unat ttl, ps_ip_protocol := unat protocol,
               ps_source := Some \<lparr>addr = src\<rparr>, ps_destination := Some \<lparr>addr = dst\<rparr>\<rparr>) False } })"

definition decode_v6 :: "bytes \<Rightarrow> packet_summary \<Rightarrow> packet_summary option" where
  "decode_v6 ip s =
     (if length ip < 40 then Some s
      else do {
        ttl \<leftarrow> get ip 7;
        protocol \<leftarrow> get ip 6;
        src \<leftarrow> slice ip 8 24;
        dst \<leftarrow> slice ip 24 40;
        payload \<leftarrow> slice ip 40 (length ip);
        decode_l4 payload protocol
          (s\<lparr>ps_family := ip_family_i32 Family_V6, ps_ttl := unat ttl, ps_ip_protocol := unat protocol,
             ps_source := Some \<lparr>addr = src\<rparr>, ps_destination := Some \<lparr>addr = dst\<rparr>\<rparr>) True })"

definition flag_names :: "packet_summary \<Rightarrow> string list" where
  "flag_names s =
     map snd (filter fst [(ps_syn s, ''SYN''), (ps_ack s, ''ACK''), (ps_fin s, ''FIN''),
                          (ps_rst s, ''RST''), (ps_psh s, ''PSH'')])"

definition describe :: "packet_summary \<Rightarrow> string" where
  "describe s =
     (let src = (case ps_source s of Some a \<Rightarrow> display a | None \<Rightarrow> []);
          dst = (case ps_destination s of Some a \<Rightarrow> display a | None \<Rightarrow> []);
          name = ps_protocol_name s
      in if name = ''TCP'' then
           ''TCP '' @ src @ '':'' @ dec (ps_source_port s) @ '' -> '' @ dst @ '':''
             @ dec (ps_destination_port s) @ '' ['' @ join '','' (flag_names s) @ '']''
         else if name = ''UDP'' then
           ''UDP '' @ src @ '':'' @ dec (ps_source_port s) @ '' -> '' @ dst @ '':''
             @ dec (ps_destination_port s)
         else if starts_with name ''ICMP'' then
           (let base = name @ '' '' @ src @ '' -> '' @ dst @ '' type '' @ dec (ps_icmp_type s)
                       @ '' code '' @ dec (ps_icmp_code s)
            in if ps_icmp_mtu s > 0 then base @ '' next-hop MTU '' @ dec (ps_icmp_mtu s) else base)
         else if name = [] then []
         else name @ '' '' @ src @ '' -> '' @ dst)"

text \<open>\<open>strip_link\<close>: the network-layer bytes, or the summary when the decoder returns early.\<close>

definition strip_link :: "bytes \<Rightarrow> link_type \<Rightarrow> (packet_summary + bytes) option" where
  "strip_link data lt =
     (if lt = Ethernet then
        (if length data < 14 then Some (Inl empty_summary)
         else do {
           ethertype \<leftarrow> get_u16 data 12;
           if ethertype = 0x0800 \<or> ethertype = 0x86dd
             then map_option Inr (slice data 14 (length data))
           else if ethertype = 0x0806
             then Some (Inl (empty_summary\<lparr>ps_protocol_name := ''ARP'', ps_description := ''ARP''\<rparr>))
           else if ethertype = 0x8100 \<and> length data \<ge> 18
             then map_option Inr (slice data 18 (length data))
           else Some (Inl empty_summary) })
      else Some (Inr data))"

definition decode :: "bytes \<Rightarrow> link_type \<Rightarrow> packet_summary option" where
  "decode data lt = do {
     r \<leftarrow> strip_link data lt;
     case r of
       Inl summary \<Rightarrow> Some summary
     | Inr ip \<Rightarrow>
         if ip = [] then Some empty_summary
         else do {
           b0 \<leftarrow> get ip 0;
           s \<leftarrow> (if drop_bit 4 b0 = 4 then decode_v4 ip empty_summary
                 else if drop_bit 4 b0 = 6 then decode_v6 ip empty_summary
                 else Some empty_summary);
           Some (s\<lparr>ps_description := describe s\<rparr>) } }"

section \<open>Filter\<close>

definition passes :: "packet_summary \<Rightarrow> capture_filter \<Rightarrow> bool" where
  "passes s f =
     (if (fl_tcp f \<or> fl_udp f \<or> fl_icmp f \<or> fl_arp f) \<and>
         \<not> ((fl_tcp f \<and> ps_ip_protocol s = 6) \<or> (fl_udp f \<and> ps_ip_protocol s = 17)
            \<or> (fl_icmp f \<and> (ps_ip_protocol s = 1 \<or> ps_ip_protocol s = 58))
            \<or> (fl_arp f \<and> ps_protocol_name s = ''ARP'')) then False
      else if fl_families f \<noteq> [] \<and> ps_family s \<notin> set (fl_families f) then False
      else if fl_hosts f \<noteq> [] \<and>
         \<not> list_ex (\<lambda>h. Some (addr h) = map_option addr (ps_source s)
                       \<or> Some (addr h) = map_option addr (ps_destination s)) (fl_hosts f) then False
      else if fl_ports f \<noteq> [] \<and>
         \<not> (ps_source_port s \<in> set (fl_ports f) \<or> ps_destination_port s \<in> set (fl_ports f)) then False
      else True)"

section \<open>pcap header\<close>

definition pcap_header :: "link_type \<Rightarrow> u32 \<Rightarrow> bytes" where
  "pcap_header lt snaplen =
     le32 0xa1b2c3d4 @ le16 2 @ le16 4 @ replicate 8 0 @ le32 snaplen @ le32 (link_type_u32 lt)"

section \<open>The decoder on arbitrary input\<close>

lemma get_u32_in [simp]:
  "i + 3 < length buf \<Longrightarrow>
   get_u32 buf i = Some (from_be32 (buf ! i) (buf ! (i + 1)) (buf ! (i + 2)) (buf ! (i + 3)))"
  by (simp add: get_u32_def)

lemma get_0 [simp]: "buf \<noteq> [] \<Longrightarrow> get buf 0 = Some (buf ! 0)"
  by (simp add: get_def)

lemma decode_tcp_total: "\<exists>s'. decode_tcp payload s = Some s'"
  by (cases "length payload < 20") (simp_all add: decode_tcp_def Let_def)

lemma decode_udp_total: "\<exists>s'. decode_udp payload s = Some s'"
  by (cases "length payload < 8") (simp_all add: decode_udp_def Let_def)

lemma decode_icmp_total: "\<exists>s'. decode_icmp payload s v6 = Some s'"
proof (cases "length payload < 8")
  case False
  then have "payload \<noteq> []" by auto
  with False show ?thesis by (simp add: decode_icmp_def Let_def)
qed (simp add: decode_icmp_def Let_def)

lemma decode_l4_total: "\<exists>s'. decode_l4 payload protocol s v6 = Some s'"
  using decode_tcp_total decode_udp_total decode_icmp_total by (simp add: decode_l4_def)

lemma decode_v4_total: "\<exists>s'. decode_v4 ip s = Some s'"
proof (cases "length ip < 20")
  case False
  then have "ip \<noteq> []" by auto
  with False show ?thesis using decode_l4_total by (simp add: decode_v4_def Let_def not_less)
qed (simp add: decode_v4_def)

lemma decode_v6_total: "\<exists>s'. decode_v6 ip s = Some s'"
  using decode_l4_total by (cases "length ip < 40") (simp_all add: decode_v6_def)

lemma strip_link_total: "\<exists>r. strip_link data lt = Some r"
  by (cases "length data < 14") (simp_all add: strip_link_def)

lemma decode_total: "\<exists>s. decode data lt = Some s"
proof -
  obtain r where r: "strip_link data lt = Some r" using strip_link_total by blast
  show ?thesis
  proof (cases r)
    case (Inl summary)
    then show ?thesis by (simp add: decode_def r)
  next
    case (Inr ip)
    obtain s4 s6 where "decode_v4 ip empty_summary = Some s4" "decode_v6 ip empty_summary = Some s6"
      using decode_v4_total decode_v6_total by meson
    then show ?thesis by (cases "ip = []") (simp_all add: decode_def r Inr)
  qed
qed

section \<open>The capture and its loop\<close>

definition DEFAULT_SNAPLEN :: nat where "DEFAULT_SNAPLEN = 262144"
definition DEFAULT_CAPTURE_DURATION_MS :: nat where "DEFAULT_CAPTURE_DURATION_MS = 60000"

record capture =
  cp_link_type :: link_type
  cp_interface_index :: nat
  cp_interface_name :: string
  cp_snaplen :: nat
  cp_packets :: nat
  cp_bytes :: nat
  cp_filtered_out :: nat

record captured_packet =
  pk_capture_id :: nat
  pk_sequence :: nat
  pk_unix_ms :: int
  pk_unix_us_fraction :: nat
  pk_original_length :: nat
  pk_data :: bytes
  pk_interface_index :: nat
  pk_interface_name :: string
  pk_outgoing :: bool
  pk_summary :: "packet_summary option"

record capture_env =
  ce_socket :: "io_error option"
  ce_if_index :: "string \<Rightarrow> nat option"
  ce_bind :: "nat \<Rightarrow> io_error option"
  ce_promisc :: "nat \<Rightarrow> io_error option"
  ce_nonblocking :: "io_error option"

definition capture_open_socket :: "capture_env \<Rightarrow> capture_request \<Rightarrow> string + capture" where
  "capture_open_socket env request =
     (case ce_socket env of
        Some _ \<Rightarrow> Inl ''could not open an AF_PACKET socket (CAP_NET_RAW required)''
      | None \<Rightarrow>
     (case (if rq_interface_name request = [] then Some (0, ''any'')
            else map_option (\<lambda>i. (i, rq_interface_name request)) (ce_if_index env (rq_interface_name request))) of
        None \<Rightarrow> Inl (''no interface named '' @ rq_interface_name request)
      | Some (index, name) \<Rightarrow>
     (case (if index \<noteq> 0 then ce_bind env index else None) of
        Some _ \<Rightarrow> Inl ''could not bind the capture socket to the interface''
      | None \<Rightarrow>
     (case (if rq_promiscuous request \<and> index \<noteq> 0 then ce_promisc env index else None) of
        Some _ \<Rightarrow> Inl ''could not enable promiscuous mode''
      | None \<Rightarrow>
     (case ce_nonblocking env of
        Some e \<Rightarrow> Inl (ioe_text e)
      | None \<Rightarrow>
          Inr \<lparr>cp_link_type = (if index = 0 then LinuxSll else link_type_for name),
               cp_interface_index = index, cp_interface_name = name,
               cp_snaplen = (if rq_snaplen request = 0 then DEFAULT_SNAPLEN else rq_snaplen request),
               cp_packets = 0, cp_bytes = 0, cp_filtered_out = 0\<rparr>)))))"

text \<open>
  What a pass of the receive loop meets: the stop flag raised, the capture's deadline, nothing
  ready, a receive error, or a frame with its direction, interface and time.
\<close>

record frame =
  fr_data :: bytes
  fr_outgoing :: bool
  fr_ifindex :: nat
  fr_unix_ms :: int
  fr_unix_us :: nat

datatype capture_event = StopRaised | Deadline | NotReady | CaptureRecvError string | Frame frame

datatype next_result =
  NextWaiting
| NextStopped
| NextDeadline
| NextError string
| NextPacket captured_packet

text \<open>\<open>recvfrom\<close> fills a buffer of \<open>snaplen\<close> bytes and returns the number of bytes it stored.\<close>

fun next_packet ::
  "capture \<Rightarrow> capture_filter \<Rightarrow> bool \<Rightarrow> capture_event list \<Rightarrow> (next_result \<times> capture \<times> capture_event list) option" where
  "next_packet c filt include_payload [] = Some (NextWaiting, c, [])"
| "next_packet c filt include_payload (StopRaised # evs) = Some (NextStopped, c, evs)"
| "next_packet c filt include_payload (Deadline # evs) = Some (NextDeadline, c, evs)"
| "next_packet c filt include_payload (NotReady # evs) = next_packet c filt include_payload evs"
| "next_packet c filt include_payload (CaptureRecvError e # evs) = Some (NextError e, c, evs)"
| "next_packet c filt include_payload (Frame f # evs) =
     (let data = take (cp_snaplen c) (fr_data f); len = length data in
      case decode data (cp_link_type c) of
        None \<Rightarrow> None
      | Some summary \<Rightarrow>
          if \<not> passes summary filt
          then next_packet (c\<lparr>cp_filtered_out := cp_filtered_out c + 1\<rparr>) filt include_payload evs
          else let c = c\<lparr>cp_packets := cp_packets c + 1, cp_bytes := cp_bytes c + len\<rparr> in
            Some (NextPacket
              \<lparr>pk_capture_id = 0, pk_sequence = cp_packets c, pk_unix_ms = fr_unix_ms f,
               pk_unix_us_fraction = fr_unix_us f mod 1000, pk_original_length = len,
               pk_data = (if include_payload then data else []),
               pk_interface_index = (if fr_ifindex f \<noteq> 0 then fr_ifindex f else cp_interface_index c),
               pk_interface_name = cp_interface_name c, pk_outgoing = fr_outgoing f,
               pk_summary = Some summary\<rparr>, c, evs))"

lemma next_packet_shorter:
  "next_packet c filt p evs = Some (NextPacket pkt, c', rest) \<Longrightarrow> length rest < length evs"
proof (induction evs arbitrary: c)
  case (Cons e evs)
  then show ?case by (cases e) (auto simp: Let_def less_SucI split: option.splits if_splits)
qed simp

record capture_stats =
  cs_capture_id :: nat
  cs_packets_captured :: nat
  cs_packets_dropped_kernel :: nat
  cs_packets_filtered_out :: nat
  cs_bytes_captured :: nat

definition stats :: "nat \<Rightarrow> nat \<Rightarrow> capture \<Rightarrow> capture_stats" where
  "stats kernel_drops cid c =
     \<lparr>cs_capture_id = cid, cs_packets_captured = cp_packets c, cs_packets_dropped_kernel = kernel_drops,
      cs_packets_filtered_out = cp_filtered_out c, cs_bytes_captured = cp_bytes c\<rparr>"

datatype loop_end = EndReason string | EndError string | EndWaiting

text \<open>
  \<open>accepts n\<close>: whether the client still takes the n-th packet frame. The result holds the packets
  sent, the counters and how the loop ended; \<open>EndWaiting\<close> is a loop that still waits for events.
\<close>

function capture_loop ::
  "capture_request \<Rightarrow> capture_filter \<Rightarrow> nat \<Rightarrow> (nat \<Rightarrow> bool) \<Rightarrow> nat \<Rightarrow> nat \<Rightarrow> capture_event list \<Rightarrow> capture
   \<Rightarrow> (captured_packet list \<times> nat \<times> capture \<times> loop_end) option" where
  "capture_loop request filt cid accepts sent nbytes evs c =
     (if rq_max_packets request \<noteq> 0 \<and> sent \<ge> rq_max_packets request
        then Some ([], sent, c, EndReason ''max_packets'')
      else if rq_max_bytes request \<noteq> 0 \<and> nbytes \<ge> rq_max_bytes request
        then Some ([], sent, c, EndReason ''max_bytes'')
      else (case next_packet c filt (rq_include_payload request) evs of
              None \<Rightarrow> None
            | Some (NextWaiting, c', _) \<Rightarrow> Some ([], sent, c', EndWaiting)
            | Some (NextDeadline, c', _) \<Rightarrow> Some ([], sent, c', EndReason ''duration'')
            | Some (NextStopped, c', _) \<Rightarrow> Some ([], sent, c', EndReason ''stopped'')
            | Some (NextError e, c', _) \<Rightarrow> Some ([], sent, c', EndError e)
            | Some (NextPacket pkt, c', rest) \<Rightarrow>
                let pkt = pkt\<lparr>pk_capture_id := cid\<rparr> in
                if \<not> accepts sent then Some ([], sent, c', EndReason ''client disconnected'')
                else (case capture_loop request filt cid accepts (sent + 1)
                             (nbytes + pk_original_length pkt) rest c' of
                        None \<Rightarrow> None
                      | Some (pkts, n, c'', e) \<Rightarrow> Some (pkt # pkts, n, c'', e))))"
  by pat_completeness auto
termination
  by (relation "measure (\<lambda>(_, _, _, _, _, _, evs, _). length evs)") (auto dest: next_packet_shorter)

declare capture_loop.simps [simp del]

section \<open>What the loop guarantees\<close>

definition count_frames :: "capture_event list \<Rightarrow> nat" where
  "count_frames evs = length (filter (\<lambda>e. case e of Frame _ \<Rightarrow> True | _ \<Rightarrow> False) evs)"

lemma next_packet_total: "\<exists>r. next_packet c filt p evs = Some r"
proof (induction evs arbitrary: c)
  case (Cons e evs)
  show ?case
  proof (cases e)
    case (Frame f)
    obtain s where "decode (take (cp_snaplen c) (fr_data f)) (cp_link_type c) = Some s"
      using decode_total by blast
    with Cons Frame show ?thesis by (simp add: Let_def)
  qed (use Cons in auto)
qed simp

text \<open>What \<open>next_packet\<close> keeps and how it counts.\<close>

lemma next_packet_counts:
  assumes "next_packet c filt p evs = Some (r, c', rest)"
  shows "count_frames evs = count_frames rest + (cp_packets c' - cp_packets c) + (cp_filtered_out c' - cp_filtered_out c) \<and>
         cp_filtered_out c \<le> cp_filtered_out c' \<and>
         (case r of
            NextPacket pkt \<Rightarrow>
              cp_packets c' = cp_packets c + 1 \<and> cp_bytes c' = cp_bytes c + pk_original_length pkt \<and>
              pk_sequence pkt = cp_packets c' \<and> length (pk_data pkt) \<le> pk_original_length pkt \<and>
              pk_original_length pkt \<le> cp_snaplen c \<and>
              (\<exists>s. pk_summary pkt = Some s \<and> passes s filt)
          | _ \<Rightarrow> cp_packets c' = cp_packets c \<and> cp_bytes c' = cp_bytes c) \<and>
         cp_snaplen c' = cp_snaplen c \<and> cp_link_type c' = cp_link_type c"
  using assms
proof (induction evs arbitrary: c)
  case Nil
  then show ?case by (auto simp: count_frames_def)
next
  case (Cons e evs)
  show ?case
  proof (cases e)
    case (Frame f)
    obtain s where s: "decode (take (cp_snaplen c) (fr_data f)) (cp_link_type c) = Some s"
      using decode_total by blast
    show ?thesis
    proof (cases "passes s filt")
      case True
      with Cons.prems Frame s show ?thesis by (auto simp: Let_def count_frames_def)
    next
      case False
      with Cons.prems Frame s have "next_packet (c\<lparr>cp_filtered_out := cp_filtered_out c + 1\<rparr>) filt p evs = Some (r, c', rest)"
        by (simp add: Let_def)
      from Cons.IH [OF this] Frame show ?thesis by (cases r) (auto simp: count_frames_def)
    qed
  qed (use Cons in \<open>auto simp: count_frames_def\<close>)
qed

lemma capture_loop_total: "\<exists>r. capture_loop request filt cid accepts sent nbytes evs c = Some r"
proof (induction evs arbitrary: sent nbytes c rule: length_induct)
  case (1 evs)
  obtain r c' rest where n: "next_packet c filt (rq_include_payload request) evs = Some (r, c', rest)"
    using next_packet_total by (metis prod_cases3)
  have rec: "\<exists>x. capture_loop request filt cid accepts k b rest c' = Some x" if "r = NextPacket pkt" for k b pkt
    using 1 next_packet_shorter n that by blast
  show ?case
  proof (cases r)
    case (NextPacket pkt)
    from rec [OF this, of "sent + 1" "nbytes + pk_original_length pkt"] n NextPacket show ?thesis
      by (subst capture_loop.simps) (auto simp: Let_def)
  qed (use n in \<open>subst capture_loop.simps, simp\<close>)+
qed

definition packet_ok :: "capture_filter \<Rightarrow> nat \<Rightarrow> nat \<Rightarrow> captured_packet \<Rightarrow> bool" where
  "packet_ok filt cid snaplen pkt =
     (pk_capture_id pkt = cid \<and> length (pk_data pkt) \<le> snaplen \<and>
      (\<exists>s. pk_summary pkt = Some s \<and> passes s filt))"

definition total_bytes :: "captured_packet list \<Rightarrow> nat" where
  "total_bytes pkts = sum_list (map pk_original_length pkts)"

text \<open>The contract of the loop from an arbitrary state.\<close>

definition loop_ok ::
  "capture_request \<Rightarrow> capture_filter \<Rightarrow> nat \<Rightarrow> nat \<Rightarrow> nat \<Rightarrow> capture \<Rightarrow> captured_packet list \<Rightarrow> nat \<Rightarrow> loop_end \<Rightarrow> bool" where
  "loop_ok request filt cid sent nbytes c pkts n e =
     (n = sent + length pkts \<and>
      map pk_sequence pkts = [Suc (cp_packets c)..<Suc (cp_packets c + length pkts)] \<and>
      list_all (packet_ok filt cid (cp_snaplen c)) pkts \<and>
      (rq_max_packets request \<noteq> 0 \<longrightarrow> n \<le> max sent (rq_max_packets request)) \<and>
      (rq_max_bytes request \<noteq> 0 \<and> pkts \<noteq> [] \<longrightarrow> nbytes + total_bytes (butlast pkts) < rq_max_bytes request) \<and>
      (e = EndReason ''max_packets'' \<longrightarrow> rq_max_packets request \<noteq> 0 \<and> rq_max_packets request \<le> n) \<and>
      (e = EndReason ''max_bytes'' \<longrightarrow> rq_max_bytes request \<noteq> 0 \<and> rq_max_bytes request \<le> nbytes + total_bytes pkts))"

lemma loop_ok_Nil:
  "e \<noteq> EndReason ''max_packets'' \<Longrightarrow> e \<noteq> EndReason ''max_bytes'' \<Longrightarrow> loop_ok request filt cid sent nbytes c [] sent e"
  by (simp add: loop_ok_def)

lemma upt_Suc_Cons: "Suc a # [Suc (Suc a)..<Suc (Suc a + k)] = [Suc a..<Suc (a + Suc k)]"
  by (subst (2) upt_rec) simp

lemma loop_ok_Cons:
  assumes "loop_ok request filt cid (sent + 1) (nbytes + pk_original_length pkt) c' pkts n e"
    and "\<not> (rq_max_packets request \<noteq> 0 \<and> sent \<ge> rq_max_packets request)"
    and "\<not> (rq_max_bytes request \<noteq> 0 \<and> nbytes \<ge> rq_max_bytes request)"
    and "cp_packets c' = Suc (cp_packets c)" and "cp_snaplen c' = cp_snaplen c"
    and "pk_sequence pkt = Suc (cp_packets c)" and "packet_ok filt cid (cp_snaplen c) pkt"
  shows "loop_ok request filt cid sent nbytes c (pkt # pkts) n e"
proof -
  have seq: "map pk_sequence (pkt # pkts) = [Suc (cp_packets c)..<Suc (cp_packets c + length (pkt # pkts))]"
    using assms upt_Suc_Cons [of "cp_packets c" "length pkts"] by (simp add: loop_ok_def del: upt_Suc)
  have b: "rq_max_bytes request \<noteq> 0 \<longrightarrow> nbytes + total_bytes (butlast (pkt # pkts)) < rq_max_bytes request"
    using assms(1,3) by (cases pkts) (auto simp: loop_ok_def total_bytes_def add.assoc)
  have "n = sent + length (pkt # pkts)" "list_all (packet_ok filt cid (cp_snaplen c)) (pkt # pkts)"
    using assms(1,5,7) by (simp_all add: loop_ok_def)
  moreover have "rq_max_packets request \<noteq> 0 \<longrightarrow> n \<le> max sent (rq_max_packets request)"
    using assms(1,2) by (simp add: loop_ok_def) linarith
  moreover have "e = EndReason ''max_packets'' \<longrightarrow> rq_max_packets request \<noteq> 0 \<and> rq_max_packets request \<le> n"
    using assms(1) by (auto simp: loop_ok_def)
  moreover have "e = EndReason ''max_bytes'' \<longrightarrow>
      rq_max_bytes request \<noteq> 0 \<and> rq_max_bytes request \<le> nbytes + total_bytes (pkt # pkts)"
    using assms(1) by (simp add: loop_ok_def total_bytes_def add.assoc)
  ultimately show ?thesis using seq b unfolding loop_ok_def by blast
qed

lemma capture_loop_ok:
  "capture_loop request filt cid accepts sent nbytes evs c = Some (pkts, n, c', e) \<Longrightarrow>
   loop_ok request filt cid sent nbytes c pkts n e"
proof (induction request filt cid accepts sent nbytes evs c arbitrary: pkts n c' e rule: capture_loop.induct)
  case (1 request filt cid accepts sent nbytes evs c)
  let ?maxp = "rq_max_packets request \<noteq> 0 \<and> sent \<ge> rq_max_packets request"
  let ?maxb = "rq_max_bytes request \<noteq> 0 \<and> nbytes \<ge> rq_max_bytes request"
  obtain r d rest where np: "next_packet c filt (rq_include_payload request) evs = Some (r, d, rest)"
    using next_packet_total by (metis prod_cases3)
  note unf = "1.prems" [unfolded capture_loop.simps [of request filt cid accepts sent nbytes evs c]]
  show ?case
  proof (cases "?maxp \<or> ?maxb")
    case True
    with unf show ?thesis by (cases ?maxp) (auto simp: loop_ok_def total_bytes_def)
  next
    case limits: False
    show ?thesis
    proof (cases "\<exists>pkt. r = NextPacket pkt \<and> accepts sent")
      case False
      then show ?thesis using unf limits np
        by (cases r) (auto simp: Let_def intro!: loop_ok_Nil split: if_splits)
    next
      case True
      then obtain pkt where r: "r = NextPacket pkt" and acc: "accepts sent" by blast
      let ?pkt = "pkt\<lparr>pk_capture_id := cid\<rparr>"
      obtain ps where rec: "capture_loop request filt cid accepts (sent + 1)
          (nbytes + pk_original_length ?pkt) rest d = Some (ps, n, c', e)" and pkts: "pkts = ?pkt # ps"
        using unf limits np r acc by (auto simp: Let_def split: option.splits)
      have lp: "\<not> ?maxp" and lb: "\<not> ?maxb" using limits by blast+
      have ih: "loop_ok request filt cid (sent + 1) (nbytes + pk_original_length ?pkt) d ps n e"
        by (rule "1.IH" [OF lp lb np refl r refl refl _ rec]) (use acc in simp)
      have "cp_packets d = Suc (cp_packets c)" "cp_snaplen d = cp_snaplen c"
        "pk_sequence ?pkt = Suc (cp_packets c)" "packet_ok filt cid (cp_snaplen c) ?pkt"
        using next_packet_counts [OF np] r by (auto simp: packet_ok_def)
      from loop_ok_Cons [OF ih lp lb this] show ?thesis unfolding pkts .
    qed
  qed
qed

section \<open>Which frames are sent\<close>

text \<open>
  The frames that arrive before the capture is stopped, its deadline or a receive error, and the ones a
  filter selects, spelled out from \<^verbatim>\<open>capture.proto\<close>: a protocol, family, host or port of the packet is
  listed wherever something is listed.
\<close>

fun frames_until :: "capture_event list \<Rightarrow> frame list" where
  "frames_until (Frame f # evs) = f # frames_until evs"
| "frames_until (NotReady # evs) = frames_until evs"
| "frames_until _ = []"

definition selected :: "capture_filter \<Rightarrow> link_type \<Rightarrow> frame \<Rightarrow> bool" where
  "selected filt lt f =
     (\<exists>s. decode (fr_data f) lt = Some s \<and>
        (let protocol = ps_ip_protocol s in
         fl_tcp filt \<and> protocol = 6 \<or> fl_udp filt \<and> protocol = 17 \<or> fl_icmp filt \<and> protocol \<in> {1, 58} \<or>
         fl_arp filt \<and> ps_protocol_name s = ''ARP'' \<or> \<not> (fl_tcp filt \<or> fl_udp filt \<or> fl_icmp filt \<or> fl_arp filt)) \<and>
        (fl_families filt = [] \<or> ps_family s \<in> set (fl_families filt)) \<and>
        (fl_hosts filt = [] \<or> (\<exists>h\<in>set (fl_hosts filt). ps_source s = Some h \<or> ps_destination s = Some h)) \<and>
        (fl_ports filt = [] \<or> ps_source_port s \<in> set (fl_ports filt) \<or> ps_destination_port s \<in> set (fl_ports filt)))"

definition frame_view :: "bool \<Rightarrow> link_type \<Rightarrow> frame \<Rightarrow> bytes \<times> nat \<times> packet_summary option \<times> bool \<times> int" where
  "frame_view payload lt f =
     (if payload then fr_data f else [], length (fr_data f), decode (fr_data f) lt, fr_outgoing f, fr_unix_ms f)"

definition packet_view :: "captured_packet \<Rightarrow> bytes \<times> nat \<times> packet_summary option \<times> bool \<times> int" where
  "packet_view p = (pk_data p, pk_original_length p, pk_summary p, pk_outgoing p, pk_unix_ms p)"

lemma selected_passes: "decode (fr_data f) lt = Some s \<Longrightarrow> selected filt lt f \<longleftrightarrow> passes s filt"
proof -
  have "Some (addr h) = map_option addr x \<longleftrightarrow> x = Some h" for h :: ip_address and x
    by (cases x) auto
  then show "decode (fr_data f) lt = Some s \<Longrightarrow> ?thesis"
    by (simp add: selected_def passes_def list_ex_iff Let_def)
qed

lemma next_packet_frames:
  assumes "next_packet c filt p evs = Some (r, d, rest)"
    and "list_all (\<lambda>f. length (fr_data f) \<le> cp_snaplen c) (frames_until evs)"
  shows "case r of
      NextPacket pkt \<Rightarrow> list_all (\<lambda>f. length (fr_data f) \<le> cp_snaplen c) (frames_until rest) \<and>
        (\<exists>f. filter (selected filt (cp_link_type c)) (frames_until evs) =
               f # filter (selected filt (cp_link_type c)) (frames_until rest) \<and>
             packet_view pkt = frame_view p (cp_link_type c) f)
    | _ \<Rightarrow> filter (selected filt (cp_link_type c)) (frames_until evs) = []"
  using assms
proof (induction evs arbitrary: c)
  case Nil
  then show ?case by auto
next
  case (Cons ev evs)
  show ?case
  proof (cases ev)
    case (Frame f)
    then have t: "take (cp_snaplen c) (fr_data f) = fr_data f" using Cons.prems(2) by simp
    obtain s where s: "decode (fr_data f) (cp_link_type c) = Some s" using decode_total by blast
    note sel = selected_passes [OF s, of filt]
    show ?thesis
    proof (cases "passes s filt")
      case True
      with Cons.prems Frame s t sel show ?thesis
        by (auto simp: Let_def packet_view_def frame_view_def)
    next
      case False
      with Cons.prems Frame s t have "next_packet (c\<lparr>cp_filtered_out := cp_filtered_out c + 1\<rparr>) filt p evs = Some (r, d, rest)"
        by (simp add: Let_def)
      from Cons.IH [OF this] Cons.prems(2) Frame False sel show ?thesis by (cases r) simp_all
    qed
  next
    case NotReady
    then show ?thesis using Cons.IH [of c] Cons.prems by (cases r) simp_all
  qed (use Cons.prems in auto)
qed

lemma capture_loop_frames:
  assumes "capture_loop request filt cid accepts sent nbytes evs c = Some (pkts, n, c', e)"
    and "list_all (\<lambda>f. length (fr_data f) \<le> cp_snaplen c) (frames_until evs)"
  shows "(\<exists>more. map (frame_view (rq_include_payload request) (cp_link_type c))
      (filter (selected filt (cp_link_type c)) (frames_until evs)) = map packet_view pkts @ more \<and>
      (e \<in> {EndReason ''max_packets'', EndReason ''max_bytes'', EndReason ''client disconnected''} \<or> more = []))"
  using assms
proof (induction request filt cid accepts sent nbytes evs c arbitrary: pkts n c' e rule: capture_loop.induct)
  case (1 request filt cid accepts sent nbytes evs c)
  let ?maxp = "rq_max_packets request \<noteq> 0 \<and> sent \<ge> rq_max_packets request"
  let ?maxb = "rq_max_bytes request \<noteq> 0 \<and> nbytes \<ge> rq_max_bytes request"
  obtain r d rest where np: "next_packet c filt (rq_include_payload request) evs = Some (r, d, rest)"
    using next_packet_total by (metis prod_cases3)
  note unf = "1.prems"(1) [unfolded capture_loop.simps [of request filt cid accepts sent nbytes evs c]]
  note frames = next_packet_frames [OF np "1.prems"(2)]
  show ?case
  proof (cases "?maxp \<or> ?maxb")
    case True
    with unf show ?thesis by (cases ?maxp) auto
  next
    case limits: False
    show ?thesis
    proof (cases "\<exists>pkt. r = NextPacket pkt \<and> accepts sent")
      case False
      then show ?thesis using unf limits np frames by (cases r) (auto simp: Let_def split: if_splits)
    next
      case True
      then obtain pkt where r: "r = NextPacket pkt" and acc: "accepts sent" by blast
      let ?pkt = "pkt\<lparr>pk_capture_id := cid\<rparr>"
      obtain ps where rec: "capture_loop request filt cid accepts (sent + 1)
          (nbytes + pk_original_length ?pkt) rest d = Some (ps, n, c', e)" and pkts: "pkts = ?pkt # ps"
        using unf limits np r acc by (auto simp: Let_def split: option.splits)
      have lp: "\<not> ?maxp" and lb: "\<not> ?maxb" using limits by blast+
      have d: "cp_snaplen d = cp_snaplen c" "cp_link_type d = cp_link_type c" using next_packet_counts [OF np] by simp_all
      have short: "list_all (\<lambda>f. length (fr_data f) \<le> cp_snaplen d) (frames_until rest)" using frames r d by simp
      have "\<exists>more. map (frame_view (rq_include_payload request) (cp_link_type d))
          (filter (selected filt (cp_link_type d)) (frames_until rest)) = map packet_view ps @ more \<and>
          (e \<in> {EndReason ''max_packets'', EndReason ''max_bytes'', EndReason ''client disconnected''} \<or> more = [])"
        by (rule "1.IH" [OF lp lb np refl r refl refl _ rec short]) (use acc in simp)
      moreover have "packet_view ?pkt = packet_view pkt" by (simp add: packet_view_def)
      ultimately show ?thesis using frames r d unfolding pkts by auto
    qed
  qed
qed

section \<open>Serving a capture\<close>

record capture_started =
  ct_capture_id :: nat
  ct_interface_name :: string
  ct_link_type :: link_type
  ct_snaplen :: nat
  ct_started_unix_ms :: int
  ct_bpf_expression_ignored :: bool
  ct_note :: string
  ct_pcap_file_header :: bytes

datatype capture_frame =
  CF_Started capture_started
| CF_Packet captured_packet
| CF_Stats capture_stats
| CF_Finished nat "capture_stats option" string

definition capture_started_msg :: "int \<Rightarrow> nat \<Rightarrow> capture_filter \<Rightarrow> capture \<Rightarrow> capture_started" where
  "capture_started_msg now cid filt c =
     \<lparr>ct_capture_id = cid, ct_interface_name = cp_interface_name c, ct_link_type = cp_link_type c,
      ct_snaplen = cp_snaplen c, ct_started_unix_ms = now,
      ct_bpf_expression_ignored = (fl_bpf_expression filt \<noteq> []),
      ct_note = (if fl_bpf_expression filt = [] then []
                 else ''this build filters in userspace and ignores bpf_expression''),
      ct_pcap_file_header = pcap_header (cp_link_type c) (of_nat (cp_snaplen c))\<rparr>"

definition capture_duration :: "capture_request \<Rightarrow> nat" where
  "capture_duration request =
     (if rq_duration_ms request = 0 then DEFAULT_CAPTURE_DURATION_MS else rq_duration_ms request)"

text \<open>
  The body of \<open>start_capture\<close> after the id has been allocated: the frames it sends, the items it
  counts, how it ended (an error or a reason), and whether it reached \<open>finish_capture\<close>. The first
  flag says whether the client takes the \<open>CaptureStarted\<close> frame.
\<close>

definition start_capture ::
  "capture_env \<Rightarrow> int \<Rightarrow> nat \<Rightarrow> bool \<Rightarrow> (nat \<Rightarrow> bool) \<Rightarrow> nat \<Rightarrow> capture_request \<Rightarrow> capture_event list
   \<Rightarrow> (capture_frame list \<times> nat \<times> (string + string) \<times> bool) option" where
  "start_capture env now cid start_ok accepts kernel_drops request evs =
     (case capture_open_socket env request of
        Inl e \<Rightarrow> Some ([], 0, Inl e, False)
      | Inr c \<Rightarrow>
          let filt = (case rq_filter request of Some f \<Rightarrow> f | None \<Rightarrow> no_filter) in
          if \<not> start_ok then Some ([], 0, Inr ''client disconnected'', True)
          else (case capture_loop request filt cid accepts 0 0 evs c of
                  None \<Rightarrow> None
                | Some (pkts, sent, c', ending) \<Rightarrow>
                    let started = CF_Started (capture_started_msg now cid filt c);
                        st = stats kernel_drops cid c'
                    in (case ending of
                          EndError e \<Rightarrow> Some (started # map CF_Packet pkts, sent, Inl e, True)
                        | EndWaiting \<Rightarrow> Some (started # map CF_Packet pkts, sent, Inr [], False)
                        | EndReason reason \<Rightarrow>
                            Some (started # map CF_Packet pkts @ [CF_Stats st, CF_Finished cid (Some st) reason],
                                  sent, Inr (''capture finished: '' @ reason), True))))"

section \<open>Properties\<close>

text \<open>
  The packet decoder never panics: for every frame, of any length and content, and every
  link type it returns a summary.
\<close>

lemma decode_no_panic: "decode data lt \<noteq> None"
  using decode_total by simp

text \<open>
  C22: a capture sends what was asked for, in order, and keeps its limits. For a filter without a uid and
  frames no longer than the snap length, the loop always returns; the packets it sends are, in the order of
  arrival, the first of the frames the filter selects, each with its bytes (or none when the payload is not
  wanted), its length on the wire, direction, time and summary; they carry the capture's id and consecutive
  sequence numbers from one. No more than \<open>max_packets\<close> are sent; the byte limit was not reached before the last one;
  the reported reason for a limit is true; and unless a limit or the client ended the capture,
  no selected frame is left out.
\<close>

theorem capture_loop_limits:
  assumes "cp_packets c = 0" and "\<not> fl_has_uid filt"
    and "list_all (\<lambda>f. length (fr_data f) \<le> cp_snaplen c) (frames_until evs)"
  shows "\<exists>pkts n c' e. capture_loop request filt cid accepts 0 0 evs c = Some (pkts, n, c', e) \<and>
           n = length pkts \<and> map pk_sequence pkts = [1..<Suc n] \<and> list_all (\<lambda>p. pk_capture_id p = cid) pkts \<and>
           map packet_view pkts = take n (map (frame_view (rq_include_payload request) (cp_link_type c))
             (filter (selected filt (cp_link_type c)) (frames_until evs))) \<and>
           (rq_max_packets request = 0 \<or> n \<le> rq_max_packets request) \<and>
           (rq_max_bytes request = 0 \<or> pkts = [] \<or> total_bytes (butlast pkts) < rq_max_bytes request) \<and>
           (e = EndReason ''max_packets'' \<longrightarrow> n = rq_max_packets request) \<and>
           (e = EndReason ''max_bytes'' \<longrightarrow> rq_max_bytes request \<le> total_bytes pkts) \<and>
           (e \<in> {EndReason ''max_packets'', EndReason ''max_bytes'', EndReason ''client disconnected''} \<or>
            n = length (filter (selected filt (cp_link_type c)) (frames_until evs)))"
proof -
  let ?fs = "map (frame_view (rq_include_payload request) (cp_link_type c))
    (filter (selected filt (cp_link_type c)) (frames_until evs))"
  obtain pkts n c' e where r: "capture_loop request filt cid accepts 0 0 evs c = Some (pkts, n, c', e)"
    using capture_loop_total by (metis prod_cases4)
  have ok: "loop_ok request filt cid 0 0 c pkts n e" by (rule capture_loop_ok [OF r])
  then have n: "n = length pkts" by (simp add: loop_ok_def)
  have cid: "list_all (\<lambda>p. pk_capture_id p = cid) pkts"
    using ok by (auto simp: loop_ok_def packet_ok_def list_all_iff)
  obtain more where m: "?fs = map packet_view pkts @ more"
    and all: "e \<in> {EndReason ''max_packets'', EndReason ''max_bytes'', EndReason ''client disconnected''} \<or> more = []"
    using capture_loop_frames [OF r assms(3)] by blast
  have view: "map packet_view pkts = take n ?fs" unfolding m n by simp
  have "length ?fs = n + length more" unfolding m n by simp
  with all have left: "e \<in> {EndReason ''max_packets'', EndReason ''max_bytes'', EndReason ''client disconnected''} \<or>
      n = length (filter (selected filt (cp_link_type c)) (frames_until evs))" by auto
  show ?thesis
    using ok assms(1) r cid view left
    by (intro exI [of _ pkts] exI [of _ n] exI [of _ c'] exI [of _ e]) (auto simp: loop_ok_def)
qed

definition demo_capture :: capture where
  "demo_capture = \<lparr>cp_link_type = RawIp, cp_interface_index = 3, cp_interface_name = ''tun0'',
     cp_snaplen = 64, cp_packets = 0, cp_bytes = 0, cp_filtered_out = 0\<rparr>"

definition demo_request :: capture_request where
  "demo_request = \<lparr>rq_interface_name = ''tun0'', rq_filter = None, rq_snaplen = 64, rq_max_packets = 1,
     rq_max_bytes = 0, rq_duration_ms = 0, rq_promiscuous = False, rq_include_payload = True\<rparr>"

definition demo_frame :: capture_event where
  "demo_frame = Frame \<lparr>fr_data = [0x45, 0], fr_outgoing = False, fr_ifindex = 3, fr_unix_ms = 0, fr_unix_us = 0\<rparr>"

theorem capture_loop_limits_witness:
  "\<exists>pkts n c' e. capture_loop demo_request no_filter 7 (\<lambda>_. True) 0 0 [demo_frame, demo_frame] demo_capture =
     Some (pkts, n, c', e) \<and> n = length pkts \<and> n \<le> 1"
proof -
  have "cp_packets demo_capture = 0" "\<not> fl_has_uid no_filter"
    "list_all (\<lambda>f. length (fr_data f) \<le> cp_snaplen demo_capture) (frames_until [demo_frame, demo_frame])"
    by (simp_all add: demo_capture_def no_filter_def demo_frame_def)
  from capture_loop_limits [OF this, of demo_request 7 "\<lambda>_. True"] obtain pkts n c' e where
    "capture_loop demo_request no_filter 7 (\<lambda>_. True) 0 0 [demo_frame, demo_frame] demo_capture = Some (pkts, n, c', e)"
    "n = length pkts" "rq_max_packets demo_request = 0 \<or> n \<le> rq_max_packets demo_request" by blast
  then show ?thesis by (auto simp: demo_request_def)
qed

lemma flag_names_update: "flag_names (s\<lparr>ps_description := d\<rparr>) = flag_names s"
  by (simp add: flag_names_def)

lemma describe_update: "describe (s\<lparr>ps_description := d\<rparr>) = describe s"
  unfolding describe_def Let_def flag_names_update by simp

lemma decode_raw_v4_tcp:
  assumes "length hdr = unat (hdr ! 0 AND 0x0f) * 4" and "20 \<le> length hdr" and "drop_bit 4 (hdr ! 0) = 4"
    and "hdr ! 9 = 6" and "20 \<le> length tcp"
  shows "decode_v4 (hdr @ tcp) empty_summary = Some (empty_summary\<lparr>
      ps_family := 1, ps_ttl := unat (hdr ! 8), ps_ip_protocol := 6,
      ps_source := Some \<lparr>addr = take 4 (drop 12 hdr)\<rparr>,
      ps_destination := Some \<lparr>addr = take 4 (drop 16 hdr)\<rparr>,
      ps_protocol_name := ''TCP'',
      ps_source_port := unat (from_be16 (tcp ! 0) (tcp ! 1)),
      ps_destination_port := unat (from_be16 (tcp ! 2) (tcp ! 3)),
      ps_tcp_seq := unat (from_be32 (tcp ! 4) (tcp ! 5) (tcp ! 6) (tcp ! 7)),
      ps_fin := (tcp ! 13 AND 0x01 \<noteq> 0), ps_syn := (tcp ! 13 AND 0x02 \<noteq> 0),
      ps_rst := (tcp ! 13 AND 0x04 \<noteq> 0), ps_psh := (tcp ! 13 AND 0x08 \<noteq> 0),
      ps_ack := (tcp ! 13 AND 0x10 \<noteq> 0),
      ps_tcp_window := unat (from_be16 (tcp ! 14) (tcp ! 15))\<rparr>)"
proof -
  have n: "(hdr @ tcp) ! k = hdr ! k" if "k < 20" for k using that assms(2) by (simp add: nth_append)
  have g: "get (hdr @ tcp) 0 = Some (hdr ! 0)" "get (hdr @ tcp) 8 = Some (hdr ! 8)" "get (hdr @ tcp) 9 = Some 6"
    using n [of 0] n [of 8] n [of 9] assms(2,4) by (auto simp: get_def)
  have sl: "slice (hdr @ tcp) 12 16 = Some (take 4 (drop 12 hdr))"
    "slice (hdr @ tcp) 16 20 = Some (take 4 (drop 16 hdr))"
    "slice (hdr @ tcp) (unat (hdr ! 0 AND 0x0f) * 4) (length (hdr @ tcp)) = Some tcp"
    using assms(2) by (simp_all add: slice_def flip: assms(1))
  have ne: "tcp \<noteq> []" using assms(5) by auto
  show ?thesis
    using assms(2,5) ne g sl assms(1)
    by (simp add: decode_v4_def Let_def decode_l4_def decode_tcp_def get_u16_def empty_summary_def)
qed

lemma unat_from_be32:
  "unat (from_be32 a b c d) = unat a * 2 ^ 24 + unat b * 2 ^ 16 + unat c * 2 ^ 8 + unat d"
proof -
  have "from_be32 a b c d = push_bit 16 (ucast (from_be16 a b)) OR ucast (from_be16 c d)"
    by (rule bit_word_eqI) (auto simp: from_be32_def from_be16_def bit_simps not_less dest: bit_imp_le_length)
  also have "\<dots> = push_bit 16 (ucast (from_be16 a b)) + ucast (from_be16 c d)"
    by (rule disjunctive_add [symmetric]) (auto simp: bit_simps dest: bit_imp_le_length)
  also have "unat \<dots> = unat (from_be16 a b) * 65536 + unat (from_be16 c d)"
    using unat_u8_less [of a] unat_u8_less [of b] unat_u8_less [of c] unat_u8_less [of d]
    by (simp add: unat_from_be16 unat_word_ariths push_bit_eq_mult unsigned_ucast_eq take_bit_eq_mod)
  finally show ?thesis by (simp add: unat_from_be16)
qed

lemma flag_bits:
  "(x :: u8) AND 0x01 \<noteq> 0 \<longleftrightarrow> bit x 0" "x AND 0x02 \<noteq> 0 \<longleftrightarrow> bit x 1" "x AND 0x04 \<noteq> 0 \<longleftrightarrow> bit x 2"
  "x AND 0x08 \<noteq> 0 \<longleftrightarrow> bit x 3" "x AND 0x10 \<noteq> 0 \<longleftrightarrow> bit x 4"
  using and_exp_eq_0_iff_not_bit [of x 0] and_exp_eq_0_iff_not_bit [of x 1] and_exp_eq_0_iff_not_bit [of x 2]
    and_exp_eq_0_iff_not_bit [of x 3] and_exp_eq_0_iff_not_bit [of x 4] by simp_all

text \<open>
  C34: a well-formed IPv4 packet with TCP inside, with IP options or without, is decoded to
  exactly the addresses, ports, 32-bit sequence number, FIN, SYN, RST, PSH and ACK flags and window it
  carries, all in network byte order; an Ethernet header in front changes nothing.
\<close>

theorem decode_tcp_v4:
  assumes "length hdr = unat (hdr ! 0 AND 0x0f) * 4" and "20 \<le> length hdr" and "drop_bit 4 (hdr ! 0) = 4"
    and "hdr ! 9 = 6" and "20 \<le> length tcp" and "length mac = 12"
  shows "\<exists>s. decode (hdr @ tcp) RawIp = Some s \<and>
     decode (mac @ [0x08, 0x00] @ hdr @ tcp) Ethernet = Some s \<and>
     ps_family s = 1 \<and> ps_ip_protocol s = 6 \<and> ps_ttl s = unat (hdr ! 8) \<and>
     ps_source s = Some \<lparr>addr = take 4 (drop 12 hdr)\<rparr> \<and>
     ps_destination s = Some \<lparr>addr = take 4 (drop 16 hdr)\<rparr> \<and>
     ps_source_port s = unat (tcp ! 0) * 256 + unat (tcp ! 1) \<and>
     ps_destination_port s = unat (tcp ! 2) * 256 + unat (tcp ! 3) \<and>
     ps_tcp_seq s = unat (tcp ! 4) * 2 ^ 24 + unat (tcp ! 5) * 2 ^ 16 + unat (tcp ! 6) * 2 ^ 8 + unat (tcp ! 7) \<and>
     ps_fin s = bit (tcp ! 13) 0 \<and> ps_syn s = bit (tcp ! 13) 1 \<and> ps_rst s = bit (tcp ! 13) 2 \<and>
     ps_psh s = bit (tcp ! 13) 3 \<and> ps_ack s = bit (tcp ! 13) 4 \<and>
     ps_tcp_window s = unat (tcp ! 14) * 256 + unat (tcp ! 15) \<and> ps_description s = describe s"
proof -
  have ne: "hdr \<noteq> []" using assms(2) by auto
  have b0: "get (hdr @ tcp) 0 = Some (hdr ! 0)" using ne by (simp add: get_def nth_append)
  have raw: "strip_link (hdr @ tcp) RawIp = Some (Inr (hdr @ tcp))" by (simp add: strip_link_def)
  have et: "get_u16 (mac @ [0x08, 0x00] @ hdr @ tcp) 12 = Some 0x0800"
    using assms(6) by (simp add: get_u16_def get_def nth_append from_be16_def)
  have eth: "strip_link (mac @ [0x08, 0x00] @ hdr @ tcp) Ethernet = Some (Inr (hdr @ tcp))"
    using assms(6) et by (simp add: strip_link_def slice_def)
  note v4 = decode_raw_v4_tcp [OF assms(1-5)]
  show ?thesis
    unfolding decode_def raw eth
    using ne b0 assms(3) v4 by (simp add: unat_from_be16 unat_from_be32 describe_update flag_bits [symmetric, simplified])
qed

theorem decode_tcp_v4_witness:
  "\<exists>s. decode ([0x45, 0, 0, 40, 0, 0, 0, 0, 64, 6, 0, 0, 192, 168, 1, 10, 1, 1, 1, 1]
        @ [4, 210, 1, 187, 1, 0, 0, 5, 0, 0, 0, 0, 0x50, 2, 0xff, 0xff, 0, 0, 0, 0]) RawIp = Some s \<and>
     ps_source_port s = 1234 \<and> ps_destination_port s = 443 \<and> ps_tcp_seq s = 16777221 \<and> ps_syn s \<and> \<not> ps_rst s"
  using decode_tcp_v4 [of "[0x45, 0, 0, 40, 0, 0, 0, 0, 64, 6, 0, 0, 192, 168, 1, 10, 1, 1, 1, 1]"
      "[4, 210, 1, 187, 1, 0, 0, 5, 0, 0, 0, 0, 0x50, 2, 0xff, 0xff, 0, 0, 0, 0]" "replicate 12 0"]
  by auto

end
