(* ===== verification/Format.thy ===== *)
theory Format
  imports Snapshot Rules Capture
begin

text \<open>
  The formatting layer of the app (\<^verbatim>\<open>slint-app/src/format.rs\<close>): how an address, a route, a rule, a
  socket, a time and a size are written, and the status each enumeration maps to.

  The program prints a few quotients of doubles. A double is modelled by the fraction it denotes:
  \<open>f64_ratio\<close> rounds a quotient to 53 significant bits, ties to even, which is what \<open>as f64\<close> and \<open>/\<close>
  do on the normal range (every value here lies between one thousandth and \<open>2 ^ 64\<close>), and \<open>fixed\<close>
  is the exact decimal rounding, ties to even, of \<open>{:.1}\<close>. The time zone database behind
  \<open>localtime_r\<close> is an argument.
\<close>

section \<open>Rows\<close>

text \<open>The types of \<^verbatim>\<open>ui/theme.slint\<close> and \<^verbatim>\<open>ui/models.slint\<close> that the formatting fills.\<close>

datatype ui_status = UI_Pass | UI_Fail | UI_Warn | UI_Info | UI_Skip

record ui_field =
  uf_key :: string
  uf_value :: string
  uf_status :: ui_status
  uf_mono :: bool

record chip_data =
  cd_text :: string
  cd_status :: ui_status

definition field :: "string \<Rightarrow> string \<Rightarrow> ui_field" where
  "field key v = \<lparr>uf_key = key, uf_value = v, uf_status = UI_Skip, uf_mono = True\<rparr>"

definition field_prose :: "string \<Rightarrow> string \<Rightarrow> ui_field" where
  "field_prose key v = (field key v)\<lparr>uf_mono := False\<rparr>"

definition field_status :: "string \<Rightarrow> string \<Rightarrow> ui_status \<Rightarrow> ui_field" where
  "field_status key v status = (field key v)\<lparr>uf_status := status\<rparr>"

definition chip :: "string \<Rightarrow> ui_status \<Rightarrow> chip_data" where
  "chip t status = \<lparr>cd_text = t, cd_status = status\<rparr>"

section \<open>Primitives\<close>

text \<open>\<open>as i32\<close> of a \<open>u32\<close>: the same bits, read as a signed number.\<close>

definition i32_of_u32 :: "nat \<Rightarrow> int" where
  "i32_of_u32 n = (if n < 2 ^ 31 then int n else int n - 2 ^ 32)"

definition ip :: "ip_address \<Rightarrow> string" where
  "ip a =
     (if length (addr a) = 4 then show_ip (V4 (addr a))
      else if length (addr a) = 16 then show_ip (V6 (addr a))
      else ''-'')"

definition prefix_text :: "ip_prefix \<Rightarrow> string" where
  "prefix_text v =
     (case address v of
        Some a \<Rightarrow> if addr a \<noteq> [] then ip a @ ''/'' @ dec (prefix_len v) else ''*/'' @ dec (prefix_len v)
      | None \<Rightarrow> ''*/'' @ dec (prefix_len v))"

fun check_status_ui :: "check_status \<Rightarrow> ui_status" where
  "check_status_ui ST_Pass = UI_Pass"
| "check_status_ui ST_Fail = UI_Fail"
| "check_status_ui ST_Warn = UI_Warn"
| "check_status_ui ST_Info = UI_Info"
| "check_status_ui _ = UI_Skip"

fun severity_status :: "finding_severity \<Rightarrow> ui_status" where
  "severity_status FS_Critical = UI_Fail"
| "severity_status FS_High = UI_Fail"
| "severity_status FS_Medium = UI_Warn"
| "severity_status FS_Low = UI_Info"
| "severity_status _ = UI_Skip"

fun severity_label :: "finding_severity \<Rightarrow> string" where
  "severity_label FS_Critical = ''Critical''"
| "severity_label FS_High = ''High''"
| "severity_label FS_Medium = ''Medium''"
| "severity_label FS_Low = ''Low''"
| "severity_label FS_Info = ''Info''"
| "severity_label _ = ''Unknown''"

fun status_label :: "check_status \<Rightarrow> string" where
  "status_label ST_Pass = ''PASS''"
| "status_label ST_Fail = ''FAIL''"
| "status_label ST_Warn = ''WARN''"
| "status_label ST_Info = ''INFO''"
| "status_label ST_Skip = ''SKIP''"
| "status_label _ = ellipsis @ ''.''"

fun tcp_state_label :: "tcp_state \<Rightarrow> string" where
  "tcp_state_label TS_Established = ''ESTABLISHED''"
| "tcp_state_label TS_SynSent = ''SYN_SENT''"
| "tcp_state_label TS_SynRecv = ''SYN_RECV''"
| "tcp_state_label TS_FinWait1 = ''FIN_WAIT1''"
| "tcp_state_label TS_FinWait2 = ''FIN_WAIT2''"
| "tcp_state_label TS_TimeWait = ''TIME_WAIT''"
| "tcp_state_label TS_Close = ''CLOSE''"
| "tcp_state_label TS_CloseWait = ''CLOSE_WAIT''"
| "tcp_state_label TS_LastAck = ''LAST_ACK''"
| "tcp_state_label TS_Listen = ''LISTEN''"
| "tcp_state_label TS_Closing = ''CLOSING''"
| "tcp_state_label _ = ''UNKNOWN''"

fun transport_label :: "transport \<Rightarrow> string" where
  "transport_label TR_Cellular = ''Cellular''"
| "transport_label TR_Wifi = ''Wi-Fi''"
| "transport_label TR_Bluetooth = ''Bluetooth''"
| "transport_label TR_Ethernet = ''Ethernet''"
| "transport_label TR_Vpn = ''VPN''"
| "transport_label TR_Usb = ''USB''"
| "transport_label TR_Thread = ''Thread''"
| "transport_label TR_Satellite = ''Satellite''"
| "transport_label _ = ''Unknown''"

fun link_kind_label :: "link_kind \<Rightarrow> string" where
  "link_kind_label LK_Loopback = ''loopback''"
| "link_kind_label LK_Wifi = ''Wi-Fi''"
| "link_kind_label LK_Cellular = ''cellular''"
| "link_kind_label LK_Ethernet = ''Ethernet''"
| "link_kind_label LK_VpnTun = ''VPN''"
| "link_kind_label LK_Bluetooth = ''Bluetooth''"
| "link_kind_label LK_Clat = ''464XLAT''"
| "link_kind_label LK_Bridge = ''bridge''"
| "link_kind_label LK_Dummy = ''dummy''"
| "link_kind_label _ = ''other''"

section \<open>Routes, rules and sockets\<close>

definition gateway_of :: "next_hop option \<Rightarrow> ip_address option" where
  "gateway_of hop =
     (case Option.bind hop nh_gateway of
        Some g \<Rightarrow> if addr g \<noteq> [] then Some g else None
      | None \<Rightarrow> None)"

definition first_of :: "'a list \<Rightarrow> 'a option" where
  "first_of xs = (case xs of x # _ \<Rightarrow> Some x | [] \<Rightarrow> None)"

definition route_line :: "route \<Rightarrow> string" where
  "route_line r =
     (let destination =
            (if rt_is_default r then ''default''
             else case rt_destination r of Some p \<Rightarrow> prefix_text p | None \<Rightarrow> ''?'');
          hop = first_of (rt_next_hops r);
          via = (case gateway_of hop of Some g \<Rightarrow> ''via '' @ ip g @ '' '' | None \<Rightarrow> []);
          dev = (case hop of
                   Some h \<Rightarrow> if nh_out_interface_name h = [] then ''dev if'' @ dec (nh_out_interface_index h)
                             else ''dev '' @ nh_out_interface_name h
                 | None \<Rightarrow> [])
      in destination @ '' '' @ via @ dev
         @ (if rt_priority r \<noteq> 0 then '' metric '' @ dec (rt_priority r) else [])
         @ (case rt_metrics r of
              Some m \<Rightarrow> if mt_mtu m \<noteq> 0 then '' mtu '' @ dec (mt_mtu m) else []
            | None \<Rightarrow> []))"

text \<open>A selector is printed only when it has an address.\<close>

definition selector_text :: "string \<Rightarrow> ip_prefix option \<Rightarrow> string" where
  "selector_text word p =
     (case p of
        Some v \<Rightarrow> if address v \<noteq> None then word @ '' '' @ prefix_text v @ '' '' else []
      | None \<Rightarrow> [])"

definition rule_line :: "routing_rule \<Rightarrow> string" where
  "rule_line r =
     dec (rl_priority r) @ '': ''
     @ selector_text ''from'' (rl_source r)
     @ selector_text ''to'' (rl_destination r)
     @ (if rl_input_interface r \<noteq> [] then ''iif '' @ rl_input_interface r @ '' '' else [])
     @ (if rl_output_interface r \<noteq> [] then ''oif '' @ rl_output_interface r @ '' '' else [])
     @ (if rl_has_fwmark r
        then ''fwmark 0x'' @ hex (unat (rl_fwmark r))
             @ (if rl_fwmask r \<noteq> 0 then ''/0x'' @ hex (unat (rl_fwmask r)) else []) @ '' ''
        else [])
     @ (if rl_has_uid_range r
        then (if rl_invert r then ''not '' else [])
             @ ''uidrange '' @ dec (rl_uid_range_start r) @ ''-'' @ dec (rl_uid_range_end r) @ '' ''
        else [])
     @ (if rl_table_name r = [] then ''lookup '' @ dec (rl_table r) else ''lookup '' @ rl_table_name r)"

definition endpoint_text :: "ip_address option \<Rightarrow> nat \<Rightarrow> string" where
  "endpoint_text a port = (case a of Some x \<Rightarrow> ip x | None \<Rightarrow> ''-'') @ '':'' @ dec port"

definition socket_tuple :: "socket \<Rightarrow> string" where
  "socket_tuple s =
     endpoint_text (so_local_address s) (so_local_port s) @ '' -> ''
     @ (if so_remote_port s = 0 then ''*:*'' else endpoint_text (so_remote_address s) (so_remote_port s))"

fun socket_status :: "tcp_state \<Rightarrow> ui_status" where
  "socket_status TS_Established = UI_Pass"
| "socket_status TS_SynSent = UI_Warn"
| "socket_status TS_CloseWait = UI_Warn"
| "socket_status TS_Listen = UI_Info"
| "socket_status _ = UI_Skip"

section \<open>Time\<close>

text \<open>\<open>{:02}\<close> and \<open>{:03}\<close>: a decimal number padded with zeros on the left.\<close>

definition pad :: "nat \<Rightarrow> nat \<Rightarrow> string" where
  "pad w n = replicate (w - length (dec n)) (CHR ''0'') @ dec n"

text \<open>The seconds east of UTC that \<open>localtime_r\<close> reports for an instant, \<open>None\<close> when it fails.\<close>

type_synonym localtime = "int \<Rightarrow> int option"

definition utc_offset_seconds :: "localtime \<Rightarrow> int \<Rightarrow> int" where
  "utc_offset_seconds lt unix_seconds = (case lt unix_seconds of Some gmtoff \<Rightarrow> gmtoff | None \<Rightarrow> 0)"

definition time_of_day :: "localtime \<Rightarrow> int \<Rightarrow> string" where
  "time_of_day lt unix_ms =
     (let total_seconds = unix_ms div 1000;
          millis = unix_ms mod 1000;
          seconds_today = (total_seconds + utc_offset_seconds lt total_seconds) mod 86400;
          hours = seconds_today div 3600;
          minutes = (seconds_today mod 3600) div 60;
          seconds = seconds_today mod 60
      in pad 2 (nat hours) @ '':'' @ pad 2 (nat minutes) @ '':'' @ pad 2 (nat seconds)
         @ ''.'' @ pad 3 (nat millis))"

section \<open>Doubles and sizes\<close>

fun bit_length :: "nat \<Rightarrow> nat" where
  "bit_length n = (if n = 0 then 0 else Suc (bit_length (n div 2)))"

declare bit_length.simps [simp del]

definition round_div :: "nat \<Rightarrow> nat \<Rightarrow> nat" where
  "round_div a b =
     (let q = a div b; r = a mod b
      in if 2 * r < b \<or> 2 * r = b \<and> even q then q else q + 1)"

type_synonym f64 = "nat \<times> nat"

text \<open>The exponent \<open>e\<close> of a quotient: \<open>2 ^ e \<le> a / b < 2 ^ (e + 1)\<close>.\<close>

definition f64_exponent :: "nat \<Rightarrow> nat \<Rightarrow> int" where
  "f64_exponent a b =
     (let k = int (bit_length a) - int (bit_length b)
      in if b * 2 ^ nat k \<le> a * 2 ^ nat (- k) then k else k - 1)"

definition f64_ratio :: "nat \<Rightarrow> nat \<Rightarrow> f64" where
  "f64_ratio a b =
     (if a = 0 then (0, 1) else
      let s = 52 - f64_exponent a b
      in (round_div (a * 2 ^ nat s) (b * 2 ^ nat (- s)) * 2 ^ nat (- s), 2 ^ nat s))"

definition f64_of_u64 :: "nat \<Rightarrow> f64" where "f64_of_u64 v = f64_ratio v 1"

definition f64_mul :: "f64 \<Rightarrow> f64 \<Rightarrow> f64" where
  "f64_mul x y = f64_ratio (fst x * fst y) (snd x * snd y)"

definition f64_div :: "f64 \<Rightarrow> f64 \<Rightarrow> f64" where
  "f64_div x y = f64_ratio (fst x * snd y) (snd x * fst y)"

definition f64_less :: "f64 \<Rightarrow> f64 \<Rightarrow> bool" where
  "f64_less x y = (fst x * snd y < fst y * snd x)"

definition decimal :: "nat \<Rightarrow> nat \<Rightarrow> string" where
  "decimal d n = (if d = 0 then dec n else dec (n div 10 ^ d) @ ''.'' @ pad d (n mod 10 ^ d))"

definition fixed :: "nat \<Rightarrow> f64 \<Rightarrow> string" where
  "fixed d x = decimal d (round_div (fst x * 10 ^ d) (snd x))"

definition KIB :: f64 where "KIB = (1024, 1)"

definition bytes :: "nat \<Rightarrow> string" where
  "bytes n =
     (let v = f64_of_u64 n
      in if f64_less v KIB then fixed 0 v @ '' B''
         else if f64_less v (f64_mul KIB KIB) then fixed 1 (f64_div v KIB) @ '' KiB''
         else if f64_less v (f64_mul (f64_mul KIB KIB) KIB)
              then fixed 1 (f64_div v (f64_mul KIB KIB)) @ '' MiB''
         else fixed 2 (f64_div v (f64_mul (f64_mul KIB KIB) KIB)) @ '' GiB'')"

section \<open>Facts\<close>

text \<open>\<open>ip\<close> and the \<open>display\<close> of the wire crate write an address the same way.\<close>

lemma ip_display: "ip a = display a"
  by (simp add: ip_def display_def to_ip_def)

lemma length_pad: "n < 10 ^ w \<Longrightarrow> 0 < w \<Longrightarrow> length (pad w n) = w"
  using length_dec_le [of n w] by (simp add: pad_def)

lemma digits_val_zeros: "digits_val 0 (replicate k (CHR ''0'') @ s) = digits_val 0 s"
  by (induction k) (simp_all add: digit_val_def)

lemma parse_nat_pad [simp]: "parse_nat (pad w n) = Some n"
  by (simp add: pad_def parse_nat_def digits_val_zeros digits_val_dec)

subsection \<open>Rounding\<close>

lemma round_div_mult [simp]: "0 < b \<Longrightarrow> round_div (m * b) b = m"
  by (simp add: round_div_def)

lemma round_div_scale:
  assumes "0 < c"
  shows "round_div (c * a) (c * b) = round_div a b"
proof -
  have "2 * (c * (a mod b)) < c * b \<longleftrightarrow> 2 * (a mod b) < b"
    using assms by (metis mult.left_commute mult_less_cancel1)
  moreover have "2 * (c * (a mod b)) = c * b \<longleftrightarrow> 2 * (a mod b) = b"
    using assms by (metis mult.left_commute mult_cancel1 less_numeral_extra(3))
  ultimately show ?thesis using assms by (simp add: round_div_def Let_def mult_mod_right [symmetric])
qed

lemma round_div_cong:
  assumes "a * d = c * b" "0 < b" "0 < d"
  shows "round_div a b = round_div c d"
  using round_div_scale [of d a b] round_div_scale [of b c d] assms by (simp add: mult.commute)

text \<open>The result is a nearest integer.\<close>

lemma round_div_nearest:
  assumes "0 < b"
  shows "2 * (round_div a b * b) \<le> 2 * a + b" "2 * a \<le> 2 * (round_div a b * b) + b"
proof -
  define q r where "q = a div b * b" and "r = a mod b"
  then have a: "a = q + r" and r: "r < b" using assms by simp_all
  have "round_div a b * b = (if 2 * r < b \<or> 2 * r = b \<and> even (a div b) then q else q + b)"
    by (simp add: round_div_def Let_def q_def r_def)
  then show "2 * (round_div a b * b) \<le> 2 * a + b" "2 * a \<le> 2 * (round_div a b * b) + b"
    using a r by (auto split: if_splits)
qed

lemma bit_length_bounds:
  "0 < n \<Longrightarrow> 0 < bit_length n \<and> 2 ^ (bit_length n - 1) \<le> n \<and> n < 2 ^ bit_length n"
proof (induction n rule: bit_length.induct)
  case (1 n)
  show ?case
  proof (cases "n = 1")
    case True
    then show ?thesis by (simp add: bit_length.simps)
  next
    case False
    with 1(2) have h: "0 < n div 2" by simp
    have b: "bit_length n = Suc (bit_length (n div 2))" using 1(2) by (subst bit_length.simps) simp
    from 1(1) [OF _ h] 1(2)
    have ih: "0 < bit_length (n div 2)" "2 ^ (bit_length (n div 2) - 1) \<le> n div 2" "n div 2 < 2 ^ bit_length (n div 2)"
      by simp_all
    have "2 * 2 ^ (bit_length (n div 2) - 1) = (2 :: nat) ^ bit_length (n div 2)"
      using ih(1) by (cases "bit_length (n div 2)") simp_all
    then have "2 ^ bit_length (n div 2) \<le> n" using ih(2) by linarith
    moreover have "n < 2 * 2 ^ bit_length (n div 2)" using ih(3) by linarith
    ultimately show ?thesis using b by simp
  qed
qed

lemma bit_length_unique:
  assumes "2 ^ j \<le> n" "n < 2 ^ Suc j"
  shows "bit_length n = Suc j"
proof -
  have n: "0 < n" using assms(1) by (metis gr0I le_zero_eq power_not_zero zero_neq_numeral)
  note b = bit_length_bounds [OF n]
  have "(2 :: nat) ^ j < 2 ^ bit_length n" using assms(1) b by linarith
  then have "j < bit_length n" by (rule power_less_imp_less_exp [rotated]) simp
  moreover have "(2 :: nat) ^ (bit_length n - 1) < 2 ^ Suc j" using assms(2) b by linarith
  then have "bit_length n - 1 < Suc j" by (rule power_less_imp_less_exp [rotated]) simp
  ultimately show ?thesis by simp
qed

lemma bit_length_scale:
  assumes "0 < n"
  shows "bit_length (n * 2 ^ c) = bit_length n + c"
proof -
  from bit_length_bounds [OF assms] obtain j where j: "bit_length n = Suc j" "2 ^ j \<le> n" "n < 2 ^ Suc j"
    by (cases "bit_length n") auto
  have "bit_length (n * 2 ^ c) = Suc (j + c)"
    using j(2,3) by (intro bit_length_unique) (simp_all add: power_add)
  with j(1) show ?thesis by simp
qed

lemma bit_length_less:
  assumes "0 < n" "n < 2 ^ w"
  shows "bit_length n \<le> w"
proof -
  have "(2 :: nat) ^ (bit_length n - 1) < 2 ^ w" using bit_length_bounds [OF assms(1)] assms(2) by linarith
  then have "bit_length n - 1 < w" by (rule power_less_imp_less_exp [rotated]) simp
  then show ?thesis by simp
qed

lemma f64_ratio_scale:
  assumes "0 < b"
  shows "f64_ratio (a * 2 ^ c) (b * 2 ^ c) = f64_ratio a b"
proof (cases "a = 0")
  case False
  have le: "b * 2 ^ c * 2 ^ k \<le> a * 2 ^ c * 2 ^ l \<longleftrightarrow> b * 2 ^ k \<le> a * 2 ^ l" for k l :: nat
    by (simp add: mult.commute mult.left_commute)
  have e: "f64_exponent (a * 2 ^ c) (b * 2 ^ c) = f64_exponent a b"
    using assms False unfolding f64_exponent_def Let_def by (simp only: le bit_length_scale) simp
  have "round_div (a * 2 ^ c * 2 ^ k) (b * 2 ^ c * 2 ^ l) = round_div (a * 2 ^ k) (b * 2 ^ l)" for k l :: nat
    using round_div_scale [of "2 ^ c" "a * 2 ^ k" "b * 2 ^ l"] by (simp add: mult.commute mult.left_commute)
  then show ?thesis using False by (simp add: f64_ratio_def Let_def e)
qed (simp add: f64_ratio_def)

text \<open>A numerator of at most 53 bits over a power of two is a double: nothing is rounded.\<close>

lemma f64_ratio_exact:
  assumes "0 < a" "a < 2 ^ 53"
  shows "\<exists>s. f64_ratio a (2 ^ j) = (a * 2 ^ s, 2 ^ (s + j))"
proof -
  have bl: "bit_length a \<le> 53" "bit_length (2 ^ j) = Suc j"
    using bit_length_less [of a 53] bit_length_unique [of j "2 ^ j"] assms by simp_all
  have "int j \<le> 52 - f64_exponent a (2 ^ j)" using bl by (simp add: f64_exponent_def Let_def)
  then obtain s where s: "52 - f64_exponent a (2 ^ j) = int (s + j)"
    by (intro that [of "nat (52 - f64_exponent a (2 ^ j) - int j)"]) simp
  have "f64_ratio a (2 ^ j) = (round_div (a * 2 ^ (s + j)) (2 ^ j), 2 ^ (s + j))"
    using assms(1) unfolding f64_ratio_def Let_def s by (simp flip: of_nat_add)
  also have "a * 2 ^ (s + j) = a * 2 ^ s * 2 ^ j" by (simp add: power_add)
  finally show ?thesis by auto
qed

text \<open>\<open>represents x a b\<close>: the double \<open>x\<close> is the quotient of \<open>a\<close> and \<open>b\<close>, exactly.\<close>

definition represents :: "f64 \<Rightarrow> nat \<Rightarrow> nat \<Rightarrow> bool" where
  "represents x a b = (0 < snd x \<and> fst x * b = a * snd x)"

lemma fixed_represents:
  assumes "represents x a b" "0 < b"
  shows "fixed d x = decimal d (round_div (a * 10 ^ d) b)"
proof -
  have "fst x * 10 ^ d * b = a * 10 ^ d * snd x"
    using assms(1) by (simp add: represents_def mult.commute mult.left_commute)
  then show ?thesis
    using assms round_div_cong [of "fst x * 10 ^ d" b "a * 10 ^ d" "snd x"] by (simp add: fixed_def represents_def)
qed

lemma less_represents:
  assumes "represents x a 1" "represents y b 1"
  shows "f64_less x y \<longleftrightarrow> a < b"
  using assms by (simp add: f64_less_def represents_def mult.commute mult.left_commute)

lemma f64_of_u64_exact: "n < 2 ^ 53 \<Longrightarrow> \<exists>s. f64_of_u64 n = (n * 2 ^ s, 2 ^ s)"
  using f64_ratio_exact [of n 0] by (cases "n = 0") (auto simp: f64_of_u64_def f64_ratio_def intro: exI [of _ 0])

lemma f64_div_exact:
  assumes "n < 2 ^ 53"
  shows "represents (f64_div (f64_of_u64 n) (2 ^ c * 2 ^ t, 2 ^ t)) n (2 ^ c)"
proof (cases "n = 0")
  case True
  then show ?thesis by (simp add: f64_of_u64_def f64_div_def f64_ratio_def represents_def)
next
  case False
  from f64_of_u64_exact [OF assms] obtain s where s: "f64_of_u64 n = (n * 2 ^ s, 2 ^ s)" by blast
  have "f64_div (f64_of_u64 n) (2 ^ c * 2 ^ t, 2 ^ t) = f64_ratio (n * 2 ^ (s + t)) (2 ^ c * 2 ^ (s + t))"
    by (simp add: s f64_div_def power_add mult.commute mult.left_commute)
  also have "\<dots> = f64_ratio n (2 ^ c)" by (rule f64_ratio_scale) simp
  finally show ?thesis
    using f64_ratio_exact [of n c] False assms by (auto simp: represents_def power_add)
qed

lemma KIB_powers:
  "KIB = (2 ^ 10 * 2 ^ 0, 2 ^ 0)"
  "f64_mul KIB KIB = (2 ^ 20 * 2 ^ 32, 2 ^ 32)"
  "f64_mul (f64_mul KIB KIB) KIB = (2 ^ 30 * 2 ^ 22, 2 ^ 22)"
  by (simp_all add: KIB_def f64_mul_def f64_ratio_def f64_exponent_def bit_length.simps round_div_def)

text \<open>What an integer computation prints: the quotient rounded to a tenth, or to a hundredth.\<close>

definition size_text :: "nat \<Rightarrow> string" where
  "size_text n =
     (if n < 1024 then dec n @ '' B''
      else if n < 1024 ^ 2 then decimal 1 (round_div (10 * n) 1024) @ '' KiB''
      else if n < 1024 ^ 3 then decimal 1 (round_div (10 * n) (1024 ^ 2)) @ '' MiB''
      else decimal 2 (round_div (100 * n) (1024 ^ 3)) @ '' GiB'')"

lemma bytes_size_text:
  assumes "n < 2 ^ 53"
  shows "bytes n = size_text n"
proof -
  have v: "represents (f64_of_u64 n) n 1"
    using f64_of_u64_exact [OF assms] by (auto simp: represents_def)
  have k: "represents (2 ^ c * 2 ^ t, 2 ^ t) (2 ^ c) 1" for c t by (simp add: represents_def)
  note less = less_represents [OF v k]
  have div: "fixed d (f64_div (f64_of_u64 n) (2 ^ c * 2 ^ t, 2 ^ t)) = decimal d (round_div (n * 10 ^ d) (2 ^ c))" for d c t
    by (rule fixed_represents [OF f64_div_exact [OF assms]]) simp
  have "fixed 0 (f64_of_u64 n) = dec n" using fixed_represents [OF v, of 0] by (simp add: decimal_def round_div_def)
  then show ?thesis
    unfolding bytes_def Let_def unfolding KIB_powers(3) unfolding KIB_powers(2) unfolding KIB_powers(1)
    unfolding less div by (simp add: size_text_def mult.commute)
qed

subsection \<open>The clock\<close>

lemma clock_digits: "(t div 3600 * 60 + t mod 3600 div 60) * 60 + t mod 60 = (t :: int)"
proof -
  have "t mod 3600 = t mod 3600 div 60 * 60 + t mod 60" using div_mult_mod_eq [of "t mod 3600" 60] by (simp add: mod_mod_cancel)
  moreover have "(a * 60 + b) * 60 + c = t" if "m = b * 60 + c" "a * 3600 + m = t" for a b c m using that by simp
  ultimately show ?thesis using div_mult_mod_eq [of t 3600] by blast
qed

lemma clock_bounds:
  assumes "0 \<le> t" "t < (86400 :: int)"
  shows "nat (t div 3600) < 24" "nat (t mod 3600 div 60) < 60" "nat (t mod 60) < 60"
proof -
  have "t div 3600 \<le> 86399 div 3600" by (rule zdiv_mono1) (use assms in simp_all)
  then show "nat (t div 3600) < 24" by simp
  have "t mod 3600 \<le> 3599" using pos_mod_bound [of 3600 t] by linarith
  then have "t mod 3600 div 60 \<le> 3599 div 60" by (intro zdiv_mono1) simp_all
  then show "nat (t mod 3600 div 60) < 60" by simp
  show "nat (t mod 60) < 60" using pos_mod_bound [of 60 t] by linarith
qed

lemma clock_value:
  "0 \<le> t \<Longrightarrow> int ((nat (t div 3600) * 60 + nat (t mod 3600 div 60)) * 60 + nat (t mod 60)) = t"
  using clock_digits [of t] by (simp add: pos_imp_zdiv_nonneg_iff)

lemma clock_length:
  assumes "h < 24" "m < 60" "s < 60" "ms < 1000"
  shows "length (pad 2 h @ '':'' @ pad 2 m @ '':'' @ pad 2 s @ ''.'' @ pad 3 ms) = 12"
  using assms by (simp add: length_pad)

lemma local_ms: "(t div 1000 + off) mod 86400 * 1000 + t mod 1000 = (t + 1000 * off) mod (86400000 :: int)"
  using zmod_zmult2_eq [of 86400 "t + 1000 * off" 1000] by (simp add: add.commute)

section \<open>Properties\<close>

text \<open>
  C27: a size is written as integer arithmetic would write it. Below \<open>2 ^ 53\<close> bytes the doubles that
  \<open>bytes\<close> computes with lose nothing: the unit is the one the size falls in, and the number is the
  quotient by that unit rounded once, to the nearest tenth of a KiB or MiB and the nearest hundredth
  of a GiB, a tie going to the even digit; \<open>round_div\<close> is off by at most half a unit.
\<close>

theorem bytes_exact:
  assumes "n < 2 ^ 53"
  shows "bytes n = size_text n \<and>
    (0 < u \<longrightarrow> 2 * (round_div a u * u) \<le> 2 * a + u \<and> 2 * a \<le> 2 * (round_div a u * u) + u)"
  using bytes_size_text [OF assms] round_div_nearest [of u a] by simp

theorem bytes_exact_witness:
  "bytes 1536 = ''1.5 KiB'' \<and> size_text (5 * 1024 * 1024) = ''5.0 MiB''"
proof -
  have "bytes 1536 = size_text 1536" using bytes_exact [of 1536 1 0] by simp
  moreover have "size_text 1536 = decimal 1 15 @ '' KiB''" "size_text (5 * 1024 * 1024) = decimal 1 50 @ '' MiB''"
    by (simp_all add: size_text_def round_div_def)
  moreover have "decimal 1 15 = ''1.5''" "decimal 1 50 = ''5.0''"
    by (simp_all add: decimal_def pad_def dec_step digit_chars)
  ultimately show ?thesis by simp
qed

text \<open>
  The clock of the timeline is right. For every instant, also before the epoch, the text has
  the form \<open>HH:MM:SS.mmm\<close>, its four numbers are in range, and together they are the milliseconds since
  local midnight: the instant shifted by the offset the time zone had at that instant, modulo a day.
\<close>

lemma time_of_day_reads:
  "\<exists>h m s ms. time_of_day lt unix_ms = pad 2 h @ '':'' @ pad 2 m @ '':'' @ pad 2 s @ ''.'' @ pad 3 ms \<and>
     h < 24 \<and> m < 60 \<and> s < 60 \<and> ms < 1000 \<and> length (time_of_day lt unix_ms) = 12 \<and>
     int (((h * 60 + m) * 60 + s) * 1000 + ms) =
       (unix_ms + 1000 * utc_offset_seconds lt (unix_ms div 1000)) mod 86400000"
proof -
  let ?t = "(unix_ms div 1000 + utc_offset_seconds lt (unix_ms div 1000)) mod 86400"
  have t: "0 \<le> ?t" "?t < 86400" by simp_all
  define h m s ms where "h = nat (?t div 3600)" and "m = nat (?t mod 3600 div 60)" and "s = nat (?t mod 60)"
    and "ms = nat (unix_ms mod 1000)"
  have eq: "time_of_day lt unix_ms = pad 2 h @ '':'' @ pad 2 m @ '':'' @ pad 2 s @ ''.'' @ pad 3 ms"
    unfolding time_of_day_def Let_def h_def m_def s_def ms_def ..
  have b: "h < 24" "m < 60" "s < 60" unfolding h_def m_def s_def by (fact clock_bounds [OF t])+
  have ms: "ms < 1000" "int ms = unix_ms mod 1000" by (simp_all add: ms_def nat_less_iff)
  have "int ((h * 60 + m) * 60 + s) = ?t"
    unfolding h_def m_def s_def by (rule clock_value [OF t(1)])
  then have "int (((h * 60 + m) * 60 + s) * 1000 + ms) = ?t * 1000 + unix_ms mod 1000"
    unfolding ms(2) [symmetric] by (simp only: of_nat_add of_nat_mult of_nat_numeral)
  then have "int (((h * 60 + m) * 60 + s) * 1000 + ms) =
      (unix_ms + 1000 * utc_offset_seconds lt (unix_ms div 1000)) mod 86400000"
    unfolding local_ms .
  moreover have "length (time_of_day lt unix_ms) = 12" unfolding eq using b ms(1) by (rule clock_length)
  ultimately show ?thesis using eq b ms(1) by blast
qed

text \<open>A rule that has no uid range reads the same whether it is inverted or not.\<close>

lemma rule_line_hides_invert:
  "\<not> rl_has_uid_range r \<Longrightarrow> rule_line (r\<lparr>rl_invert := b\<rparr>) = rule_line r"
  by (simp add: rule_line_def)

text \<open>Rounded up to the next unit: one byte less than a MiB is written as 1024.0 KiB.\<close>

lemma bytes_rounds_past_unit: "bytes (1024 * 1024 - 1) = ''1024.0 KiB''"
proof -
  have "bytes (1024 * 1024 - 1) = size_text (1024 * 1024 - 1)" by (rule bytes_size_text) simp
  moreover have "size_text (1024 * 1024 - 1) = decimal 1 10240 @ '' KiB''" by (simp add: size_text_def round_div_def)
  moreover have "decimal 1 10240 = ''1024.0''"
    by (simp add: decimal_def pad_def dec_step digit_chars)
  ultimately show ?thesis by simp
qed

end
