(* ===== verification/View.thy ===== *)
theory View
  imports Format Diag
begin

text \<open>
  The view models of the app (\<^verbatim>\<open>slint-app/src/view.rs\<close>): how a snapshot, a diagnosis, an app's
  network state, an event and a captured packet become the rows of the screens. The rows are the
  structures of \<^verbatim>\<open>ui/models.slint\<close>; \<open>shared\<close> and \<open>model\<close> only wrap a value for the toolkit and are
  the identity here.
\<close>

section \<open>The rows of the screens\<close>

record overview_data =
  ov_connected :: bool
  ov_transport :: string
  ov_interface_name :: string
  ov_net_id :: string
  ov_dns :: string
  ov_mtu :: string
  ov_framework_chips :: "chip_data list"
  ov_other_networks :: "string list"
  ov_default_routes :: "string list"
  ov_sockets_line :: string
  ov_clat_line :: string
  ov_kernel_release :: string
  ov_collection :: string
  ov_warnings :: "string list"

record interface_row =
  iw_name :: string
  iw_subtitle :: string
  iw_addresses :: string
  iw_chips :: "chip_data list"
  iw_fields :: "ui_field list"
  iw_expanded :: bool

record route_table_row =
  tw_title :: string
  tw_subtitle :: string
  tw_lines :: "string list"

record ui_check_row =
  cw_key :: string
  cw_title :: string
  cw_detail :: string
  cw_status :: ui_status
  cw_duration :: string
  cw_evidence :: "ui_field list"
  cw_expanded :: bool

record ui_finding_row =
  fw_key :: string
  fw_title :: string
  fw_severity :: string
  fw_status :: ui_status
  fw_confidence :: int
  fw_paragraphs :: "string list"
  fw_actions :: "string list"
  fw_based_on :: string

record diagnosis_data =
  dd_running :: bool
  dd_summary :: string
  dd_counts :: "chip_data list"
  dd_checks :: "ui_check_row list"
  dd_findings :: "ui_finding_row list"

record ui_socket_row =
  sw_state :: string
  sw_status :: ui_status
  sw_tuple :: string
  sw_meta :: string
  sw_owner :: string
  sw_health :: string
  sw_detail :: "ui_field list"
  sw_expanded :: bool

record sockets_data =
  sk_summary :: string
  sk_hidden :: string
  sk_rows :: "ui_socket_row list"

record app_detail_data =
  ad_present :: bool
  ad_label :: string
  ad_package :: string
  ad_uid :: int
  ad_summary :: string
  ad_chips :: "chip_data list"
  ad_framework :: "ui_field list"
  ad_rules :: "string list"
  ad_routing :: "ui_field list"
  ad_vpn_present :: bool
  ad_vpn_title :: string
  ad_vpn_chip :: chip_data
  ad_vpn :: "ui_field list"
  ad_sockets :: "ui_socket_row list"
  ad_socket_summary :: string
  ad_firewall :: string

record ui_event_row =
  ew_time :: string
  ew_source :: string
  ew_status :: ui_status
  ew_summary :: string

record ui_packet_row =
  pw_time :: string
  pw_status :: ui_status
  pw_summary :: string
  pw_detail :: string

record capture_data =
  cv_running :: bool
  cv_interface :: string
  cv_summary :: string
  cv_error :: string
  cv_saved_path :: string
  cv_packets :: "ui_packet_row list"

section \<open>Conversions and defaults\<close>

definition no_app :: app_ref where
  "no_app = \<lparr>ap_package_name = [], ap_uid = 0, ap_label = [], ap_is_system = False\<rparr>"

definition no_routing :: uid_routing_path where
  "no_routing = \<lparr>up_uid = 0, up_matching_rules = [], up_lookup_v4 = None, up_lookup_v6 = None,
     up_table_v4 = 0, up_table_v6 = 0, up_egress_interface_v4 = [], up_egress_interface_v6 = []\<rparr>"

definition unwrap_or :: "'a \<Rightarrow> 'a option \<Rightarrow> 'a" where
  "unwrap_or d x = (case x of Some v \<Rightarrow> v | None \<Rightarrow> d)"

definition spaced_dot :: string where "spaced_dot = '' '' @ middle_dot @ '' ''"

section \<open>Overview\<close>

definition active_network :: "android_network_state \<Rightarrow> android_network option" where
  "active_network st =
     (case find (\<lambda>n. an_net_id n = as_active_net_id st) (as_networks st) of
        Some n \<Rightarrow> Some n
      | None \<Rightarrow> find an_is_default (as_networks st))"

definition transport_labels :: "android_network \<Rightarrow> string list" where
  "transport_labels n = map transport_label (List.map_filter transport_try_from (an_transports n))"

definition framework_chips :: "android_network option \<Rightarrow> chip_data list" where
  "framework_chips active =
     (case active of
        None \<Rightarrow> [chip ''NO FRAMEWORK STATE'' UI_Skip]
      | Some n \<Rightarrow>
          let caps = caps_of n in
          [chip (if nc_validated caps then ''VALIDATED'' else ''NOT VALIDATED'')
                (if nc_validated caps then UI_Pass else UI_Warn),
           chip (if nc_not_metered caps then ''UNMETERED'' else ''METERED'')
                (if nc_not_metered caps then UI_Pass else UI_Info)]
          @ (if nc_captive_portal caps then [chip ''PORTAL'' UI_Fail] else [])
          @ (if TRANSPORT_VPN \<in> set (an_transports n) then [chip ''VPN'' UI_Info] else [])
          @ (if nc_internet caps then [chip ''INTERNET'' UI_Pass] else []))"

definition other_network_line :: "android_network \<Rightarrow> string" where
  "other_network_line n =
     ''netId '' @ dec_int (an_net_id n) @ ''  '' @ join ''+'' (transport_labels n) @ ''  ''
     @ (case an_link_properties n of Some lp \<Rightarrow> lp_interface_name lp | None \<Rightarrow> [])"

definition overview :: "snapshot \<Rightarrow> overview_data" where
  "overview sn =
     (let android = sn_android_state sn;
          active = Option.bind android active_network;
          link = unwrap_or no_link_properties (Option.bind active an_link_properties);
          labels = (case active of Some n \<Rightarrow> transport_labels n | None \<Rightarrow> []);
          other = (case android of
                     Some st \<Rightarrow> map other_network_line
                       (filter (\<lambda>n. Some (an_net_id n) \<noteq> map_option an_net_id active) (as_networks st))
                   | None \<Rightarrow> []);
          defaults = map (\<lambda>r. route_line r @ '' table '' @ dec (rt_table r)) (filter rt_is_default (sn_routes sn))
      in \<lparr>ov_connected = True,
          ov_transport = (if labels = [] then em_dash else join '' + '' labels),
          ov_interface_name = (if lp_interface_name link = [] then em_dash else lp_interface_name link),
          ov_net_id = (case active of Some n \<Rightarrow> dec_int (an_net_id n) | None \<Rightarrow> em_dash),
          ov_dns = join '', '' (map ip (lp_dns_servers link)),
          ov_mtu = (if lp_mtu link > 0 then dec_int (lp_mtu link) else []),
          ov_framework_chips = framework_chips active,
          ov_other_networks = other,
          ov_default_routes = (if defaults = [] then [''no default route in any table''] else defaults),
          ov_sockets_line =
            (case sn_socket_summary sn of
               Some s \<Rightarrow> dec (ss_total s) @ '' total, '' @ dec (ss_established s) @ '' established''
             | None \<Rightarrow> []),
          ov_clat_line =
            (case sn_clat sn of
               Some c \<Rightarrow> if cl_active c then ''active on '' @ cl_interface c @ '' over '' @ cl_base_interface c else []
             | None \<Rightarrow> []),
          ov_kernel_release = sn_kernel_release sn,
          ov_collection =
            dec (sn_collection_duration_ms sn) @ '' ms'' @ spaced_dot @ dec (length (sn_routes sn)) @ '' routes''
            @ spaced_dot @ dec (length (sn_rules sn)) @ '' rules''
            @ spaced_dot @ dec (length (sn_sockets sn)) @ '' sockets'',
          ov_warnings = sn_collection_warnings sn\<rparr>)"

definition empty_overview :: overview_data where
  "empty_overview =
     \<lparr>ov_connected = False, ov_transport = em_dash, ov_interface_name = em_dash, ov_net_id = em_dash,
      ov_dns = [], ov_mtu = [], ov_framework_chips = [], ov_other_networks = [], ov_default_routes = [],
      ov_sockets_line = [], ov_clat_line = [], ov_kernel_release = [], ov_collection = [], ov_warnings = []\<rparr>"

section \<open>Interfaces\<close>

definition interface_up :: "interface \<Rightarrow> bool" where
  "interface_up i = (case if_flags i of Some f \<Rightarrow> fl_up f | None \<Rightarrow> False)"

definition interface_running :: "interface \<Rightarrow> bool" where
  "interface_running i = (case if_flags i of Some f \<Rightarrow> fl_running f | None \<Rightarrow> False)"

definition USIZE_MAX :: nat where "USIZE_MAX = 2 ^ 64 - 1"

text \<open>The sort key: down after up, many addresses before few, then the index.\<close>

definition interface_cmp :: "interface \<Rightarrow> interface \<Rightarrow> ordering" where
  "interface_cmp a b =
     then_cmp (cmp_of (\<not> interface_up a) (\<not> interface_up b))
       (then_cmp (cmp_of (USIZE_MAX - length (if_addresses a)) (USIZE_MAX - length (if_addresses b)))
         (cmp_of (if_index a) (if_index b)))"

definition interface_chips :: "interface \<Rightarrow> chip_data list" where
  "interface_chips i =
     [chip (if interface_up i then ''UP'' else ''DOWN'') (if interface_up i then UI_Pass else UI_Skip)]
     @ (if interface_up i \<and> \<not> interface_running i then [chip ''NO CARRIER'' UI_Warn] else [])
     @ (case if_sysctls i of
          Some s \<Rightarrow> if sy_ipv6_disabled s then [chip ''IPv6 OFF'' UI_Fail] else []
        | None \<Rightarrow> [])"

definition interface_fields :: "interface \<Rightarrow> ui_field list" where
  "interface_fields i =
     (case if_stats i of
        Some st \<Rightarrow>
          [field ''rx'' (bytes (ls_rx_bytes st)), field ''tx'' (bytes (ls_tx_bytes st))]
          @ (if ls_rx_dropped st > 0 \<or> ls_tx_dropped st > 0
             then [field_status ''dropped''
                     (''rx '' @ dec (ls_rx_dropped st) @ '' / tx '' @ dec (ls_tx_dropped st)) UI_Warn]
             else [])
      | None \<Rightarrow> [])
     @ (case if_sysctls i of
          Some s \<Rightarrow>
            (if sy_ipv6_disabled s
             then [field_status ''disable_ipv6'' (''1 '' @ em_dash @ '' IPv6 is off on this interface'') UI_Fail]
             else [])
            @ [field ''accept_ra'' (dec_int (sy_accept_ra s))]
        | None \<Rightarrow> [])
     @ (if if_mac_address i \<noteq> [] then [field ''mac'' (join '':'' (map hex2 (if_mac_address i)))] else [])"

definition interface_row :: "interface \<Rightarrow> interface_row" where
  "interface_row i =
     (let addresses = join ''  '' (List.map_filter (\<lambda>a. map_option prefix_text (la_prefix a)) (if_addresses i))
      in \<lparr>iw_name = if_name i,
          iw_subtitle = link_kind_label (if_kind i) @ spaced_dot @ ''index '' @ dec (if_index i)
            @ spaced_dot @ ''MTU '' @ dec (if_mtu i),
          iw_addresses = (if addresses = [] then ''no addresses'' else addresses),
          iw_chips = interface_chips i, iw_fields = interface_fields i, iw_expanded = False\<rparr>)"

definition interfaces :: "snapshot \<Rightarrow> interface_row list" where
  "interfaces sn = map interface_row (sort_by interface_cmp (sn_interfaces sn))"

section \<open>Routing\<close>

definition policy_rules :: "snapshot \<Rightarrow> nat \<Rightarrow> string list" where
  "policy_rules sn limit =
     map rule_line (take limit (filter (\<lambda>r. rl_has_uid_range r \<or> rl_has_fwmark r) (sn_rules sn)))"

definition table_row :: "snapshot \<Rightarrow> nat \<Rightarrow> route_table_row" where
  "table_row sn table =
     (let routes = filter (\<lambda>r. rt_table r = table) (sn_routes sn);
          name = unwrap_or [] (sn_table_names sn table);
          defaults = length (filter rt_is_default routes)
      in \<lparr>tw_title = (if name = [] then ''Table '' @ dec table else ''Table '' @ dec table @ '' ('' @ name @ '')''),
          tw_subtitle = dec (length routes) @ '' routes''
            @ (if defaults > 0 then '', '' @ dec defaults @ '' default'' else []),
          tw_lines = map route_line (take 24 routes)\<rparr>)"

definition route_tables :: "snapshot \<Rightarrow> route_table_row list" where
  "route_tables sn = map (table_row sn) (dedup (sort_by cmp_of (map rt_table (sn_routes sn))))"

section \<open>Diagnosis\<close>

text \<open>The evidence of a check is a hash map: the order in which it is walked is an argument.\<close>

type_synonym map_order = "(string \<rightharpoonup> string) \<Rightarrow> (string \<times> string) list"

definition check_row :: "map_order \<Rightarrow> check \<Rightarrow> ui_check_row" where
  "check_row order c =
     \<lparr>cw_key = ck_key c, cw_title = (if ck_title c = [] then ck_key c else ck_title c), cw_detail = ck_detail c,
      cw_status = check_status_ui (ck_status c),
      cw_duration = (if ck_duration_ms c > 0 then dec (ck_duration_ms c) @ '' ms'' else []),
      cw_evidence = map (\<lambda>(k, v). field k v)
        (sort_by (\<lambda>a b. cmp_of (fst a) (fst b)) (order (ck_evidence c))),
      cw_expanded = False\<rparr>"

definition finding_severity_try_from :: "int \<Rightarrow> finding_severity option" where
  "finding_severity_try_from i =
     find (\<lambda>s. finding_severity_i32 s = i) [FS_Unspecified, FS_Info, FS_Low, FS_Medium, FS_High, FS_Critical]"

text \<open>\<open>split\<close> at a blank line, that is at two newlines in a row, from left to right.\<close>

fun split_blank :: "string \<Rightarrow> string list" where
  "split_blank [] = [[]]"
| "split_blank [c] = [[c]]"
| "split_blank (a # b # cs) =
     (if a = newline \<and> b = newline then [] # split_blank cs
      else (case split_blank (b # cs) of [] \<Rightarrow> [[a]] | w # ws \<Rightarrow> (a # w) # ws))"

definition paragraph_text :: "string \<Rightarrow> string" where
  "paragraph_text p = trim (map (\<lambda>c. if c = newline then CHR '' '' else c) p)"

definition finding_row :: "finding \<Rightarrow> ui_finding_row" where
  "finding_row f =
     (let severity = unwrap_or FS_Unspecified (finding_severity_try_from (fi_severity f))
      in \<lparr>fw_key = fi_key f, fw_title = fi_title f, fw_severity = severity_label severity,
          fw_status = severity_status severity, fw_confidence = i32_of_u32 (fi_confidence f),
          fw_paragraphs = map paragraph_text (split_blank (fi_interpretation f)),
          fw_actions = fi_suggested_actions f,
          fw_based_on = ''based on: '' @ join '', '' (fi_supporting_checks f)\<rparr>)"

definition count_chips :: "diagnose_response \<Rightarrow> chip_data list" where
  "count_chips r =
     [chip (dec (rp_passed r) @ '' pass'') UI_Pass]
     @ (if rp_failed r > 0 then [chip (dec (rp_failed r) @ '' fail'') UI_Fail] else [])
     @ (if rp_warned r > 0 then [chip (dec (rp_warned r) @ '' warn'') UI_Warn] else [])
     @ (if rp_skipped r > 0 then [chip (dec (rp_skipped r) @ '' skip'') UI_Skip] else [])"

definition diagnosis :: "map_order \<Rightarrow> diagnose_response \<Rightarrow> diagnosis_data" where
  "diagnosis order r =
     \<lparr>dd_running = False, dd_summary = rp_summary r, dd_counts = count_chips r,
      dd_checks = map (check_row order) (rp_checks r), dd_findings = map finding_row (rp_findings r)\<rparr>"

definition empty_diagnosis :: "bool \<Rightarrow> diagnosis_data" where
  "empty_diagnosis running =
     \<lparr>dd_running = running, dd_summary = (if running then ''Running checks'' @ ellipsis else []),
      dd_counts = [], dd_checks = [], dd_findings = []\<rparr>"

section \<open>The health of a socket\<close>

datatype socket_health = SH_Fine | SH_Struggling | SH_Stalled

definition CA_STATE_RECOVERY :: nat where "CA_STATE_RECOVERY = 3"
definition CA_STATE_LOSS :: nat where "CA_STATE_LOSS = 4"

definition socket_health :: "tcp_info \<Rightarrow> socket_health" where
  "socket_health i =
     (if ti_backoff i > 1 \<or> ti_probes i > 0 \<or> ti_ca_state i = CA_STATE_LOSS then SH_Stalled
      else if ti_retransmitting i \<or> ti_ca_state i = CA_STATE_RECOVERY \<or> ti_lost i > 0
              \<or> ti_unacked i > 0 \<and> ti_retrans i > 0 then SH_Struggling
      else SH_Fine)"

text \<open>Microseconds as milliseconds: the quotient of two doubles.\<close>

definition us_as_ms :: "nat \<Rightarrow> nat \<Rightarrow> string" where
  "us_as_ms d us = fixed d (f64_div (f64_of_u64 us) (1000, 1))"

definition duration_ms :: "nat \<Rightarrow> string" where
  "duration_ms v =
     (if v = 0 then ''now''
      else if v < 1000 then dec v @ '' ms''
      else if v < 60000 then fixed 1 (f64_div (f64_of_u64 v) (1000, 1)) @ '' s''
      else if v < 3600000 then dec (v div 60000) @ '' min''
      else dec (v div 3600000) @ '' h'')"

definition health_parts :: "socket \<Rightarrow> tcp_info \<Rightarrow> string list" where
  "health_parts s i =
     (if ti_rtt_us i \<noteq> 0 then [''rtt '' @ us_as_ms 1 (ti_rtt_us i) @ '' ms''] else [])
     @ (if ti_ca_state i = CA_STATE_LOSS then [''in loss recovery'']
        else if ti_ca_state i = CA_STATE_RECOVERY then [''recovering''] else [])
     @ (if ti_backoff i > 1 then [''backoff x'' @ dec (ti_backoff i)] else [])
     @ (if ti_probes i > 0 then [dec (ti_probes i) @ '' zero-window probes''] else [])
     @ (if so_retransmits s \<noteq> 0 then [dec (so_retransmits s) @ '' retx pending'']
        else if ti_total_retrans i \<noteq> 0 then [dec (ti_total_retrans i) @ '' retransmits''] else [])
     @ (if ti_unacked i \<noteq> 0 then [dec (ti_unacked i) @ '' unacked''] else [])
     @ (if ti_last_data_recv_ms i > 60000 then [''silent '' @ duration_ms (ti_last_data_recv_ms i)] else [])"

definition health_line :: "socket \<Rightarrow> tcp_info \<Rightarrow> string" where
  "health_line s i = join spaced_dot (health_parts s i)"

definition ca_state_label :: "nat \<Rightarrow> string" where
  "ca_state_label n =
     (if n = 0 then ''open'' else if n = 1 then ''disorder''
      else if n = 2 then ''congestion window reduced''
      else if n = CA_STATE_RECOVERY then ''recovery''
      else if n = CA_STATE_LOSS then ''loss'' else ''unknown'')"

definition tcp_info_fields :: "tcp_info \<Rightarrow> ui_field list" where
  "tcp_info_fields i =
     [field ''RTT'' (us_as_ms 1 (ti_rtt_us i) @ '' ms '' @ plus_minus @ '' '' @ us_as_ms 1 (ti_rtt_var_us i)),
      field ''Congestion'' (ca_state_label (ti_ca_state i)),
      field ''Window'' (''cwnd '' @ dec (ti_snd_cwnd i) @ spaced_dot @ ''ssthresh '' @ dec (ti_snd_ssthresh i)),
      field ''MSS'' (''send '' @ dec (ti_snd_mss i) @ spaced_dot @ ''recv '' @ dec (ti_rcv_mss i)
        @ spaced_dot @ ''advertised '' @ dec (ti_advmss i)),
      field ''In flight'' (dec (ti_unacked i) @ '' unacked'' @ spaced_dot @ dec (ti_sacked i) @ '' sacked''
        @ spaced_dot @ dec (ti_lost i) @ '' lost''),
      field ''Retransmits'' (dec (ti_retrans i) @ '' now'' @ spaced_dot @ dec (ti_total_retrans i) @ '' total''),
      field ''Bytes'' (bytes (ti_bytes_sent i) @ '' sent'' @ spaced_dot @ bytes (ti_bytes_received i) @ '' received''),
      field ''Last activity'' (''sent '' @ duration_ms (ti_last_data_sent_ms i) @ spaced_dot
        @ ''received '' @ duration_ms (ti_last_data_recv_ms i) @ spaced_dot
        @ ''ack '' @ duration_ms (ti_last_ack_recv_ms i))]
     @ (if ti_pmtu i \<noteq> 0 then [field ''Path MTU'' (dec (ti_pmtu i))] else [])
     @ (if ti_rto_us i \<noteq> 0
        then [field ''Timers'' (''rto '' @ us_as_ms 0 (ti_rto_us i) @ '' ms'' @ spaced_dot
                @ ''ato '' @ us_as_ms 0 (ti_ato_us i) @ '' ms'' @ spaced_dot @ ''backoff '' @ dec (ti_backoff i))]
        else [])"

definition socket_row :: "socket \<Rightarrow> string \<Rightarrow> ui_socket_row" where
  "socket_row s owner =
     (let info = so_tcp_info s
      in \<lparr>sw_state = tcp_state_label (so_state s),
          sw_status =
            (case map_option socket_health info of
               Some SH_Stalled \<Rightarrow> UI_Fail
             | Some SH_Struggling \<Rightarrow> UI_Warn
             | _ \<Rightarrow> socket_status (so_state s)),
          sw_tuple = socket_tuple s,
          sw_meta = ''uid '' @ dec (so_uid s)
            @ (if so_has_mark s \<and> so_net_id s \<noteq> 0 then ''  netId '' @ dec (unat (so_net_id s)) else [])
            @ (if so_interface_name s \<noteq> [] then ''  '' @ so_interface_name s else []),
          sw_owner = owner,
          sw_health = (case info of Some i \<Rightarrow> health_line s i | None \<Rightarrow> []),
          sw_detail = (case info of Some i \<Rightarrow> tcp_info_fields i | None \<Rightarrow> []),
          sw_expanded = False\<rparr>)"

section \<open>The sockets screen\<close>

record socket_filters =
  xf_only_established :: bool
  xf_only_apps :: bool
  xf_hide_listen :: bool
  xf_app_uid_floor :: nat

definition keeps :: "socket_filters \<Rightarrow> socket \<Rightarrow> bool" where
  "keeps f s =
     (if xf_only_established f \<and> so_state s \<noteq> TS_Established then False
      else if xf_only_apps f \<and> so_uid s < xf_app_uid_floor f then False
      else if xf_hide_listen f \<and> so_state s = TS_Listen then False
      else True)"

text \<open>The number of a state on the wire is its position in the enumeration.\<close>

definition tcp_state_i32 :: "tcp_state \<Rightarrow> nat" where
  "tcp_state_i32 st = length (takeWhile (\<lambda>x. x \<noteq> st) tcp_states)"

definition socket_cmp :: "socket \<Rightarrow> socket \<Rightarrow> ordering" where
  "socket_cmp a b =
     then_cmp (cmp_of (so_uid a) (so_uid b)) (cmp_of (tcp_state_i32 (so_state a)) (tcp_state_i32 (so_state b)))"

definition MAX_SOCKET_ROWS :: nat where "MAX_SOCKET_ROWS = 400"

definition sockets :: "snapshot \<Rightarrow> socket_filters \<Rightarrow> (nat \<Rightarrow> string) \<Rightarrow> sockets_data" where
  "sockets sn filters owner_for_uid =
     (let kept = sort_by socket_cmp (filter (keeps filters) (sn_sockets sn));
          n_total = length (sn_sockets sn);
          shown = length kept
      in \<lparr>sk_summary =
            (case sn_socket_summary sn of
               Some s \<Rightarrow> dec (ss_total s) @ '' sockets'' @ spaced_dot @ dec (ss_established s) @ '' established''
                 @ spaced_dot @ dec (ss_listen s) @ '' listening'' @ spaced_dot @ dec (ss_time_wait s) @ '' time-wait''
             | None \<Rightarrow> dec n_total @ '' sockets''),
          sk_hidden = (if shown = n_total then [] else dec (n_total - shown) @ '' hidden by filters''),
          sk_rows = map (\<lambda>s. socket_row s (owner_for_uid (so_uid s))) (take MAX_SOCKET_ROWS kept)\<rparr>)"

definition empty_sockets :: sockets_data where
  "empty_sockets = \<lparr>sk_summary = [], sk_hidden = [], sk_rows = []\<rparr>"

section \<open>One app\<close>

definition lookup_field :: "string \<Rightarrow> route_lookup_result option \<Rightarrow> string \<Rightarrow> nat \<Rightarrow> ui_field" where
  "lookup_field family lookup egress table =
     (case lookup of
        None \<Rightarrow> field family ''not looked up''
      | Some l \<Rightarrow>
     (case lk_error l of
        Some e \<Rightarrow> field_status family (''no route: '' @ err_message e) UI_Fail
      | None \<Rightarrow>
     (case lk_route l of
        None \<Rightarrow> field family ''not looked up''
      | Some r \<Rightarrow>
          let via = (case gateway_of (first_of (rt_next_hops r)) of Some g \<Rightarrow> ip g | None \<Rightarrow> ''on-link'')
          in field family (''table '' @ dec table @ '' via '' @ via @ '' dev ''
               @ (if egress = [] then em_dash else egress)))))"

definition path_chip :: "string \<Rightarrow> bool \<Rightarrow> chip_data" where
  "path_chip family ok =
     chip (family @ (if ok then '' OK'' else '' FAILED'')) (if ok then UI_Pass else UI_Fail)"

definition framework_fields :: "android_network option \<Rightarrow> ui_field list" where
  "framework_fields network =
     (case network of
        None \<Rightarrow> []
      | Some n \<Rightarrow>
          [field_prose ''Transport'' (join '' + '' (transport_labels n)),
           field ''Interface'' (case an_link_properties n of Some lp \<Rightarrow> lp_interface_name lp | None \<Rightarrow> em_dash),
           field ''Network ID'' (dec_int (an_net_id n)),
           field_status ''VALIDATED'' (if nc_validated (caps_of n) then ''yes'' else ''no'')
             (if nc_validated (caps_of n) then UI_Pass else UI_Warn)])"

definition vpn_fields :: "vpn_assessment \<Rightarrow> ui_field list" where
  "vpn_fields v =
     (if \<not> va_vpn_present v then [] else
        [field ''Interface'' (va_vpn_interface v),
         field_prose ''This app'' (if va_app_uses_vpn v then ''goes through the VPN'' else ''bypasses the VPN'')]
        @ (if va_bypass_reason v \<noteq> [] then [field_prose ''Reason'' (va_bypass_reason v)] else [])
        @ (if va_split_tunnel v
           then [field_status ''Split tunnel'' ''one address family is inside the tunnel and the other is not'' UI_Warn]
           else [])
        @ (if va_disagreement v
           then [field_status ''Disagreement''
                   (''the framework says this app is ''
                    @ (if va_framework_says_in_vpn v then ''inside'' else ''outside'')
                    @ '' the VPN, but the kernel routes it ''
                    @ (if va_app_uses_vpn v then ''into'' else ''around'') @ '' the tunnel'') UI_Fail]
           else []))"

definition app_detail :: "app_network_state \<Rightarrow> app_detail_data" where
  "app_detail st =
     (let app = unwrap_or no_app (ns_app st);
          routing = unwrap_or no_routing (ns_routing st);
          vpn = unwrap_or no_vpn (ns_vpn st);
          summary = unwrap_or (summarize []) (ns_socket_summary st)
      in \<lparr>ad_present = True,
          ad_label = (if ap_label app = [] then ap_package_name app else ap_label app),
          ad_package = ap_package_name app,
          ad_uid = i32_of_u32 (ap_uid app),
          ad_summary = ns_summary st,
          ad_chips = [path_chip ''IPv4'' (ns_ipv4_path_ok st), path_chip ''IPv6'' (ns_ipv6_path_ok st)],
          ad_framework = framework_fields (ns_android_network st),
          ad_rules = map rule_line (take 12 (up_matching_rules routing)),
          ad_routing =
            [lookup_field ''IPv4'' (up_lookup_v4 routing) (up_egress_interface_v4 routing) (up_table_v4 routing),
             lookup_field ''IPv6'' (up_lookup_v6 routing) (up_egress_interface_v6 routing) (up_table_v6 routing)],
          ad_vpn_present = va_vpn_present vpn,
          ad_vpn_title = ''VPN'' @ spaced_dot @ va_vpn_interface vpn,
          ad_vpn_chip = chip (if va_app_uses_vpn vpn then ''IN TUNNEL'' else ''BYPASSES'')
            (if va_app_uses_vpn vpn then UI_Pass else UI_Warn),
          ad_vpn = vpn_fields vpn,
          ad_sockets = map (\<lambda>s. socket_row s []) (take 40 (ns_sockets st)),
          ad_socket_summary = dec (ss_total summary) @ '' open, '' @ dec (ss_established summary)
            @ '' established, '' @ dec (ss_syn_sent summary) @ '' in SYN_SENT'',
          ad_firewall = ns_firewall_note st\<rparr>)"

definition empty_app_detail :: app_detail_data where
  "empty_app_detail =
     \<lparr>ad_present = False, ad_label = [], ad_package = [], ad_uid = 0, ad_summary = [], ad_chips = [],
      ad_framework = [], ad_rules = [], ad_routing = [], ad_vpn_present = False, ad_vpn_title = [],
      ad_vpn_chip = chip [] UI_Skip, ad_vpn = [], ad_sockets = [], ad_socket_summary = [], ad_firewall = []\<rparr>"

section \<open>Timeline and capture\<close>

definition event_severity_try_from :: "int \<Rightarrow> event_severity option" where
  "event_severity_try_from i =
     find (\<lambda>s. severity_i32 s = i) [EV_Unspecified, EV_Debug, EV_Info, EV_Notice, EV_Warning]"

definition is_socket_event :: "network_event \<Rightarrow> bool" where
  "is_socket_event e = (case ne_payload e of Some (PL_Socket _) \<Rightarrow> True | _ \<Rightarrow> False)"

definition source_label :: "event_source \<Rightarrow> bool \<Rightarrow> string" where
  "source_label source is_socket =
     (case source of
        ES_Kernel \<Rightarrow> if is_socket then ''SOCK'' else ''KRNL''
      | ES_Framework \<Rightarrow> ''FMWK''
      | ES_Daemon \<Rightarrow> ''DMON''
      | ES_Unspecified \<Rightarrow> ''????'')"

fun event_status :: "event_severity \<Rightarrow> ui_status" where
  "event_status EV_Warning = UI_Fail"
| "event_status EV_Notice = UI_Warn"
| "event_status EV_Info = UI_Info"
| "event_status _ = UI_Skip"

definition event_row :: "localtime \<Rightarrow> network_event \<Rightarrow> ui_event_row" where
  "event_row lt e =
     \<lparr>ew_time = time_of_day lt (ne_unix_ms e),
      ew_source = source_label (ne_source e) (is_socket_event e),
      ew_status = event_status (unwrap_or EV_Unspecified (event_severity_try_from (ne_severity e))),
      ew_summary = ne_summary e\<rparr>"

definition port_text :: "nat \<Rightarrow> string" where
  "port_text p = (if p = 0 then [] else '':'' @ dec p)"

definition tcp_flag_names :: "packet_summary \<Rightarrow> string list" where
  "tcp_flag_names m =
     map snd (filter fst [(ps_syn m, ''SYN''), (ps_ack m, ''ACK''), (ps_fin m, ''FIN''),
       (ps_rst m, ''RST''), (ps_psh m, ''PSH'')])"

definition decoded_endpoints :: "packet_summary \<Rightarrow> bool \<Rightarrow> string option" where
  "decoded_endpoints m outgoing =
     (let arrow = (if outgoing then arrow_right else arrow_left) in
      case (ps_source m, ps_destination m) of
        (Some src, Some dst) \<Rightarrow>
          Some (ip src @ port_text (ps_source_port m) @ '' '' @ arrow @ '' '' @ ip dst @ port_text (ps_destination_port m))
      | _ \<Rightarrow> None)"

definition packet_row :: "localtime \<Rightarrow> captured_packet \<Rightarrow> ui_packet_row" where
  "packet_row lt pk =
     (let m = unwrap_or empty_summary (pk_summary pk);
          arrow = (if pk_outgoing pk then arrow_right else arrow_left);
          decoded = decoded_endpoints m (pk_outgoing pk);
          protocol = (if ps_protocol_name m = [] then ''ip proto '' @ dec (ps_ip_protocol m) else ps_protocol_name m);
          flags = join '' '' (tcp_flag_names m)
      in \<lparr>pw_time = time_of_day lt (pk_unix_ms pk),
          pw_status = (if ps_icmp_mtu m \<noteq> 0 then UI_Fail else if ps_rst m then UI_Warn else UI_Skip),
          pw_summary = (case decoded of
              Some t \<Rightarrow> t
            | None \<Rightarrow> arrow @ '' '' @ dec (pk_original_length pk) @ '' bytes''),
          pw_detail = protocol @ ''  '' @ dec (pk_original_length pk) @ '' B''
            @ (if pk_original_length pk > length (pk_data pk) \<and> pk_data pk \<noteq> []
               then '' (captured '' @ dec (length (pk_data pk)) @ '')'' else [])
            @ (if flags \<noteq> [] then ''  ['' @ flags @ '']'' else [])
            @ (if ps_description m \<noteq> [] \<and> decoded = None then ''  '' @ ps_description m else [])\<rparr>)"

definition empty_capture :: capture_data where
  "empty_capture =
     \<lparr>cv_running = False, cv_interface = [], cv_summary = [], cv_error = [], cv_saved_path = [], cv_packets = []\<rparr>"

section \<open>Facts\<close>

interpretation interface_row_order: rust_ord interface_cmp
  unfolding interface_cmp_def by (intro rust_ord_then rust_ord_key)

interpretation socket_row_order: rust_ord socket_cmp
  unfolding socket_cmp_def by (intro rust_ord_then rust_ord_key)

interpretation evidence_order: rust_ord "\<lambda>a b. cmp_of (fst a) (fst (b :: string \<times> string))"
  by (rule rust_ord_key)

interpretation number_order: rust_ord "cmp_of :: nat \<Rightarrow> nat \<Rightarrow> ordering"
  using rust_ord_key [of "\<lambda>x. x"] by simp

lemma cmp_of_not_Greater: "cmp_of x y \<noteq> Greater \<longleftrightarrow> x \<le> y"
  by (auto simp: cmp_of_def)

lemma socket_cmp_not_Greater:
  "socket_cmp a b \<noteq> Greater \<longleftrightarrow>
     so_uid a < so_uid b \<or> so_uid a = so_uid b \<and> tcp_state_i32 (so_state a) \<le> tcp_state_i32 (so_state b)"
  by (auto simp: socket_cmp_def then_cmp_Greater cmp_of_def split: if_splits)

text \<open>A part of a joined text is found in it.\<close>

lemma contains_str_left: "contains_str b p \<Longrightarrow> contains_str (a @ b) p"
  by (induction a) auto

lemma starts_with_append_right: "starts_with a p \<Longrightarrow> starts_with (a @ b) p"
  by (induction a p rule: starts_with.induct) auto

lemma contains_str_right: "contains_str a p \<Longrightarrow> contains_str (a @ b) p"
proof (induction a)
  case Nil
  then show ?case by (cases b) simp_all
next
  case (Cons x xs)
  then show ?case using starts_with_append_right [of "x # xs" p b] by auto
qed

lemma contains_str_join: "x \<in> set xs \<Longrightarrow> contains_str x p \<Longrightarrow> contains_str (join sep xs) p"
proof (induction sep xs rule: join.induct)
  case (3 sep x' y ys)
  then show ?case by (auto intro: contains_str_left contains_str_right)
qed auto

text \<open>Two walks of a map with distinct keys hold the same pairs, so sorting makes them equal.\<close>

definition walks :: "map_order \<Rightarrow> (string \<rightharpoonup> string) \<Rightarrow> bool" where
  "walks order m = (distinct (map fst (order m)) \<and> map_of (order m) = m)"

lemma keys_values:
  assumes "distinct (map fst xs)"
  shows "map (\<lambda>k. (k, the (map_of xs k))) (map fst xs) = xs"
proof (rule nth_equalityI)
  fix i assume "i < length (map (\<lambda>k. (k, the (map_of xs k))) (map fst xs))"
  then have i: "i < length xs" by simp
  then have "map_of xs (fst (xs ! i)) = Some (snd (xs ! i))" using assms by (intro map_of_is_SomeI) simp_all
  with i show "map (\<lambda>k. (k, the (map_of xs k))) (map fst xs) ! i = xs ! i" by simp
qed simp

lemma map_of_distinct_eq:
  assumes "distinct (map fst xs)" "map fst xs = map fst ys" "map_of xs = map_of ys"
  shows "xs = ys"
  using keys_values [of xs] keys_values [of ys] assms by simp

lemma sort_keys:
  assumes "distinct (map fst xs)"
  shows "sorted_wrt (<) (map fst (sort_by (\<lambda>a b. cmp_of (fst a) (fst (b :: string \<times> string))) xs))"
    "distinct (map fst (sort_by (\<lambda>a b. cmp_of (fst a) (fst b)) xs))"
    "map_of (sort_by (\<lambda>a b. cmp_of (fst a) (fst b)) xs) = map_of xs"
proof -
  let ?s = "sort_by (\<lambda>a b. cmp_of (fst a) (fst b)) xs"
  have "mset (map fst ?s) = mset (map fst xs)" by simp
  then show d: "distinct (map fst ?s)" using assms by (metis mset_eq_imp_distinct_iff)
  have "sorted_wrt (\<le>) (map fst ?s)"
    using evidence_order.sort_by_sorted [of xs] by (simp add: sorted_wrt_map cmp_of_not_Greater)
  then show "sorted_wrt (<) (map fst ?s)" using d by (simp add: strict_sorted_iff)
  show "map_of ?s = map_of xs" using d assms by (intro map_of_eqI) (auto simp: map_of_eq_Some_iff)
qed

lemma sort_walks:
  assumes "walks o1 m" "walks o2 m"
  shows "sort_by (\<lambda>a b. cmp_of (fst a) (fst (b :: string \<times> string))) (o1 m) = sort_by (\<lambda>a b. cmp_of (fst a) (fst b)) (o2 m)"
proof -
  have d: "distinct (map fst (o1 m))" "distinct (map fst (o2 m))" and m: "map_of (o1 m) = map_of (o2 m)"
    using assms by (simp_all add: walks_def)
  have "set (map fst (o1 m)) = set (map fst (o2 m))" using m by (metis dom_map_of_conv_image_fst list.set_map)
  then have "map fst (sort_by (\<lambda>a b. cmp_of (fst a) (fst b)) (o1 m)) = map fst (sort_by (\<lambda>a b. cmp_of (fst a) (fst b)) (o2 m))"
    using sort_keys(1) [OF d(1)] sort_keys(1) [OF d(2)] by (intro strict_sorted_equal) simp_all
  then show ?thesis
    using sort_keys(2,3) [OF d(1)] sort_keys(3) [OF d(2)] m by (intro map_of_distinct_eq) simp_all
qed

definition demo_check :: "(string \<rightharpoonup> string) \<Rightarrow> check" where
  "demo_check m = \<lparr>ck_id = CI_VpnRouting, ck_key = ''k'', ck_title = [], ck_status = ST_Pass, ck_detail = [],
     ck_duration_ms = 0, ck_evidence = m, ck_family = Family_Unspecified, ck_error = None, ck_depends_on = []\<rparr>"

definition quiet_info :: tcp_info where
  "quiet_info = \<lparr>ti_rto_us = 0, ti_ato_us = 0, ti_snd_mss = 0, ti_rcv_mss = 0, ti_unacked = 0, ti_sacked = 0,
     ti_lost = 0, ti_retrans = 0, ti_total_retrans = 0, ti_rtt_us = 0, ti_rtt_var_us = 0, ti_snd_cwnd = 10,
     ti_snd_ssthresh = 0, ti_advmss = 0, ti_pmtu = 0, ti_last_data_sent_ms = 0, ti_last_data_recv_ms = 0,
     ti_last_ack_recv_ms = 0, ti_bytes_sent = 0, ti_bytes_received = 0, ti_delivered = 0, ti_ca_state = 0,
     ti_probes = 0, ti_backoff = 0, ti_retransmitting = False\<rparr>"

definition demo_socket :: "tcp_info \<Rightarrow> socket" where
  "demo_socket i = \<lparr>so_family = Family_V4, so_protocol = SP_Tcp, so_state = TS_Established, so_local_address = None,
     so_local_port = 1, so_remote_address = None, so_remote_port = 0, so_uid = 0, so_inode = 0,
     so_interface_index = 0, so_interface_name = [], so_rx_queue = 0, so_tx_queue = 0, so_mark = 0,
     so_has_mark = False, so_net_id = 0, so_tcp_info = Some i, so_congestion_control = [], so_timer = 0,
     so_timer_expires_ms = 0, so_retransmits = 0, so_socket_cookie = 0, so_package_names = []\<rparr>"

text \<open>Every interface has one row, those that are up before those that are down.\<close>

lemma interfaces_rows:
  "mset (interfaces sn) = image_mset interface_row (mset (sn_interfaces sn))"
  "sorted_wrt (\<lambda>a b. interface_up b \<longrightarrow> interface_up a) (sort_by interface_cmp (sn_interfaces sn))"
proof -
  show "mset (interfaces sn) = image_mset interface_row (mset (sn_interfaces sn))" by (simp add: interfaces_def)
  have le: "interface_up b \<longrightarrow> interface_up a" if "interface_cmp a b \<noteq> Greater" for a b
    using that by (auto simp: interface_cmp_def then_cmp_Greater cmp_of_def split: if_splits)
  show "sorted_wrt (\<lambda>a b. interface_up b \<longrightarrow> interface_up a) (sort_by interface_cmp (sn_interfaces sn))"
    by (rule sorted_wrt_mono_rel [OF _ interface_row_order.sort_by_sorted]) (rule le)
qed

text \<open>There is one row for every table that has a route, in ascending order of the tables.\<close>

lemma route_tables_rows:
  "\<exists>ts. route_tables sn = map (table_row sn) ts \<and> sorted_wrt (<) ts \<and> set ts = rt_table ` set (sn_routes sn)"
proof -
  let ?ts = "sort_by cmp_of (map rt_table (sn_routes sn))"
  have "sorted_wrt (\<le>) ?ts"
    using number_order.sort_by_sorted [of "map rt_table (sn_routes sn)"] by (simp add: cmp_of_not_Greater)
  then show ?thesis
    by (intro exI [of _ "dedup ?ts"]) (simp add: route_tables_def dedup_strict_sorted)
qed

section \<open>Properties\<close>

text \<open>
  The rows of a check do not depend on the order of a hash map. However the evidence map is walked,
  as long as the walk yields each of its entries once, the row is the same, and its evidence lists every
  entry of the map under its key, in ascending order of the keys.
\<close>

lemma check_row_deterministic:
  assumes "walks order (ck_evidence c)" "walks order' (ck_evidence c)"
  shows "check_row order c = check_row order' c \<and>
    sorted_wrt (<) (map uf_key (cw_evidence (check_row order c))) \<and>
    map_of (map (\<lambda>f. (uf_key f, uf_value f)) (cw_evidence (check_row order c))) = ck_evidence c"
proof -
  have d: "distinct (map fst (order (ck_evidence c)))" and m: "map_of (order (ck_evidence c)) = ck_evidence c"
    using assms(1) by (simp_all add: walks_def)
  show ?thesis
    using sort_walks [OF assms] sort_keys(1,3) [OF d] m
    by (simp add: check_row_def o_def case_prod_unfold field_def)
qed

text \<open>What the switches of the screen ask for, one by one.\<close>

definition filters_allow :: "socket_filters \<Rightarrow> socket \<Rightarrow> bool" where
  "filters_allow f s =
     ((xf_only_established f \<longrightarrow> so_state s = TS_Established) \<and>
      (xf_only_apps f \<longrightarrow> xf_app_uid_floor f \<le> so_uid s) \<and>
      (xf_hide_listen f \<longrightarrow> so_state s \<noteq> TS_Listen))"

lemma keeps_allowed: "keeps f = filters_allow f"
  by (auto simp: fun_eq_iff keeps_def filters_allow_def)

text \<open>
  C25: the sockets screen shows every socket the switches allow, as long as these are at most four hundred.
  Its rows are then exactly the allowed sockets of the snapshot, each once and labelled with the owner of
  its uid, grouped by owner: ascending by uid and within a uid by state. The line of hidden sockets is empty
  exactly when every socket has its row, and otherwise gives the number of those that have none.
\<close>

theorem sockets_screen:
  assumes "length (filter (filters_allow f) (sn_sockets sn)) \<le> 400"
  shows "\<exists>ks. mset ks = mset (filter (filters_allow f) (sn_sockets sn)) \<and>
     sorted_wrt (\<lambda>a b. so_uid a < so_uid b \<or>
       so_uid a = so_uid b \<and> tcp_state_i32 (so_state a) \<le> tcp_state_i32 (so_state b)) ks \<and>
     sk_rows (sockets sn f owner) = map (\<lambda>s. socket_row s (owner (so_uid s))) ks \<and>
     sk_hidden (sockets sn f owner) =
       (if length (sk_rows (sockets sn f owner)) = length (sn_sockets sn) then []
        else dec (length (sn_sockets sn) - length (sk_rows (sockets sn f owner))) @ '' hidden by filters'')"
proof -
  let ?kept = "filter (filters_allow f) (sn_sockets sn)"
  have "sorted_wrt (\<lambda>a b. so_uid a < so_uid b \<or>
      so_uid a = so_uid b \<and> tcp_state_i32 (so_state a) \<le> tcp_state_i32 (so_state b)) (sort_by socket_cmp ?kept)"
    using socket_row_order.sort_by_sorted [of ?kept] by (simp add: socket_cmp_not_Greater)
  moreover have "length (sort_by socket_cmp ?kept) = length ?kept" by (metis mset_sort_by size_mset)
  ultimately show ?thesis using assms
    by (intro exI [of _ "sort_by socket_cmp ?kept"]) (simp add: sockets_def Let_def keeps_allowed MAX_SOCKET_ROWS_def)
qed

definition demo_sockets_snapshot :: snapshot where
  "demo_sockets_snapshot =
     \<lparr>sn_captured_at_unix_ms = 0, sn_kernel_release = [], sn_interfaces = [], sn_routes = [], sn_table_names = Map.empty,
      sn_rules = [], sn_neighbors = [],
      sn_sockets = [(demo_socket quiet_info)\<lparr>so_uid := 10123\<rparr>, demo_socket quiet_info,
        (demo_socket quiet_info)\<lparr>so_uid := 10123, so_state := TS_Listen\<rparr>],
      sn_socket_summary = None, sn_sysctls = None, sn_counters = None, sn_firewall = None, sn_qdiscs = [],
      sn_namespaces = [], sn_resolver = None, sn_clat = None, sn_android_state = None,
      sn_collection_duration_ms = 0, sn_collection_warnings = []\<rparr>"

theorem sockets_screen_witness:
  "length (sk_rows (sockets demo_sockets_snapshot
     \<lparr>xf_only_established = False, xf_only_apps = True, xf_hide_listen = True, xf_app_uid_floor = 10000\<rparr> (\<lambda>_. ''app''))) = 1"
proof -
  let ?f = "\<lparr>xf_only_established = False, xf_only_apps = True, xf_hide_listen = True, xf_app_uid_floor = 10000\<rparr>"
  have k: "length (filter (filters_allow ?f) (sn_sockets demo_sockets_snapshot)) = 1"
    by (simp add: filters_allow_def demo_sockets_snapshot_def demo_socket_def)
  then obtain ks where ks: "mset ks = mset (filter (filters_allow ?f) (sn_sockets demo_sockets_snapshot))"
    "sk_rows (sockets demo_sockets_snapshot ?f (\<lambda>_. ''app'')) = map (\<lambda>s. socket_row s ''app'') ks"
    using sockets_screen [of ?f demo_sockets_snapshot "\<lambda>_. ''app''"] by auto
  from mset_eq_length [OF ks(1)] k ks(2) show ?thesis by simp
qed

text \<open>
  C26: a connection painted as failed says why. Only a socket whose \<open>tcp_info\<close> shows that the far end has
  stopped answering is coloured as a failure, and then its health line names the reason: loss
  recovery, a retransmission backoff, or unanswered zero-window probes.
\<close>

theorem stalled_explained:
  assumes "sw_status (socket_row s owner) = UI_Fail"
  shows "\<exists>i. so_tcp_info s = Some i \<and> socket_health i = SH_Stalled \<and>
    (\<exists>reason. reason \<in> {''in loss recovery'', ''backoff x'', '' zero-window probes''} \<and>
       contains_str (sw_health (socket_row s owner)) reason)"
proof -
  obtain i where i: "so_tcp_info s = Some i" "socket_health i = SH_Stalled"
    using assms by (cases "so_state s"; cases "so_tcp_info s") (auto simp: socket_row_def split: socket_health.splits)
  have h: "sw_health (socket_row s owner) = join spaced_dot (health_parts s i)"
    using i by (simp add: socket_row_def health_line_def)
  define R where "R = {''in loss recovery'', ''backoff x'', '' zero-window probes''}"
  have found: "\<exists>reason. reason \<in> R \<and> contains_str (sw_health (socket_row s owner)) reason"
    if "part \<in> set (health_parts s i)" "reason \<in> R" "contains_str part reason" for part reason
    unfolding h using that contains_str_join by blast
  consider (loss) "ti_ca_state i = CA_STATE_LOSS" | (backoff) "ti_backoff i > 1" | (probes) "ti_probes i > 0"
    using i(2) by (auto simp: socket_health_def split: if_splits)
  then have "\<exists>reason. reason \<in> R \<and> contains_str (sw_health (socket_row s owner)) reason"
  proof cases
    case loss
    then show ?thesis by (intro found [of "''in loss recovery''" "''in loss recovery''"]) (simp_all add: health_parts_def R_def)
  next
    case backoff
    show ?thesis
    proof (rule found)
      show "''backoff x'' @ dec (ti_backoff i) \<in> set (health_parts s i)" using backoff by (simp add: health_parts_def)
      show "contains_str (''backoff x'' @ dec (ti_backoff i)) ''backoff x''" by (intro contains_str_right) simp
    qed (simp add: R_def)
  next
    case probes
    show ?thesis
    proof (rule found)
      show "dec (ti_probes i) @ '' zero-window probes'' \<in> set (health_parts s i)" using probes by (simp add: health_parts_def)
      show "contains_str (dec (ti_probes i) @ '' zero-window probes'') '' zero-window probes''"
        by (intro contains_str_left) simp
    qed (simp add: R_def)
  qed
  then show ?thesis using i unfolding R_def by blast
qed

theorem stalled_explained_witness:
  "contains_str (sw_health (socket_row (demo_socket (quiet_info\<lparr>ti_backoff := 3\<rparr>)) [])) ''backoff x''"
proof -
  let ?s = "demo_socket (quiet_info\<lparr>ti_backoff := 3\<rparr>)"
  have "sw_status (socket_row ?s []) = UI_Fail"
    by (simp add: socket_row_def Let_def demo_socket_def quiet_info_def socket_health_def)
  then obtain reason where "reason \<in> {''in loss recovery'', ''backoff x'', '' zero-window probes''}"
    "contains_str (sw_health (socket_row ?s [])) reason" using stalled_explained by blast
  moreover have "sw_health (socket_row ?s []) = ''backoff x'' @ dec 3"
    by (simp add: socket_row_def Let_def demo_socket_def quiet_info_def health_line_def health_parts_def
        CA_STATE_LOSS_def CA_STATE_RECOVERY_def)
  ultimately show ?thesis by (simp add: contains_str_right)
qed

text \<open>
  Lost segments alone paint a connection as struggling, but no part of the health line mentions them.
\<close>

lemma lost_segments_unexplained:
  "sw_status (socket_row (demo_socket (quiet_info\<lparr>ti_lost := 2\<rparr>)) []) = UI_Warn \<and>
   sw_health (socket_row (demo_socket (quiet_info\<lparr>ti_lost := 2\<rparr>)) []) = []"
  by (simp add: socket_row_def Let_def demo_socket_def quiet_info_def socket_health_def health_line_def health_parts_def
      CA_STATE_LOSS_def CA_STATE_RECOVERY_def)

text \<open>
  The limit on the rows is silent: with more than four hundred sockets and no filter the screen reports
  nothing hidden, and does not show them all.
\<close>

lemma rows_dropped_silently:
  assumes "MAX_SOCKET_ROWS < length (sn_sockets sn)" "list_all (keeps f) (sn_sockets sn)"
  shows "sk_hidden (sockets sn f owner) = [] \<and> length (sk_rows (sockets sn f owner)) < length (sn_sockets sn)"
  using assms by (simp add: sockets_def Let_def list_all_iff)

end
