(* ===== verification/Shim.thy ===== *)
theory Shim
  imports Format Sockets
begin

text \<open>
  The boundary to the Android framework (\<^verbatim>\<open>slint-app/src/platform/shim.rs\<close>). The app's Java classes
  \<^verbatim>\<open>NetdiagFramework\<close> and \<^verbatim>\<open>NetdiagPackages\<close> write what the SDK tells them as lines of tab separated
  fields, and the Rust side reads the lines back. Both halves are modelled, the writers from
  \<^verbatim>\<open>slint-app/java\<close>; what the SDK answers is their input. \<open>str::to_lowercase\<close>, which follows the Unicode
  tables, is an argument.
\<close>

definition tab :: char where "tab = CHR 0x09"

definition comma :: char where "comma = CHR '',''"

section \<open>The writers\<close>

text \<open>
  What the SDK knows about a link and a network; \<open>None\<close> is a null reference. The text of an
  \<open>InetAddress\<close> is that of the address, with its zone behind a percent sign when it has one.
\<close>

record java_address =
  jd_ip :: ip_addr
  jd_zone :: string

definition get_host_address :: "java_address \<Rightarrow> string option" where
  "get_host_address a = Some (show_ip (jd_ip a) @ (if jd_zone a = [] then [] else CHR ''%'' # jd_zone a))"

record java_link =
  jl_interface_name :: "string option"
  jl_mtu :: int
  jl_private_dns_active :: bool
  jl_private_dns_server_name :: "string option"
  jl_domains :: "string option"
  jl_dns_servers :: "java_address list"

record java_network =
  jn_handle :: int
  jn_capabilities :: "((string \<Rightarrow> bool) \<times> (string \<Rightarrow> bool)) option"
  jn_link :: "java_link option"

record java_framework =
  jf_sdk_int :: int
  jf_active :: "int option"
  jf_restrict_background_status :: int
  jf_networks :: "java_network list"

definition TRANSPORT_NAMES :: "string list" where
  "TRANSPORT_NAMES = [''CELLULAR'', ''WIFI'', ''BLUETOOTH'', ''ETHERNET'', ''VPN'', ''WIFI_AWARE'', ''LOWPAN'', ''USB'']"

definition CAPABILITY_NAMES :: "string list" where
  "CAPABILITY_NAMES = [''INTERNET'', ''VALIDATED'', ''CAPTIVE_PORTAL'', ''NOT_RESTRICTED'', ''NOT_METERED'',
     ''NOT_ROAMING'', ''NOT_CONGESTED'', ''NOT_SUSPENDED'', ''NOT_VPN'', ''TRUSTED'', ''FOREGROUND'']"

definition java_text :: "string option \<Rightarrow> string" where
  "java_text v =
     (case v of
        None \<Rightarrow> []
      | Some s \<Rightarrow> map (\<lambda>c. if c = tab \<or> c = newline \<or> c = comma then CHR '' '' else c) s)"

definition append_transports :: "java_network \<Rightarrow> string" where
  "append_transports n =
     (case jn_capabilities n of None \<Rightarrow> [] | Some (has, _) \<Rightarrow> join [comma] (filter has TRANSPORT_NAMES))"

definition append_capabilities :: "java_network \<Rightarrow> string" where
  "append_capabilities n =
     (case jn_capabilities n of None \<Rightarrow> [] | Some (_, has) \<Rightarrow> join [comma] (filter has CAPABILITY_NAMES))"

definition append_dns_servers :: "java_address list \<Rightarrow> string" where
  "append_dns_servers servers = join [comma] (List.map_filter get_host_address servers)"

definition append_network :: "java_network \<Rightarrow> string" where
  "append_network n =
     ''N'' @ [tab] @ dec_int (jn_handle n) @ [tab]
     @ append_transports n @ [tab] @ append_capabilities n @ [tab]
     @ (case jn_link n of
          None \<Rightarrow> [tab] @ ''0'' @ [tab] @ ''0'' @ [tab] @ [tab] @ [tab] @ nl
        | Some l \<Rightarrow>
            java_text (jl_interface_name l) @ [tab] @ dec_int (jl_mtu l) @ [tab]
            @ (if jl_private_dns_active l then ''1'' else ''0'') @ [tab]
            @ java_text (jl_private_dns_server_name l) @ [tab] @ java_text (jl_domains l) @ [tab]
            @ append_dns_servers (jl_dns_servers l) @ nl)"

definition collect_network_snapshot :: "java_framework \<Rightarrow> string" where
  "collect_network_snapshot fw =
     ''V'' @ [tab] @ ''1'' @ [tab] @ dec_int (jf_sdk_int fw) @ [tab]
     @ dec_int (case jf_active fw of Some h \<Rightarrow> h | None \<Rightarrow> 0) @ [tab]
     @ dec_int (jf_restrict_background_status fw) @ nl
     @ concat (map append_network (jf_networks fw))"

record java_app =
  ja_uid :: int
  ja_system :: bool
  ja_package :: string
  ja_label :: string

definition sanitize :: "string \<Rightarrow> string" where
  "sanitize v = map (\<lambda>c. if c = tab \<or> c = newline then CHR '' '' else c) v"

definition packages_list :: "java_app list \<Rightarrow> string" where
  "packages_list apps =
     concat (map (\<lambda>a. dec_int (ja_uid a) @ [tab] @ (if ja_system a then ''1'' else ''0'') @ [tab]
       @ sanitize (ja_package a) @ [tab] @ sanitize (ja_label a) @ nl) apps)"

section \<open>The vocabulary of the watcher\<close>

datatype framework_event_kind =
  FK_Unspecified | FK_Available | FK_Lost | FK_Losing | FK_CapabilitiesChanged | FK_LinkPropertiesChanged
| FK_DefaultNetworkChanged | FK_BlockedStatusChanged | FK_ValidationChanged | FK_PrivateDnsChanged
| FK_DnsServersChanged | FK_TransportChanged | FK_VpnChanged | FK_Nat64PrefixChanged | FK_CaptivePortal

definition framework_event_kinds :: "framework_event_kind list" where
  "framework_event_kinds =
     [FK_Unspecified, FK_Available, FK_Lost, FK_Losing, FK_CapabilitiesChanged, FK_LinkPropertiesChanged,
      FK_DefaultNetworkChanged, FK_BlockedStatusChanged, FK_ValidationChanged, FK_PrivateDnsChanged,
      FK_DnsServersChanged, FK_TransportChanged, FK_VpnChanged, FK_Nat64PrefixChanged, FK_CaptivePortal]"

definition framework_event_kind_i32 :: "framework_event_kind \<Rightarrow> int" where
  "framework_event_kind_i32 k = int (length (takeWhile (\<lambda>x. x \<noteq> k) framework_event_kinds))"

definition event_kind :: "int \<Rightarrow> framework_event_kind" where
  "event_kind java =
     (if java = 1 then FK_Available
      else if java = 2 then FK_Lost
      else if java = 3 then FK_Losing
      else if java = 4 then FK_LinkPropertiesChanged
      else if java = 5 then FK_BlockedStatusChanged
      else if java = 6 then FK_ValidationChanged
      else if java = 7 then FK_DnsServersChanged
      else FK_Unspecified)"

definition event_severity_of :: "int \<Rightarrow> event_severity" where
  "event_severity_of java =
     (if java = 1 then EV_Info else if java = 2 then EV_Notice else if java = 3 then EV_Warning else EV_Info)"

section \<open>The readers\<close>

definition transport :: "string \<Rightarrow> transport option" where
  "transport name =
     (if name = ''CELLULAR'' then Some TR_Cellular
      else if name = ''WIFI'' then Some TR_Wifi
      else if name = ''BLUETOOTH'' then Some TR_Bluetooth
      else if name = ''ETHERNET'' then Some TR_Ethernet
      else if name = ''VPN'' then Some TR_Vpn
      else if name = ''USB'' then Some TR_Usb
      else None)"

text \<open>The number of a transport on the wire is its position in the enumeration.\<close>

definition transport_i32 :: "transport \<Rightarrow> int" where
  "transport_i32 t = int (length (takeWhile (\<lambda>x. x \<noteq> t) transports))"

definition capabilities_from :: "string \<Rightarrow> network_capabilities" where
  "capabilities_from list =
     (let has = (\<lambda>name. name \<in> set (split_on comma list))
      in no_capabilities\<lparr>nc_internet := has ''INTERNET'', nc_validated := has ''VALIDATED'',
           nc_captive_portal := has ''CAPTIVE_PORTAL'', nc_not_restricted := has ''NOT_RESTRICTED'',
           nc_not_metered := has ''NOT_METERED'', nc_not_roaming := has ''NOT_ROAMING'',
           nc_not_congested := has ''NOT_CONGESTED'', nc_not_suspended := has ''NOT_SUSPENDED'',
           nc_not_vpn := has ''NOT_VPN'', nc_trusted := has ''TRUSTED'', nc_foreground := has ''FOREGROUND''\<rparr>)"

definition ip_address_of :: "string \<Rightarrow> ip_address option" where
  "ip_address_of text =
     (let text = trim (hd (split_on (CHR ''%'') text))
      in if text = [] then None else map_option from_ip (parse_ip text))"

text \<open>The \<open>i\<close>-th of the remaining fields, or a default when the line is shorter.\<close>

definition field_at :: "nat \<Rightarrow> string \<Rightarrow> string list \<Rightarrow> string" where
  "field_at i d parts = (if i < length parts then parts ! i else d)"

definition net_id_of_handle :: "nat \<Rightarrow> int" where
  "net_id_of_handle handle = i32_of_u32 (handle div 2 ^ 32 mod 2 ^ 32)"

definition private_dns_mode_of :: "string \<Rightarrow> bool \<Rightarrow> int" where
  "private_dns_mode_of server active = (if server \<noteq> [] then 3 else if active then 2 else 1)"

definition parse_network :: "string list \<Rightarrow> nat \<Rightarrow> android_network option" where
  "parse_network parts active_handle =
     (case parts of
        [] \<Rightarrow> None
      | h # rest \<Rightarrow>
     (case parse_uint 64 h of
        None \<Rightarrow> None
      | Some handle \<Rightarrow>
          let server = field_at 5 [] rest;
              dns_active = (field_at 4 ''0'' rest = ''1'')
          in Some \<lparr>an_network_handle = handle, an_net_id = net_id_of_handle handle,
               an_transports = map transport_i32 (List.map_filter transport (split_on comma (field_at 0 [] rest))),
               an_capabilities = Some (capabilities_from (field_at 1 [] rest)),
               an_link_properties = Some (no_link_properties
                 \<lparr>lp_interface_name := field_at 2 [] rest,
                  lp_mtu := (case parse_sint 32 (field_at 3 ''0'' rest) of Some m \<Rightarrow> m | None \<Rightarrow> 0),
                  lp_private_dns_mode := private_dns_mode_of server dns_active,
                  lp_private_dns_server_name := server, lp_private_dns_active := dns_active,
                  lp_domains := filter (\<lambda>d. d \<noteq> []) (split_on (CHR '' '') (field_at 6 [] rest)),
                  lp_dns_servers := List.map_filter ip_address_of (split_on comma (field_at 7 [] rest))\<rparr>),
               an_is_default = (handle \<noteq> 0 \<and> handle = active_handle)\<rparr>))"

definition parse_header :: "string list \<Rightarrow> android_network_state \<Rightarrow> android_network_state option" where
  "parse_header parts st =
     (case parts of
        version # sdk # h # restrict # _ \<Rightarrow>
          if version \<noteq> ''1'' then None else
          (case (parse_sint 32 sdk, parse_uint 64 h) of
             (Some s, Some handle) \<Rightarrow>
               let status = (case parse_sint 32 restrict of Some r \<Rightarrow> r | None \<Rightarrow> 0)
               in Some (st\<lparr>as_sdk_int := s, as_active_network_handle := handle,
                     as_active_net_id := net_id_of_handle handle, as_has_active_network := (handle \<noteq> 0),
                     as_restrict_background_status := status, as_data_saver_enabled := (status = 3)\<rparr>)
           | _ \<Rightarrow> None)
      | _ \<Rightarrow> None)"

fun snapshot_lines :: "string list \<Rightarrow> android_network_state \<Rightarrow> bool \<Rightarrow> android_network_state option" where
  "snapshot_lines [] st seen_header = (if seen_header then Some st else None)"
| "snapshot_lines (line # rest) st seen_header =
     (case split_on tab line of
        [] \<Rightarrow> snapshot_lines rest st seen_header
      | tag # parts \<Rightarrow>
          if tag = ''V'' then
            (case parse_header parts st of None \<Rightarrow> None | Some st' \<Rightarrow> snapshot_lines rest st' True)
          else if tag = ''N'' then
            (case parse_network parts (as_active_network_handle st) of
               None \<Rightarrow> snapshot_lines rest st seen_header
             | Some n \<Rightarrow> snapshot_lines rest (st\<lparr>as_networks := as_networks st @ [n]\<rparr>) seen_header)
          else snapshot_lines rest st seen_header)"

definition no_android_state :: android_network_state where
  "no_android_state = \<lparr>as_captured_at_unix_ms = 0, as_networks = [], as_active_network_handle = 0,
     as_active_net_id = 0, as_has_active_network = False, as_restrict_background_status = 0,
     as_data_saver_enabled = False, as_sdk_int = 0\<rparr>"

definition parse_framework_snapshot :: "int \<Rightarrow> string \<Rightarrow> android_network_state option" where
  "parse_framework_snapshot now_ms text =
     snapshot_lines (lines text) (no_android_state\<lparr>as_captured_at_unix_ms := now_ms\<rparr>) False"

record installed_app =
  ia_package :: string
  ia_label :: string
  ia_uid :: nat
  ia_is_system :: bool

text \<open>\<open>splitn\<close>: at most \<open>n\<close> pieces, the last one holding the rest of the text.\<close>

fun splitn :: "nat \<Rightarrow> char \<Rightarrow> string \<Rightarrow> string list" where
  "splitn 0 c s = []"
| "splitn (Suc 0) c s = [s]"
| "splitn (Suc (Suc n)) c s = (case split_once c s of None \<Rightarrow> [s] | Some (a, b) \<Rightarrow> a # splitn (Suc n) c b)"

definition parse_package_line :: "string \<Rightarrow> installed_app option" where
  "parse_package_line line =
     (case splitn 4 tab line of
        uid # system # package # rest \<Rightarrow>
          (case parse_uint 32 uid of
             None \<Rightarrow> None
           | Some u \<Rightarrow>
               Some \<lparr>ia_package = package,
                     ia_label = (case rest of l # _ \<Rightarrow> if l \<noteq> [] then l else package | [] \<Rightarrow> package),
                     ia_uid = u, ia_is_system = (system = ''1'')\<rparr>)
      | _ \<Rightarrow> None)"

definition parse_package_lines :: "string \<Rightarrow> installed_app list" where
  "parse_package_lines listing = List.map_filter parse_package_line (lines listing)"

definition package_cmp :: "(string \<Rightarrow> string) \<Rightarrow> installed_app \<Rightarrow> installed_app \<Rightarrow> ordering" where
  "package_cmp lc a b =
     then_cmp (cmp_of (ia_is_system a) (ia_is_system b)) (cmp_of (lc (ia_label a)) (lc (ia_label b)))"

definition parse_packages :: "(string \<Rightarrow> string) \<Rightarrow> string \<Rightarrow> installed_app list" where
  "parse_packages lc listing = sort_by (package_cmp lc) (parse_package_lines listing)"

section \<open>What the state should be\<close>

text \<open>
  The state the SDK describes, in the terms of \<^verbatim>\<open>android.proto\<close> and without any function of the
  reader: transports by their number in the enumeration there, strict Private DNS (3) when a server is
  named, opportunistic (2) when it is only active, off (1) otherwise, a DNS server by its address bytes
  without the zone. Network ids are not part of it.
\<close>

definition java_has_transport :: "java_network \<Rightarrow> string \<Rightarrow> bool" where
  "java_has_transport n name = (case jn_capabilities n of None \<Rightarrow> False | Some (has, _) \<Rightarrow> has name)"

definition java_has_capability :: "java_network \<Rightarrow> string \<Rightarrow> bool" where
  "java_has_capability n name = (case jn_capabilities n of None \<Rightarrow> False | Some (_, has) \<Rightarrow> has name)"

definition transport_numbers :: "(string \<times> int) list" where
  "transport_numbers = [(''CELLULAR'', 1), (''WIFI'', 2), (''BLUETOOTH'', 3), (''ETHERNET'', 4), (''VPN'', 5), (''USB'', 8)]"

definition capabilities_view :: "java_network \<Rightarrow> network_capabilities" where
  "capabilities_view n =
     (let has = java_has_capability n
      in no_capabilities\<lparr>nc_internet := has ''INTERNET'', nc_validated := has ''VALIDATED'',
           nc_captive_portal := has ''CAPTIVE_PORTAL'', nc_not_restricted := has ''NOT_RESTRICTED'',
           nc_not_metered := has ''NOT_METERED'', nc_not_roaming := has ''NOT_ROAMING'',
           nc_not_congested := has ''NOT_CONGESTED'', nc_not_suspended := has ''NOT_SUSPENDED'',
           nc_not_vpn := has ''NOT_VPN'', nc_trusted := has ''TRUSTED'', nc_foreground := has ''FOREGROUND''\<rparr>)"

definition link_view :: "java_link option \<Rightarrow> link_properties" where
  "link_view link =
     (case link of
        None \<Rightarrow> no_link_properties\<lparr>lp_private_dns_mode := 1\<rparr>
      | Some l \<Rightarrow>
          no_link_properties
            \<lparr>lp_interface_name := java_text (jl_interface_name l), lp_mtu := jl_mtu l,
             lp_private_dns_mode :=
               (if jl_private_dns_server_name l \<notin> {None, Some []} then 3 else if jl_private_dns_active l then 2 else 1),
             lp_private_dns_server_name := java_text (jl_private_dns_server_name l),
             lp_private_dns_active := jl_private_dns_active l,
             lp_domains := filter (\<lambda>d. d \<noteq> []) (split_on (CHR '' '') (java_text (jl_domains l))),
             lp_dns_servers := map (\<lambda>a. case jd_ip a of V4 os \<Rightarrow> \<lparr>addr = os\<rparr> | V6 os \<Rightarrow> \<lparr>addr = os\<rparr>)
               (jl_dns_servers l)\<rparr>)"

definition network_view :: "int \<Rightarrow> java_network \<Rightarrow> android_network" where
  "network_view active n =
     \<lparr>an_network_handle = nat (jn_handle n), an_net_id = 0,
      an_transports = map snd (filter (\<lambda>(name, _). java_has_transport n name) transport_numbers),
      an_capabilities = Some (capabilities_view n), an_link_properties = Some (link_view (jn_link n)),
      an_is_default = (jn_handle n \<noteq> 0 \<and> jn_handle n = active)\<rparr>"

definition framework_view :: "int \<Rightarrow> java_framework \<Rightarrow> android_network_state" where
  "framework_view now_ms fw =
     (let active = (case jf_active fw of Some h \<Rightarrow> h | None \<Rightarrow> 0)
      in \<lparr>as_captured_at_unix_ms = now_ms, as_networks = map (network_view active) (jf_networks fw),
          as_active_network_handle = nat active, as_active_net_id = 0,
          as_has_active_network = (active \<noteq> 0),
          as_restrict_background_status = jf_restrict_background_status fw,
          as_data_saver_enabled = (jf_restrict_background_status fw = 3), as_sdk_int = jf_sdk_int fw\<rparr>)"

definition without_net_id :: "android_network \<Rightarrow> android_network" where
  "without_net_id n = n\<lparr>an_net_id := 0\<rparr>"

definition without_net_ids :: "android_network_state \<Rightarrow> android_network_state" where
  "without_net_ids st = st\<lparr>as_active_net_id := 0, as_networks := map without_net_id (as_networks st)\<rparr>"

text \<open>
  What the SDK guarantees: handles are not negative, the numbers are Java \<open>int\<close>s and \<open>long\<close>s, an
  address has four or sixteen bytes, and a zone holds no separator and no carriage return. Networks over
  Wi-Fi Aware or LoWPAN, whose transport is not read back, are left out.
\<close>

definition java_int :: "int \<Rightarrow> bool" where "java_int i = (- (2 ^ 31) \<le> i \<and> i < 2 ^ 31)"

definition java_handle :: "int \<Rightarrow> bool" where "java_handle h = (0 \<le> h \<and> h < 2 ^ 63)"

definition address_chars :: "string \<Rightarrow> bool" where
  "address_chars t = list_all (\<lambda>c. c \<noteq> tab \<and> c \<noteq> newline \<and> c \<noteq> comma \<and> c \<noteq> CHR 0x0D) t"

definition java_network_ok :: "java_network \<Rightarrow> bool" where
  "java_network_ok n =
     (java_handle (jn_handle n) \<and> \<not> java_has_transport n ''WIFI_AWARE'' \<and> \<not> java_has_transport n ''LOWPAN'' \<and>
      (case jn_link n of
         None \<Rightarrow> True
       | Some l \<Rightarrow> java_int (jl_mtu l) \<and>
           list_all (\<lambda>a. wf_ip (jd_ip a) \<and> address_chars (jd_zone a)) (jl_dns_servers l)))"

definition java_framework_ok :: "java_framework \<Rightarrow> bool" where
  "java_framework_ok fw =
     (java_int (jf_sdk_int fw) \<and> java_int (jf_restrict_background_status fw) \<and>
      (case jf_active fw of Some h \<Rightarrow> java_handle h | None \<Rightarrow> True) \<and> list_all java_network_ok (jf_networks fw))"

section \<open>Facts\<close>

lemma of_char_sep: "of_char tab = (9 :: nat)" "of_char newline = (10 :: nat)" "of_char comma = (44 :: nat)"
  by (simp_all add: tab_def newline_def comma_def)

lemma sep_distinct [simp]: "tab \<noteq> newline" "newline \<noteq> tab" "comma \<noteq> tab" "tab \<noteq> comma" "comma \<noteq> newline" "newline \<noteq> comma"
  "CHR '' '' \<noteq> tab" "CHR '' '' \<noteq> newline" "CHR '' '' \<noteq> comma" "CHR 0x0D \<noteq> tab" "tab \<noteq> CHR 0x0D"
  "tab \<noteq> CHR '' ''" "newline \<noteq> CHR '' ''" "comma \<noteq> CHR '' ''"
  by (simp_all add: tab_def newline_def comma_def)

lemma dec_int_chars: "c \<in> set (dec_int i) \<Longrightarrow> 45 \<le> (of_char c :: nat) \<and> (of_char c :: nat) \<le> 57"
  using dec_chars [of c "nat (- i)"] dec_chars [of c "nat i"] by (auto simp: dec_int_def split: if_splits)

lemma dec_int_sep [simp]: "tab \<notin> set (dec_int i)" "newline \<notin> set (dec_int i)" "CHR 0x0D \<notin> set (dec_int i)"
  using dec_int_chars [of tab i] dec_int_chars [of newline i] dec_int_chars [of "CHR 0x0D" i] by (auto simp: of_char_sep)

lemma dec_hd: "hd (dec n) \<noteq> CHR ''-''" "hd (dec n) \<noteq> CHR ''+''"
  using dec_chars [of "hd (dec n)" n] by (auto simp: hd_in_set)

lemma parse_sint_dec_int:
  assumes "java_int i"
  shows "parse_sint 32 (dec_int i) = Some i"
proof (cases "i < 0")
  case True
  then show ?thesis using assms by (simp add: java_int_def dec_int_def parse_sint_def)
next
  case False
  obtain c cs where c: "dec (nat i) = c # cs" by (cases "dec (nat i)") auto
  have "c \<noteq> CHR ''-''" "c \<noteq> CHR ''+''" using dec_hd [of "nat i"] by (simp_all add: c)
  moreover have "parse_nat (c # cs) = Some (nat i)" by (simp flip: c)
  ultimately show ?thesis using False assms by (simp add: java_int_def dec_int_def parse_sint_def c)
qed

lemma parse_uint_dec_int: "java_handle h \<Longrightarrow> parse_uint 64 (dec_int h) = Some (nat h)"
  by (simp add: java_handle_def dec_int_def nat_less_iff)

lemma java_text_sep [simp]: "tab \<notin> set (java_text v)" "newline \<notin> set (java_text v)"
  by (auto simp: java_text_def split: option.splits if_splits)

lemma lines_of_records:
  assumes "\<forall>l\<in>set ls. newline \<notin> set l \<and> strip_cr l = l"
  shows "lines (concat (map (\<lambda>l. l @ nl) ls)) = ls"
proof -
  have "split_on newline (concat (map (\<lambda>l. l @ nl) ls)) = ls @ [[]]"
    using assms by (induction ls) (auto simp: nl_def split_on_append)
  then show ?thesis using assms by (simp add: lines_def Let_def map_idI)
qed

text \<open>Reading a list back: an empty list is written as an empty field, which reads as no entry.\<close>

lemma read_names:
  assumes "\<forall>x\<in>set names. comma \<notin> set x" "g [] = None"
  shows "List.map_filter g (split_on comma (join [comma] names)) = List.map_filter g names"
  using assms by (cases "names = []") (simp_all add: split_on_join)

lemma has_name:
  assumes "\<forall>x\<in>set names. comma \<notin> set x" "name \<noteq> []"
  shows "name \<in> set (split_on comma (join [comma] names)) \<longleftrightarrow> name \<in> set names"
  using assms by (cases "names = []") (simp_all add: split_on_join)

lemma names_clean:
  "\<forall>x\<in>set (TRANSPORT_NAMES @ CAPABILITY_NAMES). comma \<notin> set x \<and> tab \<notin> set x \<and> newline \<notin> set x"
  by (simp add: TRANSPORT_NAMES_def CAPABILITY_NAMES_def comma_def tab_def newline_def)

lemma set_join_sep: "c \<in> set (join sep xs) \<Longrightarrow> c \<in> set sep \<or> (\<exists>x\<in>set xs. c \<in> set x)"
  by (induction sep xs rule: join.induct) auto

subsection \<open>The line of a network\<close>

definition network_parts :: "java_network \<Rightarrow> string list" where
  "network_parts n =
     [dec_int (jn_handle n), append_transports n, append_capabilities n]
     @ (case jn_link n of
          None \<Rightarrow> [[], ''0'', ''0'', [], [], []]
        | Some l \<Rightarrow>
            [java_text (jl_interface_name l), dec_int (jl_mtu l), if jl_private_dns_active l then ''1'' else ''0'',
             java_text (jl_private_dns_server_name l), java_text (jl_domains l), append_dns_servers (jl_dns_servers l)])"

lemma append_network_line: "append_network n = join [tab] (''N'' # network_parts n) @ nl"
  by (simp add: append_network_def network_parts_def split: option.split)

lemma join_names_sep:
  assumes "\<forall>x\<in>set names. c \<notin> set x" "c \<noteq> comma"
  shows "c \<notin> set (join [comma] names)"
  using set_join_sep [of c "[comma]" names] assms by auto

lemma append_names_sep:
  assumes "c = tab \<or> c = newline"
  shows "c \<notin> set (append_transports n)" "c \<notin> set (append_capabilities n)"
proof -
  have c: "c \<noteq> comma" using assms by auto
  have t: "\<forall>x\<in>set (filter has TRANSPORT_NAMES). c \<notin> set x" and p: "\<forall>x\<in>set (filter has CAPABILITY_NAMES). c \<notin> set x" for has
    using names_clean assms by auto
  show "c \<notin> set (append_transports n)"
    using join_names_sep [OF t c] by (simp add: append_transports_def split: option.split)
  show "c \<notin> set (append_capabilities n)"
    using join_names_sep [OF p c] by (simp add: append_capabilities_def split: option.split)
qed

text \<open>The text of an address: digits, dots and colons, so no separator, percent sign or white space.\<close>

lemma hex_chars: "c \<in> set (hex n) \<Longrightarrow> 48 \<le> (of_char c :: nat)"
  using set_hex [of n] by (auto simp: of_char_digit_char)

lemma show_v4_chars: "c \<in> set (show_v4 os) \<Longrightarrow> 46 \<le> (of_char c :: nat)"
  unfolding show_v4_def by (drule set_join_sep) (force dest: dec_chars)

lemma groups_chars: "c \<in> set (fmt_subslice gs) \<Longrightarrow> 46 \<le> (of_char c :: nat)"
  unfolding fmt_subslice_def by (drule set_join_sep) (force dest: hex_chars)

lemma show_ip_chars: "c \<in> set (show_ip x) \<Longrightarrow> 46 \<le> (of_char c :: nat)"
proof (cases x)
  case (V6 os)
  assume "c \<in> set (show_ip x)"
  with V6 show ?thesis
    by (auto simp: show_v6_def Let_def show_v4_chars groups_chars split: option.splits prod.splits if_splits)
qed (simp add: show_v4_chars)

lemma show_ip_sep: "(of_char c :: nat) < 46 \<Longrightarrow> c \<notin> set (show_ip x)"
  using show_ip_chars [of c x] by auto

lemma trim_id: "list_all (\<lambda>c. \<not> is_ws c) s \<Longrightarrow> trim s = s"
proof -
  have "list_all (\<lambda>c. \<not> P c) xs \<Longrightarrow> dropWhile P xs = xs" for P and xs :: string by (cases xs) simp_all
  from this [of is_ws s] this [of is_ws "rev s"] show "list_all (\<lambda>c. \<not> is_ws c) s \<Longrightarrow> trim s = s"
    by (simp add: trim_def trim_start_def trim_end_def)
qed

lemma show_ip_not_Nil: "wf_ip x \<Longrightarrow> show_ip x \<noteq> []"
proof (cases x)
  case (V4 os)
  assume "wf_ip x"
  with V4 show ?thesis by (auto simp: show_v4_def numeral_eq_Suc length_Suc_conv)
next
  case (V6 os)
  assume "wf_ip x"
  with V6 obtain a b rest where "os = a # b # rest" by (auto simp: numeral_eq_Suc length_Suc_conv)
  then have "fmt_subslice (segments os) \<noteq> []" by (cases "segments rest") (simp_all add: fmt_subslice_def)
  with V6 show ?thesis by (simp add: show_v6_def Let_def split: option.split prod.split)
qed

text \<open>The zone of a link-local address is cut off before the address is parsed.\<close>

lemma address_read:
  assumes "wf_ip (jd_ip a)"
  shows "Option.bind (get_host_address a) ip_address_of = Some (from_ip (jd_ip a))"
proof -
  have t: "trim (show_ip (jd_ip a)) = show_ip (jd_ip a)"
    by (rule trim_id) (auto simp: list_all_iff is_ws_def Let_def dest: show_ip_chars)
  have "CHR ''%'' \<notin> set (show_ip (jd_ip a))" by (rule show_ip_sep) simp
  then have "hd (split_on (CHR ''%'') (show_ip (jd_ip a) @ (if jd_zone a = [] then [] else CHR ''%'' # jd_zone a))) = show_ip (jd_ip a)"
    by (simp add: split_on_append split_on_no_sep)
  with t assms show ?thesis by (simp add: get_host_address_def ip_address_of_def parse_show_ip show_ip_not_Nil)
qed

lemma host_address_sep:
  assumes "address_chars (jd_zone a)" "c = tab \<or> c = newline \<or> c = comma \<or> c = CHR 0x0D" "get_host_address a = Some t"
  shows "c \<notin> set t"
proof -
  have "(of_char c :: nat) < 46" using assms(2) by (auto simp: of_char_sep)
  moreover have "c \<notin> set (jd_zone a)" "c \<noteq> CHR ''%''"
    using assms(1,2) by (auto simp: address_chars_def list_all_iff tab_def newline_def comma_def)
  ultimately show ?thesis using assms(3) show_ip_sep [of c "jd_ip a"] by (auto simp: get_host_address_def split: if_splits)
qed

lemma host_addresses_sep:
  assumes "list_all (\<lambda>a. wf_ip (jd_ip a) \<and> address_chars (jd_zone a)) servers"
    "c = tab \<or> c = newline \<or> c = comma \<or> c = CHR 0x0D"
  shows "\<forall>x\<in>set (List.map_filter get_host_address servers). c \<notin> set x"
  using assms host_address_sep [of _ c] by (auto simp: List.map_filter_def list_all_iff)

lemma append_dns_sep:
  assumes "list_all (\<lambda>a. wf_ip (jd_ip a) \<and> address_chars (jd_zone a)) servers" "c = tab \<or> c = newline \<or> c = CHR 0x0D"
  shows "c \<notin> set (append_dns_servers servers)"
  unfolding append_dns_servers_def
proof (rule join_names_sep)
  show "\<forall>x\<in>set (List.map_filter get_host_address servers). c \<notin> set x"
    using assms(2) by (intro host_addresses_sep [OF assms(1)]) blast
  show "c \<noteq> comma" using assms(2) by (auto simp: comma_def tab_def newline_def)
qed

lemma network_parts_sep:
  assumes "java_network_ok n" "p \<in> set (network_parts n)"
  shows "tab \<notin> set p" "newline \<notin> set p"
proof -
  have dns: "c \<notin> set (append_dns_servers (jl_dns_servers l))" if "jn_link n = Some l" "c = tab \<or> c = newline" for l c
    using assms(1) that by (intro append_dns_sep) (auto simp: java_network_ok_def)
  have "c \<notin> set p" if c: "c = tab \<or> c = newline" for c
  proof (cases "jn_link n")
    case None
    then show ?thesis
      using assms(2) c append_names_sep [OF c, of n]
      by (auto simp: network_parts_def) (simp_all add: tab_def newline_def)
  next
    case (Some l)
    then show ?thesis
      using assms(2) c append_names_sep [OF c, of n] dns [OF Some c]
      by (auto simp: network_parts_def split: if_splits) (simp_all add: tab_def newline_def)
  qed
  then show "tab \<notin> set p" "newline \<notin> set p" by simp_all
qed

lemma join_snoc: "xs \<noteq> [] \<Longrightarrow> join sep (xs @ [y]) = join sep xs @ sep @ y"
proof (induction xs)
  case (Cons x xs)
  then show ?case by (cases xs) auto
qed simp

lemma strip_cr_parts: "xs \<noteq> [] \<Longrightarrow> CHR 0x0D \<notin> set y \<Longrightarrow> strip_cr (join [tab] (xs @ [y])) = join [tab] (xs @ [y])"
  by (auto simp: join_snoc strip_cr_def dest: last_in_set split: if_splits)

lemma network_line_ok:
  assumes "java_network_ok n"
  shows "split_on tab (join [tab] (''N'' # network_parts n)) = ''N'' # network_parts n" (is ?split)
    "newline \<notin> set (join [tab] (''N'' # network_parts n))" (is ?nl)
    "strip_cr (join [tab] (''N'' # network_parts n)) = join [tab] (''N'' # network_parts n)" (is ?cr)
proof -
  have sep: "tab \<notin> set p \<and> newline \<notin> set p" if "p \<in> set (''N'' # network_parts n)" for p
    using that network_parts_sep [OF assms] by (auto simp: tab_def newline_def)
  show ?split by (rule split_on_join) (use sep in simp_all)
  show ?nl using sep set_join_sep [of newline "[tab]" "''N'' # network_parts n"] by auto
  have "\<exists>xs y. ''N'' # network_parts n = xs @ [y] \<and> xs \<noteq> [] \<and> CHR 0x0D \<notin> set y"
  proof (cases "jn_link n")
    case None
    then show ?thesis
      by (intro exI [of _ "''N'' # butlast (network_parts n)"] exI [of _ "[]"]) (simp add: network_parts_def)
  next
    case (Some l)
    then have "CHR 0x0D \<notin> set (append_dns_servers (jl_dns_servers l))"
      using assms by (intro append_dns_sep) (auto simp: java_network_ok_def)
    with Some show ?thesis
      by (intro exI [of _ "''N'' # butlast (network_parts n)"] exI [of _ "append_dns_servers (jl_dns_servers l)"])
        (simp add: network_parts_def)
  qed
  then show ?cr using strip_cr_parts by metis
qed

lemma capabilities_from_names:
  assumes "jn_capabilities n = Some (ht, has)"
  shows "capabilities_from (append_capabilities n) = capabilities_view n"
proof -
  have "name \<in> set (split_on comma (append_capabilities n)) \<longleftrightarrow> has name" if "name \<in> set CAPABILITY_NAMES" for name
  proof -
    have "\<forall>x\<in>set (filter has CAPABILITY_NAMES). comma \<notin> set x" using names_clean by auto
    moreover have "name \<noteq> []" using that by (auto simp: CAPABILITY_NAMES_def)
    ultimately show ?thesis using has_name [of "filter has CAPABILITY_NAMES" name] that assms
      by (simp add: append_capabilities_def)
  qed
  then show ?thesis
    using assms by (simp add: capabilities_from_def capabilities_view_def java_has_capability_def Let_def CAPABILITY_NAMES_def)
qed

lemma capabilities_from_null:
  assumes "jn_capabilities n = None"
  shows "capabilities_from (append_capabilities n) = capabilities_view n"
  using assms by (simp add: capabilities_from_def capabilities_view_def java_has_capability_def append_capabilities_def Let_def)

lemma transports_table:
  "\<not> java_has_transport n ''WIFI_AWARE'' \<Longrightarrow> \<not> java_has_transport n ''LOWPAN'' \<Longrightarrow>
   map transport_i32 (List.map_filter transport (filter (java_has_transport n) TRANSPORT_NAMES)) =
   map snd (filter (\<lambda>(name, _). java_has_transport n name) transport_numbers)"
  by (simp add: TRANSPORT_NAMES_def transport_numbers_def transport_def transport_i32_def transports_def)

lemma transports_read:
  assumes "\<not> java_has_transport n ''WIFI_AWARE''" "\<not> java_has_transport n ''LOWPAN''"
  shows "map transport_i32 (List.map_filter transport (split_on comma (append_transports n))) =
   map snd (filter (\<lambda>(name, _). java_has_transport n name) transport_numbers)"
proof -
  have "List.map_filter transport (split_on comma (append_transports n)) =
      List.map_filter transport (filter (java_has_transport n) TRANSPORT_NAMES)"
  proof (cases "jn_capabilities n")
    case None
    then show ?thesis by (simp add: append_transports_def java_has_transport_def transport_def List.map_filter_def)
  next
    case (Some p)
    then obtain ht hc where p: "jn_capabilities n = Some (ht, hc)" by (cases p) auto
    have "\<forall>x\<in>set (filter ht TRANSPORT_NAMES). comma \<notin> set x" using names_clean by auto
    moreover have "java_has_transport n = ht" by (simp add: fun_eq_iff java_has_transport_def p)
    ultimately show ?thesis
      using read_names [of "filter ht TRANSPORT_NAMES" transport] by (simp add: p append_transports_def transport_def)
  qed
  then show ?thesis by (simp only: transports_table [OF assms])
qed

lemma dns_read:
  assumes "list_all (\<lambda>a. wf_ip (jd_ip a) \<and> address_chars (jd_zone a)) servers"
  shows "List.map_filter ip_address_of (split_on comma (append_dns_servers servers)) = map (\<lambda>a. from_ip (jd_ip a)) servers"
proof -
  have "\<forall>x\<in>set (List.map_filter get_host_address servers). comma \<notin> set x"
    by (rule host_addresses_sep [OF assms]) simp
  moreover have "ip_address_of [] = None" by (simp add: ip_address_of_def trim_def trim_start_def trim_end_def)
  ultimately have "List.map_filter ip_address_of (split_on comma (append_dns_servers servers)) =
      List.map_filter ip_address_of (List.map_filter get_host_address servers)"
    unfolding append_dns_servers_def by (rule read_names)
  also have "\<dots> = map (\<lambda>a. from_ip (jd_ip a)) servers"
    using assms by (induction servers) (auto dest!: address_read simp: bind_eq_Some_conv)
  finally show ?thesis .
qed

lemma java_text_Nil: "java_text v \<noteq> [] \<longleftrightarrow> v \<notin> {None, Some []}"
  by (auto simp: java_text_def split: option.split)

lemma from_ip_octets: "from_ip x = (case x of V4 os \<Rightarrow> \<lparr>addr = os\<rparr> | V6 os \<Rightarrow> \<lparr>addr = os\<rparr>)"
  by (cases x) simp_all

lemma parse_network_line:
  assumes "java_network_ok n" "0 \<le> active"
  shows "\<exists>m. parse_network (network_parts n) (nat active) = Some m \<and> without_net_id m = network_view active n"
proof -
  have caps: "capabilities_from (append_capabilities n) = capabilities_view n"
    using capabilities_from_names capabilities_from_null by (cases "jn_capabilities n") auto
  have h: "parse_uint 64 (dec_int (jn_handle n)) = Some (nat (jn_handle n))" "0 \<le> jn_handle n"
    using assms(1) parse_uint_dec_int by (simp_all add: java_network_ok_def java_handle_def)
  have eq: "nat (jn_handle n) = nat active \<longleftrightarrow> jn_handle n = active" "jn_handle n \<le> 0 \<longleftrightarrow> jn_handle n = 0"
    using h(2) assms(2) by auto
  have tr: "map transport_i32 (List.map_filter transport (split_on comma (append_transports n))) =
      map snd (filter (\<lambda>(name, _). java_has_transport n name) transport_numbers)"
    using assms(1) by (intro transports_read) (simp_all add: java_network_ok_def)
  show ?thesis
  proof (cases "jn_link n")
    case None
    have "dec_int 0 = ''0''" by (simp add: dec_int_def dec_step digit_chars)
    then have "parse_sint 32 ''0'' = Some 0" using parse_sint_dec_int [of 0] by (simp add: java_int_def)
    with None h(1) caps eq tr show ?thesis
      by (simp add: parse_network_def network_parts_def network_view_def link_view_def field_at_def no_link_properties_def
          ip_address_of_def trim_def trim_start_def trim_end_def without_net_id_def private_dns_mode_of_def)
  next
    case (Some l)
    then have ok: "java_int (jl_mtu l)" "list_all (\<lambda>a. wf_ip (jd_ip a) \<and> address_chars (jd_zone a)) (jl_dns_servers l)"
      using assms(1) by (simp_all add: java_network_ok_def)
    have mode: "private_dns_mode_of (java_text (jl_private_dns_server_name l)) b =
        (if jl_private_dns_server_name l \<notin> {None, Some []} then 3 else if b then 2 else 1)" for b
      using java_text_Nil [of "jl_private_dns_server_name l"] by (simp add: private_dns_mode_of_def)
    from Some h(1) caps eq tr dns_read [OF ok(2)] parse_sint_dec_int [OF ok(1)] show ?thesis
      by (simp add: parse_network_def network_parts_def network_view_def link_view_def field_at_def Let_def mode
          without_net_id_def from_ip_octets)
  qed
qed

lemma snapshot_network_lines:
  assumes "list_all java_network_ok ns" "as_active_network_handle st = nat active" "0 \<le> active"
  shows "\<exists>ms. snapshot_lines (map (\<lambda>n. join [tab] (''N'' # network_parts n)) ns) st True =
    Some (st\<lparr>as_networks := as_networks st @ ms\<rparr>) \<and> map without_net_id ms = map (network_view active) ns"
  using assms
proof (induction ns arbitrary: st)
  case (Cons n ns)
  then have n: "java_network_ok n" by simp
  obtain m where m: "parse_network (network_parts n) (nat active) = Some m" "without_net_id m = network_view active n"
    using parse_network_line [OF n Cons.prems(3)] by blast
  let ?st = "st\<lparr>as_networks := as_networks st @ [m]\<rparr>"
  obtain ms where ms: "snapshot_lines (map (\<lambda>n. join [tab] (''N'' # network_parts n)) ns) ?st True =
      Some (?st\<lparr>as_networks := as_networks ?st @ ms\<rparr>)" "map without_net_id ms = map (network_view active) ns"
    using Cons.IH [of ?st] Cons.prems by auto
  have "snapshot_lines (map (\<lambda>n. join [tab] (''N'' # network_parts n)) (n # ns)) st True =
      Some (st\<lparr>as_networks := as_networks st @ m # ms\<rparr>)"
    using m(1) ms(1) Cons.prems(2) by (simp add: network_line_ok(1) [OF n] del: join.simps)
  moreover have "map without_net_id (m # ms) = map (network_view active) (n # ns)" using m(2) ms(2) by simp
  ultimately show ?case by blast
qed simp

section \<open>Properties\<close>

text \<open>
  C14: the framework's view of networking survives the trip through text. Whatever the SDK reports, within the
  ranges of its types and without a Wi-Fi Aware or LoWPAN network, the Rust side reads the lines the Java
  side wrote as the state described there: the header, and one network per line with its handle, its transports
  under their numbers of \<^verbatim>\<open>android.proto\<close>, its capabilities, its link properties with a separator inside an interface
  name, a server name or a domain replaced by a space, and its DNS servers, whose zones are dropped; the
  default network is the one whose handle is the active one. Network ids, which the code takes from the high
  bits of the handle and \<^verbatim>\<open>android.proto\<close> from the low ones, are left out of the comparison.
\<close>

theorem framework_roundtrip:
  assumes "java_framework_ok fw"
  shows "map_option without_net_ids (parse_framework_snapshot now_ms (collect_network_snapshot fw)) =
    Some (framework_view now_ms fw)"
proof -
  let ?active = "case jf_active fw of Some h \<Rightarrow> h | None \<Rightarrow> 0"
  let ?header = "[''V'', ''1'', dec_int (jf_sdk_int fw), dec_int ?active, dec_int (jf_restrict_background_status fw)]"
  let ?net = "\<lambda>n. join [tab] (''N'' # network_parts n)"
  have ns: "list_all java_network_ok (jf_networks fw)" and active: "java_handle ?active"
    and ints: "java_int (jf_sdk_int fw)" "java_int (jf_restrict_background_status fw)"
    using assms by (auto simp: java_framework_ok_def java_handle_def split: option.splits)
  have sep: "tab \<notin> set p \<and> newline \<notin> set p" if "p \<in> set ?header" for p
    using that by auto (simp_all add: tab_def newline_def)
  have split: "split_on tab (join [tab] ?header) = ?header" by (rule split_on_join) (use sep in auto)
  have "newline \<notin> set (join [tab] ?header)" using sep set_join_sep [of newline "[tab]" ?header] by auto
  moreover have "strip_cr (join [tab] ?header) = join [tab] ?header"
    using strip_cr_parts [of "butlast ?header" "last ?header"] by simp
  moreover have "newline \<notin> set l \<and> strip_cr l = l" if "l \<in> set (map ?net (jf_networks fw))" for l
    using that ns network_line_ok(2,3) by (auto simp: list_all_iff simp del: join.simps)
  ultimately have "lines (concat (map (\<lambda>l. l @ nl) (join [tab] ?header # map ?net (jf_networks fw)))) =
      join [tab] ?header # map ?net (jf_networks fw)"
    by (intro lines_of_records) auto
  moreover have "collect_network_snapshot fw = concat (map (\<lambda>l. l @ nl) (join [tab] ?header # map ?net (jf_networks fw)))"
    by (simp add: collect_network_snapshot_def append_network_line [abs_def] o_def)
  ultimately have lines: "lines (collect_network_snapshot fw) = join [tab] ?header # map ?net (jf_networks fw)" by simp
  have zero: "?active \<le> 0 \<longleftrightarrow> ?active = 0" "0 \<le> ?active" using active by (auto simp: java_handle_def)
  obtain st where st: "parse_header (tl ?header) (no_android_state\<lparr>as_captured_at_unix_ms := now_ms\<rparr>) = Some st"
    "as_active_network_handle st = nat ?active"
    "\<And>ms. map without_net_id ms = map (network_view ?active) (jf_networks fw) \<Longrightarrow>
       without_net_ids (st\<lparr>as_networks := as_networks st @ ms\<rparr>) = framework_view now_ms fw"
    using parse_sint_dec_int [OF ints(1)] parse_sint_dec_int [OF ints(2)] parse_uint_dec_int [OF active]
    by (simp add: parse_header_def no_android_state_def Let_def without_net_ids_def framework_view_def zero(1))
  obtain ms where "snapshot_lines (map ?net (jf_networks fw)) st True = Some (st\<lparr>as_networks := as_networks st @ ms\<rparr>)"
    "map without_net_id ms = map (network_view ?active) (jf_networks fw)"
    using snapshot_network_lines [OF ns st(2) zero(2)] by blast
  with st show ?thesis
    unfolding parse_framework_snapshot_def lines snapshot_lines.simps split by simp
qed

definition demo_framework :: java_framework where
  "demo_framework = \<lparr>jf_sdk_int = 34, jf_active = Some (111 * 2 ^ 32), jf_restrict_background_status = 1,
     jf_networks =
       [\<lparr>jn_handle = 111 * 2 ^ 32,
         jn_capabilities = Some (\<lambda>t. t = ''WIFI'' \<or> t = ''VPN'', \<lambda>c. c = ''INTERNET'' \<or> c = ''VALIDATED''),
         jn_link = Some \<lparr>jl_interface_name = Some ''tun0'', jl_mtu = 1280, jl_private_dns_active = False,
           jl_private_dns_server_name = None, jl_domains = Some ''example.com'',
           jl_dns_servers = [\<lparr>jd_ip = V4 [1, 1, 1, 1], jd_zone = []\<rparr>,
             \<lparr>jd_ip = V6 ([0xfe, 0x80] @ replicate 13 0 @ [1]), jd_zone = ''wlan0''\<rparr>]\<rparr>\<rparr>]\<rparr>"

theorem framework_roundtrip_witness:
  "\<exists>st. parse_framework_snapshot 7 (collect_network_snapshot demo_framework) = Some st \<and>
     map an_transports (as_networks (without_net_ids st)) = [[2, 5]] \<and> as_sdk_int st = 34"
proof -
  have "java_framework_ok demo_framework"
    by (simp add: java_framework_ok_def java_network_ok_def demo_framework_def java_int_def java_handle_def
        java_has_transport_def address_chars_def tab_def newline_def comma_def)
  from framework_roundtrip [OF this, of 7] obtain st where
    st: "parse_framework_snapshot 7 (collect_network_snapshot demo_framework) = Some st"
      "without_net_ids st = framework_view 7 demo_framework" by auto
  have "map an_transports (as_networks (framework_view 7 demo_framework)) = [[2, 5]]"
    "as_sdk_int (framework_view 7 demo_framework) = 34"
    by (simp_all add: framework_view_def network_view_def demo_framework_def java_has_transport_def transport_numbers_def)
  moreover have "as_sdk_int st = as_sdk_int (without_net_ids st)" by (simp add: without_net_ids_def)
  ultimately show ?thesis using st by auto
qed

definition app_view :: "java_app \<Rightarrow> installed_app" where
  "app_view a =
     \<lparr>ia_package = sanitize (ja_package a),
      ia_label = (if ja_label a = [] then sanitize (ja_package a) else sanitize (ja_label a)),
      ia_uid = nat (ja_uid a), ia_is_system = ja_system a\<rparr>"

definition java_app_ok :: "java_app \<Rightarrow> bool" where
  "java_app_ok a = (0 \<le> ja_uid a \<and> ja_uid a < 2 ^ 31 \<and> strip_cr (sanitize (ja_label a)) = sanitize (ja_label a))"

lemma strip_cr_snoc: "strip_cr y = y \<Longrightarrow> strip_cr (x @ tab # y) = x @ tab # y"
proof (cases y rule: rev_cases)
  case (snoc ys c)
  assume "strip_cr y = y"
  then have "c \<noteq> CHR 0x0D" by (auto simp: strip_cr_def snoc split: if_splits)
  then show ?thesis by (simp add: strip_cr_def snoc)
qed (simp add: strip_cr_def)

lemma sanitize_sep [simp]: "tab \<notin> set (sanitize v)" "newline \<notin> set (sanitize v)"
  by (auto simp: sanitize_def split: if_splits)

lemma sanitize_Nil_iff [simp]: "sanitize v = [] \<longleftrightarrow> v = []"
  by (simp add: sanitize_def)

definition app_line :: "java_app \<Rightarrow> string" where
  "app_line a = dec_int (ja_uid a) @ tab # (if ja_system a then ''1'' else ''0'') @ tab
     # sanitize (ja_package a) @ tab # sanitize (ja_label a)"

lemma app_line_ok:
  assumes "java_app_ok a"
  shows "newline \<notin> set (app_line a)" "strip_cr (app_line a) = app_line a"
    "parse_package_line (app_line a) = Some (app_view a)"
proof -
  let ?sys = "if ja_system a then ''1'' else ''0''"
  have sys: "tab \<notin> set ?sys" "newline \<notin> set ?sys" by (simp_all add: tab_def newline_def)
  then show "newline \<notin> set (app_line a)" by (simp add: app_line_def)
  have "app_line a = (dec_int (ja_uid a) @ tab # ?sys @ tab # sanitize (ja_package a)) @ tab # sanitize (ja_label a)"
    by (simp add: app_line_def)
  then show "strip_cr (app_line a) = app_line a"
    using assms strip_cr_snoc by (simp add: java_app_ok_def)
  have uid: "parse_uint 32 (dec_int (ja_uid a)) = Some (nat (ja_uid a))"
    using assms by (simp add: java_app_ok_def dec_int_def nat_less_iff)
  have "splitn 4 tab (app_line a) = [dec_int (ja_uid a), ?sys, sanitize (ja_package a), sanitize (ja_label a)]"
    using sys by (simp add: app_line_def numeral_eq_Suc split_once_append del: if_split_asm)
  then show "parse_package_line (app_line a) = Some (app_view a)"
    by (simp add: parse_package_line_def uid app_view_def)
qed

interpretation package_order: rust_ord "package_cmp lc"
  unfolding package_cmp_def by (intro rust_ord_then rust_ord_key)

lemma package_cmp_not_Greater:
  "package_cmp lc a b \<noteq> Greater \<longleftrightarrow>
     \<not> ia_is_system a \<and> ia_is_system b \<or> ia_is_system a = ia_is_system b \<and> lc (ia_label a) \<le> lc (ia_label b)"
  by (auto simp: package_cmp_def then_cmp_Greater cmp_of_def split: if_splits)

text \<open>
  C28: the list of installed apps survives it too, and is in the order the screen wants. For uids of 32
  bits and labels that do not end in a carriage return, every application the package manager lists is in
  the result once, a label that is empty replaced by the package name, and the result has the user's apps before the
  system's, each group ascending by label without regard to case.
\<close>

theorem packages_roundtrip:
  assumes "list_all java_app_ok apps"
  shows "mset (parse_packages lc (packages_list apps)) = image_mset app_view (mset apps) \<and>
    sorted_wrt (\<lambda>a b. \<not> ia_is_system a \<and> ia_is_system b \<or>
      ia_is_system a = ia_is_system b \<and> lc (ia_label a) \<le> lc (ia_label b)) (parse_packages lc (packages_list apps))"
proof -
  have "packages_list apps = concat (map (\<lambda>l. l @ nl) (map app_line apps))"
    by (simp add: packages_list_def app_line_def o_def)
  moreover have "lines (concat (map (\<lambda>l. l @ nl) (map app_line apps))) = map app_line apps"
    using assms app_line_ok(1,2) by (intro lines_of_records) (auto simp: list_all_iff)
  ultimately have "parse_package_lines (packages_list apps) = List.map_filter parse_package_line (map app_line apps)"
    by (simp add: parse_package_lines_def)
  also have "\<dots> = map app_view apps" using assms by (induction apps) (simp_all add: app_line_ok(3))
  finally have p: "parse_package_lines (packages_list apps) = map app_view apps" .
  show ?thesis
    using package_order.sort_by_sorted [of lc "map app_view apps"] by (simp add: parse_packages_def p package_cmp_not_Greater)
qed

theorem packages_roundtrip_witness:
  "map ia_label (parse_packages to_ascii_lowercase (packages_list
     [\<lparr>ja_uid = 1000, ja_system = True, ja_package = ''android'', ja_label = ''System''\<rparr>,
      \<lparr>ja_uid = 10400, ja_system = False, ja_package = ''com.b'', ja_label = []\<rparr>])) = [''com.b'', ''System'']"
proof -
  let ?apps = "[\<lparr>ja_uid = 1000, ja_system = True, ja_package = ''android'', ja_label = ''System''\<rparr>,
      \<lparr>ja_uid = 10400, ja_system = False, ja_package = ''com.b'', ja_label = []\<rparr>]"
  let ?r = "parse_packages to_ascii_lowercase (packages_list ?apps)"
  have "list_all java_app_ok ?apps" by (simp add: java_app_ok_def sanitize_def strip_cr_def)
  from packages_roundtrip [OF this, of to_ascii_lowercase]
  have ms: "mset ?r = {#app_view (?apps ! 0), app_view (?apps ! 1)#}"
    and so: "sorted_wrt (\<lambda>a b. \<not> ia_is_system a \<and> ia_is_system b \<or> ia_is_system a = ia_is_system b \<and>
      to_ascii_lowercase (ia_label a) \<le> to_ascii_lowercase (ia_label b)) ?r"
    by simp_all
  have "size (mset ?r) = 2" unfolding ms by simp
  then obtain x y where r: "?r = [x, y]" by (auto simp: numeral_2_eq_2 length_Suc_conv)
  have "app_view (?apps ! 0) = \<lparr>ia_package = ''android'', ia_label = ''System'', ia_uid = 1000, ia_is_system = True\<rparr>"
    "app_view (?apps ! 1) = \<lparr>ia_package = ''com.b'', ia_label = ''com.b'', ia_uid = 10400, ia_is_system = False\<rparr>"
    by (simp_all add: app_view_def sanitize_def tab_def newline_def)
  with ms so show ?thesis unfolding r by (auto simp: add_eq_conv_ex)
qed

text \<open>
  The network id is read from the high half of the handle, where Android puts it; \<^verbatim>\<open>android.proto\<close>
  speaks of the low bits.
\<close>

lemma net_id_from_high_bits: "i < 2 ^ 31 \<Longrightarrow> low < 2 ^ 32 \<Longrightarrow> net_id_of_handle (i * 2 ^ 32 + low) = int i"
  by (simp add: net_id_of_handle_def i32_of_u32_def)

text \<open>
  Wi-Fi Aware and LoWPAN have a value on the wire, but a network of that kind is read back with no transport at all.
\<close>

lemma transports_without_reader:
  "transport_try_from 6 = Some TR_WifiAware \<and> transport_try_from 7 = Some TR_Lowpan \<and>
   {''WIFI_AWARE'', ''LOWPAN''} \<subseteq> set TRANSPORT_NAMES \<and> transport ''WIFI_AWARE'' = None \<and> transport ''LOWPAN'' = None"
  by (simp add: transport_try_from_def transports_def TRANSPORT_NAMES_def transport_def)

end
