(* ===== verification/Platform.thy ===== *)
theory Platform
  imports Shim Server
begin

text \<open>
  What differs between a phone and a desktop (\<^verbatim>\<open>slint-app/src/platform.rs\<close>,
  \<^verbatim>\<open>slint-app/src/platform/android.rs\<close>, \<^verbatim>\<open>slint-app/src/platform/watcher.rs\<close>): the framework's state, the installed
  apps, how the daemon is started, and the channel of framework events. Calls into the Java VM, the
  shell and the file system are arguments.
\<close>

section \<open>Framework events\<close>

text \<open>
  The static sink holds the first sender that was installed. A channel is known by its number; the
  record keeps what was sent on which channel.
\<close>

record watcher_state =
  ws_sink :: "nat option"
  ws_sent :: "(nat \<times> network_event) list"
  ws_channels :: nat

definition watcher_init :: watcher_state where
  "watcher_init = \<lparr>ws_sink = None, ws_sent = [], ws_channels = 0\<rparr>"

definition no_android_network :: android_network where
  "no_android_network = \<lparr>an_network_handle = 0, an_net_id = 0, an_transports = [], an_capabilities = None,
     an_link_properties = None, an_is_default = False\<rparr>"

definition framework_event_of :: "int \<Rightarrow> int \<Rightarrow> int \<Rightarrow> int \<Rightarrow> string option \<Rightarrow> network_event" where
  "framework_event_of now_ms kind severity network_handle summary =
     (let handle = nat (network_handle mod 2 ^ 64)
      in default_event\<lparr>ne_unix_ms := now_ms, ne_source := ES_Framework,
           ne_severity := severity_i32 (event_severity_of severity),
           ne_summary := (case summary of Some t \<Rightarrow> t | None \<Rightarrow> []),
           ne_payload := Some (PL_Framework
             \<lparr>fe_kind = framework_event_kind_i32 (event_kind kind),
              fe_network = Some (no_android_network\<lparr>an_network_handle := handle, an_net_id := net_id_of_handle handle\<rparr>),
              fe_change_summary = [], fe_previous_net_id = 0, fe_current_net_id = net_id_of_handle handle\<rparr>)\<rparr>)"

definition on_framework_event ::
  "(nat \<Rightarrow> bool) \<Rightarrow> int \<Rightarrow> int \<Rightarrow> int \<Rightarrow> int \<Rightarrow> string option \<Rightarrow> watcher_state \<Rightarrow> watcher_state" where
  "on_framework_event listening now_ms kind severity network_handle summary st =
     (case ws_sink st of
        None \<Rightarrow> st
      | Some c \<Rightarrow>
          if listening c
          then st\<lparr>ws_sent := ws_sent st @ [(c, framework_event_of now_ms kind severity network_handle summary)]\<rparr>
          else st)"

text \<open>Installing the watcher makes a channel and returns its receiver.\<close>

definition watcher_install :: "watcher_state \<Rightarrow> nat \<times> watcher_state" where
  "watcher_install st =
     (let c = ws_channels st
      in (c, st\<lparr>ws_sink := (case ws_sink st of None \<Rightarrow> Some c | Some s \<Rightarrow> Some s), ws_channels := c + 1\<rparr>))"

section \<open>Starting the daemon\<close>

definition DAEMON_IDLE_TIMEOUT_SECS :: nat where "DAEMON_IDLE_TIMEOUT_SECS = 300"

definition quote :: char where "quote = CHR 0x27"

text \<open>\<open>replace\<close> of a quote by a closing quote, an escaped one and an opening one.\<close>

definition escape_quotes :: "string \<Rightarrow> string" where
  "escape_quotes s = concat (map (\<lambda>c. if c = quote then [quote, CHR 0x5C, quote, quote] else [c]) s)"

definition daemon_command :: "string \<Rightarrow> nat \<Rightarrow> string \<Rightarrow> string" where
  "daemon_command path uid package =
     ''nohup '' @ [quote] @ escape_quotes path @ [quote] @ '' --socket @netdiag --allow-uid '' @ dec uid
     @ '' --expect-package '' @ [quote] @ escape_quotes package @ [quote]
     @ '' --exit-when-idle '' @ dec DAEMON_IDLE_TIMEOUT_SECS @ '' >/dev/null 2>&1 &''"

definition choose_su :: "(string \<Rightarrow> bool) \<Rightarrow> string" where
  "choose_su exists_path =
     (case find (\<lambda>c. c = ''su'' \<or> exists_path c) [''/system/bin/su'', ''/su/bin/su'', ''su''] of
        Some c \<Rightarrow> c | None \<Rightarrow> ''su'')"

text \<open>
  The i-th attempt to connect is \<open>answers i\<close>. Running a command either fails or ends with an exit
  status, of which the program prints the text.
\<close>

record start_env =
  se_answers :: "nat \<Rightarrow> bool"
  se_exists :: "string \<Rightarrow> bool"
  se_run :: "string \<Rightarrow> string \<Rightarrow> string + bool \<times> string"

fun await_daemon :: "(nat \<Rightarrow> bool) \<Rightarrow> nat \<Rightarrow> nat \<Rightarrow> string + nat" where
  "await_daemon answers 0 i = Inl ''the daemon did not bind @netdiag''"
| "await_daemon answers (Suc k) i = (if answers i then Inr i else await_daemon answers k (i + 1))"

definition android_start_daemon :: "start_env \<Rightarrow> string \<Rightarrow> nat \<Rightarrow> string \<Rightarrow> string + nat" where
  "android_start_daemon env path uid package =
     (if se_answers env 0 then Inr 0
      else
        let su = choose_su (se_exists env) in
        case se_run env su (daemon_command path uid package) of
          Inl e \<Rightarrow> Inl (''could not run '' @ su @ '': '' @ e)
        | Inr (ok, status) \<Rightarrow>
            if \<not> ok then Inl (su @ '' refused to start the daemon (exit '' @ status @ '')'')
            else await_daemon (se_answers env) 50 1)"

section \<open>The platforms\<close>

text \<open>What the Java calls return: an error, or the text they collected.\<close>

definition android_framework_state :: "int \<Rightarrow> string + string \<Rightarrow> android_network_state option" where
  "android_framework_state now_ms collected =
     (case collected of Inr text \<Rightarrow> parse_framework_snapshot now_ms text | Inl _ \<Rightarrow> None)"

definition only_this_app :: "string \<Rightarrow> nat \<Rightarrow> installed_app" where
  "only_this_app package uid =
     \<lparr>ia_package = package, ia_label = package @ '' (this app)'', ia_uid = uid, ia_is_system = False\<rparr>"

definition android_installed_apps ::
  "(string \<Rightarrow> string) \<Rightarrow> string \<Rightarrow> nat \<Rightarrow> string + string \<Rightarrow> installed_app list" where
  "android_installed_apps lc package uid listing =
     (case map_sum (\<lambda>e. e) (parse_packages lc) listing of
        Inr apps \<Rightarrow> if apps \<noteq> [] then apps else [only_this_app package uid]
      | Inl _ \<Rightarrow> [only_this_app package uid])"

definition android_app_uid_floor :: nat where "android_app_uid_floor = 10000"

definition android_download_dir :: "string option \<Rightarrow> string option \<Rightarrow> string \<Rightarrow> string" where
  "android_download_dir external internal temp =
     (case external of Some d \<Rightarrow> d | None \<Rightarrow> (case internal of Some d \<Rightarrow> d | None \<Rightarrow> temp))"

definition android_describe :: "nat \<Rightarrow> string \<Rightarrow> string" where
  "android_describe uid path = ''uid '' @ dec uid @ '' '' @ middle_dot @ '' '' @ path"

text \<open>The receiver of the framework events is handed out once.\<close>

definition take_framework_events :: "nat option \<Rightarrow> nat option \<times> nat option" where
  "take_framework_events slot = (slot, None)"

definition desktop_framework_state :: "android_network_state option" where
  "desktop_framework_state = None"

definition desktop_installed_apps :: "installed_app list" where "desktop_installed_apps = []"

definition desktop_start_daemon :: "string + unit" where "desktop_start_daemon = Inr ()"

definition desktop_app_uid_floor :: nat where "desktop_app_uid_floor = 1000"

definition desktop_describe :: string where
  "desktop_describe = ''desktop harness '' @ middle_dot @ '' start the daemon with: sudo netdiagd --socket @netdiag''"

definition desktop_download_dir :: "string option \<Rightarrow> string \<Rightarrow> string" where
  "desktop_download_dir current_dir temp = (case current_dir of Some d \<Rightarrow> d | None \<Rightarrow> temp)"

section \<open>Facts\<close>

subsection \<open>How a shell reads the command\<close>

text \<open>
  The token recognition of a POSIX shell, as far as the command needs it: blanks separate words, a
  single quote preserves every character up to the next one, a backslash outside quotes preserves the
  next character. \<open>None\<close> is a quotation that does not end.
\<close>

definition grow :: "string option \<Rightarrow> string \<Rightarrow> string option" where
  "grow w s = (case w of None \<Rightarrow> Some s | Some x \<Rightarrow> Some (x @ s))"

fun sh_lex :: "bool \<Rightarrow> string option \<Rightarrow> string \<Rightarrow> string list option" where
  "sh_lex True w [] = None"
| "sh_lex True w (c # cs) = (if c = quote then sh_lex False w cs else sh_lex True (grow w [c]) cs)"
| "sh_lex False w [] = Some (case w of None \<Rightarrow> [] | Some x \<Rightarrow> [x])"
| "sh_lex False w (c # cs) =
     (if c = quote then sh_lex True (grow w []) cs
      else if c = CHR 0x5C then (case cs of [] \<Rightarrow> None | d # ds \<Rightarrow> sh_lex False (grow w [d]) ds)
      else if c = CHR '' '' then
        (case w of None \<Rightarrow> sh_lex False None cs | Some x \<Rightarrow> map_option ((#) x) (sh_lex False None cs))
      else sh_lex False (grow w [c]) cs)"

definition sh_words :: "string \<Rightarrow> string list option" where
  "sh_words command = sh_lex False None command"

definition plain :: "char \<Rightarrow> bool" where
  "plain c = (c \<noteq> quote \<and> c \<noteq> CHR 0x5C \<and> c \<noteq> CHR '' '')"

lemma grow_simps [simp]: "grow (Some x) s = Some (x @ s)" "grow None s = Some s" "grow (grow w s) t = grow w (s @ t)"
  by (simp_all add: grow_def split: option.split)

lemma quote_not [simp]: "quote \<noteq> CHR 0x5C" "CHR 0x5C \<noteq> quote" "quote \<noteq> CHR '' ''" "CHR '' '' \<noteq> quote"
  by (simp_all add: quote_def)

lemma sh_lex_quoted: "sh_lex True w (escape_quotes s @ quote # rest) = sh_lex False (grow w s) rest" if "w \<noteq> None"
  using that
proof (induction s arbitrary: w)
  case Nil
  then show ?case by (auto simp: escape_quotes_def grow_def)
next
  case (Cons c s)
  from Cons.prems have "grow w [c] \<noteq> None" by (auto simp: grow_def split: option.splits)
  from Cons.IH [OF this] show ?case using Cons.prems by (auto simp: escape_quotes_def)
qed

lemma sh_lex_open: "sh_lex False w (quote # escape_quotes s @ quote # rest) = sh_lex False (grow w s) rest"
proof -
  have "grow w [] \<noteq> None" by (simp add: grow_def split: option.split)
  from sh_lex_quoted [OF this] show ?thesis by simp
qed

lemma sh_lex_plain: "list_all plain p \<Longrightarrow> p \<noteq> [] \<Longrightarrow> sh_lex False w (p @ rest) = sh_lex False (grow w p) rest"
proof (induction p arbitrary: w)
  case (Cons c p)
  then have "sh_lex False w ((c # p) @ rest) = sh_lex False (grow w [c]) (p @ rest)" by (simp add: plain_def)
  then show ?case using Cons by (cases "p = []") auto
qed simp

lemma sh_lex_word: "list_all plain p \<Longrightarrow> p \<noteq> [] \<Longrightarrow>
    sh_lex False None (p @ CHR '' '' # rest) = map_option ((#) p) (sh_lex False None rest)"
  by (simp add: sh_lex_plain)

lemma plain_dec: "list_all plain (dec n)"
  using dec_chars [of quote n] dec_chars [of "CHR 0x5C" n] dec_chars [of "CHR '' ''" n]
  by (auto simp: list_all_iff plain_def quote_def)

text \<open>What the daemon is called with.\<close>

definition daemon_arguments :: "nat \<Rightarrow> string \<Rightarrow> string list" where
  "daemon_arguments uid package =
     [''--socket'', ''@netdiag'', ''--allow-uid'', dec uid, ''--expect-package'', package, ''--exit-when-idle'',
      dec DAEMON_IDLE_TIMEOUT_SECS]"

text \<open>A command line of plain words, two of its words quoted.\<close>

definition word :: "string \<Rightarrow> bool" where "word p = (list_all plain p \<and> p \<noteq> [])"

lemma sh_lex_line:
  assumes "word a" "word b" "word c" "word d" "word e" "word f" "word g" "word h" "word i" "word j" "word k"
  shows "sh_lex False None (a @ CHR '' '' # quote # escape_quotes p @ quote # CHR '' '' # b @ CHR '' '' # c @ CHR '' '' # d
      @ CHR '' '' # e @ CHR '' '' # f @ CHR '' '' # quote # escape_quotes q @ quote # CHR '' '' # g @ CHR '' '' # h
      @ CHR '' '' # i @ CHR '' '' # j @ CHR '' '' # k) = Some [a, p, b, c, d, e, f, q, g, h, i, j, k]"
proof -
  have blank: "sh_lex False (Some x) (CHR '' '' # rest) = map_option ((#) x) (sh_lex False None rest)" for x rest by simp
  have "sh_lex False None k = Some [k]" using assms(11) sh_lex_plain [of k None "[]"] by (simp add: word_def)
  then show ?thesis using assms by (simp add: sh_lex_word sh_lex_open blank word_def del: sh_lex.simps)
qed

lemma command_words:
  "sh_words (daemon_command path uid package) =
     Some ([''nohup'', path] @ daemon_arguments uid package @ [''>/dev/null'', ''2>&1'', ''&''])"
proof -
  have words: "word ''nohup''" "word ''--socket''" "word ''@netdiag''" "word ''--allow-uid''" "word ''--expect-package''"
    "word ''--exit-when-idle''" "word ''>/dev/null''" "word ''2>&1''" "word ''&''"
    by (simp_all add: word_def plain_def quote_def)
  have "word (dec uid)" "word (dec DAEMON_IDLE_TIMEOUT_SECS)" by (simp_all add: word_def plain_dec)
  then show ?thesis
    using sh_lex_line [OF words(1,2,3,4), of "dec uid" "''--expect-package''" "''--exit-when-idle''"
        "dec DAEMON_IDLE_TIMEOUT_SECS" "''>/dev/null''" "''2>&1''" "''&''" path package] words
    by (simp add: sh_words_def daemon_command_def daemon_arguments_def)
qed

definition app_args :: "nat \<Rightarrow> string \<Rightarrow> args" where
  "app_args uid package = default_args\<lparr>ar_policy := \<lparr>allowed_uids = [uid], expect_package = Some package\<rparr>,
     ar_socket_owner := Some uid, ar_exit_when_idle := Some DAEMON_IDLE_TIMEOUT_SECS\<rparr>"

lemma daemon_arguments_parse:
  assumes "uid < 2 ^ 32"
  shows "parse_args version (daemon_arguments uid package) = Inr (PA_Run (app_args uid package))"
proof -
  have u: "parse_uint 32 (dec uid) = Some uid" and t: "parse_uint 64 (dec DAEMON_IDLE_TIMEOUT_SECS) = Some 300"
    using assms by (simp_all add: DAEMON_IDLE_TIMEOUT_SECS_def)
  have "parse_address DEFAULT_SOCKET = parse_address ''@netdiag''" by (simp add: DEFAULT_SOCKET_def)
  then show ?thesis
    by (simp add: parse_args_def daemon_arguments_def u t allow_uid_def app_args_def default_args_def
        DAEMON_IDLE_TIMEOUT_SECS_def)
qed

text \<open>The app waits for at most fifty answers, and succeeds exactly when one of them is positive.\<close>

lemma await_daemon_iff: "(\<exists>j. await_daemon answers k i = Inr j) \<longleftrightarrow> (\<exists>j. i \<le> j \<and> j < i + k \<and> answers j)"
proof (induction k arbitrary: i)
  case (Suc k)
  have "(\<exists>j. i \<le> j \<and> j < i + Suc k \<and> answers j) \<longleftrightarrow> answers i \<or> (\<exists>j. i + 1 \<le> j \<and> j < i + 1 + k \<and> answers j)"
  proof
    assume "\<exists>j. i \<le> j \<and> j < i + Suc k \<and> answers j"
    then obtain j where j: "i \<le> j" "j < i + Suc k" "answers j" by blast
    show "answers i \<or> (\<exists>j. i + 1 \<le> j \<and> j < i + 1 + k \<and> answers j)"
    proof (cases "j = i")
      case False
      with j show ?thesis by (intro disjI2 exI [of _ j]) auto
    qed (use j in simp)
  next
    assume "answers i \<or> (\<exists>j. i + 1 \<le> j \<and> j < i + 1 + k \<and> answers j)"
    then show "\<exists>j. i \<le> j \<and> j < i + Suc k \<and> answers j"
    proof (elim disjE exE conjE)
      fix j assume "i + 1 \<le> j" "j < i + 1 + k" "answers j"
      then show ?thesis by (intro exI [of _ j]) auto
    qed (intro exI [of _ i], simp)
  qed
  then show ?case using Suc.IH [of "i + 1"] by simp
qed simp

text \<open>The second receiver is connected to nothing: every event goes to the channel of the first.\<close>

lemma second_install_deaf:
  assumes "watcher_install watcher_init = (c1, st1)" "watcher_install st1 = (c2, st2)"
  shows "c1 \<noteq> c2 \<and> c2 \<notin> set (map fst (ws_sent (on_framework_event listening now k s h t st2)))"
  using assms by (auto simp: watcher_install_def watcher_init_def on_framework_event_def split: if_splits)

section \<open>Properties\<close>

text \<open>
  C15: the command that starts the root daemon says what the app means, whatever the path of the binary and the
  name of the package contain. A shell reads the command as \<open>nohup\<close>, the path, the arguments and the
  redirections, the path and the package one word each; the daemon accepts the arguments, listens on
  the socket the app connects to, leaves when idle for five minutes, and lets no process connect whose uid is neither
  root's nor the app's.
\<close>

theorem daemon_command_safe:
  assumes "uid < 2 ^ 32"
  shows "\<exists>arguments a.
     sh_words (daemon_command path uid package) =
       Some ([''nohup'', path] @ arguments @ [''>/dev/null'', ''2>&1'', ''&'']) \<and>
     parse_args version arguments = Inr (PA_Run a) \<and>
     ar_socket a = SA_Abstract ''netdiag'' \<and> ar_exit_when_idle a = Some 300 \<and> \<not> ar_self_test a \<and>
     expect_package (ar_policy a) = Some package \<and>
     (\<forall>read cred peer. authorize read cred (ar_policy a) = Inr peer \<longrightarrow> peer_uid peer = 0 \<or> peer_uid peer = uid)"
proof -
  have "\<forall>read cred peer. authorize read cred (ar_policy (app_args uid package)) = Inr peer \<longrightarrow> peer_uid peer = 0 \<or> peer_uid peer = uid"
    using authorize_uid [where policy = "ar_policy (app_args uid package)"] by (auto simp: app_args_def)
  moreover have "ar_socket (app_args uid package) = SA_Abstract ''netdiag''"
    by (simp add: app_args_def default_args_def DEFAULT_SOCKET_def parse_address_def)
  ultimately show ?thesis
    using command_words [of path uid package] daemon_arguments_parse [OF assms, of version package]
    by (intro exI [of _ "daemon_arguments uid package"] exI [of _ "app_args uid package"])
      (simp add: app_args_def default_args_def DAEMON_IDLE_TIMEOUT_SECS_def)
qed

theorem daemon_command_safe_witness:
  "\<exists>arguments a. sh_words (daemon_command (''/data/it'' @ [quote] @ ''s/libnetdiagd.so'') 10342 ([quote] @ ''; reboot'')) =
     Some ([''nohup'', ''/data/it'' @ [quote] @ ''s/libnetdiagd.so''] @ arguments @ [''>/dev/null'', ''2>&1'', ''&'']) \<and>
     parse_args ''1'' arguments = Inr (PA_Run a) \<and> expect_package (ar_policy a) = Some ([quote] @ ''; reboot'')"
proof -
  have "(10342 :: nat) < 2 ^ 32" by simp
  from daemon_command_safe [OF this] show ?thesis by blast
qed

end
