(* ===== verification/App.thy ===== *)
theory App
  imports View Platform
begin

text \<open>
  The app's controller (\<^verbatim>\<open>slint-app/src/app.rs\<close>). The properties of the window live on the UI thread, the
  shared state behind mutexes; a callback of the window runs on the UI thread to its end, daemon calls run
  in tasks of the runtime, and a task hands a closure to the UI thread through a queue. The model is
  one record with all three, one function per callback, task event and closure, and a step relation that
  interleaves them: a mutex is never held across an await, so every access is one step. A
  connection is a number, and so is a stream on it. Calls to the platform are arguments of the steps. No lock is
  ever poisoned.
\<close>

section \<open>State\<close>

definition TIMELINE_CAPACITY :: nat where "TIMELINE_CAPACITY = 1000"
definition CAPTURE_UI_LIMIT :: nat where "CAPTURE_UI_LIMIT = 500"

record app_row =
  aw_label :: string
  aw_package :: string
  aw_uid :: int

text \<open>The properties of the window that the controller reads or sets.\<close>

record ui_app =
  ui_status_line :: string
  ui_connected :: bool
  ui_connecting :: bool
  ui_connect_error :: string
  ui_overview :: overview_data
  ui_interfaces :: "interface_row list"
  ui_rules :: "string list"
  ui_route_tables :: "route_table_row list"
  ui_diagnosis :: diagnosis_data
  ui_app_filter :: string
  ui_apps :: "app_row list"
  ui_app_detail :: app_detail_data
  ui_only_established :: bool
  ui_only_apps :: bool
  ui_hide_listen :: bool
  ui_sockets :: sockets_data
  ui_events :: "ui_event_row list"
  ui_watching_sockets :: bool
  ui_capture :: capture_data
  ui_capture_interfaces :: "string list"
  ui_capture_interface :: string

record app_capture =
  ac_pcap_header :: bytes
  ac_interface :: string
  ac_packets :: "captured_packet list"
  ac_bytes :: nat
  ac_stream_id :: "nat option"

definition no_capture :: app_capture where
  "no_capture = \<lparr>ac_pcap_header = [], ac_interface = [], ac_packets = [], ac_bytes = 0, ac_stream_id = None\<rparr>"

text \<open>The closures that tasks hand to the UI thread.\<close>

datatype ui_call =
  UC_Connected hello_response "installed_app list"
| UC_ConnectFailed string
| UC_Snapshot snapshot
| UC_SnapshotFailed string
| UC_DiagnoseFailed string
| UC_Check check
| UC_Response diagnose_response
| UC_AppDetail app_network_state
| UC_AppFailed string
| UC_Event network_event
| UC_WatchFailed string
| UC_WatchEnded
| UC_CaptureFailed string
| UC_CaptureStarted capture_started
| UC_Packet captured_packet "nat \<times> nat"
| UC_CaptureFinished "capture_stats option"
| UC_CaptureEnded

text \<open>The tasks of the runtime: waiting for a reply, opening a stream on a connection, or reading one.\<close>

datatype task =
  TK_Connect
| TK_StartTimeline
| TK_Shutdown nat
| TK_Refresh nat snapshot_request
| TK_DiagnoseOpen nat diagnose_request
| TK_Diagnose
| TK_Select nat app_state_request
| TK_WatchOpen nat
| TK_Watch nat
| TK_TimelineOpen nat
| TK_Timeline
| TK_Framework nat
| TK_CaptureOpen nat capture_request
| TK_Capture nat

record app =
  ax_ui :: ui_app
  ax_client :: "nat option"
  ax_apps :: "installed_app list"
  ax_filtered :: "installed_app list"
  ax_snapshot :: "snapshot option"
  ax_capture :: app_capture
  ax_socket_watch :: "nat option"
  ax_framework_events :: "nat option"
  ax_posts :: "ui_call list"
  ax_tasks :: "(nat \<times> task) list"
  ax_next_task :: nat
  ax_cancelled :: "(nat \<times> nat) list"

text \<open>What stays the same while the app runs: the time zone, the walk of a map, lower case, the uid floor.\<close>

record app_env =
  xe_localtime :: localtime
  xe_order :: map_order
  xe_lower :: "string \<Rightarrow> string"
  xe_uid_floor :: nat

definition on_ui :: "(ui_app \<Rightarrow> ui_app) \<Rightarrow> app \<Rightarrow> app" where
  "on_ui f a = a\<lparr>ax_ui := f (ax_ui a)\<rparr>"

definition post :: "ui_call \<Rightarrow> app \<Rightarrow> app" where
  "post c a = a\<lparr>ax_posts := ax_posts a @ [c]\<rparr>"

definition spawn :: "task \<Rightarrow> app \<Rightarrow> app" where
  "spawn t a = a\<lparr>ax_tasks := ax_tasks a @ [(ax_next_task a, t)], ax_next_task := ax_next_task a + 1\<rparr>"

definition set_task :: "nat \<Rightarrow> task \<Rightarrow> app \<Rightarrow> app" where
  "set_task i t a = a\<lparr>ax_tasks := map (\<lambda>(j, u). (j, if j = i then t else u)) (ax_tasks a)\<rparr>"

definition end_task :: "nat \<Rightarrow> app \<Rightarrow> app" where
  "end_task i a = a\<lparr>ax_tasks := filter (\<lambda>(j, _). j \<noteq> i) (ax_tasks a)\<rparr>"

section \<open>Connecting\<close>

definition owner_for_uid :: "app \<Rightarrow> nat \<Rightarrow> string" where
  "owner_for_uid a uid = join '', '' (take 3 (map ia_label (filter (\<lambda>e. ia_uid e = uid) (ax_apps a))))"

definition connect :: "app \<Rightarrow> app" where
  "connect a = spawn TK_Connect (on_ui (\<lambda>u. u\<lparr>ui_connecting := True, ui_connect_error := []\<rparr>) a)"

text \<open>The daemon could not be started or reached, or there is a connection and a list of apps.\<close>

definition connect_done :: "nat \<Rightarrow> string + nat \<times> hello_response \<times> installed_app list \<Rightarrow> app \<Rightarrow> app" where
  "connect_done i result a =
     (case result of
        Inr (client, greeting, apps) \<Rightarrow>
          set_task i TK_StartTimeline (post (UC_Connected greeting apps) (a\<lparr>ax_client := Some client\<rparr>))
      | Inl e \<Rightarrow> end_task i (post (UC_ConnectFailed e) a))"

definition disconnect :: "app \<Rightarrow> app" where
  "disconnect a =
     on_ui (\<lambda>u. u\<lparr>ui_connected := False, ui_events := []\<rparr>)
       (case ax_client a of
          Some client \<Rightarrow> spawn (TK_Shutdown client) (a\<lparr>ax_client := None\<rparr>)
        | None \<Rightarrow> a)"

section \<open>Snapshots\<close>

definition refresh_request :: "android_network_state option \<Rightarrow> snapshot_request" where
  "refresh_request android_state =
     \<lparr>sq_include_sockets = True, sq_include_socket_tcp_info = True, sq_include_neighbors = True,
      sq_include_firewall = True, sq_include_qdiscs = False, sq_include_counters = False,
      sq_include_sysctls = True, sq_android_state = android_state\<rparr>"

definition refresh :: "android_network_state option \<Rightarrow> app \<Rightarrow> app" where
  "refresh android_state a =
     (case ax_client a of
        None \<Rightarrow> a
      | Some client \<Rightarrow> spawn (TK_Refresh client (refresh_request android_state)) a)"

definition refresh_done :: "nat \<Rightarrow> string + snapshot option \<Rightarrow> app \<Rightarrow> app" where
  "refresh_done i result a =
     end_task i
       (case result of
          Inr (Some sn) \<Rightarrow> post (UC_Snapshot sn) a
        | Inr None \<Rightarrow> a
        | Inl e \<Rightarrow> post (UC_SnapshotFailed (''snapshot failed: '' @ e)) a)"

definition capturable_interfaces :: "snapshot \<Rightarrow> string list" where
  "capturable_interfaces sn =
     map if_name (filter (\<lambda>l. interface_up l \<and> if_kind l \<noteq> LK_Loopback) (sn_interfaces sn))"

definition framework_interface :: "android_network_state \<Rightarrow> string option" where
  "framework_interface st =
     (case Option.bind (find (\<lambda>n. an_net_id n = as_active_net_id st) (as_networks st)) an_link_properties of
        Some l \<Rightarrow> if lp_interface_name l \<noteq> [] then Some (lp_interface_name l) else None
      | None \<Rightarrow> None)"

definition default_route_interface :: "route \<Rightarrow> string option" where
  "default_route_interface r =
     (case first_of (rt_next_hops r) of
        Some hop \<Rightarrow>
          let name = nh_out_interface_name hop
          in if name \<noteq> [] \<and> \<not> starts_with name ''dummy'' \<and> name \<noteq> ''lo'' then Some name else None
      | None \<Rightarrow> None)"

definition default_capture_interface :: "snapshot \<Rightarrow> string option" where
  "default_capture_interface sn =
     (case Option.bind (sn_android_state sn) framework_interface of
        Some name \<Rightarrow> Some name
      | None \<Rightarrow> first_of (List.map_filter default_route_interface (filter rt_is_default (sn_routes sn))))"

definition render_sockets :: "app_env \<Rightarrow> app \<Rightarrow> app" where
  "render_sockets env a =
     (case ax_snapshot a of
        None \<Rightarrow> a
      | Some sn \<Rightarrow>
          on_ui (\<lambda>u. u\<lparr>ui_sockets := sockets sn
              \<lparr>xf_only_established = ui_only_established u, xf_only_apps = ui_only_apps u,
               xf_hide_listen = ui_hide_listen u, xf_app_uid_floor = xe_uid_floor env\<rparr> (owner_for_uid a)\<rparr>) a)"

definition show_snapshot :: "app_env \<Rightarrow> snapshot \<Rightarrow> app \<Rightarrow> app" where
  "show_snapshot env sn a =
     render_sockets env
       ((on_ui (\<lambda>u. u\<lparr>ui_connecting := False, ui_overview := overview sn, ui_interfaces := interfaces sn,
            ui_rules := policy_rules sn 40, ui_route_tables := route_tables sn,
            ui_capture_interfaces := capturable_interfaces sn,
            ui_capture_interface :=
              (if ui_capture_interface u = []
               then (case default_capture_interface sn of Some n \<Rightarrow> n | None \<Rightarrow> ui_capture_interface u)
               else ui_capture_interface u)\<rparr>) a)\<lparr>ax_snapshot := Some sn\<rparr>)"

section \<open>Diagnosis\<close>

definition app_diagnose_request :: "android_network_state option \<Rightarrow> diagnose_request" where
  "app_diagnose_request android_state =
     \<lparr>dr_target = None, dr_android_state = android_state, dr_passive_only = False, dr_only = [], dr_skip = []\<rparr>"

definition diagnose :: "android_network_state option \<Rightarrow> app \<Rightarrow> app" where
  "diagnose android_state a =
     (case ax_client a of
        None \<Rightarrow> a
      | Some client \<Rightarrow>
          spawn (TK_DiagnoseOpen client (app_diagnose_request android_state))
            (on_ui (\<lambda>u. u\<lparr>ui_diagnosis := empty_diagnosis True\<rparr>) a))"

text \<open>The body of a frame, as far as the app tells frames apart.\<close>

datatype frame_body =
  FB_Diagnose "diagnose_frame option"
| FB_Event network_event
| FB_Capture capture_frame
| FB_Other

definition diagnose_opened :: "nat \<Rightarrow> string + nat \<Rightarrow> app \<Rightarrow> app" where
  "diagnose_opened i result a =
     (case result of
        Inr _ \<Rightarrow> set_task i TK_Diagnose a
      | Inl e \<Rightarrow> end_task i (post (UC_DiagnoseFailed e) a))"

fun diagnose_frame_posts :: "frame_body \<Rightarrow> ui_call list" where
  "diagnose_frame_posts (FB_Diagnose (Some (DF_Check c))) = [UC_Check c]"
| "diagnose_frame_posts (FB_Diagnose (Some (DF_Response r))) = [UC_Response r]"
| "diagnose_frame_posts _ = []"

definition push_check :: "ui_check_row \<Rightarrow> ui_app \<Rightarrow> ui_app" where
  "push_check row u =
     (let d = ui_diagnosis u; rows = dd_checks d;
          position = length (takeWhile (\<lambda>r. cw_key r \<noteq> cw_key row) rows)
      in u\<lparr>ui_diagnosis := d\<lparr>dd_checks :=
           (if position < length rows then rows[position := row] else rows @ [row])\<rparr>\<rparr>)"

section \<open>Apps\<close>

definition app_row_of :: "installed_app \<Rightarrow> app_row" where
  "app_row_of e = \<lparr>aw_label = ia_label e, aw_package = ia_package e, aw_uid = i32_of_u32 (ia_uid e)\<rparr>"

definition apply_filter :: "app_env \<Rightarrow> string \<Rightarrow> app \<Rightarrow> app" where
  "apply_filter env text a =
     (let needle = xe_lower env text;
          filtered =
            (if trim text = [] then ax_apps a
             else filter (\<lambda>e. contains_str (xe_lower env (ia_label e)) needle
                    \<or> contains_str (xe_lower env (ia_package e)) needle \<or> dec (ia_uid e) = needle) (ax_apps a))
      in (on_ui (\<lambda>u. u\<lparr>ui_apps := map app_row_of filtered\<rparr>) a)\<lparr>ax_filtered := filtered\<rparr>)"

definition set_apps :: "app_env \<Rightarrow> installed_app list \<Rightarrow> app \<Rightarrow> app" where
  "set_apps env apps a = apply_filter env (ui_app_filter (ax_ui a)) (a\<lparr>ax_apps := apps\<rparr>)"

text \<open>The window passes an \<open>i32\<close>; as a \<open>usize\<close> a negative one is past the end of every list.\<close>

definition at_index :: "'a list \<Rightarrow> int \<Rightarrow> 'a option" where
  "at_index xs i = (if 0 \<le> i \<and> nat i < length xs then Some (xs ! nat i) else None)"

definition select_request :: "installed_app \<Rightarrow> android_network_state option \<Rightarrow> app_state_request" where
  "select_request e android_state =
     \<lparr>aq_app = Some \<lparr>ap_package_name = ia_package e, ap_uid = ia_uid e, ap_label = ia_label e,
        ap_is_system = ia_is_system e\<rparr>,
      aq_android_state = android_state, aq_include_tcp_info = True, aq_skip_route_lookup = False\<rparr>"

definition select_app :: "int \<Rightarrow> android_network_state option \<Rightarrow> app \<Rightarrow> app" where
  "select_app index android_state a =
     (case ax_client a of
        None \<Rightarrow> a
      | Some client \<Rightarrow>
     (case at_index (ax_filtered a) index of
        None \<Rightarrow> a
      | Some e \<Rightarrow> spawn (TK_Select client (select_request e android_state)) a))"

definition select_done :: "nat \<Rightarrow> string + app_network_state option \<Rightarrow> app \<Rightarrow> app" where
  "select_done i result a =
     end_task i
       (case result of
          Inr (Some st) \<Rightarrow> post (UC_AppDetail st) a
        | Inr None \<Rightarrow> a
        | Inl e \<Rightarrow> post (UC_AppFailed (''per-app lookup failed: '' @ e)) a)"

definition clear_app :: "app \<Rightarrow> app" where
  "clear_app a = on_ui (\<lambda>u. u\<lparr>ui_app_detail := empty_app_detail\<rparr>) a"

section \<open>Toggles\<close>

definition toggle_at :: "('a \<Rightarrow> 'a) \<Rightarrow> int \<Rightarrow> 'a list \<Rightarrow> 'a list" where
  "toggle_at f i rows = (if 0 \<le> i \<and> nat i < length rows then rows[nat i := f (rows ! nat i)] else rows)"

definition toggle_check :: "int \<Rightarrow> app \<Rightarrow> app" where
  "toggle_check i = on_ui (\<lambda>u. u\<lparr>ui_diagnosis := (ui_diagnosis u)\<lparr>dd_checks :=
     toggle_at (\<lambda>r. r\<lparr>cw_expanded := \<not> cw_expanded r\<rparr>) i (dd_checks (ui_diagnosis u))\<rparr>\<rparr>)"

definition toggle_socket :: "int \<Rightarrow> app \<Rightarrow> app" where
  "toggle_socket i = on_ui (\<lambda>u. u\<lparr>ui_sockets := (ui_sockets u)\<lparr>sk_rows :=
     toggle_at (\<lambda>r. r\<lparr>sw_expanded := \<not> sw_expanded r\<rparr>) i (sk_rows (ui_sockets u))\<rparr>\<rparr>)"

definition toggle_interface :: "int \<Rightarrow> app \<Rightarrow> app" where
  "toggle_interface i = on_ui (\<lambda>u. u\<lparr>ui_interfaces :=
     toggle_at (\<lambda>r. r\<lparr>iw_expanded := \<not> iw_expanded r\<rparr>) i (ui_interfaces u)\<rparr>)"

section \<open>Timeline\<close>

definition push_event :: "ui_event_row \<Rightarrow> ui_app \<Rightarrow> ui_app" where
  "push_event row u = u\<lparr>ui_events := row # take (TIMELINE_CAPACITY - 1) (ui_events u)\<rparr>"

definition clear_events :: "app \<Rightarrow> app" where
  "clear_events = on_ui (\<lambda>u. u\<lparr>ui_events := []\<rparr>)"

text \<open>Cancelling a stream is a task of its own; what matters is which stream of which connection it names.\<close>

definition cancel :: "nat \<Rightarrow> nat \<Rightarrow> app \<Rightarrow> app" where
  "cancel client stream a = a\<lparr>ax_cancelled := ax_cancelled a @ [(client, stream)]\<rparr>"

definition toggle_socket_watch :: "app \<Rightarrow> app" where
  "toggle_socket_watch a =
     (case ax_client a of
        None \<Rightarrow> a
      | Some client \<Rightarrow>
          (let a1 = (case ax_socket_watch a of
                       Some stream \<Rightarrow> cancel client stream (a\<lparr>ax_socket_watch := None\<rparr>)
                     | None \<Rightarrow> a);
               wanted = (\<not> ui_watching_sockets (ax_ui a));
               a2 = on_ui (\<lambda>u. u\<lparr>ui_watching_sockets := wanted\<rparr>) a1
           in if wanted then spawn (TK_WatchOpen client) a2 else a2))"

definition watch_opened :: "nat \<Rightarrow> string + nat \<Rightarrow> app \<Rightarrow> app" where
  "watch_opened i result a =
     (case result of
        Inr stream \<Rightarrow> set_task i (TK_Watch stream) (a\<lparr>ax_socket_watch := Some stream\<rparr>)
      | Inl e \<Rightarrow> end_task i (post (UC_WatchFailed e) a))"

fun event_frame_posts :: "frame_body \<Rightarrow> ui_call list" where
  "event_frame_posts (FB_Event e) = [UC_Event e]"
| "event_frame_posts _ = []"

definition watch_end :: "nat \<Rightarrow> app \<Rightarrow> app" where
  "watch_end i a = end_task i (post UC_WatchEnded (a\<lparr>ax_socket_watch := None\<rparr>))"

text \<open>The task that connected goes on here; by then there may be no connection, or another one.\<close>

definition start_timeline :: "nat \<Rightarrow> app \<Rightarrow> app" where
  "start_timeline i a =
     end_task i
       (case ax_client a of
          None \<Rightarrow> a
        | Some client \<Rightarrow>
            (let (framework, rest) = take_framework_events (ax_framework_events a);
                 a1 = a\<lparr>ax_framework_events := rest\<rparr>
             in spawn (TK_TimelineOpen client)
                  (case framework of Some receiver \<Rightarrow> spawn (TK_Framework receiver) a1 | None \<Rightarrow> a1)))"

definition timeline_opened :: "nat \<Rightarrow> string + nat \<Rightarrow> app \<Rightarrow> app" where
  "timeline_opened i result a =
     (case result of Inr _ \<Rightarrow> set_task i TK_Timeline a | Inl _ \<Rightarrow> end_task i a)"

section \<open>Capture\<close>

definition start_capture_request :: "string \<Rightarrow> capture_request" where
  "start_capture_request interface =
     \<lparr>rq_interface_name = interface, rq_filter = None, rq_snaplen = 262144, rq_max_packets = 5000,
      rq_max_bytes = 0, rq_duration_ms = 120000, rq_promiscuous = False, rq_include_payload = True\<rparr>"

definition on_capture :: "(capture_data \<Rightarrow> capture_data) \<Rightarrow> app \<Rightarrow> app" where
  "on_capture f = on_ui (\<lambda>u. u\<lparr>ui_capture := f (ui_capture u)\<rparr>)"

definition start_capture_ui :: "string \<Rightarrow> app \<Rightarrow> app" where
  "start_capture_ui interface a =
     (case ax_client a of
        None \<Rightarrow> a
      | Some client \<Rightarrow>
          spawn (TK_CaptureOpen client (start_capture_request interface))
            (on_capture (\<lambda>_. empty_capture\<lparr>cv_running := True, cv_interface := interface,
                 cv_summary := ''opening '' @ interface @ ellipsis\<rparr>)
               (a\<lparr>ax_capture := no_capture\<lparr>ac_interface := interface\<rparr>\<rparr>)))"

definition capture_opened :: "nat \<Rightarrow> string + nat \<Rightarrow> app \<Rightarrow> app" where
  "capture_opened i result a =
     (case result of
        Inr stream \<Rightarrow>
          set_task i (TK_Capture stream) (a\<lparr>ax_capture := (ax_capture a)\<lparr>ac_stream_id := Some stream\<rparr>\<rparr>)
      | Inl e \<Rightarrow> end_task i (post (UC_CaptureFailed e) a))"

text \<open>The byte counter is a \<open>u64\<close>.\<close>

fun capture_frame_step :: "frame_body \<Rightarrow> app \<Rightarrow> app" where
  "capture_frame_step (FB_Capture (CF_Started started)) a =
     post (UC_CaptureStarted started)
       (a\<lparr>ax_capture := (ax_capture a)\<lparr>ac_pcap_header := ct_pcap_file_header started,
             ac_interface := ct_interface_name started\<rparr>\<rparr>)"
| "capture_frame_step (FB_Capture (CF_Packet pk)) a =
     (let capture = ax_capture a;
          nbytes = (ac_bytes capture + pk_original_length pk) mod 2 ^ 64;
          packets = ac_packets capture @ [pk]
      in post (UC_Packet pk (length packets, nbytes))
           (a\<lparr>ax_capture := capture\<lparr>ac_bytes := nbytes, ac_packets := packets\<rparr>\<rparr>))"
| "capture_frame_step (FB_Capture (CF_Finished _ st _)) a = post (UC_CaptureFinished st) a"
| "capture_frame_step _ a = a"

definition capture_end :: "nat \<Rightarrow> app \<Rightarrow> app" where
  "capture_end i a = end_task i (post UC_CaptureEnded a)"

definition stop_capture :: "app \<Rightarrow> app" where
  "stop_capture a =
     on_capture (\<lambda>d. d\<lparr>cv_running := False\<rparr>)
       (case (ax_client a, ac_stream_id (ax_capture a)) of
          (Some client, Some stream) \<Rightarrow> cancel client stream a
        | _ \<Rightarrow> a)"

definition push_packet :: "localtime \<Rightarrow> captured_packet \<Rightarrow> nat \<times> nat \<Rightarrow> capture_data \<Rightarrow> capture_data" where
  "push_packet lt pk counters d =
     (let rows = cv_packets d @ [packet_row lt pk];
          kept = (if length rows > CAPTURE_UI_LIMIT then drop (length rows - CAPTURE_UI_LIMIT) rows else rows)
      in d\<lparr>cv_packets := kept,
           cv_summary := dec (fst counters) @ '' packets'' @ spaced_dot @ Format.bytes (snd counters)\<rparr>)"

fun link_type_debug :: "link_type \<Rightarrow> string" where
  "link_type_debug LinkUnspecified = ''Unspecified''"
| "link_type_debug Ethernet = ''Ethernet''"
| "link_type_debug RawIp = ''Raw''"
| "link_type_debug LinuxSll = ''LinuxSll''"
| "link_type_debug LinuxSll2 = ''LinuxSll2''"

definition no_stats :: capture_stats where
  "no_stats = \<lparr>cs_capture_id = 0, cs_packets_captured = 0, cs_packets_dropped_kernel = 0,
     cs_packets_filtered_out = 0, cs_bytes_captured = 0\<rparr>"

subsection \<open>The saved file\<close>

text \<open>
  The file system is an argument: what \<open>create_dir_all\<close>, \<open>File::create\<close> and the n-th call on the
  buffered writer answer (an error text or nothing), the clock in seconds, and how a path is printed
  with \<open>{:?}\<close>. The value is the error, or the path and what was written there.
\<close>

record pcap_env =
  pe_mkdir :: "string option"
  pe_create :: "string option"
  pe_write :: "nat \<Rightarrow> string option"
  pe_now_secs :: "nat option"
  pe_debug :: "string \<Rightarrow> string"

definition join_path :: "string \<Rightarrow> string \<Rightarrow> string" where
  "join_path directory name =
     (if directory = [] then name
      else if last directory = CHR ''/'' then directory @ name
      else directory @ ''/'' @ name)"

definition pcap_record :: "captured_packet \<Rightarrow> bytes" where
  "pcap_record pk =
     (let seconds = of_int (pk_unix_ms pk div 1000) :: u32;
          micros = of_int (pk_unix_ms pk mod 1000) * 1000 + of_nat (pk_unix_us_fraction pk) :: u32
      in le32 seconds @ le32 micros @ le32 (of_nat (length (pk_data pk))) @ le32 (of_nat (pk_original_length pk)))"

fun write_packets :: "(nat \<Rightarrow> string option) \<Rightarrow> nat \<Rightarrow> captured_packet list \<Rightarrow> string + bytes" where
  "write_packets answer n [] = (case answer n of Some e \<Rightarrow> Inl e | None \<Rightarrow> Inr [])"
| "write_packets answer n (pk # pks) =
     (case answer n of
        Some e \<Rightarrow> Inl e
      | None \<Rightarrow>
     (case answer (n + 1) of
        Some e \<Rightarrow> Inl e
      | None \<Rightarrow> map_sum (\<lambda>e. e) (\<lambda>rest. pcap_record pk @ pk_data pk @ rest) (write_packets answer (n + 2) pks)))"

definition pcap_name :: "app_capture \<Rightarrow> nat option \<Rightarrow> string" where
  "pcap_name capture now =
     ''netdiag-'' @ (if ac_interface capture = [] then ''any'' else ac_interface capture) @ ''-''
     @ dec (case now of Some t \<Rightarrow> t | None \<Rightarrow> 0) @ ''.pcap''"

definition write_pcap :: "pcap_env \<Rightarrow> app_capture \<Rightarrow> string \<Rightarrow> string + string \<times> bytes" where
  "write_pcap env capture directory =
     (if ac_packets capture = [] then Inl ''nothing captured yet''
      else if ac_pcap_header capture = []
        then Inl ''the daemon never sent a pcap header, so the link type is unknown''
      else
     (case pe_mkdir env of
        Some e \<Rightarrow> Inl (''could not create '' @ pe_debug env directory @ '': '' @ e)
      | None \<Rightarrow>
     (let path = join_path directory (pcap_name capture (pe_now_secs env)) in
      case pe_create env of
        Some e \<Rightarrow> Inl (''could not write '' @ pe_debug env path @ '': '' @ e)
      | None \<Rightarrow>
     (case pe_write env 0 of
        Some e \<Rightarrow> Inl e
      | None \<Rightarrow> map_sum (\<lambda>e. e) (\<lambda>body. (path, ac_pcap_header capture @ body))
                  (write_packets (pe_write env) 1 (ac_packets capture))))))"

definition save_capture :: "pcap_env \<Rightarrow> string \<Rightarrow> app \<Rightarrow> app" where
  "save_capture env directory a =
     (case write_pcap env (ax_capture a) directory of
        Inr (path, _) \<Rightarrow> on_capture (\<lambda>d. d\<lparr>cv_saved_path := path, cv_error := []\<rparr>) a
      | Inl message \<Rightarrow> on_capture (\<lambda>d. d\<lparr>cv_error := message\<rparr>) a)"

section \<open>The queue of the UI thread\<close>

text \<open>After a connection the overview is loaded at once, by the refresh callback.\<close>

definition show_connected ::
  "app_env \<Rightarrow> android_network_state option \<Rightarrow> hello_response \<Rightarrow> installed_app list \<Rightarrow> app \<Rightarrow> app" where
  "show_connected env android greeting apps a =
     refresh android (set_apps env apps
       (on_ui (\<lambda>u. u\<lparr>ui_status_line := ''daemon '' @ hs_daemon_version greeting @ '' on kernel ''
            @ hs_kernel_release greeting, ui_connected := True\<rparr>) a))"

definition show_capture_started :: "capture_started \<Rightarrow> capture_data \<Rightarrow> capture_data" where
  "show_capture_started msg d =
     d\<lparr>cv_interface := ct_interface_name msg,
       cv_summary := ''capturing on '' @ ct_interface_name msg @ spaced_dot @ ''link type ''
         @ link_type_debug (ct_link_type msg)\<rparr>"

definition show_capture_finished :: "capture_stats option \<Rightarrow> capture_data \<Rightarrow> capture_data" where
  "show_capture_finished st d =
     (let s = unwrap_or no_stats st
      in d\<lparr>cv_running := False,
           cv_summary := dec (cs_packets_captured s) @ '' captured'' @ spaced_dot
             @ dec (cs_packets_dropped_kernel s) @ '' dropped by the kernel'' @ spaced_dot
             @ Format.bytes (cs_bytes_captured s)\<rparr>)"

lemma capture_rows_kept [simp]:
  "cv_packets (show_capture_started msg d) = cv_packets d" "cv_packets (show_capture_finished st d) = cv_packets d"
  by (simp_all add: show_capture_started_def show_capture_finished_def Let_def)

text \<open>One clause per closure.\<close>

fun apply_ui :: "app_env \<Rightarrow> android_network_state option \<Rightarrow> ui_call \<Rightarrow> app \<Rightarrow> app" where
  "apply_ui env android (UC_Connected greeting apps) a = show_connected env android greeting apps a"
| "apply_ui env android (UC_ConnectFailed message) a =
     on_ui (\<lambda>u. u\<lparr>ui_connecting := False, ui_connect_error := message\<rparr>) a"
| "apply_ui env android (UC_Snapshot sn) a = show_snapshot env sn a"
| "apply_ui env android (UC_SnapshotFailed message) a =
     on_ui (\<lambda>u. u\<lparr>ui_connecting := False, ui_connect_error := message\<rparr>) a"
| "apply_ui env android (UC_DiagnoseFailed message) a =
     on_ui (\<lambda>u. u\<lparr>ui_diagnosis := empty_diagnosis False, ui_connect_error := message\<rparr>) a"
| "apply_ui env android (UC_Check c) a = on_ui (push_check (check_row (xe_order env) c)) a"
| "apply_ui env android (UC_Response r) a = on_ui (\<lambda>u. u\<lparr>ui_diagnosis := diagnosis (xe_order env) r\<rparr>) a"
| "apply_ui env android (UC_AppDetail st) a = on_ui (\<lambda>u. u\<lparr>ui_app_detail := app_detail st\<rparr>) a"
| "apply_ui env android (UC_AppFailed message) a = on_ui (\<lambda>u. u\<lparr>ui_connect_error := message\<rparr>) a"
| "apply_ui env android (UC_Event e) a = on_ui (push_event (event_row (xe_localtime env) e)) a"
| "apply_ui env android (UC_WatchFailed message) a =
     on_ui (\<lambda>u. u\<lparr>ui_watching_sockets := False, ui_connect_error := message\<rparr>) a"
| "apply_ui env android UC_WatchEnded a = on_ui (\<lambda>u. u\<lparr>ui_watching_sockets := False\<rparr>) a"
| "apply_ui env android (UC_CaptureFailed message) a =
     on_capture (\<lambda>d. d\<lparr>cv_running := False, cv_error := message\<rparr>) a"
| "apply_ui env android (UC_CaptureStarted msg) a = on_capture (show_capture_started msg) a"
| "apply_ui env android (UC_Packet pk counters) a = on_capture (push_packet (xe_localtime env) pk counters) a"
| "apply_ui env android (UC_CaptureFinished st) a = on_capture (show_capture_finished st) a"
| "apply_ui env android UC_CaptureEnded a = on_capture (\<lambda>d. d\<lparr>cv_running := False\<rparr>) a"

definition deliver :: "app_env \<Rightarrow> android_network_state option \<Rightarrow> app \<Rightarrow> app" where
  "deliver env android a =
     (case ax_posts a of [] \<Rightarrow> a | c # rest \<Rightarrow> apply_ui env android c (a\<lparr>ax_posts := rest\<rparr>))"

section \<open>The app as a machine\<close>

definition no_ui :: "string \<Rightarrow> ui_app" where
  "no_ui status =
     \<lparr>ui_status_line = status, ui_connected = False, ui_connecting = False, ui_connect_error = [],
      ui_overview = empty_overview, ui_interfaces = [], ui_rules = [], ui_route_tables = [],
      ui_diagnosis = empty_diagnosis False, ui_app_filter = [], ui_apps = [], ui_app_detail = empty_app_detail,
      ui_only_established = False, ui_only_apps = True, ui_hide_listen = False, ui_sockets = empty_sockets,
      ui_events = [], ui_watching_sockets = False, ui_capture = empty_capture, ui_capture_interfaces = [],
      ui_capture_interface = []\<rparr>"

text \<open>The arguments: what the platform says of itself, and its receiver of framework events.\<close>

definition wire :: "string \<Rightarrow> nat option \<Rightarrow> app" where
  "wire status receiver =
     \<lparr>ax_ui = no_ui status, ax_client = None, ax_apps = [], ax_filtered = [], ax_snapshot = None,
      ax_capture = no_capture, ax_socket_watch = None, ax_framework_events = receiver, ax_posts = [],
      ax_tasks = [], ax_next_task = 0, ax_cancelled = []\<rparr>"

text \<open>What a task can be told: the result of its call, a frame or the end of its stream.\<close>

datatype task_event =
  TE_Connect "string + nat \<times> hello_response \<times> installed_app list"
| TE_Continue
| TE_Snapshot "string + snapshot option"
| TE_App "string + app_network_state option"
| TE_Opened "string + nat"
| TE_Frame frame_body
| TE_Framework network_event
| TE_End

definition post_all :: "ui_call list \<Rightarrow> app \<Rightarrow> app" where
  "post_all cs a = fold post cs a"

definition task_step :: "nat \<Rightarrow> task \<Rightarrow> task_event \<Rightarrow> app \<Rightarrow> app" where
  "task_step i t e a =
     (case t of
        TK_Connect \<Rightarrow> (case e of TE_Connect result \<Rightarrow> connect_done i result a | _ \<Rightarrow> a)
      | TK_StartTimeline \<Rightarrow> (case e of TE_Continue \<Rightarrow> start_timeline i a | _ \<Rightarrow> a)
      | TK_Shutdown _ \<Rightarrow> (case e of TE_End \<Rightarrow> end_task i a | _ \<Rightarrow> a)
      | TK_Refresh _ _ \<Rightarrow> (case e of TE_Snapshot result \<Rightarrow> refresh_done i result a | _ \<Rightarrow> a)
      | TK_DiagnoseOpen _ _ \<Rightarrow> (case e of TE_Opened result \<Rightarrow> diagnose_opened i result a | _ \<Rightarrow> a)
      | TK_Diagnose \<Rightarrow>
          (case e of TE_Frame body \<Rightarrow> post_all (diagnose_frame_posts body) a | TE_End \<Rightarrow> end_task i a | _ \<Rightarrow> a)
      | TK_Select _ _ \<Rightarrow> (case e of TE_App result \<Rightarrow> select_done i result a | _ \<Rightarrow> a)
      | TK_WatchOpen _ \<Rightarrow> (case e of TE_Opened result \<Rightarrow> watch_opened i result a | _ \<Rightarrow> a)
      | TK_Watch _ \<Rightarrow>
          (case e of TE_Frame body \<Rightarrow> post_all (event_frame_posts body) a | TE_End \<Rightarrow> watch_end i a | _ \<Rightarrow> a)
      | TK_TimelineOpen _ \<Rightarrow> (case e of TE_Opened result \<Rightarrow> timeline_opened i result a | _ \<Rightarrow> a)
      | TK_Timeline \<Rightarrow>
          (case e of TE_Frame body \<Rightarrow> post_all (event_frame_posts body) a | TE_End \<Rightarrow> end_task i a | _ \<Rightarrow> a)
      | TK_Framework _ \<Rightarrow>
          (case e of TE_Framework event \<Rightarrow> post (UC_Event event) a | TE_End \<Rightarrow> end_task i a | _ \<Rightarrow> a)
      | TK_CaptureOpen _ _ \<Rightarrow> (case e of TE_Opened result \<Rightarrow> capture_opened i result a | _ \<Rightarrow> a)
      | TK_Capture _ \<Rightarrow>
          (case e of TE_Frame body \<Rightarrow> capture_frame_step body a | TE_End \<Rightarrow> capture_end i a | _ \<Rightarrow> a))"

text \<open>
  An event is a callback of the window, the UI thread taking the next closure, or a task being told
  something. The window edits the filter texts and flags itself before it calls back.
\<close>

datatype app_event =
  AE_Connect
| AE_Disconnect
| AE_Refresh "android_network_state option"
| AE_Diagnose "android_network_state option"
| AE_FilterChanged string
| AE_SelectApp int "android_network_state option"
| AE_ClearApp
| AE_ToggleCheck int
| AE_ToggleSocket int
| AE_ToggleInterface int
| AE_ClearEvents
| AE_ToggleSocketWatch
| AE_SocketsFilterChanged bool bool bool
| AE_ChooseInterface string
| AE_StartCapture string
| AE_StopCapture
| AE_SaveCapture pcap_env string
| AE_Deliver "android_network_state option"
| AE_Task nat task_event

fun app_handle :: "app_env \<Rightarrow> app_event \<Rightarrow> app \<Rightarrow> app" where
  "app_handle env AE_Connect a = connect a"
| "app_handle env AE_Disconnect a = disconnect a"
| "app_handle env (AE_Refresh android) a = refresh android a"
| "app_handle env (AE_Diagnose android) a = diagnose android a"
| "app_handle env (AE_FilterChanged text) a = apply_filter env text (on_ui (\<lambda>u. u\<lparr>ui_app_filter := text\<rparr>) a)"
| "app_handle env (AE_SelectApp index android) a = select_app index android a"
| "app_handle env AE_ClearApp a = clear_app a"
| "app_handle env (AE_ToggleCheck i) a = toggle_check i a"
| "app_handle env (AE_ToggleSocket i) a = toggle_socket i a"
| "app_handle env (AE_ToggleInterface i) a = toggle_interface i a"
| "app_handle env AE_ClearEvents a = clear_events a"
| "app_handle env AE_ToggleSocketWatch a = toggle_socket_watch a"
| "app_handle env (AE_SocketsFilterChanged established apps listen) a =
     render_sockets env (on_ui (\<lambda>u. u\<lparr>ui_only_established := established, ui_only_apps := apps,
       ui_hide_listen := listen\<rparr>) a)"
| "app_handle env (AE_ChooseInterface name) a = on_ui (\<lambda>u. u\<lparr>ui_capture_interface := name\<rparr>) a"
| "app_handle env (AE_StartCapture interface) a = start_capture_ui interface a"
| "app_handle env AE_StopCapture a = stop_capture a"
| "app_handle env (AE_SaveCapture files directory) a = save_capture files directory a"
| "app_handle env (AE_Deliver android) a = deliver env android a"
| "app_handle env (AE_Task i e) a = (case map_of (ax_tasks a) i of Some t \<Rightarrow> task_step i t e a | None \<Rightarrow> a)"

inductive app_step :: "app_env \<Rightarrow> app \<Rightarrow> app \<Rightarrow> bool" for env :: app_env where
  "app_step env a (app_handle env e a)"

section \<open>The invariant\<close>

definition is_framework :: "task \<Rightarrow> bool" where
  "is_framework t = (case t of TK_Framework _ \<Rightarrow> True | _ \<Rightarrow> False)"

text \<open>What the window shows of a snapshot, with every row collapsed.\<close>

definition screens :: "snapshot option \<Rightarrow> overview_data \<times> interface_row list \<times> string list \<times> route_table_row list \<times> string list" where
  "screens last_snapshot =
     (case last_snapshot of
        None \<Rightarrow> (empty_overview, [], [], [], [])
      | Some sn \<Rightarrow> (overview sn, interfaces sn, policy_rules sn 40, route_tables sn, capturable_interfaces sn))"

definition collapse :: "interface_row \<Rightarrow> interface_row" where
  "collapse r = r\<lparr>iw_expanded := False\<rparr>"

definition ui_snapshot :: "ui_app \<Rightarrow> overview_data \<times> interface_row list \<times> string list \<times> route_table_row list \<times> string list" where
  "ui_snapshot u = (ui_overview u, map collapse (ui_interfaces u), ui_rules u, ui_route_tables u, ui_capture_interfaces u)"

definition lists_ok :: "app \<Rightarrow> bool" where
  "lists_ok a =
     (length (ui_events (ax_ui a)) \<le> TIMELINE_CAPACITY \<and>
      length (cv_packets (ui_capture (ax_ui a))) \<le> CAPTURE_UI_LIMIT \<and>
      ui_apps (ax_ui a) = map app_row_of (ax_filtered a) \<and> set (ax_filtered a) \<subseteq> set (ax_apps a) \<and>
      ui_snapshot (ax_ui a) = screens (ax_snapshot a))"

definition capture_ok :: "app \<Rightarrow> bool" where
  "capture_ok a =
     (ac_bytes (ax_capture a) = sum_list (map pk_original_length (ac_packets (ax_capture a))) mod 2 ^ 64)"

definition framework_readers :: "(nat \<times> task) list \<Rightarrow> nat" where
  "framework_readers ts = length (filter (\<lambda>t. is_framework (snd t)) ts)"

definition tasks_ok :: "app \<Rightarrow> bool" where
  "tasks_ok a =
     (distinct (map fst (ax_tasks a)) \<and> (\<forall>i \<in> set (map fst (ax_tasks a)). i < ax_next_task a) \<and>
      framework_readers (ax_tasks a) + (if ax_framework_events a = None then 0 else 1) \<le> 1)"

lemmas app_ops = on_ui_def post_def cancel_def on_capture_def

lemma tasks_frame [simp]:
  "tasks_ok (on_ui f a) = tasks_ok a" "tasks_ok (post c a) = tasks_ok a" "tasks_ok (cancel k i a) = tasks_ok a"
  "tasks_ok (on_capture g a) = tasks_ok a" "tasks_ok (a\<lparr>ax_client := cl\<rparr>) = tasks_ok a"
  "tasks_ok (a\<lparr>ax_apps := l\<rparr>) = tasks_ok a" "tasks_ok (a\<lparr>ax_filtered := l\<rparr>) = tasks_ok a"
  "tasks_ok (a\<lparr>ax_snapshot := sn\<rparr>) = tasks_ok a" "tasks_ok (a\<lparr>ax_capture := ca\<rparr>) = tasks_ok a"
  "tasks_ok (a\<lparr>ax_socket_watch := w\<rparr>) = tasks_ok a" "tasks_ok (a\<lparr>ax_posts := ps\<rparr>) = tasks_ok a"
  by (simp_all add: tasks_ok_def app_ops)

lemma framework_readers_simps [simp]:
  "framework_readers [] = 0"
  "framework_readers (t # ts) = (if is_framework (snd t) then 1 else 0) + framework_readers ts"
  "framework_readers (ts @ us) = framework_readers ts + framework_readers us"
  by (simp_all add: framework_readers_def)

lemma framework_readers_filter: "framework_readers (filter P ts) \<le> framework_readers ts"
  by (induction ts) auto

lemma framework_readers_set:
  "\<not> is_framework t \<Longrightarrow> framework_readers (map (\<lambda>(j, u). (j, if j = i then t else u)) ts) \<le> framework_readers ts"
  by (induction ts) (auto split: if_splits)

lemma map_fst_set: "map fst (map (\<lambda>(j, u). (j, if j = i then t else u)) ts) = map fst ts"
  by (induction ts) auto

lemma ui_kept:
  "ax_ui (spawn t a) = ax_ui a" "ax_ui (post c a) = ax_ui a" "ax_ui (cancel k i a) = ax_ui a"
  "ax_next_task (on_ui f a) = ax_next_task a"
  by (simp_all add: spawn_def app_ops)

lemma tasks_spawn [simp]: "tasks_ok a \<Longrightarrow> \<not> is_framework t \<Longrightarrow> tasks_ok (spawn t a)"
  by (auto simp: tasks_ok_def spawn_def less_Suc_eq)

lemma tasks_end [simp]: "tasks_ok a \<Longrightarrow> tasks_ok (end_task i a)"
  using framework_readers_filter [of "\<lambda>(j, _). j \<noteq> i" "ax_tasks a"]
  by (auto simp: tasks_ok_def end_task_def distinct_map_filter split: if_splits)

lemma tasks_set [simp]: "tasks_ok a \<Longrightarrow> \<not> is_framework t \<Longrightarrow> tasks_ok (set_task i t a)"
  using framework_readers_set [of t i "ax_tasks a"]
  by (simp add: tasks_ok_def set_task_def map_fst_set del: set_map map_map split: if_splits)

lemma tasks_take_framework:
  assumes "tasks_ok a"
  shows "tasks_ok (case ax_framework_events a of
           Some r \<Rightarrow> spawn (TK_Framework r) (a\<lparr>ax_framework_events := None\<rparr>)
         | None \<Rightarrow> a\<lparr>ax_framework_events := None\<rparr>)"
  using assms by (auto simp: tasks_ok_def spawn_def is_framework_def split: option.splits)

lemma tasks_apply_filter [simp]: "tasks_ok (apply_filter env text a) = tasks_ok a"
  by (simp add: apply_filter_def Let_def)

lemma tasks_render [simp]: "tasks_ok (render_sockets env a) = tasks_ok a"
  by (simp add: render_sockets_def split: option.split)

lemma tasks_refresh [simp]: "tasks_ok a \<Longrightarrow> tasks_ok (refresh android a)"
  by (simp add: refresh_def is_framework_def split: option.split)

lemma tasks_post_all [simp]: "tasks_ok (post_all cs a) = tasks_ok a"
  unfolding post_all_def by (induction cs arbitrary: a) simp_all

lemma tasks_capture_frame [simp]: "tasks_ok (capture_frame_step body a) = tasks_ok a"
  by (cases "(body, a)" rule: capture_frame_step.cases) (simp_all add: Let_def)

lemma tasks_apply_ui: "tasks_ok a \<Longrightarrow> tasks_ok (apply_ui env android c a)"
  by (cases c) (simp_all add: show_connected_def set_apps_def show_snapshot_def Let_def)

lemma tasks_start_timeline: "tasks_ok a \<Longrightarrow> tasks_ok (start_timeline i a)"
  using tasks_take_framework [of a]
  by (simp add: start_timeline_def take_framework_events_def is_framework_def Let_def split: option.split)

lemmas task_ops = connect_done_def refresh_done_def diagnose_opened_def select_done_def watch_opened_def
  watch_end_def timeline_opened_def capture_opened_def capture_end_def

lemma tasks_task_step: "tasks_ok a \<Longrightarrow> tasks_ok (task_step i t e a)"
  by (cases t; cases e)
    (simp_all add: task_step_def task_ops tasks_start_timeline is_framework_def split: sum.split prod.split option.split)

lemmas ui_ops = connect_def disconnect_def diagnose_def select_app_def clear_app_def toggle_check_def
  toggle_socket_def toggle_interface_def clear_events_def toggle_socket_watch_def start_capture_ui_def
  stop_capture_def save_capture_def deliver_def

lemma tasks_handle: "tasks_ok a \<Longrightarrow> tasks_ok (app_handle env e a)"
  by (cases e)
    (simp_all add: ui_ops tasks_apply_ui tasks_task_step is_framework_def Let_def
      split: option.split sum.split prod.split list.split)

lemma lists_frame [simp]:
  "lists_ok (post c a) = lists_ok a" "lists_ok (cancel k i a) = lists_ok a" "lists_ok (spawn t a) = lists_ok a"
  "lists_ok (set_task i t a) = lists_ok a" "lists_ok (end_task i a) = lists_ok a"
  "lists_ok (a\<lparr>ax_client := cl\<rparr>) = lists_ok a" "lists_ok (a\<lparr>ax_capture := ca\<rparr>) = lists_ok a"
  "lists_ok (a\<lparr>ax_socket_watch := w\<rparr>) = lists_ok a" "lists_ok (a\<lparr>ax_posts := ps\<rparr>) = lists_ok a"
  "lists_ok (a\<lparr>ax_framework_events := r\<rparr>) = lists_ok a"
  by (simp_all add: lists_ok_def app_ops spawn_def set_task_def end_task_def)

text \<open>A change of the window keeps the lists in order when it keeps these properties, or bounds them.\<close>

lemma lists_on_ui:
  assumes "lists_ok a" "length (ui_events (f (ax_ui a))) \<le> TIMELINE_CAPACITY"
    "length (cv_packets (ui_capture (f (ax_ui a)))) \<le> CAPTURE_UI_LIMIT"
    "ui_apps (f (ax_ui a)) = ui_apps (ax_ui a)" "ui_snapshot (f (ax_ui a)) = ui_snapshot (ax_ui a)"
  shows "lists_ok (on_ui f a)"
  using assms by (simp add: lists_ok_def on_ui_def)

lemma lists_bounds:
  "lists_ok a \<Longrightarrow> length (ui_events (ax_ui a)) \<le> TIMELINE_CAPACITY"
  "lists_ok a \<Longrightarrow> length (cv_packets (ui_capture (ax_ui a))) \<le> CAPTURE_UI_LIMIT"
  by (simp_all add: lists_ok_def)

lemma lists_on_capture [simp]:
  "lists_ok a \<Longrightarrow> length (cv_packets (g (ui_capture (ax_ui a)))) \<le> CAPTURE_UI_LIMIT \<Longrightarrow> lists_ok (on_capture g a)"
  unfolding on_capture_def by (rule lists_on_ui) (simp_all add: lists_bounds ui_snapshot_def)

lemma lists_apply_filter:
  "length (ui_events (ax_ui a)) \<le> TIMELINE_CAPACITY \<Longrightarrow>
   length (cv_packets (ui_capture (ax_ui a))) \<le> CAPTURE_UI_LIMIT \<Longrightarrow>
   ui_snapshot (ax_ui a) = screens (ax_snapshot a) \<Longrightarrow> lists_ok (apply_filter env text a)"
  by (auto simp: apply_filter_def Let_def lists_ok_def on_ui_def ui_snapshot_def)

lemma lists_render: "lists_ok a \<Longrightarrow> lists_ok (render_sockets env a)"
  by (auto simp: render_sockets_def lists_ok_def on_ui_def ui_snapshot_def split: option.split)

lemma collapse_interfaces [simp]: "map collapse (interfaces sn) = interfaces sn"
  by (simp add: interfaces_def interface_row_def collapse_def o_def Let_def)

lemma collapse_toggle: "map collapse (toggle_at (\<lambda>r. r\<lparr>iw_expanded := \<not> iw_expanded r\<rparr>) i rows) = map collapse rows"
  by (simp add: toggle_at_def map_update collapse_def)
    (metis collapse_def list_update_id map_update)

lemma lists_show: "lists_ok a \<Longrightarrow> lists_ok (show_snapshot env sn a)"
  unfolding show_snapshot_def
  by (rule lists_render) (simp add: lists_ok_def on_ui_def ui_snapshot_def screens_def)

lemma lists_refresh [simp]: "lists_ok (refresh android a) = lists_ok a"
  by (simp add: refresh_def split: option.split)

lemma lists_post_all [simp]: "lists_ok (post_all cs a) = lists_ok a"
  unfolding post_all_def by (induction cs arbitrary: a) simp_all

lemma lists_capture_frame [simp]: "lists_ok (capture_frame_step body a) = lists_ok a"
  by (cases "(body, a)" rule: capture_frame_step.cases) (simp_all add: Let_def)

lemma push_packet_bound: "length (cv_packets (push_packet lt pk counters d)) \<le> CAPTURE_UI_LIMIT"
  by (simp add: push_packet_def Let_def CAPTURE_UI_LIMIT_def)

lemma lists_apply_ui: "lists_ok a \<Longrightarrow> lists_ok (apply_ui env android c a)"
proof (cases c)
  case (UC_Connected greeting apps)
  assume "lists_ok a"
  then show ?thesis unfolding UC_Connected
    by (simp add: show_connected_def set_apps_def) (rule lists_apply_filter, simp_all add: on_ui_def lists_ok_def ui_snapshot_def)
next
  case (UC_Packet pk counters)
  assume "lists_ok a"
  then show ?thesis unfolding UC_Packet
    by (simp add: push_packet_bound)
next
  case (UC_Event e)
  assume "lists_ok a"
  then show ?thesis unfolding UC_Event
    by (auto simp: push_event_def TIMELINE_CAPACITY_def lists_bounds ui_snapshot_def intro!: lists_on_ui)
qed (auto simp: lists_show lists_bounds Let_def push_check_def ui_snapshot_def intro!: lists_on_ui)

lemma lists_task_step: "lists_ok a \<Longrightarrow> lists_ok (task_step i t e a)"
  by (cases t; cases e)
    (simp_all add: task_step_def task_ops start_timeline_def take_framework_events_def Let_def
      split: sum.split prod.split option.split)

lemma lists_handle: "lists_ok a \<Longrightarrow> lists_ok (app_handle env e a)"
proof (cases e)
  case (AE_FilterChanged t)
  assume "lists_ok a"
  then show ?thesis unfolding AE_FilterChanged
    by simp (rule lists_apply_filter, simp_all add: on_ui_def lists_ok_def ui_snapshot_def)
qed (auto simp: ui_ops lists_apply_ui lists_task_step lists_render lists_bounds ui_snapshot_def collapse_toggle
      Let_def empty_capture_def ui_kept intro!: lists_on_ui lists_render
      split: option.split sum.split prod.split list.split)

lemma capture_frame [simp]:
  "capture_ok (on_ui f a) = capture_ok a" "capture_ok (on_capture g a) = capture_ok a"
  "capture_ok (post c a) = capture_ok a" "capture_ok (cancel k i a) = capture_ok a"
  "capture_ok (spawn t a) = capture_ok a" "capture_ok (set_task i t a) = capture_ok a"
  "capture_ok (end_task i a) = capture_ok a" "capture_ok (a\<lparr>ax_client := cl\<rparr>) = capture_ok a"
  "capture_ok (a\<lparr>ax_apps := l\<rparr>) = capture_ok a" "capture_ok (a\<lparr>ax_filtered := l\<rparr>) = capture_ok a"
  "capture_ok (a\<lparr>ax_snapshot := sn\<rparr>) = capture_ok a" "capture_ok (a\<lparr>ax_socket_watch := w\<rparr>) = capture_ok a"
  "capture_ok (a\<lparr>ax_posts := ps\<rparr>) = capture_ok a" "capture_ok (a\<lparr>ax_framework_events := r\<rparr>) = capture_ok a"
  by (simp_all add: capture_ok_def app_ops spawn_def set_task_def end_task_def)

lemma capture_refresh [simp]: "capture_ok (refresh android a) = capture_ok a"
  by (simp add: refresh_def split: option.split)

lemma capture_ui [simp]:
  "capture_ok (render_sockets env a) = capture_ok a" "capture_ok (apply_filter env t a) = capture_ok a"
  by (simp_all add: render_sockets_def apply_filter_def Let_def split: option.split)

lemma capture_post_all [simp]: "capture_ok (post_all cs a) = capture_ok a"
  unfolding post_all_def by (induction cs arbitrary: a) simp_all

lemma capture_apply_ui [simp]: "capture_ok (apply_ui env android c a) = capture_ok a"
  by (cases c) (simp_all add: show_connected_def set_apps_def show_snapshot_def Let_def)

lemma capture_ok_frame: "capture_ok a \<Longrightarrow> capture_ok (capture_frame_step body a)"
  by (cases "(body, a)" rule: capture_frame_step.cases) (simp_all add: Let_def, simp_all add: capture_ok_def mod_add_left_eq)

lemma capture_task_step: "capture_ok a \<Longrightarrow> capture_ok (task_step i t e a)"
  by (cases t; cases e)
    (simp_all add: task_step_def task_ops start_timeline_def take_framework_events_def capture_ok_frame Let_def
      split: sum.split prod.split option.split, simp_all add: capture_ok_def)

lemma capture_handle: "capture_ok a \<Longrightarrow> capture_ok (app_handle env e a)"
  by (cases e)
    (simp_all add: ui_ops capture_task_step Let_def split: option.split sum.split prod.split list.split,
     simp_all add: capture_ok_def no_capture_def)

definition app_ok :: "app \<Rightarrow> bool" where
  "app_ok a = (lists_ok a \<and> capture_ok a \<and> tasks_ok a)"

lemma wire_ok: "app_ok (wire status receiver)"
  by (simp add: app_ok_def lists_ok_def capture_ok_def tasks_ok_def wire_def no_ui_def no_capture_def
      empty_capture_def ui_snapshot_def screens_def)

lemma handle_ok: "app_ok a \<Longrightarrow> app_ok (app_handle env e a)"
  by (simp add: app_ok_def lists_handle capture_handle tasks_handle)

interpretation app_machine: invariant_machine "wire status receiver" "app_step env" app_ok
  by unfold_locales (auto simp: wire_ok handle_ok elim!: app_step.cases)

section \<open>A diagnosis on the screen\<close>

text \<open>Each frame is read by the task and its closure run on the UI thread.\<close>

definition diagnose_events :: "nat \<Rightarrow> android_network_state option \<Rightarrow> diagnose_frame list \<Rightarrow> app_event list" where
  "diagnose_events i android frames =
     concat (map (\<lambda>f. [AE_Task i (TE_Frame (FB_Diagnose (Some f))), AE_Deliver android]) frames)"

definition started :: "app_env \<Rightarrow> android_network_state option \<Rightarrow> nat \<Rightarrow> app \<Rightarrow> app" where
  "started env android stream a =
     fold (app_handle env) [AE_Diagnose android, AE_Task (ax_next_task a) (TE_Opened (Inr stream))] a"

lemma push_check_new:
  "cw_key row \<notin> cw_key ` set (dd_checks (ui_diagnosis u)) \<Longrightarrow>
   ui_diagnosis (push_check row u) = (ui_diagnosis u)\<lparr>dd_checks := dd_checks (ui_diagnosis u) @ [row]\<rparr>"
proof -
  assume "cw_key row \<notin> cw_key ` set (dd_checks (ui_diagnosis u))"
  then have rows: "takeWhile (\<lambda>r. cw_key r \<noteq> cw_key row) (dd_checks (ui_diagnosis u)) = dd_checks (ui_diagnosis u)"
    by (metis (mono_tags, lifting) image_eqI takeWhile_eq_all_conv)
  show ?thesis unfolding push_check_def Let_def rows by simp
qed

definition reading :: "nat \<Rightarrow> app \<Rightarrow> bool" where
  "reading i a = (map_of (ax_tasks a) i = Some TK_Diagnose \<and> ax_posts a = [])"

lemma reading_on_ui [simp]: "reading i (on_ui f a) = reading i a"
  by (simp add: reading_def on_ui_def)

lemma no_posts: "ax_posts a = [] \<Longrightarrow> a\<lparr>ax_posts := []\<rparr> = a"
  by (cases a) simp

lemma frame_delivered:
  assumes "reading i a"
  shows "fold (app_handle env) (diagnose_events i android (DF_Check c # fs)) a =
      fold (app_handle env) (diagnose_events i android fs) (on_ui (push_check (check_row (xe_order env) c)) a)"
    and "fold (app_handle env) (diagnose_events i android [DF_Response r]) a =
      on_ui (\<lambda>u. u\<lparr>ui_diagnosis := diagnosis (xe_order env) r\<rparr>) a"
  using assms by (simp_all add: reading_def diagnose_events_def task_step_def post_all_def post_def deliver_def no_posts)

lemma checks_delivered:
  "reading i a \<Longrightarrow> distinct (map ck_key cs) \<Longrightarrow>
   cw_key ` set (dd_checks (ui_diagnosis (ax_ui a))) \<inter> ck_key ` set cs = {} \<Longrightarrow>
   reading i (fold (app_handle env) (diagnose_events i android (map DF_Check cs)) a) \<and>
   ui_diagnosis (ax_ui (fold (app_handle env) (diagnose_events i android (map DF_Check cs)) a)) =
     (ui_diagnosis (ax_ui a))\<lparr>dd_checks := dd_checks (ui_diagnosis (ax_ui a)) @ map (check_row (xe_order env)) cs\<rparr>"
proof (induction cs arbitrary: a)
  case Nil
  then show ?case by (simp add: diagnose_events_def)
next
  case (Cons c cs)
  let ?b = "on_ui (push_check (check_row (xe_order env) c)) a"
  have key: "cw_key (check_row (xe_order env) c) = ck_key c" by (simp add: check_row_def)
  then have d: "ui_diagnosis (ax_ui ?b) = (ui_diagnosis (ax_ui a))\<lparr>dd_checks :=
      dd_checks (ui_diagnosis (ax_ui a)) @ [check_row (xe_order env) c]\<rparr>"
    using Cons.prems(3) by (simp add: on_ui_def push_check_new)
  have "cw_key ` set (dd_checks (ui_diagnosis (ax_ui ?b))) \<inter> ck_key ` set cs = {}"
    using Cons.prems(2,3) by (auto simp: d key)
  with Cons.IH [of ?b] Cons.prems show ?case by (simp add: frame_delivered(1) d)
qed

lemma run_keys: "run env request True = Some (resp, off) \<Longrightarrow> distinct (map ck_key (rp_checks resp))"
proof -
  assume r: "run env request True = Some (resp, off)"
  then obtain g where g: "gather env request = Some g" by (auto simp: run_cases split: option.splits)
  show ?thesis
  proof (cases g)
    case (Inl e)
    with g r show ?thesis by (auto simp: run_cases Let_def finish_def)
  next
    case (Inr state)
    obtain cs where "run_steps request (all_steps env state request) [] = Some cs" "distinct (map ck_key cs)"
      by (rule run_checks)
    with g r Inr show ?thesis by (auto simp: run_cases Let_def finish_def)
  qed
qed

lemma gather_any_request: "gather env request = None \<longleftrightarrow> gather env request' = None"
  by (simp add: gather_def Let_def split: sum.split option.split)

lemma map_of_set: "map_of (map (\<lambda>(j, u). (j, if j = i then t else u)) ts) i = (if i \<in> fst ` set ts then Some t else None)"
  by (induction ts) auto

lemma set_task_self: "map_of (ax_tasks (set_task i t a)) i = (if i \<in> fst ` set (ax_tasks a) then Some t else None)"
  by (simp add: set_task_def map_of_set)

lemma spawn_self: "tasks_ok a \<Longrightarrow> map_of (ax_tasks (spawn t a)) (ax_next_task a) = Some t"
proof -
  assume "tasks_ok a"
  then have "map_of (ax_tasks a) (ax_next_task a) = None" by (auto simp: tasks_ok_def map_of_eq_None_iff)
  then show ?thesis by (simp add: spawn_def map_add_def)
qed

lemma started_reading:
  assumes client: "ax_client a = Some client" and "ax_posts a = []" "tasks_ok a"
  shows "reading (ax_next_task a) (started env android stream a) \<and>
    ui_diagnosis (ax_ui (started env android stream a)) = empty_diagnosis True"
proof -
  let ?u = "on_ui (\<lambda>u. u\<lparr>ui_diagnosis := empty_diagnosis True\<rparr>) a"
  let ?s = "spawn (TK_DiagnoseOpen client (app_diagnose_request android)) ?u"
  have "map_of (ax_tasks ?s) (ax_next_task a) = Some (TK_DiagnoseOpen client (app_diagnose_request android))"
    using spawn_self [of ?u] assms(3) by (simp only: tasks_frame ui_kept)
  then have "started env android stream a = set_task (ax_next_task a) TK_Diagnose ?s"
    using client by (simp add: started_def diagnose_def task_step_def diagnose_opened_def)
  moreover have "ax_next_task a \<in> fst ` set (ax_tasks ?s)" by (simp add: spawn_def on_ui_def)
  ultimately show ?thesis using assms by (simp add: reading_def set_task_self)
      (simp add: set_task_def spawn_def on_ui_def)
qed

section \<open>Properties\<close>

text \<open>
  C9: a diagnosis reaches the screen. When the user starts one on an app with a connection and no closure
  waiting, and the frames the daemon sends for that request are read and shown one by one, then after
  the k-th check the window shows exactly the first k checks of the daemon's report, in order and none
  twice, with the spinner still running, and after the last frame it shows exactly the report
  with the spinner gone.
\<close>

theorem diagnosis_shown:
  assumes "gather denv (app_diagnose_request android) \<noteq> None"
    and "ax_client a = Some client" "ax_posts a = []" "app_ok a"
  shows "\<exists>resp. run denv (app_diagnose_request android) False = Some (resp, []) \<and>
    (let frames = fst (diagnose_stream denv (app_diagnose_request android) (\<lambda>_. True));
         shown = (\<lambda>k. ui_diagnosis (ax_ui (fold (app_handle env)
            (diagnose_events (ax_next_task a) android (take k frames)) (started env android stream a))))
     in length frames = length (rp_checks resp) + 1 \<and>
        (\<forall>k \<le> length (rp_checks resp).
           shown k = (empty_diagnosis True)\<lparr>dd_checks := map (check_row (xe_order env)) (take k (rp_checks resp))\<rparr>) \<and>
        shown (length frames) = diagnosis (xe_order env) resp)"
proof -
  let ?req = "app_diagnose_request android" and ?i = "ax_next_task a" and ?s = "started env android stream a"
  obtain resp where r: "run denv ?req True = Some (resp, rp_checks resp)" using run_emits [OF assms(1)] by blast
  then have r0: "run denv ?req False = Some (resp, [])"
    by (auto simp: run_cases Let_def split: option.splits sum.splits)
  let ?cs = "rp_checks resp"
  have frames: "fst (diagnose_stream denv ?req (\<lambda>_. True)) = map DF_Check ?cs @ [DF_Response resp]"
    by (simp add: diagnose_stream_def r forward_all)
  have s: "reading ?i ?s" "ui_diagnosis (ax_ui ?s) = empty_diagnosis True"
    using started_reading [OF assms(2,3)] assms(4) by (simp_all add: app_ok_def)
  have part: "reading ?i (fold (app_handle env) (diagnose_events ?i android (map DF_Check (take k ?cs))) ?s) \<and>
      ui_diagnosis (ax_ui (fold (app_handle env) (diagnose_events ?i android (map DF_Check (take k ?cs))) ?s)) =
      (empty_diagnosis True)\<lparr>dd_checks := map (check_row (xe_order env)) (take k ?cs)\<rparr>" for k
    using checks_delivered [OF s(1), of "take k ?cs" env android] run_keys [OF r] s(2)
    by (simp add: empty_diagnosis_def distinct_take take_map [symmetric])
  have "fold (app_handle env) (diagnose_events ?i android (map DF_Check ?cs @ [DF_Response resp])) ?s =
      fold (app_handle env) (diagnose_events ?i android [DF_Response resp])
        (fold (app_handle env) (diagnose_events ?i android (map DF_Check ?cs)) ?s)"
    by (simp add: diagnose_events_def)
  with part [of "length ?cs"] have "ui_diagnosis (ax_ui (fold (app_handle env)
      (diagnose_events ?i android (map DF_Check ?cs @ [DF_Response resp])) ?s)) = diagnosis (xe_order env) resp"
    by (simp add: frame_delivered(2)) (simp add: on_ui_def)
  then show ?thesis using r0 part by (intro exI [of _ resp]) (simp add: frames Let_def take_map)
qed

definition app_demo_env :: app_env where
  "app_demo_env = \<lparr>xe_localtime = (\<lambda>_. None), xe_order = (\<lambda>_. []), xe_lower = (\<lambda>s. s), xe_uid_floor = 10000\<rparr>"

definition demo_hello :: hello_response where
  "demo_hello = \<lparr>hs_protocol_version = 1, hs_daemon_version = ''1'', hs_kernel_release = ''6'', hs_daemon_uid = 0,
     hs_daemon_pid = 1, hs_capabilities = None, hs_warnings = [], hs_daemon_started_unix_ms = 0\<rparr>"

text \<open>The app after it has connected, before the first snapshot is in.\<close>

definition demo_app :: app where
  "demo_app = fold (app_handle app_demo_env)
     [AE_Connect, AE_Task 0 (TE_Connect (Inr (7, demo_hello, []))), AE_Deliver None] (wire [] (Some 3))"

lemma events_ok: "app_ok a \<Longrightarrow> app_ok (fold (app_handle env) es a)"
  by (induction es arbitrary: a) (simp_all add: handle_ok)

lemma demo_app_state: "ax_client demo_app = Some 7 \<and> ax_posts demo_app = [] \<and> app_ok demo_app"
proof -
  have "app_ok demo_app" unfolding demo_app_def by (intro events_ok wire_ok)
  moreover have "ax_client demo_app = Some 7 \<and> ax_posts demo_app = []"
    by (simp add: demo_app_def wire_def connect_def spawn_def on_ui_def task_step_def connect_done_def
        set_task_def post_def deliver_def refresh_def show_connected_def set_apps_def apply_filter_def Let_def)
  ultimately show ?thesis by simp
qed

theorem diagnosis_shown_witness:
  "\<exists>resp. ui_diagnosis (ax_ui (fold (app_handle app_demo_env)
       (diagnose_events (ax_next_task demo_app) None
          (fst (diagnose_stream (Diag.demo_env [1, 1, 1, 1, 1, 1]) (app_diagnose_request None) (\<lambda>_. True))))
       (started app_demo_env None 5 demo_app))) = diagnosis (\<lambda>_. []) resp"
proof -
  have g: "gather (Diag.demo_env [1, 1, 1, 1, 1, 1]) (app_diagnose_request None) \<noteq> None"
    using demo_gather gather_any_request [of "Diag.demo_env [1, 1, 1, 1, 1, 1]" "app_diagnose_request None" Diag.demo_request]
    by auto
  from diagnosis_shown [OF g, of demo_app 7 app_demo_env 5] demo_app_state
  show ?thesis by (auto simp: Let_def app_demo_env_def)
qed

text \<open>
  C13: the controller keeps its state in order, whatever the window, the UI thread and the tasks do in
  whatever order: the timeline and the packet list stay within their capacity; the list of apps on
  screen is the filtered list that an index selects from, and every app in it is installed; the
  overview, interface, rule, route and capture-interface screens all show the stored snapshot, a row
  being expanded apart; the byte counter of a capture is the sum over the packets kept for the file; task
  ids are unique; and at most one task ever reads the framework's events.
\<close>

theorem controller_state:
  assumes "reach (app_step env) (wire status receiver) a"
  shows "length (ui_events (ax_ui a)) \<le> TIMELINE_CAPACITY \<and>
    length (cv_packets (ui_capture (ax_ui a))) \<le> CAPTURE_UI_LIMIT \<and>
    ui_apps (ax_ui a) = map app_row_of (ax_filtered a) \<and> set (ax_filtered a) \<subseteq> set (ax_apps a) \<and>
    ui_snapshot (ax_ui a) = screens (ax_snapshot a) \<and>
    ac_bytes (ax_capture a) = sum_list (map pk_original_length (ac_packets (ax_capture a))) mod 2 ^ 64 \<and>
    distinct (map fst (ax_tasks a)) \<and>
    framework_readers (ax_tasks a) + (if ax_framework_events a = None then 0 else 1) \<le> 1"
  using app_machine.reach_inv [OF assms] by (simp add: app_ok_def lists_ok_def capture_ok_def tasks_ok_def)

lemma reach_events: "reach (app_step env) a0 a \<Longrightarrow> reach (app_step env) a0 (fold (app_handle env) es a)"
  by (induction es arbitrary: a) (auto intro: reach_step app_step.intros)

theorem controller_state_witness:
  "ax_client demo_app = Some 7 \<and> ui_snapshot (ax_ui demo_app) = screens (ax_snapshot demo_app)"
proof -
  have "reach (app_step app_demo_env) (wire [] (Some 3)) demo_app"
    unfolding demo_app_def by (intro reach_events reach_init)
  from controller_state [OF this] demo_app_state show ?thesis by simp
qed

section \<open>Reading the saved file\<close>

text \<open>
  A reader for the classic libpcap format, little-endian with microseconds: the file header gives the
  snapshot length and the link type, and each record its time, its length on the wire and its bytes.
  A truncated header or record, or another magic number, is refused.
\<close>

definition le32_at :: "bytes \<Rightarrow> nat \<Rightarrow> nat" where
  "le32_at b i = unat (from_le32 (b ! i) (b ! (i + 1)) (b ! (i + 2)) (b ! (i + 3)))"

record pcap_packet =
  pp_seconds :: nat
  pp_micros :: nat
  pp_wire_length :: nat
  pp_bytes :: bytes

function read_packets :: "bytes \<Rightarrow> pcap_packet list option" where
  "read_packets b =
     (if b = [] then Some []
      else if length b < 16 then None
      else let n = le32_at b 8; rest = drop 16 b in
        if length rest < n then None
        else map_option (Cons \<lparr>pp_seconds = le32_at b 0, pp_micros = le32_at b 4, pp_wire_length = le32_at b 12,
               pp_bytes = take n rest\<rparr>) (read_packets (drop n rest)))"
  by auto
termination by (relation "measure length") auto

declare read_packets.simps [simp del]

definition read_pcap :: "bytes \<Rightarrow> (nat \<times> nat \<times> pcap_packet list) option" where
  "read_pcap b =
     (if length b < 24 \<or> le32_at b 0 \<noteq> 0xa1b2c3d4 then None
      else map_option (\<lambda>ps. (le32_at b 16, le32_at b 20, ps)) (read_packets (drop 24 b)))"

text \<open>What a reader should find of a packet that was captured.\<close>

definition pcap_view :: "captured_packet \<Rightarrow> pcap_packet" where
  "pcap_view pk =
     (let us = nat (pk_unix_ms pk) * 1000 + pk_unix_us_fraction pk
      in \<lparr>pp_seconds = us div 1000000, pp_micros = us mod 1000000, pp_wire_length = pk_original_length pk,
          pp_bytes = pk_data pk\<rparr>)"

definition packet_fits :: "captured_packet \<Rightarrow> bool" where
  "packet_fits pk =
     (0 \<le> pk_unix_ms pk \<and> pk_unix_ms pk < 1000 * 2 ^ 32 \<and> pk_unix_us_fraction pk < 1000 \<and>
      pk_original_length pk < 2 ^ 32 \<and> length (pk_data pk) < 2 ^ 32)"

lemma le32_at_here [simp]: "le32_at (le32 w @ b) 0 = unat w"
  by (simp add: le32_at_def le32_def from_le32_def)

lemma le32_at_skip: "length p \<le> i \<Longrightarrow> le32_at (p @ b) i = le32_at b (i - length p)"
  by (auto simp: le32_at_def nth_append dest!: le_Suc_ex)

lemma time_split:
  fixes ms us :: nat
  assumes "us < 1000"
  shows "(ms * 1000 + us) div 1000000 = ms div 1000" "(ms * 1000 + us) mod 1000000 = ms mod 1000 * 1000 + us"
proof -
  have "ms * 1000 + us = (ms div 1000) * 1000000 + (ms mod 1000 * 1000 + us)"
  proof -
    define q r where "q = ms div 1000" and "r = ms mod 1000"
    then have ms: "ms = 1000 * q + r" by simp
    have "ms * 1000 + us = q * 1000000 + (r * 1000 + us)" by (subst ms) simp
    then show ?thesis by (simp only: q_def r_def)
  qed
  moreover have "ms mod 1000 * 1000 + us < 1000000"
  proof -
    have "ms mod 1000 \<le> 999" using mod_less_divisor [of 1000 ms] by linarith
    with assms show ?thesis by linarith
  qed
  moreover have "(q * d + x) div d = q \<and> (q * d + x) mod d = x" if "x < d" for q d x :: nat using that by simp
  ultimately show "(ms * 1000 + us) div 1000000 = ms div 1000" "(ms * 1000 + us) mod 1000000 = ms mod 1000 * 1000 + us"
    by presburger+
qed

lemma record_words:
  assumes "packet_fits pk"
  shows "pcap_record pk = le32 (of_nat (pp_seconds (pcap_view pk))) @ le32 (of_nat (pp_micros (pcap_view pk)))
      @ le32 (of_nat (length (pk_data pk))) @ le32 (of_nat (pk_original_length pk))"
    "pp_seconds (pcap_view pk) < 2 ^ 32" "pp_micros (pcap_view pk) < 1000000"
proof -
  obtain ms where ms: "pk_unix_ms pk = int ms" using assms unfolding packet_fits_def by (metis nonneg_int_cases)
  have f: "pk_unix_us_fraction pk < 1000" using assms by (simp add: packet_fits_def)
  have v: "pp_seconds (pcap_view pk) = ms div 1000" "pp_micros (pcap_view pk) = ms mod 1000 * 1000 + pk_unix_us_fraction pk"
    by (simp_all add: pcap_view_def ms Let_def time_split [OF f])
  have "of_int (int ms div 1000) = (of_nat (ms div 1000) :: u32)" "of_int (int ms mod 1000) = (of_nat (ms mod 1000) :: u32)"
    by (metis of_int_of_nat_eq of_nat_numeral zdiv_int, metis of_int_of_nat_eq of_nat_numeral zmod_int)
  then show "pcap_record pk = le32 (of_nat (pp_seconds (pcap_view pk))) @ le32 (of_nat (pp_micros (pcap_view pk)))
      @ le32 (of_nat (length (pk_data pk))) @ le32 (of_nat (pk_original_length pk))"
    by (simp add: pcap_record_def Let_def v ms)
  show "pp_seconds (pcap_view pk) < 2 ^ 32" 
    using assms by (auto simp: v packet_fits_def ms intro: less_mult_imp_div_less)
  show "pp_micros (pcap_view pk) < 1000000" by (simp add: pcap_view_def Let_def)
qed

lemma unat_of_nat_fits: "n < 2 ^ 32 \<Longrightarrow> unat (of_nat n :: u32) = n"
  by (simp add: unat_of_nat take_bit_nat_eq_self)

lemma read_record:
  assumes "packet_fits pk"
  shows "read_packets (pcap_record pk @ pk_data pk @ rest) = map_option (Cons (pcap_view pk)) (read_packets rest)"
proof -
  note w = record_words [OF assms]
  have fits: "unat (of_nat (length (pk_data pk)) :: u32) = length (pk_data pk)"
    "unat (of_nat (pk_original_length pk) :: u32) = pk_original_length pk"
    "unat (of_nat (pp_seconds (pcap_view pk)) :: u32) = pp_seconds (pcap_view pk)"
    "unat (of_nat (pp_micros (pcap_view pk)) :: u32) = pp_micros (pcap_view pk)"
    using assms w(2,3) by (simp_all add: packet_fits_def unat_of_nat_fits)
  have "pcap_view pk = \<lparr>pp_seconds = pp_seconds (pcap_view pk), pp_micros = pp_micros (pcap_view pk),
      pp_wire_length = pk_original_length pk, pp_bytes = pk_data pk\<rparr>"
    by (simp add: pcap_view_def Let_def)
  moreover have "le32 x \<noteq> []" for x by (simp add: le32_def)
  ultimately show ?thesis
    by (subst read_packets.simps) (simp add: w(1) Let_def le32_at_skip fits)
qed

lemma read_records:
  "list_all packet_fits pks \<Longrightarrow>
   read_packets (concat (map (\<lambda>pk. pcap_record pk @ pk_data pk) pks)) = Some (map pcap_view pks)"
  by (induction pks) (simp_all add: read_record, simp add: read_packets.simps)

lemma write_packets_Inr:
  "write_packets answer n pks = Inr b \<Longrightarrow> b = concat (map (\<lambda>pk. pcap_record pk @ pk_data pk) pks)"
  by (induction answer n pks arbitrary: b rule: write_packets.induct)
    (auto split: option.splits simp: map_sum_def split: sum.splits)

lemma write_packets_ok:
  "(\<And>k. answer k = None) \<Longrightarrow> write_packets answer n pks = Inr (concat (map (\<lambda>pk. pcap_record pk @ pk_data pk) pks))"
  by (induction pks arbitrary: n) simp_all

lemma read_saved:
  "list_all packet_fits pks \<Longrightarrow> snap < 2 ^ 32 \<Longrightarrow>
   read_pcap (pcap_header lt (of_nat snap) @ concat (map (\<lambda>pk. pcap_record pk @ pk_data pk) pks)) =
     Some (snap, unat (link_type_u32 lt), map pcap_view pks)"
  by (simp add: read_pcap_def pcap_header_def le32_at_skip read_records unat_of_nat_fits)

text \<open>
  C23: a saved capture is a valid pcap file of what was captured. With the file header the daemon sent
  at the start of the capture, and packets whose times and lengths fit the format, whatever file is reported
  as saved reads back, with a classic little-endian libpcap reader, as the daemon's snapshot length and link
  type and exactly the packets kept, in order, each with its bytes, its length on the wire and its
  time to the microsecond. When the file system refuses nothing, a file is saved.
\<close>

theorem saved_capture_roundtrip:
  assumes "ac_packets capture \<noteq> []" "list_all packet_fits (ac_packets capture)"
    and "ac_pcap_header capture = ct_pcap_file_header (capture_started_msg now cid filt c)"
    and "cp_snaplen c < 2 ^ 32"
  shows "(\<forall>path contents. write_pcap files capture directory = Inr (path, contents) \<longrightarrow>
      read_pcap contents = Some (cp_snaplen c, unat (link_type_u32 (cp_link_type c)), map pcap_view (ac_packets capture))) \<and>
    (pe_mkdir files = None \<and> pe_create files = None \<and> (\<forall>n. pe_write files n = None) \<longrightarrow>
      (\<exists>contents. write_pcap files capture directory =
         Inr (join_path directory (pcap_name capture (pe_now_secs files)), contents)))"
proof (intro conjI allI impI)
  let ?records = "concat (map (\<lambda>pk. pcap_record pk @ pk_data pk) (ac_packets capture))"
  have header: "ac_pcap_header capture = pcap_header (cp_link_type c) (of_nat (cp_snaplen c))"
    using assms(3) by (simp add: capture_started_msg_def)
  fix path contents
  assume "write_pcap files capture directory = Inr (path, contents)"
  then have "contents = ac_pcap_header capture @ ?records"
    by (auto simp: write_pcap_def Let_def map_sum_def split: if_splits option.splits sum.splits dest!: write_packets_Inr)
  then show "read_pcap contents =
      Some (cp_snaplen c, unat (link_type_u32 (cp_link_type c)), map pcap_view (ac_packets capture))"
    using read_saved [OF assms(2,4)] header by simp
next
  assume "pe_mkdir files = None \<and> pe_create files = None \<and> (\<forall>n. pe_write files n = None)"
  moreover have "ac_pcap_header capture \<noteq> []"
    using assms(3) by (simp add: capture_started_msg_def pcap_header_def le32_def)
  ultimately show "\<exists>contents. write_pcap files capture directory =
      Inr (join_path directory (pcap_name capture (pe_now_secs files)), contents)"
    using assms(1) by (simp add: write_pcap_def write_packets_ok)
qed

definition demo_packet :: captured_packet where
  "demo_packet = \<lparr>pk_capture_id = 7, pk_sequence = 1, pk_unix_ms = 1234567, pk_unix_us_fraction = 89,
     pk_original_length = 1500, pk_data = [0x45, 0], pk_interface_index = 3, pk_interface_name = ''tun0'',
     pk_outgoing = True, pk_summary = None\<rparr>"

definition demo_files :: pcap_env where
  "demo_files = \<lparr>pe_mkdir = None, pe_create = None, pe_write = (\<lambda>_. None), pe_now_secs = Some 99, pe_debug = (\<lambda>s. s)\<rparr>"

theorem saved_capture_roundtrip_witness:
  "\<exists>contents. write_pcap demo_files (no_capture\<lparr>ac_packets := [demo_packet],
      ac_pcap_header := ct_pcap_file_header (capture_started_msg 0 7 no_filter demo_capture)\<rparr>) ''/d'' =
      Inr (''/d/netdiag-any-99.pcap'', contents) \<and>
    read_pcap contents = Some (cp_snaplen demo_capture, 101,
      [\<lparr>pp_seconds = 1234, pp_micros = 567089, pp_wire_length = 1500, pp_bytes = [0x45, 0]\<rparr>])"
proof -
  let ?capture = "no_capture\<lparr>ac_packets := [demo_packet],
      ac_pcap_header := ct_pcap_file_header (capture_started_msg 0 7 no_filter demo_capture)\<rparr>"
  have fits: "packet_fits demo_packet" by (simp add: packet_fits_def demo_packet_def)
  have view: "pcap_view demo_packet = \<lparr>pp_seconds = 1234, pp_micros = 567089, pp_wire_length = 1500, pp_bytes = [0x45, 0]\<rparr>"
    by (simp add: pcap_view_def demo_packet_def Let_def)
  have name: "join_path ''/d'' (pcap_name ?capture (pe_now_secs demo_files)) = ''/d/netdiag-any-99.pcap''"
    by (simp add: join_path_def pcap_name_def no_capture_def demo_files_def dec_step digit_chars)
  have files: "pe_mkdir demo_files = None \<and> pe_create demo_files = None \<and> (\<forall>n. pe_write demo_files n = None)"
    by (simp add: demo_files_def)
  have "cp_link_type demo_capture = RawIp" "cp_snaplen demo_capture < 2 ^ 32" by (simp_all add: demo_capture_def)
  then show ?thesis
    using saved_capture_roundtrip [of ?capture 0 7 no_filter demo_capture demo_files "''/d''"] fits files
    unfolding name by (auto simp: view)
qed

section \<open>Where the controller and its comments part\<close>

text \<open>
  A stream of a diagnosis that ends without a response (the daemon stopped, or the connection dropped)
  leaves the spinner on, and no task or closure is left that would clear it. The window offers the
  button only when the spinner is off, and connecting again does not reset it.
\<close>

lemma diagnosis_spinner_stuck:
  assumes "ax_client a = Some client" "ax_posts a = []" "tasks_ok a"
  shows "let b = app_handle env (AE_Task (ax_next_task a) TE_End) (started env android stream a)
    in dd_running (ui_diagnosis (ax_ui b)) \<and> map_of (ax_tasks b) (ax_next_task a) = None \<and> ax_posts b = []"
  using started_reading [OF assms, of env android stream]
  by (auto simp: reading_def task_step_def end_task_def empty_diagnosis_def map_of_eq_None_iff)

lemmas demo_run = demo_app_def wire_def no_ui_def connect_def spawn_def on_ui_def task_step_def connect_done_def
  set_task_def end_task_def post_def post_all_def deliver_def refresh_def show_connected_def set_apps_def apply_filter_def cancel_def
  on_capture_def Let_def

text \<open>
  The toggle of the socket watch is switched off and on again before the task of the first watch has seen
  the end of its stream: that task then clears the slot and the chip of the second watch, which keeps
  running, and the toggle can no longer cancel it.
\<close>

lemma socket_watch_orphaned:
  "let b = fold (app_handle app_demo_env)
     [AE_ToggleSocketWatch, AE_Task 2 (TE_Opened (Inr 11)), AE_ToggleSocketWatch, AE_ToggleSocketWatch,
      AE_Task 3 (TE_Opened (Inr 12)), AE_Task 2 TE_End, AE_Deliver None] demo_app
   in map_of (ax_tasks b) 3 = Some (TK_Watch 12) \<and> ax_socket_watch b = None \<and>
      \<not> ui_watching_sockets (ax_ui b) \<and> ax_cancelled b = [(7, 11)]"
  by (simp add: demo_run toggle_socket_watch_def watch_opened_def watch_end_def)

text \<open>Stop before the stream of a capture is known cancels nothing: the capture goes on behind a stopped button.\<close>

lemma early_stop_ignored:
  "let b = fold (app_handle app_demo_env)
     [AE_StartCapture ''wlan0'', AE_StopCapture, AE_Task 2 (TE_Opened (Inr 9))] demo_app
   in map_of (ax_tasks b) 2 = Some (TK_Capture 9) \<and> ax_cancelled b = [] \<and> \<not> cv_running (ui_capture (ax_ui b))"
  by (simp add: demo_run start_capture_ui_def stop_capture_def capture_opened_def no_capture_def)

text \<open>
  A capture started right after another was stopped shares its state with the first: a packet of the first
  stream still lands among the packets of the second, and the end of the first stream shows the
  second as stopped.
\<close>

lemma captures_mixed:
  "let b = fold (app_handle app_demo_env)
     [AE_StartCapture ''wlan0'', AE_Task 2 (TE_Opened (Inr 9)), AE_StopCapture, AE_StartCapture ''tun0'',
      AE_Task 3 (TE_Opened (Inr 10)), AE_Task 2 (TE_Frame (FB_Capture (CF_Packet demo_packet)))] demo_app
   in ac_stream_id (ax_capture b) = Some 10 \<and> ac_packets (ax_capture b) = [demo_packet] \<and>
      \<not> cv_running (ui_capture (ax_ui (fold (app_handle app_demo_env)
          [AE_Deliver None, AE_Task 2 TE_End, AE_Deliver None] b)))"
  by (simp add: demo_run start_capture_ui_def stop_capture_def capture_opened_def capture_end_def no_capture_def
      push_packet_def)

end
