(* ===== verification/Desktop.thy ===== *)
theory Desktop
  imports App
begin

text \<open>
  The desktop harness (\<^verbatim>\<open>slint-app/src/bin/desktop.rs\<close>): its command line, and the callbacks it schedules on
  the window. A timer of the toolkit fires once, after its delay; the harness is the list of what it starts,
  each with its delay in milliseconds. Rendering the window to a picture is the toolkit's.
\<close>

section \<open>The command line\<close>

record harness_args =
  ha_connect :: bool
  ha_tab :: int
  ha_snapshot :: "string option"
  ha_settle_ms :: nat
  ha_diagnose :: bool
  ha_capture :: "string option"
  ha_save_capture :: bool
  ha_watch_sockets :: bool

definition default_harness :: harness_args where
  "default_harness =
     \<lparr>ha_connect = False, ha_tab = 0, ha_snapshot = None, ha_settle_ms = 2500, ha_diagnose = False,
      ha_capture = None, ha_save_capture = False, ha_watch_sockets = False\<rparr>"

text \<open>\<open>argv.next()\<close> of an option that takes a value; the value is consumed even when it does not parse.\<close>

definition next_arg :: "string list \<Rightarrow> string option" where
  "next_arg argv = (case argv of [] \<Rightarrow> None | v # _ \<Rightarrow> Some v)"

text \<open>\<open>None\<close>: the usage was asked for and the process exits. An unknown argument is reported and ignored.\<close>

function parse_harness :: "string list \<Rightarrow> harness_args \<Rightarrow> harness_args option" where
  "parse_harness [] a = Some a"
| "parse_harness (arg # argv) a =
     (if arg = ''--connect'' then parse_harness argv (a\<lparr>ha_connect := True\<rparr>)
      else if arg = ''--tab'' then
        parse_harness (drop 1 argv)
          (a\<lparr>ha_tab := (case Option.bind (next_arg argv) (parse_sint 32) of Some t \<Rightarrow> t | None \<Rightarrow> 0)\<rparr>)
      else if arg = ''--snapshot'' then parse_harness (drop 1 argv) (a\<lparr>ha_snapshot := next_arg argv\<rparr>)
      else if arg = ''--diagnose'' then parse_harness argv (a\<lparr>ha_diagnose := True\<rparr>)
      else if arg = ''--capture'' then parse_harness (drop 1 argv) (a\<lparr>ha_capture := next_arg argv\<rparr>)
      else if arg = ''--save-capture'' then parse_harness argv (a\<lparr>ha_save_capture := True\<rparr>)
      else if arg = ''--watch-sockets'' then parse_harness argv (a\<lparr>ha_watch_sockets := True\<rparr>)
      else if arg = ''--settle-ms'' then
        parse_harness (drop 1 argv)
          (a\<lparr>ha_settle_ms := (case Option.bind (next_arg argv) (parse_uint 64) of Some t \<Rightarrow> t | None \<Rightarrow> 2500)\<rparr>)
      else if arg = ''-h'' \<or> arg = ''--help'' then None
      else parse_harness argv a)"
  by pat_completeness auto
termination by (relation "measure (\<lambda>(argv, _). length argv)") auto

section \<open>What it drives\<close>

datatype harness_action = HA_Tab int | HA_App app_event | HA_Snapshot string

definition harness_main :: "pcap_env \<Rightarrow> string \<Rightarrow> harness_args \<Rightarrow> (nat \<times> harness_action) list" where
  "harness_main files directory a =
     [(0, HA_Tab (ha_tab a))]
     @ (if ha_connect a then [(0, HA_App AE_Connect)] else [])
     @ (if ha_diagnose a then [(1500, HA_App (AE_Diagnose desktop_framework_state))] else [])
     @ (case ha_capture a of
          Some interface \<Rightarrow> [(1500, HA_App (AE_ChooseInterface interface)), (1500, HA_App (AE_StartCapture interface))]
        | None \<Rightarrow> [])
     @ (if ha_save_capture a
        then [(max (ha_settle_ms a - 200) 1600, HA_App (AE_SaveCapture files directory))] else [])
     @ (if ha_watch_sockets a then [(1500, HA_App AE_ToggleSocketWatch)] else [])
     @ (case ha_snapshot a of Some path \<Rightarrow> [(ha_settle_ms a, HA_Snapshot path)] | None \<Rightarrow> [])"

section \<open>Facts\<close>

definition option_args :: "string \<Rightarrow> string option \<Rightarrow> string list" where
  "option_args flag v = (case v of Some t \<Rightarrow> [flag, t] | None \<Rightarrow> [])"

definition harness_argv :: "harness_args \<Rightarrow> string list" where
  "harness_argv a =
     (if ha_connect a then [''--connect''] else []) @ [''--tab'', dec_int (ha_tab a)]
     @ option_args ''--snapshot'' (ha_snapshot a) @ [''--settle-ms'', dec (ha_settle_ms a)]
     @ (if ha_diagnose a then [''--diagnose''] else []) @ option_args ''--capture'' (ha_capture a)
     @ (if ha_save_capture a then [''--save-capture''] else [])
     @ (if ha_watch_sockets a then [''--watch-sockets''] else [])"

text \<open>Every configuration of the harness can be spelled on its command line.\<close>

lemma harness_args_roundtrip:
  assumes "java_int (ha_tab a)" "ha_settle_ms a < 2 ^ 64"
  shows "parse_harness (harness_argv a) default_harness = Some a"
  using assms
  by (cases a; cases "ha_snapshot a"; cases "ha_capture a")
    (simp_all add: harness_argv_def option_args_def default_harness_def next_arg_def parse_sint_dec_int)

text \<open>
  A capture is saved after it has been started, and before the window is closed by the snapshot unless
  the settling time is 1600 ms or less.
\<close>

lemma harness_save_order:
  assumes "(t, HA_App (AE_SaveCapture f d)) \<in> set (harness_main files directory a)"
  shows "(u, HA_App (AE_StartCapture i)) \<in> set (harness_main files directory a) \<Longrightarrow> u < t"
    and "(u, HA_Snapshot p) \<in> set (harness_main files directory a) \<Longrightarrow> t < u \<longleftrightarrow> 1600 < ha_settle_ms a"
  using assms by (auto simp: harness_main_def split: if_splits option.splits)

end
