(* ===== verification/Spec2Isabelle.thy ===== *)
theory Spec2Isabelle
  imports Server Link Icmp Dns Capture Mtu Tls Desktop
begin

text \<open>
  \<^bold>\<open>netdiag\<close>: a privileged network diagnosis daemon for Android, the protocol it speaks, the client
  that speaks it and the app on top of that client. This development models the daemon
  (\<^verbatim>\<open>src/daemon\<close>), the shared IPC crate (\<^verbatim>\<open>src/crates/netdiag-ipc\<close>) and the logic of the app
  (\<^verbatim>\<open>src/slint-app\<close>) and proves what makes them correct.

  \<^bold>\<open>The program.\<close> One daemon process listens on a Unix socket and authorizes each connection by its
  peer credentials. A session reads length-delimited protobuf frames, answers unary calls and runs
  streaming calls as tasks it keeps in a registry. The calls collect kernel state (interfaces,
  routes, rules, neighbours, sockets, firewall, counters), correlate it with one app, follow it
  (netlink events, socket polling, packet capture) or diagnose it: a fixed list of checks, some of
  which probe the network, and rules that turn the checks into findings. The client multiplexes its
  calls over one connection by request ids. The app starts the daemon through \<^verbatim>\<open>su\<close>, sends it the
  framework's view of the networks, and turns its answers into the rows of a window, live ones included.

  \<^bold>\<open>Theories and sources.\<close>
  \<^item> \<open>Prelude\<close>: byte and word facts, Rust's stable sort with its order laws as a locale, reachability
    and invariants of step relations (\<open>invariant_machine\<close>). \<open>Rust_Text\<close>: the text functions of the
    standard library the program uses, with number and text round trips.
  \<^item> \<open>Net_Addr\<close> (\<^verbatim>\<open>netdiag-ipc/src/proto.rs\<close>, addresses and their text), \<open>Codec\<close>
    (\<^verbatim>\<open>netdiag-ipc/src/codec.rs\<close>, frames), \<open>Client\<close> (\<^verbatim>\<open>netdiag-ipc/src/client.rs\<close>).
  \<^item> \<open>Util\<close>, \<open>Auth\<close> (\<^verbatim>\<open>ipc/auth.rs\<close>), \<open>Daemon_State\<close> (greeting and captures of \<^verbatim>\<open>daemon.rs\<close>; hash maps as a
    locale), \<open>Session\<close> (\<^verbatim>\<open>ipc/session.rs\<close>), \<open>Server\<close> (\<^verbatim>\<open>ipc/listener.rs\<close>, \<^verbatim>\<open>main.rs\<close>).
  \<^item> \<open>Links\<close>, \<open>Routes\<close>, \<open>Neigh\<close>, \<open>Sockets\<close>, \<open>Procnet\<close>, \<open>Firewall\<close> (\<^verbatim>\<open>collect/\<close>), \<open>Android\<close> (the
    framework's state as the protocol carries it), \<open>Snapshot\<close> (\<^verbatim>\<open>snapshot.rs\<close>), \<open>Correlate\<close>
    (\<^verbatim>\<open>correlate.rs\<close>), \<open>Watch\<close> (\<^verbatim>\<open>watch.rs\<close>).
  \<^item> \<open>Probe\<close>, \<open>Icmp\<close>, \<open>Dns\<close>, \<open>Tls\<close>, \<open>Mtu\<close> (\<^verbatim>\<open>probe/\<close>), \<open>Capture\<close> (\<^verbatim>\<open>capture.rs\<close>).
  \<^item> \<open>Checks\<close>, \<open>Probe_Checks\<close>, \<open>Diag\<close> (\<^verbatim>\<open>diag/mod.rs\<close>), \<open>Rule_Texts\<close>, \<open>Rules\<close> (\<^verbatim>\<open>diag/rules.rs\<close>).
  \<^item> \<open>Rpc\<close> (start-up and unary calls of \<^verbatim>\<open>daemon.rs\<close>), \<open>Streams\<close> (its streaming calls), \<open>Link\<close> (client
    and session joined by a connection).
  \<^item> \<open>Format\<close> (\<^verbatim>\<open>slint-app/src/format.rs\<close>), \<open>View\<close> (\<^verbatim>\<open>view.rs\<close>, the models of the screens), \<open>Shim\<close>
    (\<^verbatim>\<open>platform/shim.rs\<close> with the Java classes that write what it reads), \<open>Platform\<close>
    (\<^verbatim>\<open>platform.rs\<close>, \<^verbatim>\<open>platform/android.rs\<close>, \<^verbatim>\<open>platform/watcher.rs\<close>), \<open>App\<close> (\<^verbatim>\<open>app.rs\<close>: callbacks, tasks and
    the queue of the UI thread as one machine), \<open>Desktop\<close> (\<^verbatim>\<open>bin/desktop.rs\<close>, the desktop harness).

  Records have the fields of the messages and structs they stand for, operations the names of the
  functions they translate (a call that shares its name with a collector is prefixed \<open>rpc_\<close>).

  \<^bold>\<open>What is shown.\<close>
  \<^item> Wire and connection: frames and addresses round trip and the decoder is bounded; access is decided
    by the kernel's credentials alone; the registry is bounded, nothing runs before the greeting, a stream that
    is neither refused nor cancelled ends exactly once; every reply reaches the call it answers; client and daemon together
    satisfy the contract the session relies on and leave no task behind.
  \<^item> Collection: interface lists are complete, socket lists respect the limit and say when
    they are cut, snapshots warn exactly when a kernel dump failed or was cut, unary calls fail with the
    code their cause calls for.
  \<^item> Following: address events refine the set of addresses the kernel announced, global and not; the timeline is
    delivered in order up to the point where the client leaves; watching routes is watching the
    network with a preset filter; socket events replay to the true state; pushed events cannot pass
    for kernel events; a capture sends the selected frames in order and keeps its limits.
  \<^item> Probing: checksums, queries and handshakes are well formed by independent readers of RFC 1071 and
    RFC 8446, decoders survive any input, replies are recognised, discovery reports what was measured.
  \<^item> Diagnosis: no reply can keep it from its report, the report holds exactly the wanted checks, findings are
    ordered, distinct and rest on a check, and a passive diagnosis depends on no probe.
  \<^item> App: the lists of the window stay bounded and agree with the state behind them whatever the
    order of callbacks, frames and closures; a diagnosis is shown check by check and then as
    the daemon reported it; a saved capture is a valid pcap file of the packets kept; the framework's
    state and the list of apps survive the way from Java; the command that starts the daemon cannot be
    broken out of; sizes and times are exact; a stalled socket says why.

  \<^bold>\<open>Modelling choices.\<close> What the kernel, the file system, the sockets and the clocks answer is an
  argument: an environment record or a list of what a socket yields. Errors are the text that reaches
  the client, the outermost context of the error chain. \<open>None\<close> stands for a panic in the decoders of
  packets and of DNS, ICMP and TLS replies, which index with a check, and
  for a receive loop that gets nothing more in the dumps; where a theorem says a function returns it
  is proved total. Loops over finite input are structural or have a measure; there is no fuel except in
  the UTF-8 decoder and in the reader of TLS extensions on the specification side, where the length of the
  input is enough since each round consumes a byte. Polls and
  task steps are atomic between suspension points, an abort takes effect before the next step of a task,
  and the back pressure of the session's write queue is not modelled. A hash map iterates in an
  arbitrary order, given by a permutation. Request and capture ids are natural numbers (64-bit counters
  that start at one); the sequence counter of the event bus wraps. White space is ASCII white space.
  The ratio of retransmitting sockets, a 32-bit float, is compared exactly; a session task that panics is
  not among the steps of the server, whose live counter would then stay up; the 64-bit floats of the app are rationals
  with the rounding of binary64 written out. Structures of the kernel interface are little-endian. A
  callback of the window, a closure on the UI thread and a step of a task between two awaits are atomic.

  \<^bold>\<open>Not modelled.\<close> The markup of the window (\<^verbatim>\<open>src/slint-app/ui\<close>), of which the data types are used, and
  the toolkit that draws it; the JNI bindings of the app and the Java watcher, whose calls are
  arguments; the Kotlin app; build scripts; logging; generated protobuf code, of which only the messages'
  fields are used; the netlink, runtime and error libraries, whose answers are arguments; raw system calls.
\<close>

end
